(* ===== verification/Prelude.thy ===== *)
theory Prelude
  imports Main "HOL-Library.List_Lexorder" "HOL-Library.Char_ord"
begin

text \<open>
  What every component of the model shares: the text operations of JavaScript the
  backend uses, the errors it throws, and effectful code as functions from a world to an
  error or a result together with the world it leaves.

  Text is \<^typ>\<open>string\<close>: a list of UTF-16 code units below 256. Comparing two texts with
  \<open><\<close> or \<open>\<le>\<close> is the lexicographic order on code units
  (\<^theory_text>\<open>List_Lexorder\<close> over \<^theory_text>\<open>Char_ord\<close>), which is what the
  operators of the language do on strings.
\<close>

section \<open>Text\<close>

abbreviation code_unit :: "char \<Rightarrow> nat" where
  "code_unit c \<equiv> of_char c"

text \<open>The white space of \<open>String.prototype.trim\<close> and of the class \<open>\s\<close>, below 256.\<close>

definition is_space :: "char \<Rightarrow> bool" where
  "is_space c \<longleftrightarrow> code_unit c \<in> {9, 10, 11, 12, 13, 32, 160}"

definition is_digit :: "char \<Rightarrow> bool" where
  "is_digit c \<longleftrightarrow> 48 \<le> code_unit c \<and> code_unit c \<le> 57"

definition is_lower_alpha :: "char \<Rightarrow> bool" where
  "is_lower_alpha c \<longleftrightarrow> 97 \<le> code_unit c \<and> code_unit c \<le> 122"

definition is_upper_alpha :: "char \<Rightarrow> bool" where
  "is_upper_alpha c \<longleftrightarrow> 65 \<le> code_unit c \<and> code_unit c \<le> 90"

definition trim :: "string \<Rightarrow> string" where
  "trim s = rev (dropWhile is_space (rev (dropWhile is_space s)))"

text \<open>
  \<open>toLowerCase\<close> on code units below 256: ASCII letters, and the Latin-1 capitals
  (192 to 222, without the multiplication sign 215).
\<close>

definition lower_char :: "char \<Rightarrow> char" where
  "lower_char c =
     (let n = code_unit c
      in if (65 \<le> n \<and> n \<le> 90) \<or> (192 \<le> n \<and> n \<le> 222 \<and> n \<noteq> 215)
         then char_of (n + 32) else c)"

definition to_lower :: "string \<Rightarrow> string" where
  "to_lower s = map lower_char s"

definition starts_with :: "string \<Rightarrow> string \<Rightarrow> bool" where
  "starts_with p s \<longleftrightarrow> take (length p) s = p"

fun split_on :: "char \<Rightarrow> string \<Rightarrow> string list" where
  "split_on c [] = [[]]"
| "split_on c (x # xs) =
     (if x = c then [] # split_on c xs
      else (case split_on c xs of [] \<Rightarrow> [[x]] | y # ys \<Rightarrow> (x # y) # ys))"

fun join :: "string \<Rightarrow> string list \<Rightarrow> string" where
  "join sep [] = []"
| "join sep [x] = x"
| "join sep (x # y # ys) = x @ sep @ join sep (y # ys)"

fun digit_char :: "nat \<Rightarrow> char" where
  "digit_char d = char_of (48 + d mod 10)"

fun show_nat :: "nat \<Rightarrow> string" where
  "show_nat n = (if n < 10 then [digit_char n] else show_nat (n div 10) @ [digit_char (n mod 10)])"

declare show_nat.simps [simp del]

definition show_int :: "int \<Rightarrow> string" where
  "show_int i = (if i < 0 then CHR ''-'' # show_nat (nat (- i)) else show_nat (nat i))"

text \<open>\<open>padStart(width, "0")\<close>.\<close>

definition pad_zero :: "nat \<Rightarrow> string \<Rightarrow> string" where
  "pad_zero w s = replicate (w - length s) (CHR ''0'') @ s"

text \<open>Numbers in a radix up to 36, and the substring test of a literal regular expression.\<close>

function show_radix :: "nat \<Rightarrow> nat \<Rightarrow> string" where
  "show_radix b n =
     (let d = n mod b; c = (if d < 10 then char_of (48 + d) else char_of (87 + d))
      in if b < 2 \<or> n < b then [c] else show_radix b (n div b) @ [c])"
  by pat_completeness auto
termination by (relation "measure snd") (auto simp: div_less_dividend)

declare show_radix.simps [simp del]

fun contains :: "string \<Rightarrow> string \<Rightarrow> bool" where
  "contains p [] = (p = [])"
| "contains p (c # cs) = (starts_with p (c # cs) \<or> contains p cs)"

text \<open>The flag \<open>i\<close> of a pattern written in lower case.\<close>

definition contains_ci :: "string \<Rightarrow> string \<Rightarrow> bool" where
  "contains_ci p s = contains p (to_lower s)"

definition quoted :: "string \<Rightarrow> string" where
  "quoted s = [CHR 0x27] @ s @ [CHR 0x27]"

fun digits_value :: "nat \<Rightarrow> string \<Rightarrow> nat" where
  "digits_value acc [] = acc"
| "digits_value acc (c # cs) = digits_value (10 * acc + (code_unit c - 48)) cs"

subsection \<open>Facts about text\<close>

lemma dropWhile_idem [simp]: "dropWhile p (dropWhile p s) = dropWhile p s"
  by (induction s) auto

text \<open>Stripping the end of a text that starts with a kept character keeps that character.\<close>

lemma dropWhile_rev_Cons:
  "\<not> p x \<Longrightarrow> rev (dropWhile p (rev (x # xs))) = x # rev (dropWhile p (rev xs))"
  by (auto simp: dropWhile_append)

lemma trim_idem [simp]: "trim (trim s) = trim s"
proof (cases "dropWhile is_space s")
  case Nil
  then show ?thesis unfolding trim_def by (simp only: Nil rev.simps dropWhile.simps)
next
  case (Cons x xs)
  then have "\<not> is_space x" by (auto simp: dropWhile_eq_Cons_conv)
  with Cons show ?thesis
    by (simp add: trim_def dropWhile_rev_Cons del: rev.simps)
qed

lemma lower_char_idem [simp]: "lower_char (lower_char c) = lower_char c"
  by (auto simp: lower_char_def Let_def)

lemma to_lower_idem [simp]: "to_lower (to_lower s) = to_lower s"
  by (simp add: to_lower_def)

lemma of_char_lower_char:
  "code_unit (lower_char c) =
     (let n = code_unit c
      in if (65 \<le> n \<and> n \<le> 90) \<or> (192 \<le> n \<and> n \<le> 222 \<and> n \<noteq> 215) then n + 32 else n)"
  by (auto simp: lower_char_def Let_def)

lemma is_space_lower_char [simp]: "is_space (lower_char c) = is_space c"
  by (auto simp: is_space_def of_char_lower_char Let_def)

lemma dropWhile_space_lower:
  "dropWhile is_space (map lower_char s) = map lower_char (dropWhile is_space s)"
  by (induction s) auto

lemma trim_to_lower [simp]: "trim (to_lower s) = to_lower (trim s)"
  by (simp add: trim_def to_lower_def dropWhile_space_lower rev_map)

lemma set_dropWhile_sub: "set (dropWhile p s) \<subseteq> set s"
  by (meson set_dropWhileD subsetI)

lemma set_trim: "set (trim s) \<subseteq> set s"
  unfolding trim_def using set_dropWhile_sub [of is_space] by (metis order_trans set_rev)

lemma split_on_nonempty [simp]: "split_on c s \<noteq> []"
  by (induction s) (auto split: list.split)

lemma split_on_no_sep: "x \<in> set (split_on c s) \<Longrightarrow> c \<notin> set x"
  by (induction s arbitrary: x) (fastforce split: if_splits list.splits)+

lemma join_split_on: "join [c] (split_on c s) = s"
proof (induction s)
  case (Cons x xs)
  then show ?case
    by (cases "split_on c xs"; cases "tl (split_on c xs)") (auto split: list.splits)
qed simp

text \<open>Printing a number and reading its digits back.\<close>

lemma code_unit_digit_char: "code_unit (digit_char d) = 48 + d mod 10"
  by (simp add: of_char_of)

text \<open>Printing a literal by simplification.\<close>

lemma digit_chars:
  "char_of (48::nat) = CHR ''0''" "char_of (49::nat) = CHR ''1''" "char_of (50::nat) = CHR ''2''"
  "char_of (51::nat) = CHR ''3''" "char_of (52::nat) = CHR ''4''" "char_of (53::nat) = CHR ''5''"
  "char_of (54::nat) = CHR ''6''" "char_of (55::nat) = CHR ''7''" "char_of (56::nat) = CHR ''8''"
  "char_of (57::nat) = CHR ''9''"
  by code_simp+

lemmas print_nat = show_nat.simps digit_chars

lemma is_digit_digit_char [simp]: "is_digit (digit_char d)"
  by (simp add: is_digit_def code_unit_digit_char del: digit_char.simps)

lemma digits_value_append: "digits_value acc (xs @ ys) = digits_value (digits_value acc xs) ys"
  by (induction xs arbitrary: acc) auto

lemma digits_value_show_nat: "digits_value 0 (show_nat n) = n"
proof (induction n rule: less_induct)
  case (less n)
  show ?case
  proof (cases "n < 10")
    case True
    then show ?thesis
      by (subst show_nat.simps) (simp add: code_unit_digit_char del: digit_char.simps)
  next
    case False
    with less.IH [of "n div 10"] show ?thesis
      by (subst show_nat.simps)
        (simp add: digits_value_append code_unit_digit_char del: digit_char.simps)
  qed
qed

lemma show_nat_inject [simp]: "show_nat m = show_nat n \<longleftrightarrow> m = n"
  by (metis digits_value_show_nat)

lemma show_nat_digits: "\<forall>c \<in> set (show_nat n). is_digit c"
proof (induction n rule: less_induct)
  case (less n)
  show ?case
    using less.IH [of "n div 10"]
    by (subst show_nat.simps) (auto simp del: digit_char.simps)
qed

lemma show_nat_nonempty [simp]: "show_nat n \<noteq> []"
  by (subst show_nat.simps) simp

lemma not_digit_minus: "\<not> is_digit (CHR ''-'')"
  by (simp add: is_digit_def)

lemma show_int_inject [simp]: "show_int i = show_int j \<longleftrightarrow> i = j"
proof -
  have minus: "CHR ''-'' # s \<noteq> show_nat n" for s n
    using show_nat_digits [of n] not_digit_minus by (metis list.set_intros(1))
  show ?thesis
    using minus minus [symmetric] by (auto simp: show_int_def)
qed

end
