(* ===== verification/Json.thy ===== *)
theory Json
  imports Prelude
begin

text \<open>
  The values of the language the backend stores and compares, and the two functions of its
  standard library they pass through: \<open>JSON.stringify\<close> (\<open>stringify\<close>) and
  \<open>JSON.parse\<close> (\<open>parse_json\<close>). Numbers are integers (\<open>JInt\<close>) or, when not
  integral, their literal text (\<open>JFrac\<close>); objects are association lists in insertion
  order, without duplicate keys (\<open>wf_js\<close>). The theorem \<open>parse_stringify\<close> is
  the round trip of every storable value.
\<close>

section \<open>Values\<close>

datatype js =
    JUndef
  | JNull
  | JBool bool
  | JInt int
  | JFrac string
  | JStr string
  | JArr "js list"
  | JObj "(string \<times> js) list"

fun typeof :: "js \<Rightarrow> string" where
  "typeof JUndef = ''undefined''"
| "typeof (JBool _) = ''boolean''"
| "typeof (JInt _) = ''number''"
| "typeof (JFrac _) = ''number''"
| "typeof (JStr _) = ''string''"
| "typeof _ = ''object''"

fun is_array :: "js \<Rightarrow> bool" where
  "is_array (JArr _) = True"
| "is_array _ = False"

fun is_str :: "js \<Rightarrow> bool" where
  "is_str (JStr _) = True"
| "is_str _ = False"

text \<open>\<open>value === null || value === undefined\<close>\<close>

definition nullish :: "js \<Rightarrow> bool" where
  "nullish v \<longleftrightarrow> v = JNull \<or> v = JUndef"

text \<open>Reading an own property; a property that is not there is \<open>undefined\<close>.\<close>

definition own_of :: "(string \<times> js) list \<Rightarrow> string \<Rightarrow> js" where
  "own_of kvs k = (case map_of kvs k of None \<Rightarrow> JUndef | Some v \<Rightarrow> v)"

fun js_get :: "js \<Rightarrow> string \<Rightarrow> js" where
  "js_get (JObj kvs) k = own_of kvs k"
| "js_get _ _ = JUndef"

text \<open>Writing a property keeps its place when it is there and appends it otherwise.\<close>

fun obj_set :: "string \<Rightarrow> 'v \<Rightarrow> (string \<times> 'v) list \<Rightarrow> (string \<times> 'v) list" where
  "obj_set k v [] = [(k, v)]"
| "obj_set k v (p # ps) = (if fst p = k then (k, v) # ps else p # obj_set k v ps)"

section \<open>\<open>JSON.stringify\<close>\<close>

definition hex_digit :: "nat \<Rightarrow> char" where
  "hex_digit n = (if n < 10 then char_of (48 + n) else char_of (87 + n))"

definition escape_char :: "char \<Rightarrow> string" where
  "escape_char c =
     (let n = code_unit c in
      if n = 34 then [CHR 0x5C, CHR 0x22]
      else if n = 92 then [CHR 0x5C, CHR 0x5C]
      else if n = 8 then [CHR 0x5C, CHR ''b'']
      else if n = 9 then [CHR 0x5C, CHR ''t'']
      else if n = 10 then [CHR 0x5C, CHR ''n'']
      else if n = 12 then [CHR 0x5C, CHR ''f'']
      else if n = 13 then [CHR 0x5C, CHR ''r'']
      else if n < 32 then
        [CHR 0x5C, CHR ''u'', CHR ''0'', CHR ''0'', hex_digit (n div 16), hex_digit (n mod 16)]
      else [c])"

definition quote :: "string \<Rightarrow> string" where
  "quote s = CHR 0x22 # concat (map escape_char s) @ [CHR 0x22]"

text \<open>
  The text of a value inside an array or an object. \<open>undefined\<close> is \<open>null\<close> in an
  array; a field that is \<open>undefined\<close> is left out of an object.
\<close>

fun show_js :: "js \<Rightarrow> string" and show_elems :: "js list \<Rightarrow> string"
  and show_fields :: "(string \<times> js) list \<Rightarrow> string list" where
  "show_js JUndef = ''null''"
| "show_js JNull = ''null''"
| "show_js (JBool b) = (if b then ''true'' else ''false'')"
| "show_js (JInt i) = show_int i"
| "show_js (JFrac s) = s"
| "show_js (JStr s) = quote s"
| "show_js (JArr vs) = CHR ''['' # show_elems vs @ '']''"
| "show_js (JObj kvs) = CHR ''{'' # join '','' (show_fields kvs) @ ''}''"
| "show_elems [] = []"
| "show_elems (v # vs) = show_js v @ (if vs = [] then [] else CHR '','' # show_elems vs)"
| "show_fields [] = []"
| "show_fields (p # ps) =
     (case p of (k, v) \<Rightarrow>
        (if v = JUndef then [] else [quote k @ '':'' @ show_js v]) @ show_fields ps)"

text \<open>\<open>JSON.stringify(undefined)\<close> is \<open>undefined\<close>.\<close>

definition stringify :: "js \<Rightarrow> string option" where
  "stringify v = (if v = JUndef then None else Some (show_js v))"

section \<open>\<open>JSON.parse\<close>\<close>

definition is_json_space :: "char \<Rightarrow> bool" where
  "is_json_space c \<longleftrightarrow> code_unit c \<in> {9, 10, 13, 32}"

definition skip_ws :: "string \<Rightarrow> string" where
  "skip_ws s = dropWhile is_json_space s"

definition hex_val :: "char \<Rightarrow> nat option" where
  "hex_val c =
     (let n = code_unit c in
      if 48 \<le> n \<and> n \<le> 57 then Some (n - 48)
      else if 97 \<le> n \<and> n \<le> 102 then Some (n - 87)
      else if 65 \<le> n \<and> n \<le> 70 then Some (n - 55)
      else None)"

definition simple_escape :: "char \<Rightarrow> char option" where
  "simple_escape c =
     (if c = CHR 0x22 \<or> c = CHR 0x5C \<or> c = CHR ''/'' then Some c
      else if c = CHR ''b'' then Some (CHR 8)
      else if c = CHR ''t'' then Some (CHR 9)
      else if c = CHR ''n'' then Some (CHR 10)
      else if c = CHR ''f'' then Some (CHR 12)
      else if c = CHR ''r'' then Some (CHR 13)
      else None)"

text \<open>
  The body of a string after its opening quote: its value and the text after the closing
  quote. An escape of a code unit above 255 is outside the model's texts.
\<close>

definition push_char :: "char \<Rightarrow> (string \<times> string) option \<Rightarrow> (string \<times> string) option" where
  "push_char c r = (case r of None \<Rightarrow> None | Some (s, rest) \<Rightarrow> Some (c # s, rest))"

function parse_chars :: "string \<Rightarrow> (string \<times> string) option" where
  "parse_chars [] = None"
| "parse_chars (c # cs) =
     (if c = CHR 0x22 then Some ([], cs)
      else if c = CHR 0x5C then
        (case cs of
           [] \<Rightarrow> None
         | e # es \<Rightarrow>
             (if e = CHR ''u'' then
                (case es of
                   a # b # d # f # fs \<Rightarrow>
                     (case (hex_val a, hex_val b, hex_val d, hex_val f) of
                        (Some 0, Some 0, Some h, Some l) \<Rightarrow>
                          push_char (char_of (16 * h + l)) (parse_chars fs)
                      | _ \<Rightarrow> None)
                 | _ \<Rightarrow> None)
              else
                (case simple_escape e of
                   None \<Rightarrow> None
                 | Some x \<Rightarrow> push_char x (parse_chars es))))
      else if code_unit c < 32 then None
      else push_char c (parse_chars cs))"
  by pat_completeness auto
termination by (relation "measure length") auto

text \<open>A number: an integer, or a literal with a fraction or an exponent kept as text.\<close>

definition digits_of :: "string \<Rightarrow> string" where
  "digits_of s = takeWhile is_digit s"

definition parse_frac :: "string \<Rightarrow> (string \<times> string) option" where
  "parse_frac s =
     (if s \<noteq> [] \<and> hd s = CHR ''.'' then
        (let ds = digits_of (tl s) in
         if ds = [] then None else Some (CHR ''.'' # ds, drop (length ds) (tl s)))
      else Some ([], s))"

definition parse_exp :: "string \<Rightarrow> (string \<times> string) option" where
  "parse_exp s =
     (if s \<noteq> [] \<and> (hd s = CHR ''e'' \<or> hd s = CHR ''E'') then
        (let sign = (if tl s \<noteq> [] \<and> (hd (tl s) = CHR ''+'' \<or> hd (tl s) = CHR ''-'') then [hd (tl s)] else []);
             r = drop (length sign) (tl s);
             ds = digits_of r
         in if ds = [] then None else Some (CHR ''e'' # sign @ ds, drop (length ds) r))
      else Some ([], s))"

definition parse_number :: "string \<Rightarrow> (js \<times> string) option" where
  "parse_number s =
     (let neg = (s \<noteq> [] \<and> hd s = CHR ''-'');
          body = (if neg then tl s else s);
          ds = digits_of body;
          rest = drop (length ds) body
      in if ds = [] \<or> (length ds > 1 \<and> hd ds = CHR ''0'') then None
         else (case parse_frac rest of
                 None \<Rightarrow> None
               | Some (fr, rest1) \<Rightarrow>
                   (case parse_exp rest1 of
                      None \<Rightarrow> None
                    | Some (ex, rest2) \<Rightarrow>
                        Some ((if fr = [] \<and> ex = []
                               then JInt ((if neg then -1 else 1) * int (digits_value 0 ds))
                               else JFrac ((if neg then ''-'' else []) @ ds @ fr @ ex)), rest2))))"

definition strip :: "string \<Rightarrow> string \<Rightarrow> string option" where
  "strip p s = (if starts_with p s then Some (drop (length p) s) else None)"

text \<open>
  The grammar, with fuel: every call that descends or goes on to the next item uses one
  unit, and a text of length \<open>n\<close> never needs more than \<open>n + 1\<close>.
\<close>

fun p_value :: "nat \<Rightarrow> string \<Rightarrow> (js \<times> string) option"
  and p_elems :: "nat \<Rightarrow> string \<Rightarrow> (js list \<times> string) option"
  and p_fields :: "nat \<Rightarrow> (string \<times> js) list \<Rightarrow> string \<Rightarrow> ((string \<times> js) list \<times> string) option"
where
  "p_value 0 s = None"
| "p_value (Suc n) s0 =
     (case skip_ws s0 of
        [] \<Rightarrow> None
      | c # cs \<Rightarrow>
          (if c = CHR 0x22 then
             (case parse_chars cs of None \<Rightarrow> None | Some (t, rest) \<Rightarrow> Some (JStr t, rest))
           else if c = CHR ''['' then
             (case skip_ws cs of
                [] \<Rightarrow> None
              | d # ds \<Rightarrow>
                  (if d = CHR '']'' then Some (JArr [], ds)
                   else (case p_elems n (d # ds) of
                           None \<Rightarrow> None | Some (vs, rest) \<Rightarrow> Some (JArr vs, rest))))
           else if c = CHR ''{'' then
             (case skip_ws cs of
                [] \<Rightarrow> None
              | d # ds \<Rightarrow>
                  (if d = CHR ''}'' then Some (JObj [], ds)
                   else (case p_fields n [] (d # ds) of
                           None \<Rightarrow> None | Some (kvs, rest) \<Rightarrow> Some (JObj kvs, rest))))
           else if c = CHR ''n'' then map_option (Pair JNull) (strip ''ull'' cs)
           else if c = CHR ''t'' then map_option (Pair (JBool True)) (strip ''rue'' cs)
           else if c = CHR ''f'' then map_option (Pair (JBool False)) (strip ''alse'' cs)
           else parse_number (c # cs)))"
| "p_elems 0 s = None"
| "p_elems (Suc n) s =
     (case p_value n s of
        None \<Rightarrow> None
      | Some (v, rest) \<Rightarrow>
          (case skip_ws rest of
             [] \<Rightarrow> None
           | c # cs \<Rightarrow>
               (if c = CHR '']'' then Some ([v], cs)
                else if c = CHR '','' then
                  (case p_elems n cs of None \<Rightarrow> None | Some (vs, r) \<Rightarrow> Some (v # vs, r))
                else None)))"
| "p_fields 0 acc s = None"
| "p_fields (Suc n) acc s =
     (case skip_ws s of
        [] \<Rightarrow> None
      | q # qs \<Rightarrow>
          (if q \<noteq> CHR 0x22 then None
           else (case parse_chars qs of
                   None \<Rightarrow> None
                 | Some (k, rest) \<Rightarrow>
                     (case skip_ws rest of
                        [] \<Rightarrow> None
                      | c # cs \<Rightarrow>
                          (if c \<noteq> CHR '':'' then None
                           else (case p_value n cs of
                                   None \<Rightarrow> None
                                 | Some (v, rest2) \<Rightarrow>
                                     (case skip_ws rest2 of
                                        [] \<Rightarrow> None
                                      | d # ds \<Rightarrow>
                                          (if d = CHR ''}'' then Some (obj_set k v acc, ds)
                                           else if d = CHR '','' then p_fields n (obj_set k v acc) ds
                                           else None))))))))"

declare p_value.simps [simp del] p_elems.simps [simp del] p_fields.simps [simp del]
declare parse_chars.simps [simp del]

definition parse_json :: "string \<Rightarrow> js option" where
  "parse_json s =
     (case p_value (Suc (length s)) s of
        None \<Rightarrow> None
      | Some (v, rest) \<Rightarrow> (if skip_ws rest = [] then Some v else None))"

section \<open>The round trip\<close>

text \<open>
  What the code stores: no \<open>undefined\<close>, no fraction, and every object with its keys
  distinct.
\<close>

fun storable :: "js \<Rightarrow> bool" where
  "storable JUndef = False"
| "storable (JFrac _) = False"
| "storable (JArr vs) = list_all storable vs"
| "storable (JObj kvs) = (distinct (map fst kvs) \<and> list_all (\<lambda>(k, v). storable v) kvs)"
| "storable _ = True"

lemma obj_set_fresh: "k \<notin> fst ` set kvs \<Longrightarrow> obj_set k v kvs = kvs @ [(k, v)]"
  by (induction kvs) auto

lemma map_of_obj_set: "map_of (obj_set k v kvs) = (map_of kvs)(k \<mapsto> v)"
  by (induction kvs) (auto simp: fun_eq_iff)

lemma own_of_obj_set [simp]: "own_of (obj_set k v kvs) k' = (if k = k' then v else own_of kvs k')"
  by (induction kvs) (auto simp: own_of_def)

lemma keys_obj_set: "fst ` set (obj_set k v kvs) = insert k (fst ` set kvs)"
  by (induction kvs) auto

lemma distinct_obj_set: "distinct (map fst kvs) \<Longrightarrow> distinct (map fst (obj_set k v kvs))"
  by (induction kvs) (auto simp: keys_obj_set)

lemma hex_val_digit: "n < 16 \<Longrightarrow> hex_val (hex_digit n) = Some n"
  by (auto simp: hex_val_def hex_digit_def of_char_of Let_def)

lemma char_eqI: "code_unit c = code_unit d \<Longrightarrow> c = d"
  by simp

lemma parse_escaped: "parse_chars (escape_char c @ s) = push_char c (parse_chars s)"
proof -
  consider "code_unit c \<in> {34, 92, 8, 9, 10, 12, 13}"
    | "code_unit c < 32" "code_unit c \<notin> {8, 9, 10, 12, 13}"
    | "code_unit c \<ge> 32" "code_unit c \<notin> {34, 92}"
    by force
  then show ?thesis
  proof cases
    case 1
    then have "c \<in> {CHR 0x22, CHR 0x5C, CHR 8, CHR 9, CHR 10, CHR 12, CHR 13}"
      by (auto intro: char_eqI)
    then show ?thesis
      by (elim insertE emptyE)
        (simp_all add: escape_char_def parse_chars.simps simple_escape_def)
  next
    case 2
    define m where "m = code_unit c"
    have m: "m < 32" "m \<notin> {8, 9, 10, 12, 13}" using 2 by (simp_all add: m_def)
    have h: "hex_val (hex_digit (m div 16)) = Some (m div 16)"
      "hex_val (hex_digit (m mod 16)) = Some (m mod 16)"
      using m by (auto intro!: hex_val_digit)
    have z: "hex_val (CHR ''0'') = Some 0" by (simp add: hex_val_def)
    have e: "escape_char c = [CHR 0x5C, CHR ''u'', CHR ''0'', CHR ''0'', hex_digit (m div 16), hex_digit (m mod 16)]"
      using m by (simp add: escape_char_def m_def [symmetric])
    have inv: "char_of m = c"
      by (simp add: m_def)
    show ?thesis
      by (simp add: e parse_chars.simps h z inv)
  next
    case 3
    then have "c \<noteq> CHR 0x22" "c \<noteq> CHR 0x5C" by auto
    with 3 show ?thesis by (simp add: escape_char_def parse_chars.simps Let_def)
  qed
qed

lemma parse_quoted:
  "parse_chars (concat (map escape_char s) @ CHR 0x22 # rest) = Some (s, rest)"
  by (induction s) (simp_all add: parse_escaped push_char_def parse_chars.simps)

lemma show_int_cases:
  obtains (neg) n where "i < 0" and "show_int i = CHR ''-'' # show_nat n" and "i = - int n"
  | (pos) n where "0 \<le> i" and "show_int i = show_nat n" and "i = int n"
proof (cases "i < 0")
  case True
  then show ?thesis by (intro neg [of "nat (- i)"]) (simp_all add: show_int_def)
next
  case False
  then show ?thesis by (intro pos [of "nat i"]) (simp_all add: show_int_def)
qed

lemma hd_show_nat: "0 < n \<Longrightarrow> hd (show_nat n) \<noteq> CHR ''0''"
proof (induction n rule: less_induct)
  case (less n)
  show ?case
  proof (cases "n < 10")
    case True
    with less.prems have "code_unit (digit_char n) \<noteq> code_unit (CHR ''0'')"
      by (simp add: code_unit_digit_char del: digit_char.simps)
    then have "digit_char n \<noteq> CHR ''0''" by metis
    with True show ?thesis by (subst show_nat.simps) (simp del: digit_char.simps)
  next
    case False
    with less.IH [of "n div 10"] show ?thesis by (subst show_nat.simps) simp
  qed
qed

lemma show_nat_head: "hd (show_nat n) = CHR ''0'' \<Longrightarrow> length (show_nat n) = 1"
  using hd_show_nat [of n] by (cases "n = 0") (simp_all add: show_nat.simps [of 0])

definition number_ends :: "string \<Rightarrow> bool" where
  "number_ends s \<longleftrightarrow>
     s = [] \<or> (\<not> is_digit (hd s) \<and> hd s \<noteq> CHR ''.'' \<and> hd s \<noteq> CHR ''e'' \<and> hd s \<noteq> CHR ''E'')"

lemma takeWhile_digits:
  "(\<forall>c \<in> set ds. is_digit c) \<Longrightarrow> number_ends rest \<Longrightarrow> digits_of (ds @ rest) = ds"
  by (cases rest) (auto simp: digits_of_def number_ends_def)

lemma parse_show_int:
  assumes "number_ends rest"
  shows "parse_number (show_int i @ rest) = Some (JInt i, rest)"
proof -
  have fr: "parse_frac rest = Some ([], rest)" and ex: "parse_exp rest = Some ([], rest)"
    using assms by (auto simp: parse_frac_def parse_exp_def number_ends_def)
  have ds: "digits_of (show_nat n @ rest) = show_nat n" for n
    using takeWhile_digits [OF show_nat_digits assms] .
  have lead: "\<not> (length (show_nat n) > 1 \<and> hd (show_nat n) = CHR ''0'')" for n
    using show_nat_head [of n] by auto
  have minus: "hd (show_nat n @ rest) \<noteq> CHR ''-''" for n
    using show_nat_digits [of n] not_digit_minus
    by (metis hd_append2 hd_in_set show_nat_nonempty)
  show ?thesis
  proof (cases i rule: show_int_cases)
    case (neg n)
    then show ?thesis
      using lead [of n] by (simp add: parse_number_def ds fr ex digits_value_show_nat Let_def)
  next
    case (pos n)
    then show ?thesis
      using lead [of n] minus [of n]
      by (simp add: parse_number_def ds fr ex digits_value_show_nat Let_def)
  qed
qed

lemma show_js_head:
  assumes "storable v"
  obtains c cs where "show_js v = c # cs" and "\<not> is_json_space c" and "c \<noteq> CHR '']''"
proof (cases v)
  case (JBool b)
  then show ?thesis by (cases b) (auto intro: that simp: is_json_space_def)
next
  case (JInt i)
  show ?thesis
  proof (cases i rule: show_int_cases)
    case (neg n)
    with JInt show ?thesis by (intro that) (auto simp: is_json_space_def)
  next
    case (pos n)
    obtain c cs where c: "show_nat n = c # cs" by (metis list.exhaust show_nat_nonempty)
    then have "is_digit c" using show_nat_digits [of n] by simp
    then have "\<not> is_json_space c" "c \<noteq> CHR '']''" by (auto simp: is_digit_def is_json_space_def)
    with pos c JInt show ?thesis by (intro that) auto
  qed
qed (use assms that in \<open>auto simp: quote_def is_json_space_def split: if_splits\<close>)

lemma skip_ws_Cons: "\<not> is_json_space c \<Longrightarrow> skip_ws (c # cs) = c # cs"
  by (simp add: skip_ws_def)

lemma number_ends_sep [simp]:
  "number_ends (CHR '','' # s)" "number_ends (CHR '']'' # s)" "number_ends (CHR ''}'' # s)" "number_ends []"
  by (simp_all add: number_ends_def is_digit_def)

lemma not_space_sep [simp]:
  "\<not> is_json_space (CHR '','')" "\<not> is_json_space (CHR '']'')" "\<not> is_json_space (CHR ''}'')"
  "\<not> is_json_space (CHR '':'')" "\<not> is_json_space (CHR 0x22)" "\<not> is_json_space (CHR ''['')"
  "\<not> is_json_space (CHR ''{'')" "\<not> is_json_space (CHR ''n'')" "\<not> is_json_space (CHR ''t'')"
  "\<not> is_json_space (CHR ''f'')"
  by (simp_all add: is_json_space_def)

lemma strip_append [simp]: "strip p (p @ s) = Some s"
  by (simp add: strip_def starts_with_def)

lemma p_value_int:
  assumes "number_ends rest" and "0 < n"
  shows "p_value n (show_int i @ rest) = Some (JInt i, rest)"
proof -
  obtain m where n: "n = Suc m" using assms(2) by (cases n) auto
  obtain c cs where c: "show_int i @ rest = c # cs" "is_digit c \<or> c = CHR ''-''"
  proof (cases i rule: show_int_cases)
    case (neg k)
    then show ?thesis by (intro that) auto
  next
    case (pos k)
    obtain d ds where d: "show_nat k = d # ds" by (metis list.exhaust show_nat_nonempty)
    with show_nat_digits [of k] pos show ?thesis by (intro that) auto
  qed
  from c(2) have ne: "\<not> is_json_space c" "c \<noteq> CHR 0x22" "c \<noteq> CHR ''[''" "c \<noteq> CHR ''{''"
    "c \<noteq> CHR ''n''" "c \<noteq> CHR ''t''" "c \<noteq> CHR ''f''"
    by (auto simp: is_digit_def is_json_space_def)
  have "p_value n (c # cs) = parse_number (c # cs)"
    using ne by (simp add: n p_value.simps skip_ws_Cons)
  with parse_show_int [OF assms(1), of i] show ?thesis by (simp only: c(1))
qed

lemma show_fields_nonempty:
  "ps \<noteq> [] \<Longrightarrow> list_all (\<lambda>(k, v). storable v) ps \<Longrightarrow> show_fields ps \<noteq> []"
  by (cases ps) (auto split: prod.splits)

lemma join_Cons: "ys \<noteq> [] \<Longrightarrow> join sep (x # ys) = x @ sep @ join sep ys"
  by (cases ys) auto

lemma p_value_literal:
  assumes "0 < n"
  shows "p_value n (CHR ''n'' # CHR ''u'' # CHR ''l'' # CHR ''l'' # rest) = Some (JNull, rest)"
    and "p_value n (CHR ''t'' # CHR ''r'' # CHR ''u'' # CHR ''e'' # rest) = Some (JBool True, rest)"
    and "p_value n (CHR ''f'' # CHR ''a'' # CHR ''l'' # CHR ''s'' # CHR ''e'' # rest) =
      Some (JBool False, rest)"
  using assms by (cases n; simp add: p_value.simps skip_ws_Cons strip_def starts_with_def)+

lemma parse_show:
  "storable v \<Longrightarrow> number_ends rest \<Longrightarrow> length (show_js v) < n \<Longrightarrow>
     p_value n (show_js v @ rest) = Some (v, rest)"
  "vs \<noteq> [] \<Longrightarrow> list_all storable vs \<Longrightarrow> length (show_elems vs) + 1 < n \<Longrightarrow>
     p_elems n (show_elems vs @ CHR '']'' # rest) = Some (vs, rest)"
  "kvs \<noteq> [] \<Longrightarrow> list_all (\<lambda>(k, v). storable v) kvs \<Longrightarrow> distinct (map fst (acc @ kvs)) \<Longrightarrow>
     length (join '','' (show_fields kvs)) + 1 < n \<Longrightarrow>
     p_fields n acc (join '','' (show_fields kvs) @ CHR ''}'' # rest) = Some (acc @ kvs, rest)"
proof (induction v and vs and kvs arbitrary: rest n and rest n and rest n acc
    rule: show_js_show_elems_show_fields.induct)
  case (4 i)
  then show ?case by (simp add: p_value_int)
next
  case (6 s)
  then obtain m where "n = Suc m" by (cases n) auto
  then show ?case by (simp add: p_value.simps quote_def skip_ws_Cons parse_quoted)
next
  case (7 vs)
  then obtain m where n: "n = Suc m" by (cases n) auto
  show ?case
  proof (cases vs)
    case Nil
    then show ?thesis by (simp add: n p_value.simps skip_ws_Cons)
  next
    case (Cons w ws)
    with 7 have "storable w" by simp
    then obtain c cs where c: "show_js w = c # cs" "\<not> is_json_space c" "c \<noteq> CHR '']''"
      by (rule show_js_head)
    obtain ds where d: "show_elems vs = c # ds" using c Cons by auto
    have "p_elems m (show_elems vs @ CHR '']'' # rest) = Some (vs, rest)"
      using 7 Cons n by simp
    with d c show ?thesis by (simp add: n p_value.simps skip_ws_Cons)
  qed
next
  case (8 kvs)
  then obtain m where n: "n = Suc m" by (cases n) auto
  show ?case
  proof (cases kvs)
    case Nil
    then show ?thesis by (simp add: n p_value.simps skip_ws_Cons)
  next
    case (Cons w ws)
    have r: "p_fields m [] (join '','' (show_fields kvs) @ CHR ''}'' # rest) = Some (kvs, rest)"
      using 8 Cons n by simp
    have "show_fields kvs \<noteq> []" using 8 Cons show_fields_nonempty [of kvs] by simp
    moreover have "hd (show_fields kvs) \<noteq> [] \<and> hd (hd (show_fields kvs)) = CHR 0x22"
      using 8 Cons by (auto split: prod.splits simp: quote_def)
    ultimately obtain ds where d: "join '','' (show_fields kvs) = CHR 0x22 # ds"
      by (cases "show_fields kvs"; cases "hd (show_fields kvs)"; cases "tl (show_fields kvs)") auto
    with r show ?thesis by (simp add: n p_value.simps skip_ws_Cons)
  qed
next
  case (10 v vs)
  then obtain m where n: "n = Suc m" by (cases n) auto
  show ?case
  proof (cases vs)
    case Nil
    then have "p_value m (show_js v @ CHR '']'' # rest) = Some (v, CHR '']'' # rest)"
      using 10 n by simp
    with Nil show ?thesis by (simp add: n p_elems.simps skip_ws_Cons)
  next
    case (Cons w ws)
    then have "p_value m (show_js v @ CHR '','' # show_elems vs @ CHR '']'' # rest) =
        Some (v, CHR '','' # show_elems vs @ CHR '']'' # rest)"
      using 10 n by simp
    moreover have "p_elems m (show_elems vs @ CHR '']'' # rest) = Some (vs, rest)"
      using 10 n Cons by simp
    ultimately show ?thesis using Cons by (simp add: n p_elems.simps skip_ws_Cons)
  qed
next
  case (12 p ps)
  obtain k v where p: "p = (k, v)" by (cases p)
  from 12 p have v: "storable v" "v \<noteq> JUndef" by auto
  from 12 obtain m where n: "n = Suc m" by (cases n) auto
  have fresh: "obj_set k v acc = acc @ [(k, v)]"
    using 12 p by (intro obj_set_fresh) auto
  show ?case
  proof (cases "ps = []")
    case True
    then have "p_value m (show_js v @ CHR ''}'' # rest) = Some (v, CHR ''}'' # rest)"
      using 12 n p v by (simp add: quote_def)
    with True v show ?thesis
      by (simp add: n p p_fields.simps skip_ws_Cons quote_def parse_quoted fresh)
  next
    case False
    then have ne: "show_fields ps \<noteq> []" using 12 by (intro show_fields_nonempty) auto
    let ?r = "join '','' (show_fields ps) @ CHR ''}'' # rest"
    have "p_value m (show_js v @ CHR '','' # ?r) = Some (v, CHR '','' # ?r)"
      using 12 n p v ne by (simp add: quote_def join_Cons)
    moreover have "p_fields m (acc @ [(k, v)]) ?r = Some (acc @ (k, v) # ps, rest)"
      using 12 n p v ne False by (simp add: quote_def join_Cons)
    ultimately show ?thesis using v ne
      by (simp add: n p p_fields.simps skip_ws_Cons quote_def parse_quoted fresh join_Cons)
  qed
qed (auto simp: p_value_literal)

theorem parse_stringify: "storable v \<Longrightarrow> parse_json (show_js v) = Some v"
  using parse_show(1) [of v "[]" "Suc (length (show_js v))"]
  by (simp add: parse_json_def skip_ws_def)

lemma show_js_inject: "storable u \<Longrightarrow> storable v \<Longrightarrow> show_js u = show_js v \<longleftrightarrow> u = v"
  by (metis option.inject parse_stringify)

end
