(* ===== verification/Effects.thy ===== *)
theory Effects
  imports Prelude
begin

text \<open>
  Errors and effects. \<open>exn\<close> has one constructor per error class the backend
  throws or distinguishes; \<open>err_message\<close> is the error's \<open>message\<close> where the code
  reads it. Effectful code is \<open>('w, 'a) io\<close>: a function of the world that
  answers an error or a value, with the world it leaves. An error keeps the writes made before
  it, as an exception does.
\<close>

section \<open>Errors\<close>

text \<open>The error codes of the API framework.\<close>

datatype api_code =
    Canceled | UnknownCode | InvalidArgument | DeadlineExceeded | NotFound | AlreadyExists
  | PermissionDenied | ResourceExhausted | FailedPrecondition | Aborted | OutOfRange
  | Unimplemented | Internal | Unavailable | DataLoss | Unauthenticated

datatype exn =
    Failure string                                  \<comment> \<open>a plain \<open>Error\<close> with its message\<close>
  | TypeErr string                                  \<comment> \<open>a \<open>TypeError\<close> of the language\<close>
  | RangeErr string                                 \<comment> \<open>a \<open>RangeError\<close> of the language\<close>
  | InvalidSpecError string string string           \<comment> \<open>kind, field, what is wrong\<close>
  | TenancyError string
  | SupersededError string string int               \<comment> \<open>kind, name, the fence carried\<close>
  | APIError api_code string string                 \<comment> \<open>code, message, \<open>details.code\<close> or empty\<close>
  | LedgerIntegrityError string
  | ProcessExit string                              \<comment> \<open>\<open>process.exit(1)\<close>\<close>
  | UniqueViolation
  | PlaceholderOrderError nat nat                   \<comment> \<open>the number found, the number required\<close>
  | NoSuchTable string
  | TenantMismatchError string "string list"
  | MissingParamError string string                 \<comment> \<open>template, parameter\<close>
  | UnknownTemplateError string
  | MailNotConfiguredError string
  | TokenExpiredError string                        \<comment> \<open>of the token library\<close>

fun err_message :: "exn \<Rightarrow> string" where
  "err_message (Failure m) = m"
| "err_message (TypeErr m) = m"
| "err_message (RangeErr m) = m"
| "err_message (InvalidSpecError k f m) = ''invalid '' @ k @ '': '' @ f @ '': '' @ m"
| "err_message (TenancyError m) = m"
| "err_message (SupersededError k n f) =
     ''write to '' @ k @ ''/'' @ n @ '' carried fence '' @ show_int f @
     '', which is below the fence already recorded: another holder has the lease''"
| "err_message (APIError c m d) = m"
| "err_message (LedgerIntegrityError m) = m"
| "err_message (ProcessExit m) = m"
| "err_message UniqueViolation = ''UNIQUE constraint failed''"
| "err_message (PlaceholderOrderError f e) =
     ''placeholder $'' @ show_nat f @ '' appears where $'' @ show_nat e @ '' is required''"
| "err_message (NoSuchTable t) = ''no such table: '' @ t"
| "err_message (TenantMismatchError t ts) = 
     ''refusing to start: this deployment resolves ENRAHITU_TENANT to '' @ quoted t @ '', but its store already holds rows for '' @
     join '', '' (map quoted ts) @ ''. Serving would write a second dataset alongside the existing one. Restore the previous value, or point this deployment at its own volume.''"
| "err_message (MissingParamError t p) =
     ''template '' @ [CHR 0x27] @ t @ [CHR 0x27] @ '' needs a param '' @ [CHR 0x27] @ p @ [CHR 0x27]
       @ '' that the notice did not supply''"
| "err_message (UnknownTemplateError t) =
     ''no mail template named '' @ [CHR 0x27] @ t @ [CHR 0x27] @
     '': looked in app/mail/templates/ and then backend/mail/templates/''"
| "err_message (MailNotConfiguredError m) = m"
| "err_message (TokenExpiredError m) = m"

section \<open>Sums in sequence\<close>

definition sbind :: "(exn + 'a) \<Rightarrow> ('a \<Rightarrow> exn + 'b) \<Rightarrow> exn + 'b" where
  "sbind m f = (case m of Inl e \<Rightarrow> Inl e | Inr a \<Rightarrow> f a)"

lemma sbind_simps [simp]:
  "sbind (Inl e) f = Inl e"
  "sbind (Inr a) f = f a"
  by (simp_all add: sbind_def)

lemma sbind_Inr_iff: "sbind m f = Inr b \<longleftrightarrow> (\<exists>a. m = Inr a \<and> f a = Inr b)"
  by (cases m) auto

lemma sbind_Inl_iff: "sbind m f = Inl e \<longleftrightarrow> m = Inl e \<or> (\<exists>a. m = Inr a \<and> f a = Inl e)"
  by (cases m) auto

section \<open>Effects\<close>

type_synonym ('w, 'a) io = "'w \<Rightarrow> (exn + 'a) \<times> 'w"

definition ret :: "'a \<Rightarrow> ('w, 'a) io" where
  "ret a = (\<lambda>w. (Inr a, w))"

definition throw :: "exn \<Rightarrow> ('w, 'a) io" where
  "throw e = (\<lambda>w. (Inl e, w))"

definition lift :: "exn + 'a \<Rightarrow> ('w, 'a) io" where
  "lift r = (\<lambda>w. (r, w))"

definition gets :: "('w \<Rightarrow> 'a) \<Rightarrow> ('w, 'a) io" where
  "gets f = (\<lambda>w. (Inr (f w), w))"

definition modify :: "('w \<Rightarrow> 'w) \<Rightarrow> ('w, unit) io" where
  "modify f = (\<lambda>w. (Inr (), f w))"

definition bnd :: "('w, 'a) io \<Rightarrow> ('a \<Rightarrow> ('w, 'b) io) \<Rightarrow> ('w, 'b) io" where
  "bnd m f = (\<lambda>w. case m w of (Inl e, w') \<Rightarrow> (Inl e, w') | (Inr a, w') \<Rightarrow> f a w')"

abbreviation seq :: "('w, 'a) io \<Rightarrow> ('w, 'b) io \<Rightarrow> ('w, 'b) io" where
  "seq m n \<equiv> bnd m (\<lambda>_. n)"

text \<open>\<open>process.exit\<close> is not an exception: no handler and no \<open>finally\<close> runs after it.\<close>

fun exits :: "exn \<Rightarrow> bool" where
  "exits (ProcessExit _) = True"
| "exits _ = False"

definition catch :: "('w, 'a) io \<Rightarrow> (exn \<Rightarrow> ('w, 'a) io) \<Rightarrow> ('w, 'a) io" where
  "catch m h =
     (\<lambda>w. case m w of
            (Inl e, w') \<Rightarrow> (if exits e then (Inl e, w') else h e w')
          | (Inr a, w') \<Rightarrow> (Inr a, w'))"

text \<open>\<open>try { m } finally { f }\<close>: an error of \<open>f\<close> replaces the outcome of \<open>m\<close>.\<close>

definition finally_do :: "('w, 'a) io \<Rightarrow> ('w, unit) io \<Rightarrow> ('w, 'a) io" where
  "finally_do m f =
     (\<lambda>w. case m w of (r, w') \<Rightarrow>
        (if (case r of Inl e \<Rightarrow> exits e | Inr _ \<Rightarrow> False) then (r, w')
         else (case f w' of (Inl e, u) \<Rightarrow> (Inl e, u) | (Inr _, u) \<Rightarrow> (r, u))))"

text \<open>A program over a part of the world.\<close>

definition zoom :: "('w \<Rightarrow> 'v) \<Rightarrow> ('v \<Rightarrow> 'w \<Rightarrow> 'w) \<Rightarrow> ('v, 'a) io \<Rightarrow> ('w, 'a) io" where
  "zoom get put m = (\<lambda>w. case m (get w) of (r, v) \<Rightarrow> (r, put v w))"

text \<open>The items of a list in order, stopping at the first error.\<close>

fun each :: "('a \<Rightarrow> ('w, unit) io) \<Rightarrow> 'a list \<Rightarrow> ('w, unit) io" where
  "each f [] = ret ()"
| "each f (x # xs) = seq (f x) (each f xs)"

lemma run_simps [simp]:
  "ret a w = (Inr a, w)"
  "throw e w = (Inl e, w)"
  "lift r w = (r, w)"
  "gets g w = (Inr (g w), w)"
  "modify h w = (Inr (), h w)"
  by (simp_all add: ret_def throw_def lift_def gets_def modify_def)

lemma bnd_run: "bnd m f w = (case m w of (Inl e, w') \<Rightarrow> (Inl e, w') | (Inr a, w') \<Rightarrow> f a w')"
  by (simp add: bnd_def)

lemma bnd_ok: "m w = (Inr a, u) \<Longrightarrow> bnd m f w = f a u"
  by (simp add: bnd_def)

lemma bnd_fails: "m w = (Inl e, u) \<Longrightarrow> bnd m f w = (Inl e, u)"
  by (simp add: bnd_def)

lemma bnd_gets [simp]: "bnd (gets g) f w = f (g w) w"
  by (simp add: bnd_def)

lemma bnd_lift: "r = Inr a \<Longrightarrow> bnd (lift r) f w = f a w"
  by (simp add: bnd_def)

lemma catch_run:
  "catch m h w =
     (case m w of
        (Inl e, w') \<Rightarrow> (if exits e then (Inl e, w') else h e w')
      | (Inr a, w') \<Rightarrow> (Inr a, w'))"
  by (simp add: catch_def)

lemma bnd_simps [simp]:
  "bnd (ret a) f = f a"
  "bnd (throw e) f = throw e"
  "bnd m ret = m"
  by (auto simp: bnd_def ret_def throw_def split: prod.splits sum.splits)

lemma bnd_bnd: "bnd (bnd m f) g = bnd m (\<lambda>a. bnd (f a) g)"
  by (auto simp: bnd_def fun_eq_iff split: prod.splits sum.splits)

lemma bnd_Inr_iff:
  "bnd m f w = (Inr b, w') \<longleftrightarrow> (\<exists>a u. m w = (Inr a, u) \<and> f a u = (Inr b, w'))"
  by (auto simp: bnd_def split: prod.splits sum.splits)

section \<open>What a program does to the world, whatever it answers\<close>

text \<open>
  \<open>along R m\<close>: every run of \<open>m\<close> takes a world to one \<open>R\<close>-related to it, when it throws as
  when it answers. An invariant is the case \<open>keeping P\<close>.
\<close>

definition along :: "('w \<Rightarrow> 'w \<Rightarrow> bool) \<Rightarrow> ('w, 'a) io \<Rightarrow> bool" where
  "along R m \<longleftrightarrow> (\<forall>w. R w (snd (m w)))"

definition keeping :: "('w \<Rightarrow> bool) \<Rightarrow> 'w \<Rightarrow> 'w \<Rightarrow> bool" where
  "keeping P w w' \<longleftrightarrow> (P w \<longrightarrow> P w')"

lemma alongI: "(\<And>w. R w (snd (m w))) \<Longrightarrow> along R m"
  by (simp add: along_def)

lemma alongD: "along R m \<Longrightarrow> m w = (r, w') \<Longrightarrow> R w w'"
  by (metis along_def snd_conv)

lemma along_conj: "along R m \<Longrightarrow> along S m \<Longrightarrow> along (\<lambda>w w'. R w w' \<and> S w w') m"
  by (simp add: along_def)

lemma along_modify: "along R (modify f) \<longleftrightarrow> (\<forall>w. R w (f w))"
  by (simp add: along_def)

locale step_order =
  fixes R :: "'w \<Rightarrow> 'w \<Rightarrow> bool"
  assumes step_refl: "R w w"
    and step_trans: "R u v \<Longrightarrow> R v w \<Longrightarrow> R u w"
begin

lemma along_ret [intro]: "along R (ret a)"
  by (simp add: along_def step_refl)

lemma along_throw [intro]: "along R (throw e)"
  by (simp add: along_def step_refl)

lemma along_lift [intro]: "along R (lift r)"
  by (simp add: along_def step_refl)

lemma along_gets [intro]: "along R (gets g)"
  by (simp add: along_def step_refl)

lemma along_bnd [intro]:
  assumes "along R m" and "\<And>a. along R (f a)"
  shows "along R (bnd m f)"
proof (rule alongI)
  fix w
  obtain r u where m: "m w = (r, u)" by fastforce
  have u: "R w u" using alongD [OF assms(1) m] .
  show "R w (snd (bnd m f w))"
  proof (cases r)
    case (Inl e)
    with m u show ?thesis by (simp add: bnd_run)
  next
    case (Inr a)
    have "R u (snd (f a u))" using assms(2) [of a] by (simp add: along_def)
    with m u Inr show ?thesis by (auto simp: bnd_run intro: step_trans)
  qed
qed

lemma along_catch [intro]:
  assumes "along R m" and "\<And>e. along R (h e)"
  shows "along R (catch m h)"
proof (rule alongI)
  fix w
  obtain r u where m: "m w = (r, u)" by fastforce
  have u: "R w u" using alongD [OF assms(1) m] .
  show "R w (snd (catch m h w))"
  proof (cases r)
    case (Inr a)
    with m u show ?thesis by (simp add: catch_run)
  next
    case (Inl e)
    have "R u (snd (h e u))" using assms(2) [of e] by (simp add: along_def)
    with m u Inl show ?thesis by (auto simp: catch_run intro: step_trans)
  qed
qed

lemma along_finally [intro]:
  assumes "along R m" and "along R f"
  shows "along R (finally_do m f)"
proof (rule alongI)
  fix w
  obtain r u where m: "m w = (r, u)" by fastforce
  obtain s v where f: "f u = (s, v)" by fastforce
  have "R w u" "R u v" using alongD [OF assms(1) m] alongD [OF assms(2) f] by auto
  then show "R w (snd (finally_do m f w))"
    by (auto simp: finally_do_def m f intro: step_trans split: sum.split)
qed

lemma along_each [intro]: "(\<And>x. along R (f x)) \<Longrightarrow> along R (each f xs)"
  by (induction xs) auto

lemma along_if [intro]: "along R m \<Longrightarrow> along R n \<Longrightarrow> along R (if b then m else n)"
  by simp

lemma along_option [intro]:
  "along R m \<Longrightarrow> (\<And>a. along R (f a)) \<Longrightarrow> along R (case x of None \<Rightarrow> m | Some a \<Rightarrow> f a)"
  by (cases x) auto

lemma along_sum [intro]:
  "(\<And>e. along R (g e)) \<Longrightarrow> (\<And>a. along R (f a)) \<Longrightarrow> along R (case x of Inl e \<Rightarrow> g e | Inr a \<Rightarrow> f a)"
  by (cases x) auto

lemma along_list [intro]:
  "along R m \<Longrightarrow> (\<And>x xs. along R (f x xs)) \<Longrightarrow> along R (case l of [] \<Rightarrow> m | x # xs \<Rightarrow> f x xs)"
  by (cases l) auto

end

text \<open>Every invariant gives a step order.\<close>

interpretation keep: step_order "keeping P" for P :: "'w \<Rightarrow> bool"
  by unfold_locales (auto simp: keeping_def)

end
