(* ===== verification/Decisions.thy ===== *)
theory Decisions
  imports Json Effects
begin

text \<open>
  The decision ledger of \<open>backend/kernel/decisions.ts\<close>: a hash-linked chain of records
  in a table whose parent column is unique, a durable dirty flag that brackets denial appends,
  and a queue that serialises the appends of one process.

  The store answers calls in the order of \<open>l_env\<close>: before each call other processes
  may append or write the flag, and the call may fail (\<open>db_call\<close>). The native kernel, the
  hash, the signature scheme, the clock and the entropy are the parameter \<open>kernel\<close>.
\<close>

section \<open>Records and the context hash\<close>

text \<open>\<open>LedgerRecord\<close>, with the sibling signature of \<open>StoredRecord\<close>.\<close>

record ledger_record =
  r_id :: string
  r_ts :: string
  r_prev :: string
  r_hash :: string
  r_payload :: js

record stored_record = ledger_record +
  r_sig :: "string option"

record capability =
  c_kind :: string
  c_resource :: string

record effect_decision =
  e_model :: string
  e_gate :: string
  e_service :: string
  e_capability :: capability
  e_context :: string
  e_outcome :: string
  e_reason :: string
  e_checks :: "string list"

definition capability_js :: "capability \<Rightarrow> js" where
  "capability_js c = JObj [(''kind'', JStr (c_kind c)), (''resource'', JStr (c_resource c))]"

definition decision_js :: "effect_decision \<Rightarrow> js" where
  "decision_js e = JObj
     [(''modelHash'', JStr (e_model e)), (''gateConfigHash'', JStr (e_gate e)),
      (''service'', JStr (e_service e)), (''capability'', capability_js (e_capability e)),
      (''contextHash'', JStr (e_context e)), (''outcome'', JStr (e_outcome e)),
      (''reason'', JStr (e_reason e)), (''checkIds'', JArr (map JStr (e_checks e)))]"

text \<open>
  \<open>canonical\<close>: \<open>None\<close> is the \<open>undefined\<close> that \<open>JSON.stringify\<close>
  answers for \<open>undefined\<close>; joining an array prints it as the empty text, a template as
  \<open>undefined\<close>.
\<close>

fun canonical :: "js \<Rightarrow> string option" where
  "canonical (JArr vs) =
     Some (''['' @ join '','' (map (\<lambda>v. case canonical v of None \<Rightarrow> [] | Some s \<Rightarrow> s) vs) @ '']'')"
| "canonical (JObj kvs) =
     Some (''{'' @ join '',''
       (map (\<lambda>(k, t). quote k @ '':'' @ (case t of None \<Rightarrow> ''undefined'' | Some s \<Rightarrow> s))
         (sort_key fst (map (\<lambda>(k, v). (k, canonical v)) kvs))) @ ''}'')"
| "canonical v = stringify v"

text \<open>The parts the code reaches through imports and the environment.\<close>

record adjudication =
  a_outcome :: string
  a_reason :: string
  a_checks :: "string list"
  a_config :: string
  a_model :: string

record kernel =
  k_adjudicate :: "js \<Rightarrow> adjudication"                            \<comment> \<open>native \<open>adjudicate\<close>\<close>
  k_build :: "string \<Rightarrow> string \<Rightarrow> string \<Rightarrow> string \<Rightarrow> ledger_record"  \<comment> \<open>native \<open>buildRecord\<close>\<close>
  k_verify_chain :: "ledger_record list \<Rightarrow> string option"         \<comment> \<open>native \<open>verifyChain\<close>: the error\<close>
  k_genesis :: "string \<times> string \<times> string"                   \<comment> \<open>native \<open>genesisPayload(modelJson)\<close>\<close>
  k_model :: string                                               \<comment> \<open>\<open>receipt.modelHash\<close>\<close>
  k_gate :: string                                                \<comment> \<open>\<open>receipt.gateConfigHash\<close>\<close>
  k_sha256 :: "string \<Rightarrow> string"
  k_sign :: "string \<Rightarrow> string \<Rightarrow> string"
  k_sig_ok :: "string \<Rightarrow> string \<Rightarrow> string \<Rightarrow> bool"
  k_signing_env :: string                                         \<comment> \<open>empty when unset\<close>
  k_under_test :: bool
  k_postgres :: bool
  k_now :: string
  k_now_ms :: nat
  k_entropy :: "nat \<Rightarrow> string"

definition context_hash :: "kernel \<Rightarrow> js \<Rightarrow> string" where
  "context_hash K context =
     ''sha256:'' @ k_sha256 K ((case canonical context of None \<Rightarrow> ''undefined'' | Some s \<Rightarrow> s) @ [CHR 10])"

text \<open>What the tests of an error read: its driver code and its message.\<close>

definition err_code :: "exn \<Rightarrow> string" where
  "err_code e = (case e of UniqueViolation \<Rightarrow> ''SQLITE_CONSTRAINT_UNIQUE'' | _ \<Rightarrow> [])"

definition is_unique_violation :: "exn \<Rightarrow> bool" where
  "is_unique_violation e \<longleftrightarrow>
     err_code e = ''23505'' \<or> starts_with ''SQLITE_CONSTRAINT'' (err_code e) \<or>
     contains_ci ''unique constraint failed'' (err_message e) \<or>
     contains_ci ''duplicate key value'' (err_message e)"

definition is_hex :: "char \<Rightarrow> bool" where
  "is_hex c \<longleftrightarrow> hex_val c \<noteq> None"

definition signing_key :: "kernel \<Rightarrow> exn + string option" where
  "signing_key K =
     (if k_signing_env K = [] then Inr None
      else if length (k_signing_env K) \<noteq> 64 \<or> \<not> list_all is_hex (k_signing_env K) then
        Inl (LedgerIntegrityError
          ''ENRAHITU_LEDGER_SIGNING_KEY must be a 64-char hex ed25519 seed (32 bytes)'')
      else Inr (Some (k_signing_env K)))"

section \<open>The store\<close>

text \<open>What survives a crash.\<close>

record row = stored_record +
  r_seq :: nat

record disk =
  d_table :: bool
  d_index :: bool
  d_sigcol :: bool
  d_meta :: bool
  d_rows :: "row list"
  d_next :: nat
  d_dirty :: "bool option"

text \<open>What another process does to the store between two calls of this one.\<close>

datatype rival =
    RivalAppend string string string string   \<comment> \<open>its model hash, and a record's id, time and payload\<close>
  | RivalDirty bool

record env_event =
  v_rivals :: "rival list"
  v_fault :: "exn option"

text \<open>The appends waiting in the queue of \<open>enqueue\<close>.\<close>

datatype task =
    TaskInit
  | TaskAppend effect_decision "string option"
  | TaskDenial effect_decision string

record ledger =
  l_disk :: disk
  l_env :: "env_event list"
  l_log :: "disk list"                \<comment> \<open>the durable states so far, newest first\<close>
  l_initialized :: bool
  l_bracket :: bool
  l_pending :: nat
  l_queue :: "task list"
  l_issued :: nat
  l_errors :: "string list"           \<comment> \<open>\<open>console.error\<close>\<close>

definition head_of :: "disk \<Rightarrow> row option" where
  "head_of d = (if d_rows d = [] then None else Some (last (d_rows d)))"

definition parent_of :: "string \<Rightarrow> row option \<Rightarrow> string" where
  "parent_of anchor h = (case h of None \<Rightarrow> anchor | Some r \<Rightarrow> r_hash r)"

definition mk_row :: "ledger_record \<Rightarrow> string option \<Rightarrow> nat \<Rightarrow> row" where
  "mk_row rec sig n =
     \<lparr>r_id = r_id rec, r_ts = r_ts rec, r_prev = r_prev rec, r_hash = r_hash rec,
      r_payload = r_payload rec, r_sig = sig, r_seq = n\<rparr>"

text \<open>
  The insert under the unique parent index. A refused insert leaves the table as it was; on
  Postgres it consumes a sequence value all the same.
\<close>

definition insert_row :: "bool \<Rightarrow> ledger_record \<Rightarrow> string option \<Rightarrow> disk \<Rightarrow> (exn + unit) \<times> disk" where
  "insert_row pg rec sig d =
     (if d_index d \<and> r_prev rec \<in> set (map r_prev (d_rows d))
      then (Inl UniqueViolation, if pg then d\<lparr>d_next := d_next d + 1\<rparr> else d)
      else (Inr (), d\<lparr>d_rows := d_rows d @ [mk_row rec sig (d_next d)], d_next := d_next d + 1\<rparr>))"

definition rival_step :: "kernel \<Rightarrow> rival \<Rightarrow> disk \<Rightarrow> disk" where
  "rival_step K v d =
     (case v of
        RivalAppend anchor i t p \<Rightarrow>
          snd (insert_row (k_postgres K) (k_build K (parent_of anchor (head_of d)) i t p) None d)
      | RivalDirty b \<Rightarrow> (if d_dirty d = None then d else d\<lparr>d_dirty := Some b\<rparr>))"

text \<open>One call on the driver: the rivals first, then the fault or the operation.\<close>

definition interfere :: "kernel \<Rightarrow> ledger \<Rightarrow> ledger" where
  "interfere K w =
     (case l_env w of
        [] \<Rightarrow> w
      | ev # evs \<Rightarrow> w\<lparr>l_disk := fold (rival_step K) (v_rivals ev) (l_disk w), l_env := evs\<rparr>)"

definition next_fault :: "ledger \<Rightarrow> exn option" where
  "next_fault w = (case l_env w of [] \<Rightarrow> None | ev # _ \<Rightarrow> v_fault ev)"

definition db_call :: "kernel \<Rightarrow> (disk \<Rightarrow> (exn + 'a) \<times> disk) \<Rightarrow> (ledger, 'a) io" where
  "db_call K op w =
     (let u = interfere K w in
      case next_fault w of
        Some e \<Rightarrow> (Inl e, u)
      | None \<Rightarrow>
          (case op (l_disk u) of (r, d) \<Rightarrow> (r, u\<lparr>l_disk := d, l_log := d # l_log u\<rparr>)))"

definition db_read :: "kernel \<Rightarrow> (disk \<Rightarrow> 'a) \<Rightarrow> (ledger, 'a) io" where
  "db_read K f = db_call K (\<lambda>d. (Inr (f d), d))"

definition db_write :: "kernel \<Rightarrow> (disk \<Rightarrow> disk) \<Rightarrow> (ledger, unit) io" where
  "db_write K f = db_call K (\<lambda>d. (Inr (), f d))"

section \<open>Appending\<close>

definition CAS_ATTEMPTS :: nat where
  "CAS_ATTEMPTS = 3"

definition record_name :: "string \<Rightarrow> string option \<Rightarrow> row option \<Rightarrow> string" where
  "record_name prefix explicit h =
     (case explicit of
        Some i \<Rightarrow> i
      | None \<Rightarrow> prefix @ ''-'' @ pad_zero 6 (show_nat (case h of None \<Rightarrow> 1 | Some r \<Rightarrow> r_seq r + 1)))"

definition own_record ::
  "kernel \<Rightarrow> string \<Rightarrow> effect_decision \<Rightarrow> string option \<Rightarrow> row option \<Rightarrow> ledger_record" where
  "own_record K prefix e explicit h =
     k_build K (parent_of (k_model K) h) (record_name prefix explicit h) (k_now K)
       (show_js (decision_js e))"

definition own_signature :: "kernel \<Rightarrow> string option \<Rightarrow> ledger_record \<Rightarrow> string option" where
  "own_signature K key rec =
     (case key of None \<Rightarrow> None | Some s \<Rightarrow> Some (k_sign K s (r_hash rec)))"

text \<open>One attempt: the head read and the insert of one transaction.\<close>

definition append_txn ::
  "kernel \<Rightarrow> string \<Rightarrow> effect_decision \<Rightarrow> string option \<Rightarrow> string option \<Rightarrow> (ledger, unit) io" where
  "append_txn K prefix e explicit key =
     bnd (db_read K head_of) (\<lambda>h.
       let rec = own_record K prefix e explicit h
       in db_call K (insert_row (k_postgres K) rec (own_signature K key rec)))"

definition cas_lost :: "string \<Rightarrow> string option \<Rightarrow> exn" where
  "cas_lost prefix explicit = LedgerIntegrityError
     (''append lost the head CAS '' @ show_nat CAS_ATTEMPTS @ '' times ('' @
      (case explicit of None \<Rightarrow> prefix | Some i \<Rightarrow> i) @ ''): another writer is racing this chain'')"

text \<open>The loop, on the number of attempts that are left after this one.\<close>

primrec append_loop ::
  "kernel \<Rightarrow> string \<Rightarrow> effect_decision \<Rightarrow> string option \<Rightarrow> string option \<Rightarrow> nat \<Rightarrow> (ledger, unit) io" where
  "append_loop K prefix e explicit key 0 =
     catch (append_txn K prefix e explicit key)
       (\<lambda>x. if is_unique_violation x then throw (cas_lost prefix explicit) else throw x)"
| "append_loop K prefix e explicit key (Suc k) =
     catch (append_txn K prefix e explicit key)
       (\<lambda>x. if is_unique_violation x then append_loop K prefix e explicit key k else throw x)"

definition append_unlocked ::
  "kernel \<Rightarrow> string \<Rightarrow> effect_decision \<Rightarrow> string option \<Rightarrow> (ledger, unit) io" where
  "append_unlocked K prefix e explicit =
     bnd (lift (signing_key K)) (\<lambda>key. append_loop K prefix e explicit key (CAS_ATTEMPTS - 1))"

section \<open>Verifying\<close>

definition to_native :: "stored_record \<Rightarrow> ledger_record" where
  "to_native r = ledger_record.truncate r"

definition fetch_stored :: "disk \<Rightarrow> stored_record list" where
  "fetch_stored d = map stored_record.truncate (d_rows d)"

text \<open>The suffix pass: the error, or \<open>None\<close> when it is satisfied.\<close>

fun verify_signatures :: "kernel \<Rightarrow> string \<Rightarrow> bool \<Rightarrow> stored_record list \<Rightarrow> string option" where
  "verify_signatures K key seen [] = None"
| "verify_signatures K key seen (r # rs) =
     (case r_sig r of
        None \<Rightarrow>
          (if seen then Some (''record '' @ r_id r @ '' is unsigned after signing activation'')
           else verify_signatures K key seen rs)
      | Some s \<Rightarrow>
          (if k_sig_ok K key (r_hash r) s then verify_signatures K key True rs
           else Some (''record '' @ r_id r @ '' carries an invalid signature'')))"

definition verify_stored :: "kernel \<Rightarrow> (ledger, string option) io" where
  "verify_stored K =
     bnd (db_read K fetch_stored) (\<lambda>stored.
       case k_verify_chain K (map to_native stored) of
         Some err \<Rightarrow> ret (Some err)
       | None \<Rightarrow>
           bnd (lift (signing_key K)) (\<lambda>key.
             case key of
               None \<Rightarrow> ret None
             | Some s \<Rightarrow> ret (verify_signatures K s False stored)))"

section \<open>Opening the ledger\<close>

definition ensure_signature_column :: "kernel \<Rightarrow> (ledger, unit) io" where
  "ensure_signature_column K =
     (if k_postgres K then db_write K (\<lambda>d. d\<lparr>d_sigcol := True\<rparr>)
      else catch
        (db_call K (\<lambda>d. if d_sigcol d then (Inl (Failure ''duplicate column name: signature''), d)
                        else (Inr (), d\<lparr>d_sigcol := True\<rparr>)))
        (\<lambda>x. if contains_ci ''duplicate column'' (err_message x) then ret () else throw x))"

definition ensure_parent_index :: "kernel \<Rightarrow> (ledger, unit) io" where
  "ensure_parent_index K =
     catch
       (db_call K (\<lambda>d. if d_index d then (Inr (), d)
                       else if distinct (map r_prev (d_rows d)) then (Inr (), d\<lparr>d_index := True\<rparr>)
                       else (Inl UniqueViolation, d)))
       (\<lambda>x. if is_unique_violation x then
              throw (LedgerIntegrityError
                (''the parent-uniqueness index cannot build: kernel_decisions already carries a fork ('' @
                 err_message x @ '')''))
            else throw x)"

text \<open>\<open>record_id LIKE 'genesis-%'\<close>, newest first; on SQLite \<open>LIKE\<close> folds the case.\<close>

definition is_genesis :: "bool \<Rightarrow> row \<Rightarrow> bool" where
  "is_genesis pg r \<longleftrightarrow> starts_with ''genesis-'' (if pg then r_id r else to_lower (r_id r))"

definition latest_genesis :: "bool \<Rightarrow> disk \<Rightarrow> js" where
  "latest_genesis pg d =
     (case rev (filter (is_genesis pg) (d_rows d)) of [] \<Rightarrow> JUndef | r # _ \<Rightarrow> r_payload r)"

definition set_dirty :: "bool \<Rightarrow> disk \<Rightarrow> disk" where
  "set_dirty b d = (if d_dirty d = None then d else d\<lparr>d_dirty := Some b\<rparr>)"

definition genesis_decision :: "kernel \<Rightarrow> effect_decision" where
  "genesis_decision K =
     (case k_genesis K of (model, gate, version) \<Rightarrow>
        \<lparr>e_model = model, e_gate = gate, e_service = ''kernel'',
         e_capability = \<lparr>c_kind = ''ledger.append'', c_resource = ''*''\<rparr>, e_context = model,
         e_outcome = ''allow'', e_reason = ''genesis:'' @ version, e_checks = []\<rparr>)"

definition marker_decision :: "kernel \<Rightarrow> effect_decision" where
  "marker_decision K =
     \<lparr>e_model = k_model K, e_gate = k_gate K, e_service = ''kernel'',
      e_capability = \<lparr>c_kind = ''ledger.append'', c_resource = ''*''\<rparr>,
      e_context = context_hash K (JObj [(''marker'', JStr ''crash-window'')]),
      e_outcome = ''unknown'',
      e_reason = ''crash-window: denial appends from the previous process may be lost'',
      e_checks = []\<rparr>"

definition create_meta :: "kernel \<Rightarrow> (ledger, bool) io" where
  "create_meta K =
     bnd (db_read K d_dirty) (\<lambda>meta.
       case meta of
         None \<Rightarrow> seq (db_write K (\<lambda>d. d\<lparr>d_dirty := Some False\<rparr>)) (ret False)
       | Some b \<Rightarrow> ret b)"

definition ensure_genesis :: "kernel \<Rightarrow> (ledger, unit) io" where
  "ensure_genesis K =
     bnd (db_read K (latest_genesis (k_postgres K))) (\<lambda>head.
       if js_get head ''modelHash'' \<noteq> JStr (k_model K)
       then append_unlocked K ''genesis'' (genesis_decision K) None
       else ret ())"

definition mark_crash :: "kernel \<Rightarrow> bool \<Rightarrow> (ledger, unit) io" where
  "mark_crash K was_dirty =
     (if was_dirty
      then seq (append_unlocked K ''marker'' (marker_decision K) None)
               (db_write K (set_dirty False))
      else ret ())"

definition check_chain :: "kernel \<Rightarrow> (ledger, unit) io" where
  "check_chain K =
     bnd (verify_stored K) (\<lambda>verdict.
       case verdict of
         Some err \<Rightarrow> throw (LedgerIntegrityError (''chain verification failed at init: '' @ err))
       | None \<Rightarrow> modify (\<lambda>w. w\<lparr>l_initialized := True\<rparr>))"

definition init_body :: "kernel \<Rightarrow> (ledger, unit) io" where
  "init_body K =
     seq (db_write K (\<lambda>d. d\<lparr>d_table := True\<rparr>))
    (seq (ensure_parent_index K)
    (seq (ensure_signature_column K)
    (seq (db_write K (\<lambda>d. d\<lparr>d_meta := True\<rparr>))
    (bnd (create_meta K) (\<lambda>was_dirty.
     seq (ensure_genesis K)
    (seq (mark_crash K was_dirty)
         (check_chain K)))))))"

definition init_unlocked :: "kernel \<Rightarrow> (ledger, unit) io" where
  "init_unlocked K = bnd (gets l_initialized) (\<lambda>done. if done then ret () else init_body K)"

definition escalate :: "kernel \<Rightarrow> exn \<Rightarrow> (ledger, unit) io" where
  "escalate K x =
     (case x of
        LedgerIntegrityError m \<Rightarrow>
          if k_under_test K then throw x
          else seq (modify (\<lambda>w. w\<lparr>l_errors := l_errors w @
                      [''kernel decision ledger: fatal integrity failure: '' @ m]\<rparr>))
                   (throw (ProcessExit m))
      | _ \<Rightarrow> throw x)"

definition init_guarded :: "kernel \<Rightarrow> (ledger, unit) io" where
  "init_guarded K = catch (init_unlocked K) (escalate K)"

section \<open>The queue\<close>

definition enqueue :: "task \<Rightarrow> (ledger, unit) io" where
  "enqueue t = modify (\<lambda>w. w\<lparr>l_queue := l_queue w @ [t]\<rparr>)"

definition open_bracket :: "kernel \<Rightarrow> (ledger, unit) io" where
  "open_bracket K =
     bnd (gets l_bracket) (\<lambda>b.
       if b then ret ()
       else seq (db_write K (set_dirty True)) (modify (\<lambda>w. w\<lparr>l_bracket := True\<rparr>)))"

definition close_bracket :: "kernel \<Rightarrow> (ledger, unit) io" where
  "close_bracket K =
     seq (modify (\<lambda>w. w\<lparr>l_pending := l_pending w - 1\<rparr>))
       (bnd (gets (\<lambda>w. l_pending w = 0 \<and> l_bracket w)) (\<lambda>c.
          if c then seq (db_write K (set_dirty False)) (modify (\<lambda>w. w\<lparr>l_bracket := False\<rparr>))
          else ret ()))"

definition denial_task :: "kernel \<Rightarrow> effect_decision \<Rightarrow> string \<Rightarrow> (ledger, unit) io" where
  "denial_task K e i =
     finally_do
       (seq (init_guarded K) (seq (open_bracket K) (append_unlocked K ''decision'' e (Some i))))
       (close_bracket K)"

definition append_task :: "kernel \<Rightarrow> effect_decision \<Rightarrow> string option \<Rightarrow> (ledger, unit) io" where
  "append_task K e explicit = seq (init_guarded K) (append_unlocked K ''decision'' e explicit)"

text \<open>A failed denial append is printed; the failure of any other task is its own caller's.\<close>

fun run_task :: "kernel \<Rightarrow> task \<Rightarrow> (ledger, unit) io" where
  "run_task K TaskInit = catch (init_guarded K) (\<lambda>_. ret ())"
| "run_task K (TaskAppend e explicit) = catch (append_task K e explicit) (\<lambda>_. ret ())"
| "run_task K (TaskDenial e i) =
     catch (denial_task K e i)
       (\<lambda>x. modify (\<lambda>w. w\<lparr>l_errors := l_errors w @
          [''kernel decision ledger: denial append failed for '' @ i @ '': '' @ err_message x]\<rparr>))"

definition run_queue :: "kernel \<Rightarrow> (ledger, unit) io" where
  "run_queue K =
     bnd (gets l_queue) (\<lambda>ts. seq (modify (\<lambda>w. w\<lparr>l_queue := []\<rparr>)) (each (run_task K) ts))"

text \<open>An awaited operation waits for the tasks before it.\<close>

definition ensure_decision_ledger :: "kernel \<Rightarrow> (ledger, unit) io" where
  "ensure_decision_ledger K = seq (run_queue K) (init_guarded K)"

definition append_decision :: "kernel \<Rightarrow> effect_decision \<Rightarrow> string option \<Rightarrow> (ledger, unit) io" where
  "append_decision K e explicit = seq (run_queue K) (append_task K e explicit)"

definition new_denial_id :: "kernel \<Rightarrow> nat \<Rightarrow> string" where
  "new_denial_id K n = ''decision-'' @ show_radix 36 (k_now_ms K) @ ''-'' @ k_entropy K n"

definition denial_decision ::
  "kernel \<Rightarrow> string \<Rightarrow> capability \<Rightarrow> js option \<Rightarrow> adjudication \<Rightarrow> effect_decision" where
  "denial_decision K service cap attributes result =
     \<lparr>e_model = a_model result, e_gate = a_config result, e_service = service,
      e_capability = cap,
      e_context = context_hash K (JObj
        [(''attributes'', (case attributes of None \<Rightarrow> JObj [] | Some a \<Rightarrow> a)),
         (''capability'', capability_js cap), (''service'', JStr service)]),
      e_outcome = (if a_outcome result = ''degrade'' then ''degrade'' else ''deny''),
      e_reason = a_reason result, e_checks = a_checks result\<rparr>"

definition record_denial ::
  "kernel \<Rightarrow> string \<Rightarrow> capability \<Rightarrow> js option \<Rightarrow> adjudication \<Rightarrow> (ledger, string) io" where
  "record_denial K service cap attributes result =
     bnd (gets l_issued) (\<lambda>n.
       let i = new_denial_id K n in
       seq (modify (\<lambda>w. w\<lparr>l_issued := n + 1, l_pending := l_pending w + 1\<rparr>))
      (seq (enqueue (TaskDenial (denial_decision K service cap attributes result) i))
           (ret i)))"

definition decision_records :: "kernel \<Rightarrow> (ledger, ledger_record list) io" where
  "decision_records K =
     seq (ensure_decision_ledger K)
       (bnd (db_read K fetch_stored) (\<lambda>rs. ret (map to_native rs)))"

definition verify_decision_chain :: "kernel \<Rightarrow> (ledger, string option) io" where
  "verify_decision_chain K = seq (ensure_decision_ledger K) (verify_stored K)"

text \<open>A crash keeps the disk and nothing else.\<close>

definition boot_ledger :: "disk \<Rightarrow> env_event list \<Rightarrow> ledger" where
  "boot_ledger d evs =
     \<lparr>l_disk = d, l_env = evs, l_log = [], l_initialized = False, l_bracket = False,
      l_pending = 0, l_queue = [], l_issued = 0, l_errors = []\<rparr>"

definition empty_disk :: disk where
  "empty_disk = \<lparr>d_table = False, d_index = False, d_sigcol = False, d_meta = False,
     d_rows = [], d_next = 1, d_dirty = None\<rparr>"

end
