(* ===== verification/Decision_Chain.thy ===== *)
theory Decision_Chain
  imports Decisions
begin

text \<open>
  The chain of the decision ledger stays one line whatever other processes do between this
  process's calls (\<open>chain_inv\<close>), an append either adds its one record at the head or
  adds nothing, and it gives up only after losing the head three times. The hypotheses on the
  native kernel are named: \<open>builds_links\<close> says a built record names the parent it was
  given.
\<close>

section \<open>Linear chains\<close>

fun linked :: "string \<Rightarrow> row list \<Rightarrow> bool" where
  "linked p [] = True"
| "linked p (r # rs) = (r_prev r = p \<and> linked (r_hash r) rs)"

definition builds_links :: "kernel \<Rightarrow> bool" where
  "builds_links K \<longleftrightarrow> (\<forall>p i t b. r_prev (k_build K p i t b) = p)"

fun rival_anchored :: "string \<Rightarrow> rival \<Rightarrow> bool" where
  "rival_anchored A (RivalAppend anchor _ _ _) = (anchor = A)"
| "rival_anchored A (RivalDirty _) = True"

definition env_anchored :: "string \<Rightarrow> env_event list \<Rightarrow> bool" where
  "env_anchored A evs = list_all (\<lambda>ev. list_all (rival_anchored A) (v_rivals ev)) evs"

abbreviation rows_of :: "ledger \<Rightarrow> row list" where
  "rows_of w \<equiv> d_rows (l_disk w)"

text \<open>
  A chain anchored at \<open>A\<close>; while it is empty every writer must agree on the anchor.
\<close>

definition chain_ok :: "kernel \<Rightarrow> string \<Rightarrow> ledger \<Rightarrow> bool" where
  "chain_ok K A w \<longleftrightarrow>
     linked A (rows_of w) \<and>
     (rows_of w = [] \<longrightarrow> k_model K = A \<and> env_anchored A (l_env w))"

definition chain_inv :: "kernel \<Rightarrow> string \<Rightarrow> ledger \<Rightarrow> bool" where
  "chain_inv K A w \<longleftrightarrow> d_index (l_disk w) \<and> chain_ok K A w"

lemma linked_snoc:
  "linked A (rs @ [r]) \<longleftrightarrow> linked A rs \<and> r_prev r = (if rs = [] then A else r_hash (last rs))"
  by (induction rs arbitrary: A) auto

lemma linked_append_head:
  "linked A (rs @ s # ss) \<Longrightarrow> r_prev s = (if rs = [] then A else r_hash (last rs))"
  by (induction rs arbitrary: A) auto

lemma parent_of_head [simp]:
  "parent_of A (head_of d) = (if d_rows d = [] then A else r_hash (last (d_rows d)))"
  by (simp add: parent_of_def head_of_def)

lemma linked_insert_at_head:
  assumes "linked A (d_rows d)" and "r_prev rec = (if d_rows d = [] then A else r_hash (last (d_rows d)))"
  shows "linked A (d_rows (snd (insert_row pg rec sig d)))"
  using assms by (auto simp: insert_row_def linked_snoc mk_row_def)

lemma insert_row_index [simp]: "d_index (snd (insert_row pg rec sig d)) = d_index d"
  by (simp add: insert_row_def)

lemma rival_step_index [simp]: "d_index (rival_step K v d) = d_index d"
  by (cases v) (simp_all add: rival_step_def)

lemma fold_rival_index [simp]: "d_index (fold (rival_step K) vs d) = d_index d"
  by (induction vs arbitrary: d) simp_all

lemma insert_row_grows: "\<exists>ys. d_rows (snd (insert_row pg rec sig d)) = d_rows d @ ys"
  by (auto simp: insert_row_def)

lemma rival_step_grows: "\<exists>ys. d_rows (rival_step K v d) = d_rows d @ ys"
  by (cases v) (use insert_row_grows in \<open>auto simp: rival_step_def\<close>)

lemma fold_rival_grows: "\<exists>ys. d_rows (fold (rival_step K) vs d) = d_rows d @ ys"
proof (induction vs arbitrary: d)
  case (Cons v vs)
  from rival_step_grows [of K v d] Cons [of "rival_step K v d"] show ?case by auto
qed simp

lemma rival_step_linked:
  assumes "builds_links K" and "linked A (d_rows d)" and "d_rows d = [] \<Longrightarrow> rival_anchored A v"
  shows "linked A (d_rows (rival_step K v d))"
proof (cases v)
  case (RivalAppend anchor i t p)
  have "r_prev (k_build K (parent_of anchor (head_of d)) i t p) = parent_of anchor (head_of d)"
    using assms(1) by (simp add: builds_links_def)
  with assms(2,3) RivalAppend show ?thesis
    by (auto simp: rival_step_def intro!: linked_insert_at_head)
qed (use assms in \<open>simp add: rival_step_def\<close>)

lemma fold_rival_linked:
  "builds_links K \<Longrightarrow> linked A (d_rows d) \<Longrightarrow> (d_rows d = [] \<Longrightarrow> list_all (rival_anchored A) vs) \<Longrightarrow>
     linked A (d_rows (fold (rival_step K) vs d))"
proof (induction vs arbitrary: d)
  case (Cons v vs)
  have "linked A (d_rows (rival_step K v d))"
    using Cons.prems by (intro rival_step_linked) auto
  moreover have "d_rows (rival_step K v d) = [] \<Longrightarrow> list_all (rival_anchored A) vs"
    using rival_step_grows [of K v d] Cons.prems(3) by auto
  ultimately show ?case using Cons by simp
qed simp

lemma interfere_grows: "\<exists>ys. rows_of (interfere K w) = rows_of w @ ys"
  using fold_rival_grows by (auto simp: interfere_def split: list.splits)

lemma interfere_index [simp]: "d_index (l_disk (interfere K w)) = d_index (l_disk w)"
  by (simp add: interfere_def split: list.splits)

lemma interfere_chain_ok:
  assumes "builds_links K" and "chain_ok K A w"
  shows "chain_ok K A (interfere K w)"
proof (cases "l_env w")
  case Nil
  with assms show ?thesis by (simp add: interfere_def)
next
  case (Cons ev evs)
  let ?d = "fold (rival_step K) (v_rivals ev) (l_disk w)"
  have "linked A (d_rows ?d)"
    using assms Cons by (intro fold_rival_linked) (auto simp: chain_ok_def env_anchored_def)
  moreover have "d_rows ?d = [] \<Longrightarrow> rows_of w = []"
    using fold_rival_grows [of K "v_rivals ev" "l_disk w"] by auto
  ultimately show ?thesis
    using assms(2) Cons by (auto simp: chain_ok_def interfere_def env_anchored_def)
qed

lemma interfere_chain_inv:
  "builds_links K \<Longrightarrow> chain_inv K A w \<Longrightarrow> chain_inv K A (interfere K w)"
  by (simp add: chain_inv_def interfere_chain_ok)

text \<open>A call that leaves the rows and the index alone keeps the chain.\<close>

lemma db_call_chain_ok:
  assumes "builds_links K" and "\<And>d. d_rows (snd (op d)) = d_rows d" and "chain_ok K A w"
  shows "chain_ok K A (snd (db_call K op w))"
  using interfere_chain_ok [OF assms(1,3)] assms(2)
  by (auto simp: db_call_def chain_ok_def Let_def split: option.splits prod.splits)
     (metis snd_conv)+

lemma db_call_index:
  "(\<And>d. d_index d \<Longrightarrow> d_index (snd (op d))) \<Longrightarrow> d_index (l_disk w) \<Longrightarrow>
     d_index (l_disk (snd (db_call K op w)))"
  by (auto simp: db_call_def Let_def split: option.splits prod.splits) (metis interfere_index snd_conv)

section \<open>What the rivals added\<close>

definition env_rivals :: "env_event list \<Rightarrow> rival set" where
  "env_rivals evs = (\<Union>ev \<in> set evs. set (v_rivals ev))"

text \<open>A row that some rival of the given ones inserted.\<close>

definition rival_row :: "kernel \<Rightarrow> rival set \<Rightarrow> row \<Rightarrow> bool" where
  "rival_row K V y \<longleftrightarrow>
     (\<exists>a i t b p n. RivalAppend a i t b \<in> V \<and> y = mk_row (k_build K p i t b) None n)"

text \<open>From one world to the other the table only gained rows of rivals.\<close>

definition rivals_only :: "kernel \<Rightarrow> ledger \<Rightarrow> ledger \<Rightarrow> bool" where
  "rivals_only K w w' \<longleftrightarrow>
     env_rivals (l_env w') \<subseteq> env_rivals (l_env w) \<and>
     (\<exists>ys. rows_of w' = rows_of w @ ys \<and> (\<forall>y \<in> set ys. rival_row K (env_rivals (l_env w)) y))"

lemma rival_row_mono: "rival_row K V y \<Longrightarrow> V \<subseteq> W \<Longrightarrow> rival_row K W y"
  by (fastforce simp: rival_row_def)

interpretation rivals: step_order "rivals_only K" for K
proof
  show "rivals_only K w w" for w by (simp add: rivals_only_def)
next
  fix u v w
  assume uv: "rivals_only K u v" and vw: "rivals_only K v w"
  from uv obtain ys where ys: "rows_of v = rows_of u @ ys" "\<forall>y \<in> set ys. rival_row K (env_rivals (l_env u)) y"
    by (auto simp: rivals_only_def)
  from vw obtain zs where zs: "rows_of w = rows_of v @ zs" "\<forall>y \<in> set zs. rival_row K (env_rivals (l_env v)) y"
    by (auto simp: rivals_only_def)
  have "\<forall>y \<in> set zs. rival_row K (env_rivals (l_env u)) y"
    using zs(2) uv rival_row_mono unfolding rivals_only_def by blast
  with ys zs uv vw show "rivals_only K u w"
    by (auto simp: rivals_only_def)
qed

lemma rival_step_rows:
  "\<exists>ys. d_rows (rival_step K v d) = d_rows d @ ys \<and> (\<forall>y \<in> set ys. rival_row K {v} y)"
  by (cases v) (auto simp: rival_step_def insert_row_def rival_row_def)

lemma fold_rival_rows:
  "\<exists>ys. d_rows (fold (rival_step K) vs d) = d_rows d @ ys \<and> (\<forall>y \<in> set ys. rival_row K (set vs) y)"
proof (induction vs arbitrary: d)
  case (Cons v vs)
  obtain ys where ys: "d_rows (rival_step K v d) = d_rows d @ ys" "\<forall>y \<in> set ys. rival_row K {v} y"
    using rival_step_rows by blast
  obtain zs where zs: "d_rows (fold (rival_step K) vs (rival_step K v d)) = d_rows (rival_step K v d) @ zs"
    "\<forall>y \<in> set zs. rival_row K (set vs) y"
    using Cons by blast
  from ys zs have "d_rows (fold (rival_step K) (v # vs) d) = d_rows d @ (ys @ zs)" by simp
  moreover have "\<forall>y \<in> set (ys @ zs). rival_row K (set (v # vs)) y"
    using ys zs rival_row_mono [of K _ _ "set (v # vs)"] by (metis UnE insert_subset list.set(2) order_refl set_append set_subset_Cons subsetI singletonD list.set_intros(1) rival_row_mono)
  ultimately show ?case by blast
qed simp

lemma interfere_rivals_only: "rivals_only K w (interfere K w)"
proof (cases "l_env w")
  case Nil
  then show ?thesis by (simp add: interfere_def rivals.step_refl)
next
  case (Cons ev evs)
  obtain ys where ys: "d_rows (fold (rival_step K) (v_rivals ev) (l_disk w)) = rows_of w @ ys"
    "\<forall>y \<in> set ys. rival_row K (set (v_rivals ev)) y"
    using fold_rival_rows by blast
  have "\<forall>y \<in> set ys. rival_row K (env_rivals (ev # evs)) y"
    using ys(2) by (auto intro: rival_row_mono simp: env_rivals_def)
  with ys Cons show ?thesis
    by (auto simp: rivals_only_def interfere_def env_rivals_def)
qed

lemma rivals_only_frame:
  "rivals_only K w u \<Longrightarrow> d_rows (l_disk u') = rows_of u \<Longrightarrow> l_env u' = l_env u \<Longrightarrow> rivals_only K w u'"
  by (simp add: rivals_only_def)

lemma db_call_rivals_only:
  assumes "\<And>d. d_rows (snd (op d)) = d_rows d"
  shows "along (rivals_only K) (db_call K op)"
proof (rule alongI)
  fix w
  have "l_env (snd (db_call K op w)) = l_env (interfere K w)"
    "d_rows (l_disk (snd (db_call K op w))) = rows_of (interfere K w)"
    using assms by (auto simp: db_call_def Let_def split: option.splits prod.splits) (metis snd_conv)
  then show "rivals_only K w (snd (db_call K op w))"
    using rivals_only_frame interfere_rivals_only by metis
qed

section \<open>One append\<close>

text \<open>The table gained rows of rivals and then, at the head, this process's own record.\<close>

definition appended ::
  "kernel \<Rightarrow> string \<Rightarrow> effect_decision \<Rightarrow> string option \<Rightarrow> string option \<Rightarrow> ledger \<Rightarrow> ledger \<Rightarrow> bool" where
  "appended K prefix e explicit key w w' \<longleftrightarrow>
     (\<exists>u n. rivals_only K w u \<and> env_rivals (l_env w') \<subseteq> env_rivals (l_env w) \<and>
        rows_of w' = rows_of u @
          [let rec = own_record K prefix e explicit (head_of (l_disk u))
           in mk_row rec (own_signature K key rec) n])"

lemma appended_after_rivals:
  "rivals_only K w v \<Longrightarrow> appended K prefix e explicit key v w' \<Longrightarrow> appended K prefix e explicit key w w'"
  unfolding appended_def
  by (metis (no_types, lifting) rivals.step_trans rivals_only_def subset_trans)

lemma append_txn_run:
  "append_txn K prefix e explicit key w =
     (let u1 = interfere K w in
      case next_fault w of
        Some x \<Rightarrow> (Inl x, u1)
      | None \<Rightarrow>
          (let w1 = u1\<lparr>l_log := l_disk u1 # l_log u1\<rparr>; u2 = interfere K w1;
               rec = own_record K prefix e explicit (head_of (l_disk u1))
           in case next_fault w1 of
                Some x \<Rightarrow> (Inl x, u2)
              | None \<Rightarrow>
                  (case insert_row (k_postgres K) rec (own_signature K key rec) (l_disk u2) of
                     (r, d) \<Rightarrow> (r, u2\<lparr>l_disk := d, l_log := d # l_log u2\<rparr>))))"
  by (simp add: append_txn_def bnd_run db_read_def db_call_def Let_def split: option.splits)

text \<open>
  The heart of the compare-and-swap: when the insert is accepted, nothing was appended since
  the head was read.
\<close>

lemma insert_accepted_head:
  assumes "builds_links K" and inv: "chain_inv K A u" and later: "linked A (d_rows d)" "d_index d"
    and grown: "d_rows d = rows_of u @ ys" and anchor: "rows_of u = [] \<Longrightarrow> k_model K = A"
    and ok: "insert_row pg (own_record K prefix e explicit (head_of (l_disk u))) sig d = (Inr x, d')"
  shows "ys = []"
proof (rule ccontr)
  assume "ys \<noteq> []"
  then obtain z zs where ys: "ys = z # zs" by (cases ys) auto
  have "r_prev z = parent_of (k_model K) (head_of (l_disk u))"
    using linked_append_head [of A "rows_of u" z zs] later grown ys anchor by auto
  moreover have "r_prev (own_record K prefix e explicit (head_of (l_disk u))) =
      parent_of (k_model K) (head_of (l_disk u))"
    using assms(1) by (simp add: own_record_def builds_links_def)
  ultimately show False
    using ok later(2) grown ys by (auto simp: insert_row_def split: if_splits)
qed

lemma append_txn_result:
  assumes K: "builds_links K" and inv: "chain_inv K A w"
    and run: "append_txn K prefix e explicit key w = (r, w')"
  shows "chain_inv K A w' \<and>
    (case r of Inl _ \<Rightarrow> rivals_only K w w' | Inr _ \<Rightarrow> appended K prefix e explicit key w w')"
proof -
  define u1 where "u1 = interfere K w"
  define w1 where "w1 = u1\<lparr>l_log := l_disk u1 # l_log u1\<rparr>"
  define u2 where "u2 = interfere K w1"
  define rec where "rec = own_record K prefix e explicit (head_of (l_disk u1))"
  have i1: "chain_inv K A u1" using interfere_chain_inv [OF K inv] by (simp add: u1_def)
  then have "chain_inv K A w1" by (simp add: chain_inv_def chain_ok_def w1_def)
  then have i2: "chain_inv K A u2" using interfere_chain_inv [OF K] by (simp add: u2_def)
  have o1: "rivals_only K w u1" by (simp add: u1_def interfere_rivals_only)
  then have ow1: "rivals_only K w w1" by (rule rivals_only_frame) (simp_all add: w1_def)
  have o12: "rivals_only K w1 u2" by (simp add: u2_def interfere_rivals_only)
  then have o2: "rivals_only K w u2" using ow1 rivals.step_trans by blast
  note run' = run [unfolded append_txn_run Let_def, folded u1_def, folded w1_def, folded u2_def, folded rec_def]
  show ?thesis
  proof (cases "next_fault w")
    case (Some x)
    with run' i1 o1 show ?thesis by auto
  next
    case None
    show ?thesis
    proof (cases "next_fault w1")
      case (Some x)
      with run' None i2 o2 show ?thesis by auto
    next
      case no2: None
      obtain r2 d2 where ins: "insert_row (k_postgres K) rec (own_signature K key rec) (l_disk u2) = (r2, d2)"
        by fastforce
      with run' None no2 have r: "r = r2" and w': "w' = u2\<lparr>l_disk := d2, l_log := d2 # l_log u2\<rparr>"
        by simp_all
      show ?thesis
      proof (cases r2)
        case (Inl x)
        with ins have "d_rows d2 = rows_of u2" "d_index d2 = d_index (l_disk u2)"
          by (auto simp: insert_row_def split: if_splits)
        with i2 o2 Inl r w' show ?thesis
          by (auto simp: chain_inv_def chain_ok_def rivals_only_def)
      next
        case (Inr x)
        obtain ys where ys: "rows_of u2 = rows_of u1 @ ys"
          using o12 by (auto simp: rivals_only_def w1_def)
        have anchor: "rows_of u1 = [] \<Longrightarrow> k_model K = A"
          using i1 by (simp add: chain_inv_def chain_ok_def)
        have "ys = []"
          using i2 ins Inr ys anchor unfolding rec_def
          by (intro insert_accepted_head [OF K i1, of "l_disk u2" ys]) (auto simp: chain_inv_def chain_ok_def)
        with ys have same: "rows_of u2 = rows_of u1" by simp
        then have head: "head_of (l_disk u1) = head_of (l_disk u2)" by (simp add: head_of_def)
        have rows: "rows_of w' = rows_of u2 @ [mk_row rec (own_signature K key rec) (d_next (l_disk u2))]"
          using ins Inr w' by (auto simp: insert_row_def split: if_splits)
        then have app: "appended K prefix e explicit key w w'"
          using o2 w' unfolding appended_def rec_def head Let_def
          by (intro exI conjI) (auto simp: rivals_only_def)
        have "r_prev rec = (if rows_of u2 = [] then A else r_hash (last (rows_of u2)))"
          using K anchor same by (auto simp: rec_def own_record_def builds_links_def)
        then have "linked A (rows_of w')"
          using i2 rows by (auto simp: chain_inv_def chain_ok_def linked_snoc mk_row_def)
        moreover have "d_index (l_disk w')"
          using i2 w' ins Inr by (auto simp: chain_inv_def insert_row_def split: if_splits)
        ultimately have "chain_inv K A w'" using rows by (simp add: chain_inv_def chain_ok_def)
        with app Inr r show ?thesis by simp
      qed
    qed
  qed
qed

lemma append_loop_result:
  assumes K: "builds_links K"
  shows "chain_inv K A w \<Longrightarrow> append_loop K prefix e explicit key k w = (r, w') \<Longrightarrow>
    chain_inv K A w' \<and>
    (case r of Inl _ \<Rightarrow> rivals_only K w w' | Inr _ \<Rightarrow> appended K prefix e explicit key w w')"
proof (induction k arbitrary: w)
  case 0
  obtain s v where t: "append_txn K prefix e explicit key w = (s, v)" by fastforce
  from append_txn_result [OF K 0(1) t] 0(2) t show ?case
    by (auto simp: catch_run split: sum.splits if_splits)
next
  case (Suc k)
  obtain s v where t: "append_txn K prefix e explicit key w = (s, v)" by fastforce
  note res = append_txn_result [OF K Suc.prems(1) t]
  show ?case
  proof (cases "\<exists>x. s = Inl x \<and> \<not> exits x \<and> is_unique_violation x")
    case True
    then have v: "append_loop K prefix e explicit key k v = (r, w')" "rivals_only K w v" "chain_inv K A v"
      using Suc.prems(2) t res by (auto simp: catch_run split: sum.splits)
    from Suc.IH [OF v(3,1)] v(2) show ?thesis
      by (auto intro: rivals.step_trans appended_after_rivals split: sum.splits)
  next
    case False
    with Suc.prems(2) t res show ?thesis
      by (auto simp: catch_run split: sum.splits if_splits)
  qed
qed

lemma append_unlocked_result:
  assumes "builds_links K" and "chain_inv K A w" and "append_unlocked K prefix e explicit w = (r, w')"
  shows "chain_inv K A w'"
    and "r = Inl x \<Longrightarrow> rivals_only K w w'"
    and "r = Inr () \<Longrightarrow> \<exists>key. signing_key K = Inr key \<and> appended K prefix e explicit key w w'"
  using assms(3) append_loop_result [OF assms(1,2)] assms(2)
  by (auto simp: append_unlocked_def bnd_run rivals.step_refl split: sum.splits prod.splits; fastforce)+

section \<open>Every task keeps the chain\<close>

definition ledger_inv :: "kernel \<Rightarrow> string \<Rightarrow> ledger \<Rightarrow> bool" where
  "ledger_inv K A w \<longleftrightarrow> chain_ok K A w \<and> (l_initialized w \<longrightarrow> d_index (l_disk w))"

lemma chain_inv_ledger_inv: "chain_inv K A w \<Longrightarrow> ledger_inv K A w"
  by (simp add: chain_inv_def ledger_inv_def)

named_theorems keeps_chain \<open>programs that keep the chain\<close>

lemma db_call_keeps_ok [keeps_chain]:
  assumes "builds_links K" and "\<And>d. d_rows (snd (op d)) = d_rows d"
  shows "along (keeping (chain_ok K A)) (db_call K op)"
  using db_call_chain_ok [OF assms] by (auto simp: along_def keeping_def)

lemma db_call_keeps_inv:
  assumes "builds_links K" and "\<And>d. d_rows (snd (op d)) = d_rows d"
    and "\<And>d. d_index d \<Longrightarrow> d_index (snd (op d))"
  shows "along (keeping (chain_inv K A)) (db_call K op)"
  using db_call_chain_ok [OF assms(1,2)] db_call_index [OF assms(3)]
  by (auto simp: along_def keeping_def chain_inv_def)

lemma db_read_keeps_inv [keeps_chain]:
  "builds_links K \<Longrightarrow> along (keeping (chain_inv K A)) (db_read K f)"
  unfolding db_read_def by (rule db_call_keeps_inv) auto

lemma db_write_keeps_inv [keeps_chain]:
  "builds_links K \<Longrightarrow> (\<And>d. d_rows (f d) = d_rows d) \<Longrightarrow> (\<And>d. d_index (f d) = d_index d) \<Longrightarrow>
     along (keeping (chain_inv K A)) (db_write K f)"
  unfolding db_write_def by (rule db_call_keeps_inv) auto

lemma set_dirty_frame [simp]: "d_rows (set_dirty b d) = d_rows d" "d_index (set_dirty b d) = d_index d"
  by (simp_all add: set_dirty_def)

lemma append_unlocked_keeps_inv [keeps_chain]:
  assumes "builds_links K"
  shows "along (keeping (chain_inv K A)) (append_unlocked K prefix e explicit)"
  by (rule alongI) (metis append_unlocked_result(1) assms keeping_def prod.collapse)

lemma verify_stored_keeps_inv [keeps_chain]:
  "builds_links K \<Longrightarrow> along (keeping (chain_inv K A)) (verify_stored K)"
  unfolding verify_stored_def
  by (intro keep.along_bnd keep.along_option keep.along_ret keep.along_lift keeps_chain)

lemma check_chain_keeps_inv [keeps_chain]:
  "builds_links K \<Longrightarrow> along (keeping (chain_inv K A)) (check_chain K)"
  unfolding check_chain_def
  by (intro keep.along_bnd keep.along_option keep.along_throw keeps_chain)
     (auto simp: along_modify keeping_def chain_inv_def chain_ok_def)

lemma ensure_signature_column_keeps_inv [keeps_chain]:
  "builds_links K \<Longrightarrow> along (keeping (chain_inv K A)) (ensure_signature_column K)"
  unfolding ensure_signature_column_def
  by (intro keep.along_if keep.along_catch keep.along_ret keep.along_throw keeps_chain db_call_keeps_inv) auto

lemma create_meta_keeps_inv [keeps_chain]:
  "builds_links K \<Longrightarrow> along (keeping (chain_inv K A)) (create_meta K)"
  unfolding create_meta_def
  by (intro keep.along_bnd keep.along_option keep.along_ret keeps_chain) auto

lemma ensure_genesis_keeps_inv [keeps_chain]:
  "builds_links K \<Longrightarrow> along (keeping (chain_inv K A)) (ensure_genesis K)"
  unfolding ensure_genesis_def
  by (intro keep.along_bnd keep.along_if keep.along_ret keeps_chain)

lemma mark_crash_keeps_inv [keeps_chain]:
  "builds_links K \<Longrightarrow> along (keeping (chain_inv K A)) (mark_crash K b)"
  unfolding mark_crash_def
  by (intro keep.along_bnd keep.along_if keep.along_ret keeps_chain) auto

lemma open_bracket_keeps_inv [keeps_chain]:
  "builds_links K \<Longrightarrow> along (keeping (chain_inv K A)) (open_bracket K)"
  unfolding open_bracket_def
  by (intro keep.along_bnd keep.along_if keep.along_ret keep.along_gets keeps_chain)
     (auto simp: along_modify keeping_def chain_inv_def chain_ok_def)

text \<open>The steps after the index was built.\<close>

definition init_rest :: "kernel \<Rightarrow> (ledger, unit) io" where
  "init_rest K =
     seq (ensure_signature_column K)
    (seq (db_write K (\<lambda>d. d\<lparr>d_meta := True\<rparr>))
    (bnd (create_meta K) (\<lambda>was_dirty.
     seq (ensure_genesis K) (seq (mark_crash K was_dirty) (check_chain K)))))"

lemma init_body_rest:
  "init_body K = seq (db_write K (\<lambda>d. d\<lparr>d_table := True\<rparr>)) (seq (ensure_parent_index K) (init_rest K))"
  by (simp add: init_body_def init_rest_def)

lemma init_rest_keeps_inv:
  "builds_links K \<Longrightarrow> along (keeping (chain_inv K A)) (init_rest K)"
  unfolding init_rest_def by (intro keep.along_bnd keeps_chain) auto

lemma ensure_parent_index_keeps:
  assumes K: "builds_links K" and w: "chain_ok K A w" and run: "ensure_parent_index K w = (r, w')"
  shows "chain_ok K A w'" and "r = Inr () \<Longrightarrow> chain_inv K A w'"
proof -
  have "along (keeping (chain_ok K A)) (ensure_parent_index K)"
    unfolding ensure_parent_index_def
    by (intro keep.along_catch keep.along_if keep.along_throw db_call_keeps_ok K) auto
  from alongD [OF this run] w show ok: "chain_ok K A w'" by (simp add: keeping_def)
  assume "r = Inr ()"
  with run have "d_index (l_disk w')"
    by (auto simp: ensure_parent_index_def catch_run db_call_def Let_def
        split: prod.splits sum.splits option.splits if_splits)
  with ok show "chain_inv K A w'" by (simp add: chain_inv_def)
qed

lemma same_env_init: "l_initialized (snd (db_call K op w)) = l_initialized w"
  by (auto simp: db_call_def interfere_def Let_def split: option.splits prod.splits list.splits)

lemma ensure_parent_index_initialized: "l_initialized (snd (ensure_parent_index K w)) = l_initialized w"
proof -
  have keep: "db_call K op w = (r, v) \<Longrightarrow> l_initialized v = l_initialized w" for op and r :: "exn + unit" and v
    using same_env_init [of K op w] by simp
  show ?thesis
    by (auto simp: ensure_parent_index_def catch_run split: prod.splits sum.splits dest!: keep)
qed

lemma init_body_result:
  assumes K: "builds_links K" and w: "ledger_inv K A w" and new: "\<not> l_initialized w"
    and run: "init_body K w = (r, w')"
  shows "ledger_inv K A w'" and "r = Inr () \<Longrightarrow> chain_inv K A w'"
proof -
  obtain s1 v1 where t1: "db_write K (\<lambda>d. d\<lparr>d_table := True\<rparr>) w = (s1, v1)" by fastforce
  have v1: "chain_ok K A v1" "\<not> l_initialized v1"
    using db_call_chain_ok [OF K, of "\<lambda>d. (Inr (), d\<lparr>d_table := True\<rparr>)" A w] w new t1
      same_env_init [of K "\<lambda>d. (Inr (), d\<lparr>d_table := True\<rparr>)" w]
    by (auto simp: db_write_def ledger_inv_def)
  obtain s2 v2 where t2: "ensure_parent_index K v1 = (s2, v2)" by fastforce
  have v2: "chain_ok K A v2" "\<not> l_initialized v2" "s2 = Inr () \<Longrightarrow> chain_inv K A v2"
    using ensure_parent_index_keeps [OF K v1(1) t2] ensure_parent_index_initialized [of K v1] t2 v1 by auto
  have rest: "chain_inv K A v2 \<Longrightarrow> chain_inv K A (snd (init_rest K v2))"
    using init_rest_keeps_inv [OF K, of A] by (auto simp: along_def keeping_def)
  show "ledger_inv K A w'"
    using run v1 v2 rest t1 t2 chain_inv_ledger_inv
    by (auto simp: init_body_rest bnd_run ledger_inv_def split: sum.splits)
  assume "r = Inr ()"
  with run v1 v2 rest t1 t2 show "chain_inv K A w'"
    by (auto simp: init_body_rest bnd_run split: sum.splits)
qed

lemma init_guarded_result:
  assumes K: "builds_links K" and w: "ledger_inv K A w" and run: "init_guarded K w = (r, w')"
  shows "ledger_inv K A w'" and "r = Inr () \<Longrightarrow> chain_inv K A w'"
proof -
  obtain s v where t: "init_unlocked K w = (s, v)" by fastforce
  have sv: "ledger_inv K A v" "s = Inr () \<Longrightarrow> chain_inv K A v"
    using t w init_body_result [OF K w]
    by (auto simp: init_unlocked_def bnd_run chain_inv_def ledger_inv_def split: if_splits)
  have esc: "ledger_inv K A (snd (escalate K x v))" "fst (escalate K x v) \<noteq> Inr ()" for x
    using sv(1) by (cases x; simp add: escalate_def bnd_run ledger_inv_def chain_ok_def)+
  show "ledger_inv K A w'"
    using run t sv esc by (auto simp: init_guarded_def catch_run split: sum.splits if_splits) (metis snd_conv)
  assume "r = Inr ()"
  with run t sv esc show "chain_inv K A w'"
    by (auto simp: init_guarded_def catch_run split: sum.splits if_splits) (metis fst_conv)
qed

lemma after_init:
  assumes K: "builds_links K" and m: "along (keeping (chain_inv K A)) m"
  shows "along (keeping (ledger_inv K A)) (seq (init_guarded K) m)"
proof (rule alongI, unfold keeping_def, intro impI)
  fix w assume w: "ledger_inv K A w"
  obtain r v where t: "init_guarded K w = (r, v)" by fastforce
  from init_guarded_result [OF K w t] m chain_inv_ledger_inv
  show "ledger_inv K A (snd (seq (init_guarded K) m w))"
    by (auto simp: bnd_run t along_def keeping_def split: sum.split)
qed

lemma db_write_keeps_ledger_inv:
  assumes "builds_links K" and "\<And>d. d_rows (f d) = d_rows d" and "\<And>d. d_index (f d) = d_index d"
  shows "along (keeping (ledger_inv K A)) (db_write K f)"
  using db_call_chain_ok [OF assms(1), of "\<lambda>d. (Inr (), f d)"] same_env_init [of K "\<lambda>d. (Inr (), f d)"]
    db_call_index [of "\<lambda>d. (Inr (), f d)"] assms(2,3)
  by (auto simp: db_write_def along_def keeping_def ledger_inv_def)

lemma ledger_inv_frame:
  "l_disk u = l_disk w \<Longrightarrow> l_env u = l_env w \<Longrightarrow> l_initialized u = l_initialized w \<Longrightarrow>
     ledger_inv K A u = ledger_inv K A w"
  by (simp add: ledger_inv_def chain_ok_def)

lemma close_bracket_keeps:
  "builds_links K \<Longrightarrow> along (keeping (ledger_inv K A)) (close_bracket K)"
  unfolding close_bracket_def
  by (intro keep.along_bnd keep.along_if keep.along_ret keep.along_gets db_write_keeps_ledger_inv)
     (auto simp: along_modify keeping_def ledger_inv_def chain_ok_def)

lemma init_guarded_keeps:
  "builds_links K \<Longrightarrow> along (keeping (ledger_inv K A)) (init_guarded K)"
  using after_init [of K A "ret ()"] by (simp add: keep.along_ret)

lemma run_task_keeps:
  assumes "builds_links K"
  shows "along (keeping (ledger_inv K A)) (run_task K t)"
proof (cases t)
  case TaskInit
  then show ?thesis using init_guarded_keeps [OF assms] by auto
next
  case (TaskAppend e explicit)
  then show ?thesis
    using after_init [OF assms append_unlocked_keeps_inv [OF assms]]
    by (auto simp: append_task_def)
next
  case (TaskDenial e i)
  have "along (keeping (chain_inv K A)) (seq (open_bracket K) (append_unlocked K ''decision'' e (Some i)))"
    by (intro keep.along_bnd keeps_chain assms)
  then have "along (keeping (ledger_inv K A)) (denial_task K e i)"
    unfolding denial_task_def
    by (intro keep.along_finally after_init close_bracket_keeps assms)
  with TaskDenial show ?thesis
    by (auto simp: along_modify keeping_def ledger_inv_def chain_ok_def)
qed

lemma run_queue_keeps:
  assumes "builds_links K"
  shows "along (keeping (ledger_inv K A)) (run_queue K)"
  unfolding run_queue_def
  by (intro keep.along_bnd keep.along_gets keep.along_each run_task_keeps assms)
     (simp add: along_modify keeping_def ledger_inv_def chain_ok_def)

lemma append_decision_keeps:
  assumes "builds_links K"
  shows "along (keeping (ledger_inv K A)) (append_decision K e explicit)"
  unfolding append_decision_def append_task_def
  by (intro keep.along_bnd run_queue_keeps after_init keeps_chain assms)

lemma ensure_decision_ledger_keeps:
  assumes "builds_links K"
  shows "along (keeping (ledger_inv K A)) (ensure_decision_ledger K)"
  unfolding ensure_decision_ledger_def
  by (intro keep.along_bnd run_queue_keeps init_guarded_keeps assms)

section \<open>Losing the head\<close>

text \<open>An event that lets a call through and in which no rival appends.\<close>

fun is_append :: "rival \<Rightarrow> bool" where
  "is_append (RivalAppend _ _ _ _) = True"
| "is_append (RivalDirty _) = False"

definition event_at :: "env_event list \<Rightarrow> nat \<Rightarrow> env_event" where
  "event_at evs i = (if i < length evs then evs ! i else \<lparr>v_rivals = [], v_fault = None\<rparr>)"

definition quiet_event :: "env_event \<Rightarrow> bool" where
  "quiet_event ev \<longleftrightarrow> (\<forall>v \<in> set (v_rivals ev). \<not> is_append v)"

definition no_fault :: "env_event list \<Rightarrow> bool" where
  "no_fault evs = list_all (\<lambda>ev. v_fault ev = None) evs"

lemma quiet_fold_rows:
  "\<forall>v \<in> set vs. \<not> is_append v \<Longrightarrow> d_rows (fold (rival_step K) vs d) = d_rows d"
proof (induction vs arbitrary: d)
  case (Cons v vs)
  then show ?case by (cases v) (auto simp: rival_step_def)
qed simp

lemma quiet_interfere:
  "quiet_event (event_at (l_env w) 0) \<Longrightarrow> rows_of (interfere K w) = rows_of w"
  by (auto simp: interfere_def event_at_def quiet_event_def quiet_fold_rows split: list.splits)

lemma interfere_env [simp]: "l_env (interfere K w) = tl (l_env w)"
  by (simp add: interfere_def split: list.splits)

lemma no_fault_next [simp]: "no_fault (l_env w) \<Longrightarrow> next_fault w = None"
  by (auto simp: next_fault_def no_fault_def split: list.splits)

lemma no_fault_tl: "no_fault evs \<Longrightarrow> no_fault (tl evs)"
  by (cases evs) (auto simp: no_fault_def)

text \<open>
  The head's hash is not yet a parent of any row, which is what makes the head claimable.
  It follows for a chain whose record hashes do not repeat.
\<close>

definition head_unclaimed :: "kernel \<Rightarrow> disk \<Rightarrow> bool" where
  "head_unclaimed K d \<longleftrightarrow> parent_of (k_model K) (head_of d) \<notin> set (map r_prev (d_rows d))"

lemma append_txn_env:
  assumes "no_fault (l_env w)" and "append_txn K prefix e explicit key w = (r, w')"
  shows "l_env w' = tl (tl (l_env w))" and "r = Inr () \<or> r = Inl UniqueViolation"
proof -
  define u1 where "u1 = interfere K w"
  define w1 where "w1 = u1\<lparr>l_log := l_disk u1 # l_log u1\<rparr>"
  have n: "next_fault w = None" "next_fault w1 = None" "l_env w1 = tl (l_env w)"
    using assms(1) no_fault_tl [OF assms(1)] by (auto simp: w1_def u1_def intro!: no_fault_next)
  note run = assms(2) [unfolded append_txn_run Let_def, folded u1_def, folded w1_def]
  from run n show "l_env w' = tl (tl (l_env w))" by (auto split: prod.splits)
  from run n show "r = Inr () \<or> r = Inl UniqueViolation"
    by (auto simp: insert_row_def split: prod.splits if_splits)
qed

lemma append_txn_quiet:
  assumes K: "builds_links K" and nf: "no_fault (l_env w)" and q: "quiet_event (event_at (l_env w) 1)"
    and free: "head_unclaimed K (l_disk (interfere K w))"
    and run: "append_txn K prefix e explicit key w = (r, w')"
  shows "r = Inr ()"
proof -
  define u1 where "u1 = interfere K w"
  define w1 where "w1 = u1\<lparr>l_log := l_disk u1 # l_log u1\<rparr>"
  have n: "next_fault w = None" "next_fault w1 = None" "l_env w1 = tl (l_env w)"
    using nf no_fault_tl [OF nf] by (auto simp: w1_def u1_def intro!: no_fault_next)
  have "event_at (l_env w1) 0 = event_at (l_env w) 1"
    using n(3) by (cases "l_env w") (auto simp: event_at_def)
  then have same: "rows_of (interfere K w1) = rows_of u1"
    using quiet_interfere [of w1 K] q by (simp add: w1_def)
  have "r_prev (own_record K prefix e explicit (head_of (l_disk u1))) = parent_of (k_model K) (head_of (l_disk u1))"
    using K by (simp add: own_record_def builds_links_def)
  with free have "r_prev (own_record K prefix e explicit (head_of (l_disk u1))) \<notin> set (map r_prev (rows_of u1))"
    unfolding head_unclaimed_def u1_def by simp
  with run n same show ?thesis
    by (auto simp: append_txn_run Let_def u1_def [symmetric] w1_def [symmetric] insert_row_def
        split: prod.splits if_splits)
qed

text \<open>
  Documented behaviour of the hash: records with different parents have different hashes, and
  no record hashes to the anchor.
\<close>

definition collision_free :: "kernel \<Rightarrow> string \<Rightarrow> bool" where
  "collision_free K A \<longleftrightarrow>
     (\<forall>p i t b p' i' t' b'. r_hash (k_build K p i t b) = r_hash (k_build K p' i' t' b') \<longrightarrow> p = p') \<and>
     (\<forall>p i t b. r_hash (k_build K p i t b) \<noteq> A)"

definition built_row :: "kernel \<Rightarrow> row \<Rightarrow> bool" where
  "built_row K r \<longleftrightarrow> (\<exists>i t b. r_hash r = r_hash (k_build K (r_prev r) i t b))"

lemma linked_prevs: "linked A rs \<Longrightarrow> map r_prev rs = butlast (A # map r_hash rs)"
  by (induction rs arbitrary: A) auto

lemma linked_hashes_distinct:
  assumes "collision_free K A"
  shows "linked A rs \<Longrightarrow> \<forall>r \<in> set rs. built_row K r \<Longrightarrow> distinct (A # map r_hash rs)"
proof (induction rs rule: rev_induct)
  case (snoc r rs)
  have d: "distinct (A # map r_hash rs)" using snoc by (simp add: linked_snoc)
  have prev: "r_prev r = last (A # map r_hash rs)"
    using snoc.prems by (auto simp: linked_snoc last_map)
  obtain i t b where r: "r_hash r = r_hash (k_build K (r_prev r) i t b)"
    using snoc.prems by (auto simp: built_row_def)
  have "r_hash r \<noteq> A" using assms r by (simp add: collision_free_def)
  moreover have "r_hash r \<noteq> r_hash s" if s: "s \<in> set rs" for s
  proof
    assume same: "r_hash r = r_hash s"
    obtain i' t' b' where "r_hash s = r_hash (k_build K (r_prev s) i' t' b')"
      using snoc.prems s by (auto simp: built_row_def)
    with same r assms have "r_prev r = r_prev s" unfolding collision_free_def by metis
    moreover have "r_prev s \<in> set (butlast (A # map r_hash rs))"
      using s linked_prevs [of A rs] snoc.prems(1) by (metis image_eqI linked_snoc list.set_map)
    moreover have "last (A # map r_hash rs) \<notin> set (butlast (A # map r_hash rs))"
      using d by (metis append_butlast_last_id distinct_append disjoint_insert(2) list.distinct(1) list.simps(15))
    ultimately show False using prev by simp
  qed
  ultimately show ?case using d by auto
qed simp

lemma head_is_unclaimed:
  assumes "collision_free K A" and "linked A (d_rows d)" and "\<forall>r \<in> set (d_rows d). built_row K r"
    and "d_rows d = [] \<Longrightarrow> k_model K = A"
  shows "head_unclaimed K d"
proof -
  have d: "distinct (A # map r_hash (d_rows d))" by (rule linked_hashes_distinct [OF assms(1-3)])
  have "parent_of (k_model K) (head_of d) = last (A # map r_hash (d_rows d))"
    using assms(4) by (auto simp: last_map)
  moreover have "last (A # map r_hash (d_rows d)) \<notin> set (butlast (A # map r_hash (d_rows d)))"
    using d by (metis append_butlast_last_id distinct_append disjoint_insert(2) list.distinct(1) list.simps(15))
  ultimately show ?thesis
    using linked_prevs [OF assms(2)] by (simp add: head_unclaimed_def)
qed

lemma rival_row_built: "builds_links K \<Longrightarrow> rival_row K V y \<Longrightarrow> built_row K y"
  by (auto simp: rival_row_def built_row_def mk_row_def builds_links_def) metis

lemma rivals_only_built:
  "builds_links K \<Longrightarrow> rivals_only K w w' \<Longrightarrow> \<forall>r \<in> set (rows_of w). built_row K r \<Longrightarrow>
     \<forall>r \<in> set (rows_of w'). built_row K r"
  using rival_row_built unfolding rivals_only_def by fastforce

lemma event_at_tl_tl: "event_at (tl (tl evs)) i = event_at evs (i + 2)"
  by (cases evs; cases "tl evs") (auto simp: event_at_def)

lemma append_txn_live:
  assumes K: "builds_links K" "collision_free K A" and w: "chain_inv K A w"
    and b: "\<forall>r \<in> set (rows_of w). built_row K r" and nf: "no_fault (l_env w)"
    and q: "quiet_event (event_at (l_env w) 1)"
  shows "fst (append_txn K prefix e explicit key w) = Inr ()"
proof -
  have i: "chain_inv K A (interfere K w)" by (rule interfere_chain_inv [OF K(1) w])
  have "\<forall>r \<in> set (rows_of (interfere K w)). built_row K r"
    using rivals_only_built [OF K(1) interfere_rivals_only b] .
  with i have "head_unclaimed K (l_disk (interfere K w))"
    by (intro head_is_unclaimed [OF K(2)]) (auto simp: chain_inv_def chain_ok_def)
  from append_txn_quiet [OF K(1) nf q this] show ?thesis by (metis prod.collapse)
qed

lemma append_loop_live:
  assumes K: "builds_links K" "collision_free K A"
  shows "chain_inv K A w \<Longrightarrow> \<forall>r \<in> set (rows_of w). built_row K r \<Longrightarrow> no_fault (l_env w) \<Longrightarrow>
    \<exists>i \<le> k. quiet_event (event_at (l_env w) (2 * i + 1)) \<Longrightarrow>
    fst (append_loop K prefix e explicit key k w) = Inr ()"
proof (induction k arbitrary: w)
  case 0
  then have "fst (append_txn K prefix e explicit key w) = Inr ()" by (intro append_txn_live [OF K]) auto
  then show ?case by (auto simp: catch_run split: prod.splits)
next
  case (Suc k)
  obtain r v where t: "append_txn K prefix e explicit key w = (r, v)" by fastforce
  show ?case
  proof (cases r)
    case (Inr u)
    with t show ?thesis by (simp add: catch_run)
  next
    case (Inl x)
    with append_txn_env [OF Suc.prems(3) t] have x: "x = UniqueViolation" and env: "l_env v = tl (tl (l_env w))"
      by auto
    from Suc.prems(4) obtain i where i: "i \<le> Suc k" "quiet_event (event_at (l_env w) (2 * i + 1))" by blast
    have "i \<noteq> 0"
      using append_txn_live [OF K Suc.prems(1-3), of prefix e explicit key] i(2) t Inl by (cases i) auto
    then obtain j where j: "i = Suc j" by (cases i) auto
    have "quiet_event (event_at (l_env v) (2 * j + 1))"
      using i(2) j by (simp add: env event_at_tl_tl)
    moreover have "chain_inv K A v" "\<forall>r \<in> set (rows_of v). built_row K r"
      using append_txn_result [OF K(1) Suc.prems(1) t] Inl rivals_only_built [OF K(1) _ Suc.prems(2)] by auto
    moreover have "no_fault (l_env v)" using Suc.prems(3) by (simp add: env no_fault_tl)
    ultimately have "fst (append_loop K prefix e explicit key k v) = Inr ()"
      using Suc.IH [of v] i(1) j by auto
    with t Inl x show ?thesis
      by (simp add: catch_run is_unique_violation_def err_code_def starts_with_def)
  qed
qed

end
