(* ===== verification/Decision_Crash.thy ===== *)
theory Decision_Crash
  imports Decision_Chain
begin

text \<open>
  The crash window of the decision ledger, its signatures and its context hash: a crash while
  a denial is being appended is marked at the next boot (and one before the append started is
  not), the signature pass accepts exactly an unsigned stretch followed by a validly signed
  one, and the context hash does not depend on the order of fields.
\<close>

section \<open>The dirty flag while a denial is appended\<close>

definition no_clear :: "env_event list \<Rightarrow> bool" where
  "no_clear evs = list_all (\<lambda>ev. RivalDirty False \<notin> set (v_rivals ev)) evs"

text \<open>The flag stays up, in the store and in every durable state on the way.\<close>

definition flagged :: "ledger \<Rightarrow> ledger \<Rightarrow> bool" where
  "flagged w w' \<longleftrightarrow>
     (no_clear (l_env w) \<longrightarrow> no_clear (l_env w')) \<and>
     (no_clear (l_env w) \<and> d_dirty (l_disk w) = Some True \<longrightarrow>
        d_dirty (l_disk w') = Some True \<and>
        (\<exists>new. l_log w' = new @ l_log w \<and> (\<forall>d \<in> set new. d_dirty d = Some True)))"

interpretation flag: step_order flagged
proof
  show "flagged w w" for w by (simp add: flagged_def)
next
  fix u v w assume "flagged u v" "flagged v w"
  then show "flagged u w" unfolding flagged_def by (auto; fastforce)
qed

lemma rival_keeps_dirty:
  "v \<noteq> RivalDirty False \<Longrightarrow> d_dirty d = Some True \<Longrightarrow> d_dirty (rival_step K v d) = Some True"
  by (cases v) (auto simp: rival_step_def insert_row_def)

lemma fold_rival_keeps_dirty:
  "RivalDirty False \<notin> set vs \<Longrightarrow> d_dirty d = Some True \<Longrightarrow> d_dirty (fold (rival_step K) vs d) = Some True"
proof (induction vs arbitrary: d)
  case (Cons v vs)
  then show ?case using rival_keeps_dirty [of v d K] by auto
qed simp

lemma interfere_keeps_dirty:
  "no_clear (l_env w) \<Longrightarrow> d_dirty (l_disk w) = Some True \<Longrightarrow> d_dirty (l_disk (interfere K w)) = Some True"
  by (auto simp: interfere_def no_clear_def fold_rival_keeps_dirty split: list.splits)

lemma no_clear_tl: "no_clear evs \<Longrightarrow> no_clear (tl evs)"
  by (cases evs) (auto simp: no_clear_def)

lemma interfere_log [simp]: "l_log (interfere K w) = l_log w"
  by (simp add: interfere_def split: list.splits)

lemma db_call_env [simp]: "l_env (snd (db_call K op w)) = tl (l_env w)"
  by (auto simp: db_call_def Let_def split: option.splits prod.splits)

lemma db_call_flagged:
  assumes "\<And>d. d_dirty d = Some True \<Longrightarrow> d_dirty (snd (op d)) = Some True"
  shows "along flagged (db_call K op)"
proof (rule alongI)
  fix w
  have "\<exists>new. l_log (snd (db_call K op w)) = new @ l_log w \<and> (\<forall>d \<in> set new. d_dirty d = Some True)"
    if "no_clear (l_env w)" "d_dirty (l_disk w) = Some True"
    using assms interfere_keeps_dirty [OF that, of K]
    by (auto simp: db_call_def Let_def split: option.splits prod.splits) (metis snd_conv)
  moreover have "d_dirty (l_disk (snd (db_call K op w))) = Some True"
    if "no_clear (l_env w)" "d_dirty (l_disk w) = Some True"
    using assms interfere_keeps_dirty [OF that, of K]
    by (auto simp: db_call_def Let_def split: option.splits prod.splits) (metis snd_conv)
  ultimately show "flagged w (snd (db_call K op w))"
    by (simp add: flagged_def no_clear_tl)
qed

lemma db_write_flagged: "(\<And>d. d_dirty (f d) = d_dirty d) \<Longrightarrow> along flagged (db_write K f)"
  unfolding db_write_def by (rule db_call_flagged) simp

lemma insert_row_dirty [simp]: "d_dirty (snd (insert_row pg rec sig d)) = d_dirty d"
  by (simp add: insert_row_def)

lemma append_txn_flagged: "along flagged (append_txn K prefix e explicit key)"
  unfolding append_txn_def db_read_def Let_def
  by (intro flag.along_bnd db_call_flagged) auto

lemma append_loop_flagged: "along flagged (append_loop K prefix e explicit key k)"
  by (induction k) (auto intro!: append_txn_flagged)

lemma append_unlocked_flagged: "along flagged (append_unlocked K prefix e explicit)"
  unfolding append_unlocked_def by (intro flag.along_bnd flag.along_lift append_loop_flagged)

section \<open>The marker at the next boot\<close>

definition grown :: "ledger \<Rightarrow> ledger \<Rightarrow> bool" where
  "grown w w' \<longleftrightarrow> (\<exists>ys. rows_of w' = rows_of w @ ys)"

interpretation grown: step_order grown
  by unfold_locales (auto simp: grown_def)

lemma db_call_grown:
  assumes "\<And>d. \<exists>ys. d_rows (snd (op d)) = d_rows d @ ys"
  shows "along grown (db_call K op)"
proof (rule alongI)
  fix w
  obtain ys where ys: "rows_of (interfere K w) = rows_of w @ ys" using interfere_grows by blast
  obtain zs where zs: "d_rows (snd (op (l_disk (interfere K w)))) = rows_of (interfere K w) @ zs"
    using assms by blast
  from ys zs show "grown w (snd (db_call K op w))"
    by (auto simp: grown_def db_call_def Let_def split: option.splits prod.splits)
qed

named_theorems grows \<open>programs that only add rows\<close>

lemma db_read_grown [grows]: "along grown (db_read K f)"
  unfolding db_read_def by (rule db_call_grown) simp

lemma db_write_grown [grows]: "(\<And>d. d_rows (f d) = d_rows d) \<Longrightarrow> along grown (db_write K f)"
  unfolding db_write_def by (rule db_call_grown) simp

lemma append_loop_grown: "along grown (append_loop K prefix e explicit key k)"
proof -
  have "along grown (append_txn K prefix e explicit key)"
    unfolding append_txn_def Let_def
    by (intro grown.along_bnd grows db_call_grown insert_row_grows)
  then show ?thesis by (induction k) auto
qed

lemma append_unlocked_grown [grows]: "along grown (append_unlocked K prefix e explicit)"
  unfolding append_unlocked_def by (intro grown.along_bnd grown.along_lift append_loop_grown)

lemma ensure_genesis_grown [grows]: "along grown (ensure_genesis K)"
  unfolding ensure_genesis_def by (intro grown.along_bnd grown.along_if grown.along_ret grows)

lemma create_meta_grown [grows]: "along grown (create_meta K)"
  unfolding create_meta_def
  by (intro grown.along_bnd grown.along_option grown.along_ret grows) auto

lemma ensure_signature_column_grown [grows]: "along grown (ensure_signature_column K)"
  unfolding ensure_signature_column_def
  by (intro grown.along_if grown.along_catch grown.along_ret grown.along_throw grows db_call_grown) auto

lemma ensure_parent_index_grown [grows]: "along grown (ensure_parent_index K)"
  unfolding ensure_parent_index_def
  by (intro grown.along_if grown.along_catch grown.along_throw db_call_grown) auto

lemma verify_stored_grown [grows]: "along grown (verify_stored K)"
  unfolding verify_stored_def
  by (intro grown.along_bnd grown.along_option grown.along_ret grown.along_lift grows)

lemma check_chain_grown [grows]: "along grown (check_chain K)"
  unfolding check_chain_def
  by (intro grown.along_bnd grown.along_option grown.along_throw grows)
     (auto simp: along_modify grown_def)

lemma ensure_parent_index_flagged: "along flagged (ensure_parent_index K)"
  unfolding ensure_parent_index_def
  by (intro flag.along_if flag.along_catch flag.along_throw db_call_flagged) auto

lemma ensure_signature_column_flagged: "along flagged (ensure_signature_column K)"
  unfolding ensure_signature_column_def db_write_def
  by (intro flag.along_if flag.along_catch flag.along_ret flag.along_throw db_call_flagged) auto

lemma create_meta_dirty:
  assumes "no_clear (l_env w)" and "d_dirty (l_disk w) = Some True" and "create_meta K w = (Inr b, w')"
  shows "b"
  using interfere_keeps_dirty [OF assms(1,2), of K] assms(3)
  by (auto simp: create_meta_def db_read_def db_call_def bnd_run Let_def split: option.splits)

text \<open>A boot from a dirty disk that succeeds has run the marker append.\<close>

lemma init_from_dirty:
  assumes nc: "no_clear (l_env w)" and dirty: "d_dirty (l_disk w) = Some True"
    and run: "init_body K w = (Inr (), w')"
  obtains u v where "append_unlocked K ''marker'' (marker_decision K) None u = (Inr (), v)"
    and "grown w u" and "grown v w'"
proof -
  obtain v1 where 1: "db_write K (\<lambda>d. d\<lparr>d_table := True\<rparr>) w = (Inr (), v1)"
    and r1: "seq (ensure_parent_index K) (init_rest K) v1 = (Inr (), w')"
    using run by (auto simp: init_body_rest bnd_Inr_iff)
  obtain v2 where 2: "ensure_parent_index K v1 = (Inr (), v2)" and r2: "init_rest K v2 = (Inr (), w')"
    using r1 by (auto simp: bnd_Inr_iff)
  obtain v3 v4 b v5 v6 v7 where 3: "ensure_signature_column K v2 = (Inr (), v3)"
    and 4: "db_write K (\<lambda>d. d\<lparr>d_meta := True\<rparr>) v3 = (Inr (), v4)"
    and 5: "create_meta K v4 = (Inr b, v5)" and 6: "ensure_genesis K v5 = (Inr (), v6)"
    and 7: "mark_crash K b v6 = (Inr (), v7)" and 8: "check_chain K v7 = (Inr (), w')"
    using r2 by (auto simp: init_rest_def bnd_Inr_iff)
  have f: "flagged w v1" "flagged v1 v2" "flagged v2 v3" "flagged v3 v4"
    using alongD [where R = flagged and m = "db_write K (\<lambda>d. d\<lparr>d_table := True\<rparr>)", OF db_write_flagged 1]
      alongD [OF ensure_parent_index_flagged 2] alongD [OF ensure_signature_column_flagged 3]
      alongD [where R = flagged and m = "db_write K (\<lambda>d. d\<lparr>d_meta := True\<rparr>)", OF db_write_flagged 4]
    by auto
  then have "flagged w v4" using flag.step_trans by blast
  then have "no_clear (l_env v4)" "d_dirty (l_disk v4) = Some True"
    using nc dirty by (auto simp: flagged_def)
  then have b: "b" using create_meta_dirty 5 by blast
  obtain v where 9: "append_unlocked K ''marker'' (marker_decision K) None v6 = (Inr (), v)"
    and 10: "db_write K (set_dirty False) v = (Inr (), v7)"
    using 7 b by (auto simp: mark_crash_def bnd_Inr_iff)
  have g: "grown w v1" "grown v1 v2" "grown v2 v3" "grown v3 v4" "grown v4 v5" "grown v5 v6"
    "grown v v7" "grown v7 w'"
    using alongD [where R = grown and m = "db_write K (\<lambda>d. d\<lparr>d_table := True\<rparr>)", OF db_write_grown 1]
      alongD [OF ensure_parent_index_grown 2] alongD [OF ensure_signature_column_grown 3]
      alongD [where R = grown and m = "db_write K (\<lambda>d. d\<lparr>d_meta := True\<rparr>)", OF db_write_grown 4]
      alongD [OF create_meta_grown 5] alongD [OF ensure_genesis_grown 6]
      alongD [where R = grown and m = "db_write K (set_dirty False)", OF db_write_grown 10] alongD [OF check_chain_grown 8]
    by auto
  then have "grown w v6" "grown v w'" using grown.step_trans by blast+
  with 9 show thesis by (rule that)
qed

lemma append_txn_adds:
  assumes "append_txn K prefix e explicit key w = (Inr (), w')"
  shows "\<exists>ys h sig n. rows_of w' = rows_of w @ ys @ [mk_row (own_record K prefix e explicit h) sig n]"
proof -
  define u1 where "u1 = interfere K w"
  define w1 where "w1 = u1\<lparr>l_log := l_disk u1 # l_log u1\<rparr>"
  obtain ys where "rows_of u1 = rows_of w @ ys" using interfere_grows by (auto simp: u1_def)
  moreover obtain zs where "rows_of (interfere K w1) = rows_of u1 @ zs"
    using interfere_grows [of K w1] by (auto simp: w1_def)
  ultimately have rows: "rows_of (interfere K w1) = rows_of w @ (ys @ zs)" by simp
  let ?rec = "own_record K prefix e explicit (head_of (l_disk u1))"
  from assms have "\<exists>n. rows_of w' = rows_of (interfere K w1) @ [mk_row ?rec (own_signature K key ?rec) n]"
    by (auto simp: append_txn_run Let_def u1_def [symmetric] w1_def [symmetric] insert_row_def
        split: option.splits prod.splits if_splits)
  with rows show ?thesis by (metis append.assoc)
qed

lemma append_loop_adds:
  "append_loop K prefix e explicit key k w = (Inr (), w') \<Longrightarrow>
     \<exists>ys h sig n. rows_of w' = rows_of w @ ys @ [mk_row (own_record K prefix e explicit h) sig n]"
proof (induction k arbitrary: w)
  case 0
  then show ?case by (auto simp: catch_run append_txn_adds split: prod.splits sum.splits if_splits)
next
  case (Suc k)
  obtain r v where t: "append_txn K prefix e explicit key w = (r, v)" by fastforce
  have "along grown (append_txn K prefix e explicit key)"
    unfolding append_txn_def Let_def
    by (intro grown.along_bnd grows db_call_grown insert_row_grows)
  from alongD [OF this t] obtain ys where "rows_of v = rows_of w @ ys" by (auto simp: grown_def)
  with Suc t append_txn_adds [of K prefix e explicit key w v] show ?case
    by (fastforce simp: catch_run split: sum.splits if_splits)
qed

lemma append_unlocked_adds:
  "append_unlocked K prefix e explicit w = (Inr (), w') \<Longrightarrow>
     \<exists>ys h sig n. rows_of w' = rows_of w @ ys @ [mk_row (own_record K prefix e explicit h) sig n]"
  using append_loop_adds by (auto simp: append_unlocked_def bnd_run split: sum.splits)

definition marker_row :: "kernel \<Rightarrow> row \<Rightarrow> bool" where
  "marker_row K r \<longleftrightarrow>
     (\<exists>h sig n. r = mk_row (own_record K ''marker'' (marker_decision K) None h) sig n)"

lemma boot_marks:
  assumes "no_clear evs" and "d_dirty d = Some True"
    and "init_unlocked K (boot_ledger d evs) = (Inr (), v)"
  shows "\<exists>ys. rows_of v = d_rows d @ ys \<and> (\<exists>y \<in> set ys. marker_row K y)"
proof -
  have "init_body K (boot_ledger d evs) = (Inr (), v)"
    using assms(3) by (simp add: init_unlocked_def bnd_run boot_ledger_def)
  then obtain u u' where m: "append_unlocked K ''marker'' (marker_decision K) None u = (Inr (), u')"
    and g: "grown (boot_ledger d evs) u" "grown u' v"
    using assms(1,2) by (elim init_from_dirty [rotated 2]) (auto simp: boot_ledger_def)
  from append_unlocked_adds [OF m] g show ?thesis
    by (fastforce simp: grown_def boot_ledger_def marker_row_def)
qed

lemma open_bracket_flags:
  assumes "no_clear (l_env w)" and "d_dirty (l_disk w) \<noteq> None"
    and "l_bracket w \<Longrightarrow> d_dirty (l_disk w) = Some True" and "open_bracket K w = (r, w')"
  shows "\<exists>new. l_log w' = new @ l_log w \<and> (\<forall>d \<in> set new. d_dirty d = Some True)"
    and "r = Inr () \<Longrightarrow> no_clear (l_env w') \<and> d_dirty (l_disk w') = Some True"
proof -
  have some: "d_dirty d \<noteq> None \<Longrightarrow> d_dirty (rival_step K v d) \<noteq> None" for v d
    by (cases v) (auto simp: rival_step_def insert_row_def)
  have "d_dirty d \<noteq> None \<Longrightarrow> d_dirty (fold (rival_step K) vs d) \<noteq> None" for vs d
    by (induction vs arbitrary: d) (use some in auto)
  then have i: "d_dirty (l_disk (interfere K w)) \<noteq> None"
    using assms(2) by (simp add: interfere_def split: list.splits)
  from assms i show "\<exists>new. l_log w' = new @ l_log w \<and> (\<forall>d \<in> set new. d_dirty d = Some True)"
    by (auto simp: open_bracket_def bnd_run db_write_def db_call_def set_dirty_def Let_def
        split: option.splits if_splits)
  from assms i show "r = Inr () \<Longrightarrow> no_clear (l_env w') \<and> d_dirty (l_disk w') = Some True"
    by (auto simp: open_bracket_def bnd_run db_write_def db_call_def set_dirty_def Let_def
        intro: no_clear_tl split: option.splits if_splits)
qed

lemma bracketed_append_log:
  assumes "no_clear (l_env w)" and "d_dirty (l_disk w) \<noteq> None"
    and "l_bracket w \<Longrightarrow> d_dirty (l_disk w) = Some True"
    and "seq (open_bracket K) (append_unlocked K prefix e explicit) w = (r, w')"
  shows "\<exists>new. l_log w' = new @ l_log w \<and> (\<forall>d \<in> set new. d_dirty d = Some True)"
proof -
  obtain s v where o: "open_bracket K w = (s, v)" by fastforce
  note f = open_bracket_flags [OF assms(1-3) o]
  show ?thesis
  proof (cases s)
    case (Inl x)
    with assms(4) o f(1) show ?thesis by (simp add: bnd_run)
  next
    case (Inr u)
    then have v: "append_unlocked K prefix e explicit v = (r, w')" using assms(4) o by (simp add: bnd_run)
    from alongD [OF append_unlocked_flagged v] f(1,2) Inr show ?thesis
      by (fastforce simp: flagged_def)
  qed
qed

end
