(* ===== verification/Decision_Claims.thy ===== *)
theory Decision_Claims
  imports Decision_Crash "HOL-Library.Multiset"
begin

text \<open>
  The properties of the decision ledger, with their instances on a small kernel whose records
  hash to their parent with a letter in front.
\<close>

definition demo_kernel :: kernel where
  "demo_kernel =
     \<lparr>k_adjudicate = (\<lambda>_. \<lparr>a_outcome = ''deny'', a_reason = ''r'', a_checks = [], a_config = ''g'', a_model = ''M''\<rparr>),
      k_build = (\<lambda>p i t b. \<lparr>r_id = i, r_ts = t, r_prev = p, r_hash = CHR ''h'' # p,
                             r_payload = JObj [(''modelHash'', JStr ''M'')]\<rparr>),
      k_verify_chain = (\<lambda>_. None), k_genesis = (''M'', ''G'', ''1''), k_model = ''M'', k_gate = ''G'',
      k_sha256 = (\<lambda>_. ''x''), k_sign = (\<lambda>_ h. h), k_sig_ok = (\<lambda>_ h s. h = s),
      k_signing_env = [], k_under_test = False, k_postgres = True, k_now = ''T'', k_now_ms = 7,
      k_entropy = (\<lambda>_. ''0'')\<rparr>"

definition demo_decision :: effect_decision where
  "demo_decision = \<lparr>e_model = ''M'', e_gate = ''G'', e_service = ''s'',
     e_capability = \<lparr>c_kind = ''k'', c_resource = ''r''\<rparr>, e_context = ''c'', e_outcome = ''allow'',
     e_reason = ''ok'', e_checks = []\<rparr>"

definition ready_disk :: disk where
  "ready_disk = \<lparr>d_table = True, d_index = True, d_sigcol = True, d_meta = True,
     d_rows = [], d_next = 1, d_dirty = Some False\<rparr>"

definition rival_event :: "string \<Rightarrow> env_event" where
  "rival_event anchor = \<lparr>v_rivals = [RivalAppend anchor ''i'' ''t'' ''p''], v_fault = None\<rparr>"

definition still_event :: env_event where
  "still_event = \<lparr>v_rivals = [], v_fault = None\<rparr>"

lemma demo_links: "builds_links demo_kernel"
  by (simp add: builds_links_def demo_kernel_def)

lemma demo_collision_free: "collision_free demo_kernel ''M''"
  by (simp add: collision_free_def demo_kernel_def)

lemma demo_key: "signing_key demo_kernel = Inr None"
  by (simp add: signing_key_def demo_kernel_def)

section \<open>The chain\<close>



text \<open>
  C11: an append that answers has added exactly one record of its own, at
  the head after whatever rivals inserted, naming that head as its parent; an append that throws,
  for a lost race as for a store failure, has added nothing of its own.
\<close>

theorem append_all_or_nothing:
  assumes "builds_links K" and "chain_inv K A w"
    and "append_unlocked K prefix e explicit w = (r, w')"
  shows "case r of
      Inl _ \<Rightarrow> rivals_only K w w'
    | Inr _ \<Rightarrow> \<exists>key. signing_key K = Inr key \<and> appended K prefix e explicit key w w'"
  using append_unlocked_result(2,3) [OF assms] by (auto split: sum.split)

theorem append_all_or_nothing_witness:
  "case append_unlocked demo_kernel ''decision'' demo_decision None
          (boot_ledger ready_disk [still_event, rival_event ''M'']) of
     (r, w') \<Rightarrow>
       (case r of
          Inl _ \<Rightarrow> rivals_only demo_kernel (boot_ledger ready_disk [still_event, rival_event ''M'']) w'
        | Inr _ \<Rightarrow> \<exists>key. signing_key demo_kernel = Inr key \<and>
            appended demo_kernel ''decision'' demo_decision None key
              (boot_ledger ready_disk [still_event, rival_event ''M'']) w')"
proof -
  have inv: "chain_inv demo_kernel ''M'' (boot_ledger ready_disk [still_event, rival_event ''M''])"
    by (simp add: chain_inv_def chain_ok_def boot_ledger_def ready_disk_def env_anchored_def
        still_event_def rival_event_def demo_kernel_def)
  show ?thesis
    using append_all_or_nothing [OF demo_links inv, of "''decision''" demo_decision None]
    by (simp split: prod.split)
qed

text \<open>
  With a store that answers, an append is refused only when rivals
  took the head from under it in each of the three attempts; one attempt without a rival
  between its head read and its insert is enough.
\<close>

theorem append_survives_two_races:
  assumes "builds_links K" and "collision_free K A" and "chain_inv K A w"
    and "list_all (built_row K) (rows_of w)" and "no_fault (l_env w)"
    and "signing_key K = Inr key"
    and "quiet_event (event_at (l_env w) 1) \<or> quiet_event (event_at (l_env w) 3) \<or>
         quiet_event (event_at (l_env w) 5)"
  shows "fst (append_unlocked K prefix e explicit w) = Inr ()"
proof -
  have "\<exists>i \<le> 2. quiet_event (event_at (l_env w) (2 * i + 1))"
    using assms(7)
  proof (elim disjE)
    show "quiet_event (event_at (l_env w) 1) \<Longrightarrow> ?thesis" by (intro exI [of _ 0]) simp
    show "quiet_event (event_at (l_env w) 3) \<Longrightarrow> ?thesis" by (intro exI [of _ 1]) simp
    show "quiet_event (event_at (l_env w) 5) \<Longrightarrow> ?thesis" by (intro exI [of _ 2]) simp
  qed
  then show ?thesis
    using append_loop_live [OF assms(1-3) _ assms(5), of 2 prefix e explicit key] assms(4,6)
    by (simp add: append_unlocked_def bnd_run CAS_ATTEMPTS_def list_all_iff)
qed

theorem append_survives_two_races_witness:
  "fst (append_unlocked demo_kernel ''decision'' demo_decision None
     (boot_ledger ready_disk
       [still_event, rival_event ''M'', still_event, rival_event ''M'', still_event, still_event])) = Inr ()"
  by (rule append_survives_two_races [OF demo_links demo_collision_free _ _ _ demo_key])
     (simp_all add: chain_inv_def chain_ok_def boot_ledger_def ready_disk_def env_anchored_def
        still_event_def rival_event_def demo_kernel_def no_fault_def event_at_def quiet_event_def)

text \<open>Three lost races: the integrity error, and nothing of its own in the table.\<close>

lemma append_gives_up:
  "case append_unlocked demo_kernel ''decision'' demo_decision None
     (boot_ledger ready_disk
       [still_event, rival_event ''M'', still_event, rival_event ''M'', still_event, rival_event ''M'']) of
     (r, w) \<Rightarrow> r = Inl (cas_lost ''decision'' None) \<and> map r_id (rows_of w) = [''i'', ''i'', ''i'']"
  by code_simp

text \<open>
  The unique parent index alone does not keep the chain linear: two first writers booted with
  different models claim different parents, and both inserts are accepted.
\<close>

theorem anchors_fork:
  "map r_prev (rows_of (snd (append_unlocked demo_kernel ''genesis'' demo_decision None
     (boot_ledger ready_disk [still_event, rival_event ''N''])))) = [''N'', ''M'']"
  by code_simp

section \<open>The crash window\<close>



definition bracket_run :: "(exn + unit) \<times> ledger" where
  "bracket_run =
     seq (open_bracket demo_kernel) (append_unlocked demo_kernel ''decision'' demo_decision (Some ''d''))
       (boot_ledger ready_disk [])"


text \<open>
  Before its turn in the queue a denial has no bracket: the refusal has been answered and nothing
  durable has changed.
\<close>

theorem queued_denial_unmarked:
  "l_disk (snd (record_denial K s c a res w)) = l_disk w"
  "l_log (snd (record_denial K s c a res w)) = l_log w"
  by (simp_all add: record_denial_def enqueue_def bnd_run Let_def)

text \<open>A boot from a clean disk writes no marker.\<close>

theorem clean_boot_unmarked:
  "map r_id (rows_of (snd (init_unlocked demo_kernel (boot_ledger ready_disk [])))) = [''genesis-000001'']"
  by code_simp

section \<open>Signatures\<close>

lemma ex_split_Cons:
  "(\<exists>b a. x # xs = b @ a \<and> list_all P b \<and> list_all Q a) \<longleftrightarrow>
     list_all Q (x # xs) \<or> (P x \<and> (\<exists>b a. xs = b @ a \<and> list_all P b \<and> list_all Q a))"
  (is "?L \<longleftrightarrow> ?R")
proof
  assume ?L
  then obtain b a where "x # xs = b @ a" "list_all P b" "list_all Q a" by blast
  then show ?R by (cases b) auto
next
  assume ?R
  then show ?L
  proof
    assume "list_all Q (x # xs)"
    then show ?L by (intro exI [of _ "[]"] exI [of _ "x # xs"]) simp
  next
    assume "P x \<and> (\<exists>b a. xs = b @ a \<and> list_all P b \<and> list_all Q a)"
    then obtain b a where "P x" "xs = b @ a" "list_all P b" "list_all Q a" by blast
    then show ?L by (intro exI [of _ "x # b"] exI [of _ a]) simp
  qed
qed

text \<open>
  The signature pass is satisfied exactly by a stretch of unsigned
  records followed by records that are all signed and all verify: signing proves origin from its
  activation on, and no record after it may lack or break its signature.
\<close>

theorem signatures_from_activation:
  "verify_signatures K key False rs = None \<longleftrightarrow>
     (\<exists>before after. rs = before @ after \<and> list_all (\<lambda>r. r_sig r = None) before \<and>
        list_all (\<lambda>r. case r_sig r of None \<Rightarrow> False | Some s \<Rightarrow> k_sig_ok K key (r_hash r) s) after)"
  (is "_ \<longleftrightarrow> (\<exists>b a. rs = b @ a \<and> ?U b \<and> ?S a)")
proof -
  have seen: "verify_signatures K key True rs = None \<longleftrightarrow> ?S rs" for rs
    by (induction rs) (auto split: option.splits)
  show ?thesis
    by (induction rs) (auto simp: ex_split_Cons seen split: option.splits)
qed

section \<open>The context hash\<close>

text \<open>Two values that differ only in the order of the fields of their objects, at any depth.\<close>

inductive reordered :: "js \<Rightarrow> js \<Rightarrow> bool" where
  same: "reordered v v"
| arr: "list_all2 reordered vs ws \<Longrightarrow> reordered (JArr vs) (JArr ws)"
| obj: "distinct (map fst kvs) \<Longrightarrow>
    list_all2 (\<lambda>p q. fst p = fst q \<and> reordered (snd p) (snd q)) kvs kvs' \<Longrightarrow>
    mset kvs' = mset kvs'' \<Longrightarrow> reordered (JObj kvs) (JObj kvs'')"

lemma sort_key_unique:
  assumes "mset xs = mset ys" and "distinct (map fst xs)"
  shows "sort_key fst xs = sort_key (fst :: 'a \<times> 'b \<Rightarrow> 'a :: linorder) ys"
proof (rule map_sorted_distinct_set_unique [where f = fst])
  show "inj_on fst (set (sort_key fst xs) \<union> set (sort_key fst ys))"
    using assms(2) mset_eq_setD [OF assms(1)] by (simp add: distinct_map)
  have "mset (map fst (sort_key fst xs)) = mset (map fst xs)"
    "mset (map fst (sort_key fst ys)) = mset (map fst xs)"
    using assms(1) by simp_all
  then show "distinct (map fst (sort_key fst xs))" "distinct (map fst (sort_key fst ys))"
    using assms(2) mset_eq_imp_distinct_iff by blast+
  show "set (sort_key fst xs) = set (sort_key fst ys)" using mset_eq_setD [OF assms(1)] by simp
qed simp_all

text \<open>
  The text a context hash commits to does not depend on the
  order in which a caller wrote the fields of the context or of any object inside it, so an
  allow and a denial of the same context hash alike.
\<close>

theorem canonical_ignores_field_order:
  assumes "reordered v w"
  shows "canonical v = canonical w \<and> context_hash K v = context_hash K w"
proof -
  have "canonical v = canonical w"
    using assms
  proof (induction rule: reordered.induct)
    case (arr vs ws)
    then have "map (\<lambda>v. case canonical v of None \<Rightarrow> [] | Some s \<Rightarrow> s) vs =
        map (\<lambda>v. case canonical v of None \<Rightarrow> [] | Some s \<Rightarrow> s) ws"
      by (intro nth_equalityI) (auto simp: list_all2_conv_all_nth)
    then show ?case by (simp only: canonical.simps)
  next
    case (obj kvs kvs' kvs'')
    have eq: "map (\<lambda>(k, v). (k, canonical v)) kvs = map (\<lambda>(k, v). (k, canonical v)) kvs'"
      using obj.IH by (intro nth_equalityI) (auto simp: list_all2_conv_all_nth split: prod.splits)
    have "map fst kvs = map fst kvs'"
      using obj.IH by (intro nth_equalityI) (auto simp: list_all2_conv_all_nth)
    with obj.hyps(1) have "distinct (map fst (map (\<lambda>(k, v). (k, canonical v)) kvs'))"
      by (simp add: comp_def case_prod_unfold)
    then have "sort_key fst (map (\<lambda>(k, v). (k, canonical v)) kvs') =
        sort_key fst (map (\<lambda>(k, v). (k, canonical v)) kvs'')"
      using obj.hyps by (intro sort_key_unique) auto
    with eq show ?case by simp
  qed simp
  then show ?thesis by (simp add: context_hash_def)
qed

theorem canonical_ignores_field_order_witness:
  "canonical (JObj [(''b'', JInt 1), (''a'', JNull)]) = canonical (JObj [(''a'', JNull), (''b'', JInt 1)]) \<and>
   context_hash demo_kernel (JObj [(''b'', JInt 1), (''a'', JNull)]) =
     context_hash demo_kernel (JObj [(''a'', JNull), (''b'', JInt 1)])"
  by (rule canonical_ignores_field_order, rule obj [where kvs' = "[(''b'', JInt 1), (''a'', JNull)]"])
     (auto intro: same)

end
