(* ===== verification/Kernel.thy ===== *)
theory Kernel
  imports Decision_Claims
begin

text \<open>
  The enforcement call of \<open>backend/kernel/adjudicate.ts\<close> and the facades that stand in
  front of the effects it governs: the ledger driver (\<open>governed-driver.ts\<close>), outgoing HTTP
  and SMTP (\<open>egress.ts\<close>), cache and counters (\<open>hiq.ts\<close>), and the denial observer
  (\<open>observe.ts\<close>). What stands behind a facade is an argument of it; the world is the
  record \<open>plane\<close>, which the worlds of the other components extend.
\<close>

section \<open>Attribution\<close>

text \<open>\<open>currentRequest()\<close>\<close>

datatype request_meta =
    NoRequest
  | ApiCall string
  | PubsubMessage string
  | OtherRequest

record denial =
  n_id :: string
  n_service :: string
  n_capability :: capability
  n_outcome :: string
  n_reason :: string
  n_checks :: "string list"

record plane =
  p_ledger :: ledger
  p_scope :: "string option"                    \<comment> \<open>the \<open>runAsService\<close> scope\<close>
  p_request :: request_meta
  p_observer :: "(denial \<Rightarrow> exn + unit) option"
  p_observed :: "denial list"                   \<comment> \<open>what the observer was told\<close>

definition acting_service :: "('x plane_scheme) \<Rightarrow> string option" where
  "acting_service w =
     (case p_scope w of
        Some s \<Rightarrow> if s \<noteq> [] then Some s else
          (case p_request w of ApiCall t \<Rightarrow> Some t | PubsubMessage t \<Rightarrow> Some t | _ \<Rightarrow> None)
      | None \<Rightarrow> (case p_request w of ApiCall t \<Rightarrow> Some t | PubsubMessage t \<Rightarrow> Some t | _ \<Rightarrow> None))"

definition run_as_service :: "string \<Rightarrow> ('x plane_scheme, 'a) io \<Rightarrow> ('x plane_scheme, 'a) io" where
  "run_as_service s m =
     (\<lambda>w. case m (w\<lparr>p_scope := Some s\<rparr>) of (r, u) \<Rightarrow> (r, u\<lparr>p_scope := p_scope w\<rparr>))"

section \<open>The observer\<close>

definition notify_denial :: "denial \<Rightarrow> ('x plane_scheme, unit) io" where
  "notify_denial d =
     bnd (gets p_observer) (\<lambda>obs.
       case obs of
         None \<Rightarrow> ret ()
       | Some f \<Rightarrow>
           catch (seq (modify (\<lambda>w. w\<lparr>p_observed := p_observed w @ [d]\<rparr>)) (lift (f d)))
             (\<lambda>_. ret ()))"

section \<open>The enforcement call\<close>

record demand_options =
  o_service :: "string option"
  o_attributes :: "js option"
  o_summary :: "string option"
  o_body :: "string option"

definition no_options :: demand_options where
  "no_options = \<lparr>o_service = None, o_attributes = None, o_summary = None, o_body = None\<rparr>"

definition with_attributes :: "(string \<times> js) list \<Rightarrow> demand_options" where
  "with_attributes kvs = no_options\<lparr>o_attributes := Some (JObj kvs)\<rparr>"

fun fields_of :: "js \<Rightarrow> (string \<times> js) list" where
  "fields_of (JObj kvs) = kvs"
| "fields_of _ = []"

definition request_js :: "string \<Rightarrow> capability \<Rightarrow> demand_options \<Rightarrow> js" where
  "request_js service cap opts = JObj
     ([(''service'', JStr service), (''capability'', capability_js cap)] @
      (case o_attributes opts of
         None \<Rightarrow> [] | Some a \<Rightarrow> if fields_of a \<noteq> [] then [(''attributes'', a)] else []) @
      (case o_summary opts of None \<Rightarrow> [] | Some s \<Rightarrow> [(''payloadSummary'', JStr s)]) @
      (case o_body opts of None \<Rightarrow> [] | Some s \<Rightarrow> [(''payloadBody'', JStr s)]))"

definition service_for :: "demand_options \<Rightarrow> ('x plane_scheme) \<Rightarrow> string" where
  "service_for opts w =
     (case o_service opts of
        Some s \<Rightarrow> s
      | None \<Rightarrow> (case acting_service w of Some s \<Rightarrow> s | None \<Rightarrow> []))"

definition denied_error :: "string \<Rightarrow> capability \<Rightarrow> string \<Rightarrow> exn" where
  "denied_error service cap reason = APIError PermissionDenied
     (''capability '' @ c_kind cap @ '' on '' @ [CHR 0x27] @ c_resource cap @ [CHR 0x27] @
      '' denied for service '' @ [CHR 0x27] @
      (if service = [] then ''<unattributed>'' else service) @ [CHR 0x27] @ '': '' @ reason)
     ''KERNEL_DENIED''"

definition demand ::
  "kernel \<Rightarrow> string \<Rightarrow> string \<Rightarrow> demand_options \<Rightarrow> ('x plane_scheme, unit) io" where
  "demand K kind resource opts =
     bnd (gets (service_for opts)) (\<lambda>service.
       let cap = \<lparr>c_kind = kind, c_resource = resource\<rparr>;
           result = k_adjudicate K (request_js service cap opts)
       in if a_outcome result = ''allow'' then ret ()
          else bnd (zoom p_ledger (\<lambda>l. p_ledger_update (\<lambda>_. l))
                      (record_denial K service cap (o_attributes opts) result)) (\<lambda>i.
               seq (notify_denial
                      \<lparr>n_id = i, n_service = service, n_capability = cap,
                       n_outcome = (if a_outcome result = ''degrade'' then ''degrade'' else ''deny''),
                       n_reason = a_reason result, n_checks = a_checks result\<rparr>)
                   (throw (denied_error service cap (a_reason result)))))"

text \<open>Whether the model grants a call in a world.\<close>

definition granted ::
  "kernel \<Rightarrow> string \<Rightarrow> string \<Rightarrow> demand_options \<Rightarrow> ('x plane_scheme) \<Rightarrow> bool" where
  "granted K kind resource opts w \<longleftrightarrow>
     a_outcome (k_adjudicate K (request_js (service_for opts w) \<lparr>c_kind = kind, c_resource = resource\<rparr> opts))
       = ''allow''"

definition refused ::
  "kernel \<Rightarrow> string \<Rightarrow> string \<Rightarrow> demand_options \<Rightarrow> ('x plane_scheme) \<Rightarrow> (exn + 'a) \<times> ('x plane_scheme) \<Rightarrow> bool" where
  "refused K kind resource opts w out \<longleftrightarrow>
     (\<exists>d e i.
        fst out = Inl (denied_error (service_for opts w) \<lparr>c_kind = kind, c_resource = resource\<rparr> (e_reason e)) \<and>
        p_ledger (snd out) = (p_ledger w)
          \<lparr>l_issued := l_issued (p_ledger w) + 1, l_pending := l_pending (p_ledger w) + 1,
           l_queue := l_queue (p_ledger w) @ [TaskDenial e i]\<rparr> \<and>
        e_capability e = \<lparr>c_kind = kind, c_resource = resource\<rparr> \<and>
        e_service e = service_for opts w \<and> e_outcome e \<in> {''deny'', ''degrade''} \<and>
        n_id d = i \<and> n_service d = e_service e \<and> n_capability d = e_capability e \<and>
        n_outcome d = e_outcome e \<and> n_reason d = e_reason e \<and> n_checks d = e_checks e \<and>
        snd out = w\<lparr>p_ledger := p_ledger (snd out),
                    p_observed := p_observed w @ (if p_observer w = None then [] else [d])\<rparr>)"

lemma demand_granted: "granted K kind resource opts w \<Longrightarrow> demand K kind resource opts w = (Inr (), w)"
  by (simp add: demand_def granted_def bnd_run Let_def)

text \<open>An observer is a callback of the tracing tier; it may throw, it does not stop the process.\<close>

definition calm_observer :: "('x plane_scheme) \<Rightarrow> bool" where
  "calm_observer w \<longleftrightarrow> (\<forall>f d m. p_observer w = Some f \<longrightarrow> f d \<noteq> Inl (ProcessExit m))"

lemma notify_denial_calm:
  "calm_observer w \<Longrightarrow>
     notify_denial d w = (Inr (), w\<lparr>p_observed := p_observed w @ (if p_observer w = None then [] else [d])\<rparr>)"
  by (cases "p_observer w")
     (auto simp: notify_denial_def calm_observer_def bnd_run catch_run split: sum.splits elim!: exits.elims)

lemma demand_refused:
  assumes "\<not> granted K kind resource opts w" and "calm_observer w"
  shows "refused K kind resource opts w (demand K kind resource opts w)"
proof -
  let ?s = "service_for opts w" and ?c = "\<lparr>c_kind = kind, c_resource = resource\<rparr>"
  let ?a = "k_adjudicate K (request_js ?s ?c opts)"
  let ?i = "new_denial_id K (l_issued (p_ledger w))"
  let ?e = "denial_decision K ?s ?c (o_attributes opts) ?a"
  let ?l = "(p_ledger w)\<lparr>l_issued := l_issued (p_ledger w) + 1, l_pending := l_pending (p_ledger w) + 1,
              l_queue := l_queue (p_ledger w) @ [TaskDenial ?e ?i]\<rparr>"
  let ?d = "\<lparr>n_id = ?i, n_service = ?s, n_capability = ?c,
              n_outcome = (if a_outcome ?a = ''degrade'' then ''degrade'' else ''deny''),
              n_reason = a_reason ?a, n_checks = a_checks ?a\<rparr>"
  have calm: "calm_observer (w\<lparr>p_ledger := ?l\<rparr>)" using assms(2) by (simp add: calm_observer_def)
  have "demand K kind resource opts w =
      (Inl (denied_error ?s ?c (a_reason ?a)),
       w\<lparr>p_ledger := ?l, p_observed := p_observed w @ (if p_observer w = None then [] else [?d])\<rparr>)"
    using assms(1) notify_denial_calm [OF calm, of ?d]
    by (simp add: demand_def granted_def bnd_run Let_def zoom_def record_denial_def enqueue_def)
  then show ?thesis
    unfolding refused_def
    by (intro exI [of _ ?d] exI [of _ ?e] exI [of _ ?i]) (simp add: denial_decision_def)
qed

text \<open>Whatever it answers, the enforcement call touches the decision ledger and the observer only.\<close>

definition plane_only :: "'x plane_scheme \<Rightarrow> 'x plane_scheme \<Rightarrow> bool" where
  "plane_only w w' \<longleftrightarrow> (\<exists>l d. w' = w\<lparr>p_ledger := l, p_observed := d\<rparr>)"

interpretation gate: step_order plane_only
proof
  show "plane_only w w" for w :: "'x plane_scheme"
    unfolding plane_only_def by (intro exI [of _ "p_ledger w"] exI [of _ "p_observed w"]) simp
next
  fix u v w :: "'x plane_scheme"
  assume "plane_only u v" "plane_only v w"
  then obtain l d l' d' where "v = u\<lparr>p_ledger := l, p_observed := d\<rparr>" "w = v\<lparr>p_ledger := l', p_observed := d'\<rparr>"
    unfolding plane_only_def by blast
  then have "w = u\<lparr>p_ledger := l', p_observed := d'\<rparr>" by simp
  then show "plane_only u w" unfolding plane_only_def by blast
qed

lemma plane_only_observed: "plane_only w (w\<lparr>p_observed := d\<rparr>)"
  unfolding plane_only_def by (intro exI [of _ "p_ledger w"] exI [of _ d]) simp

lemma plane_only_ledger: "plane_only w (w\<lparr>p_ledger := l\<rparr>)"
  unfolding plane_only_def by (intro exI [of _ l] exI [of _ "p_observed w"]) simp

lemma notify_denial_plane: "along plane_only (notify_denial d)"
  unfolding notify_denial_def
  by (intro gate.along_bnd gate.along_gets gate.along_option gate.along_ret gate.along_catch gate.along_lift)
     (simp add: along_modify plane_only_observed)

lemma zoom_ledger_plane: "along plane_only (zoom p_ledger (\<lambda>l. p_ledger_update (\<lambda>_. l)) m)"
  by (rule alongI) (simp add: zoom_def plane_only_ledger split: prod.split)

lemma demand_plane: "along plane_only (demand K kind resource opts)"
  unfolding demand_def Let_def
  by (intro gate.along_bnd gate.along_gets gate.along_if gate.along_ret gate.along_throw
      notify_denial_plane zoom_ledger_plane)

section \<open>The governed ledger driver\<close>

type_synonym params = "js list"
type_synonym sql_row = "(string \<times> js) list"

text \<open>\<open>LedgerTx\<close> and \<open>LedgerDriver\<close>; a transaction answers a \<open>'r\<close>.\<close>

record 'w ledger_tx =
  x_query :: "string \<Rightarrow> params \<Rightarrow> ('w, sql_row list) io"
  x_execute :: "string \<Rightarrow> params \<Rightarrow> ('w, int) io"

record ('w, 'r) ledger_driver = "'w ledger_tx" +
  x_postgres :: bool
  x_batch :: "(string \<times> params) list \<Rightarrow> ('w, unit) io"
  x_transaction :: "('w ledger_tx \<Rightarrow> ('w, 'r) io) \<Rightarrow> ('w, 'r) io"
  x_close :: "('w, unit) io"

definition govern_tx ::
  "kernel \<Rightarrow> string \<Rightarrow> 'x plane_scheme ledger_tx \<Rightarrow> 'x plane_scheme ledger_tx" where
  "govern_tx K resource tx =
     \<lparr>x_query = (\<lambda>sql ps. seq (demand K ''db.read'' resource no_options) (x_query tx sql ps)),
      x_execute = (\<lambda>sql ps. seq (demand K ''db.write'' resource no_options) (x_execute tx sql ps))\<rparr>"

definition govern_driver ::
  "kernel \<Rightarrow> string \<Rightarrow> ('x plane_scheme, 'r) ledger_driver \<Rightarrow> ('x plane_scheme, 'r) ledger_driver" where
  "govern_driver K resource D =
     \<lparr>x_query = (\<lambda>sql ps. seq (demand K ''db.read'' resource no_options) (x_query D sql ps)),
      x_execute = (\<lambda>sql ps. seq (demand K ''db.write'' resource no_options) (x_execute D sql ps)),
      x_postgres = x_postgres D,
      x_batch = (\<lambda>stmts. seq (demand K ''db.migrate'' resource no_options) (x_batch D stmts)),
      x_transaction = (\<lambda>f. seq (demand K ''db.txn'' resource no_options)
                        (x_transaction D (\<lambda>tx. f (govern_tx K resource tx)))),
      x_close = x_close D\<rparr>"

section \<open>The governed egress\<close>

text \<open>
  The fetch, and the URL parser that answers a text's host name or throws, are arguments.
\<close>

definition governed_fetch ::
  "kernel \<Rightarrow> (string \<Rightarrow> exn + string) \<Rightarrow> (string \<Rightarrow> 'i \<Rightarrow> ('x plane_scheme, 'resp) io) \<Rightarrow>
    string \<Rightarrow> string \<Rightarrow> 'i \<Rightarrow> ('x plane_scheme, 'resp) io" where
  "governed_fetch K hostname fetch resource url init =
     bnd (lift (hostname url)) (\<lambda>host.
       seq (demand K ''http.egress'' resource (with_attributes [(''domain'', JStr host)]))
           (fetch url init))"

definition demand_smtp_egress :: "kernel \<Rightarrow> string \<Rightarrow> string \<Rightarrow> ('x plane_scheme, unit) io" where
  "demand_smtp_egress K resource host =
     demand K ''smtp.egress'' resource (with_attributes [(''host'', JStr host)])"

section \<open>The governed addon: cache and counters\<close>

text \<open>The addon's calls; \<open>h_ready\<close> is the outcome of the node's start.\<close>

record 'w addon =
  h_ready :: "exn + unit"
  h_health :: "('w, string) io"
  h_kv_put :: "string \<Rightarrow> string \<Rightarrow> nat option \<Rightarrow> ('w, unit) io"
  h_kv_get :: "string \<Rightarrow> ('w, string option) io"
  h_kv_del :: "string \<Rightarrow> ('w, unit) io"
  h_counter_add :: "string \<Rightarrow> int \<Rightarrow> ('w, int) io"
  h_counter_get :: "string \<Rightarrow> ('w, int option) io"
  h_counter_set :: "string \<Rightarrow> int \<Rightarrow> ('w, unit) io"
  h_counter_del :: "string \<Rightarrow> ('w, unit) io"

definition await_ready :: "'w addon \<Rightarrow> ('w, unit) io" where
  "await_ready H = lift (h_ready H)"

text \<open>Demand a capability with the key as its attribute, wait for the node, then call.\<close>

definition keyed ::
  "kernel \<Rightarrow> 'x plane_scheme addon \<Rightarrow> string \<Rightarrow> string \<Rightarrow> string \<Rightarrow> ('x plane_scheme, 'a) io \<Rightarrow>
    ('x plane_scheme, 'a) io" where
  "keyed K H kind resource key call =
     seq (demand K kind resource (with_attributes [(''key'', JStr key)])) (seq (await_ready H) call)"

definition health :: "'w addon \<Rightarrow> ('w, string) io" where
  "health H = seq (await_ready H) (h_health H)"

definition kv_put where
  "kv_put K H key v ttl = keyed K H ''kv.put'' ''cache'' key (h_kv_put H key v ttl)"

definition kv_get where
  "kv_get K H key = keyed K H ''kv.get'' ''cache'' key (h_kv_get H key)"

definition kv_del where
  "kv_del K H key = keyed K H ''kv.delete'' ''cache'' key (h_kv_del H key)"

definition counter_add where
  "counter_add K H key delta = keyed K H ''counter.add'' ''counters'' key (h_counter_add H key delta)"

definition counter_get where
  "counter_get K H key = keyed K H ''counter.get'' ''counters'' key (h_counter_get H key)"

definition counter_set where
  "counter_set K H key v = keyed K H ''counter.set'' ''counters'' key (h_counter_set H key v)"

definition counter_del where
  "counter_del K H key = keyed K H ''counter.delete'' ''counters'' key (h_counter_del H key)"

section \<open>What the gate guarantees\<close>

lemma gate_granted: "granted K kind resource opts w \<Longrightarrow> seq (demand K kind resource opts) m w = m w"
  by (simp add: bnd_run demand_granted)

lemma gate_refused:
  assumes "\<not> granted K kind resource opts w" and "calm_observer w"
  shows "refused K kind resource opts w (seq (demand K kind resource opts) m w)"
proof -
  obtain r u where d: "demand K kind resource opts w = (r, u)" by fastforce
  from demand_refused [OF assms] d have r: "refused K kind resource opts w (r, u)" by simp
  then obtain x where "r = Inl x" by (auto simp: refused_def)
  with d r show ?thesis by (auto simp: bnd_run refused_def)
qed


definition demo_plane :: plane where
  "demo_plane = \<lparr>p_ledger = boot_ledger ready_disk [], p_scope = None, p_request = ApiCall ''web'',
     p_observer = Some (\<lambda>_. Inl (Failure ''span'')), p_observed = []\<rparr>"

definition demo_driver :: "(plane, unit) ledger_driver" where
  "demo_driver =
     \<lparr>x_query = (\<lambda>_ _. ret []), x_execute = (\<lambda>_ _. ret 0), x_postgres = False,
      x_batch = (\<lambda>_. ret ()), x_transaction = (\<lambda>f. f \<lparr>x_query = (\<lambda>_ _. ret []), x_execute = (\<lambda>_ _. ret 0)\<rparr>),
      x_close = ret ()\<rparr>"


end
