(* ===== verification/Placeholders.thy ===== *)
theory Placeholders
  imports Json Effects
begin

text \<open>
  The two placeholder scanners: \<open>assertPlaceholderOrder\<close> of
  \<open>backend/state/placeholders.ts\<close>, which guards every statement that crosses the state
  facade, and \<open>translatePlaceholders\<close> of \<open>backend/core/ledger/postgres.ts\<close>. The
  guard accepts exactly the statements whose numbered placeholders mean what the store's
  positional binding makes of them.
\<close>

section \<open>The guard\<close>

abbreviation squote :: char where
  "squote \<equiv> CHR 0x27"

abbreviation dquote :: char where
  "dquote \<equiv> CHR 0x22"

function scan_order :: "bool \<Rightarrow> nat list \<Rightarrow> nat \<Rightarrow> string \<Rightarrow> exn + nat" where
  "scan_order in_string seen expected [] = Inr (length seen)"
| "scan_order in_string seen expected (c # cs) =
     (if in_string then
        (if c = squote then
           (if cs \<noteq> [] \<and> hd cs = squote then scan_order True seen expected (tl cs)
            else scan_order False seen expected cs)
         else scan_order True seen expected cs)
      else if c = squote then scan_order True seen expected cs
      else if c \<noteq> CHR ''$'' then scan_order False seen expected cs
      else
        (let ds = digits_of cs in
         if ds = [] then scan_order False seen expected cs
         else
           (let num = digits_value 0 ds; rest = drop (length ds) cs in
            if num \<in> set seen then scan_order False seen expected rest
            else if num \<noteq> expected then Inl (PlaceholderOrderError num expected)
            else scan_order False (seen @ [num]) (expected + 1) rest)))"
  by pat_completeness auto
termination by (relation "measure (\<lambda>(_, _, _, s). length s)") auto

declare scan_order.simps [simp del]

definition assert_placeholder_order :: "string \<Rightarrow> exn + nat" where
  "assert_placeholder_order sql = scan_order False [] 1 sql"

text \<open>The numbers of the placeholders outside string literals, in order.\<close>

function numbers :: "bool \<Rightarrow> string \<Rightarrow> nat list" where
  "numbers in_string [] = []"
| "numbers in_string (c # cs) =
     (if in_string then
        (if c = squote then
           (if cs \<noteq> [] \<and> hd cs = squote then numbers True (tl cs) else numbers False cs)
         else numbers True cs)
      else if c = squote then numbers True cs
      else if c = CHR ''$'' \<and> digits_of cs \<noteq> [] then
        digits_value 0 (digits_of cs) # numbers False (drop (length (digits_of cs)) cs)
      else numbers False cs)"
  by pat_completeness auto
termination by (relation "measure (\<lambda>(_, s). length s)") auto

declare numbers.simps [simp del]

definition placeholders :: "string \<Rightarrow> nat list" where
  "placeholders sql = numbers False sql"

text \<open>
  The store binds by first appearance: the parameter a placeholder receives is one past the
  number of distinct placeholders that appeared before it did.
\<close>

definition store_binds :: "nat list \<Rightarrow> nat \<Rightarrow> nat" where
  "store_binds ks k = Suc (card (set (takeWhile (\<lambda>j. j \<noteq> k) ks)))"

fun accepts :: "nat \<Rightarrow> nat list \<Rightarrow> bool" where
  "accepts m [] = True"
| "accepts m (k # ks) =
     (if 1 \<le> k \<and> k < m then accepts m ks else k = m \<and> accepts (m + 1) ks)"

lemma digits_of_Nil [simp]: "digits_of [] = []"
  by (simp add: digits_of_def)

lemma scan_order_accepts:
  "set seen = {1..<m} \<Longrightarrow> length seen + 1 = m \<Longrightarrow>
     (\<exists>n. scan_order b seen m s = Inr n) \<longleftrightarrow> accepts m (numbers b s)"
proof (induction b seen m s rule: scan_order.induct)
  case (2 b seen m c cs)
  have up: "set (seen @ [m]) = {1..<m + 1} \<and> length (seen @ [m]) + 1 = m + 1"
    using "2.prems" by auto
  have seen: "digits_value 0 (digits_of cs) \<in> set seen \<longleftrightarrow>
      1 \<le> digits_value 0 (digits_of cs) \<and> digits_value 0 (digits_of cs) < m"
    using "2.prems" by auto
  show ?case
    using 2 up seen
    by (subst scan_order.simps, subst numbers.simps) (auto simp: Let_def digits_of_Nil split: if_splits)
qed (simp add: scan_order.simps numbers.simps)

lemma accepts_binds:
  "1 \<le> m \<Longrightarrow> accepts m ks \<longleftrightarrow>
     list_all (\<lambda>k. k \<in> {1..<m} \<or> Suc (card ({1..<m} \<union> set (takeWhile (\<lambda>j. j \<noteq> k) ks))) = k) ks"
proof (induction ks arbitrary: m)
  case (Cons k ks)
  show ?case
  proof (cases "k \<in> {1..<m}")
    case True
    then have "(j \<in> {1..<m} \<or> Suc (card ({1..<m} \<union> set (takeWhile (\<lambda>i. i \<noteq> j) (k # ks)))) = j) =
        (j \<in> {1..<m} \<or> Suc (card ({1..<m} \<union> set (takeWhile (\<lambda>i. i \<noteq> j) ks))) = j)" for j
    proof (cases "j = k")
      case False
      then have "{1..<m} \<union> set (takeWhile (\<lambda>i. i \<noteq> j) (k # ks)) =
          {1..<m} \<union> set (takeWhile (\<lambda>i. i \<noteq> j) ks)"
        using True by auto
      then show ?thesis by (simp only:)
    qed (use True in simp)
    with True Cons show ?thesis by (simp add: list_all_iff)
  next
    case False
    have head: "Suc (card {1..<m}) = m" using Cons.prems by simp
    have up: "{1..<m} \<union> insert m S = {1..<m + 1} \<union> S" for S
      using Cons.prems by auto
    have "list_all (\<lambda>j. j \<in> {1..<m} \<or> Suc (card ({1..<m} \<union> set (takeWhile (\<lambda>i. i \<noteq> j) (m # ks)))) = j) ks
        = list_all (\<lambda>j. j \<in> {1..<m + 1} \<or> Suc (card ({1..<m + 1} \<union> set (takeWhile (\<lambda>i. i \<noteq> j) ks))) = j) ks"
      unfolding list_all_iff
    proof (intro ball_cong refl)
      fix j
      show "(j \<in> {1..<m} \<or> Suc (card ({1..<m} \<union> set (takeWhile (\<lambda>i. i \<noteq> j) (m # ks)))) = j) =
          (j \<in> {1..<m + 1} \<or> Suc (card ({1..<m + 1} \<union> set (takeWhile (\<lambda>i. i \<noteq> j) ks))) = j)"
      proof (cases "j = m")
        case True
        with head Cons.prems show ?thesis by simp
      next
        case False
        with Cons.prems have "j \<in> {1..<m} \<longleftrightarrow> j \<in> {1..<m + 1}" by auto
        moreover have "{1..<m} \<union> set (takeWhile (\<lambda>i. i \<noteq> j) (m # ks)) =
            {1..<m + 1} \<union> set (takeWhile (\<lambda>i. i \<noteq> j) ks)"
          using False up by simp
        ultimately show ?thesis by (simp only:)
      qed
    qed
    with False Cons.IH [of "m + 1"] head show ?thesis by auto
  qed
qed simp

text \<open>
  C40: the guard lets a statement through exactly when, for every
  placeholder outside a string literal, the parameter the store will bind (by first appearance,
  ignoring the number) is the one its number names.
\<close>

theorem placeholder_guard_exact:
  "(\<exists>n. assert_placeholder_order sql = Inr n) \<longleftrightarrow>
     list_all (\<lambda>k. store_binds (placeholders sql) k = k) (placeholders sql)"
  using scan_order_accepts [of "[]" 1 False sql] accepts_binds [of 1 "placeholders sql"]
  by (simp add: assert_placeholder_order_def placeholders_def store_binds_def)

section \<open>The translation for Postgres\<close>

datatype tr_mode =
    TrCode
  | TrQuoted char
  | TrLine
  | TrBlock

definition dollar :: "nat \<Rightarrow> string" where
  "dollar n = CHR ''$'' # show_nat n"

function translate_from :: "tr_mode \<Rightarrow> nat \<Rightarrow> string \<Rightarrow> string" where
  "translate_from mode n [] = []"
| "translate_from TrCode n (c # cs) =
     (if c = squote \<or> c = dquote then c # translate_from (TrQuoted c) n cs
      else if c = CHR ''-'' \<and> cs \<noteq> [] \<and> hd cs = CHR ''-'' then c # translate_from TrLine n cs
      else if c = CHR ''/'' \<and> cs \<noteq> [] \<and> hd cs = CHR ''*'' then c # hd cs # translate_from TrBlock n (tl cs)
      else if c = CHR ''?'' then
        (if cs \<noteq> [] \<and> (hd cs = CHR ''|'' \<or> hd cs = CHR ''&'' \<or> hd cs = CHR ''?'')
         then c # hd cs # translate_from TrCode n (tl cs)
         else dollar (n + 1) @ translate_from TrCode (n + 1) cs)
      else c # translate_from TrCode n cs)"
| "translate_from (TrQuoted q) n (c # cs) =
     (if c = q then
        (if cs \<noteq> [] \<and> hd cs = q then c # hd cs # translate_from (TrQuoted q) n (tl cs)
         else c # translate_from TrCode n cs)
      else c # translate_from (TrQuoted q) n cs)"
| "translate_from TrLine n (c # cs) =
     (if c = CHR 10 then c # translate_from TrCode n cs else c # translate_from TrLine n cs)"
| "translate_from TrBlock n (c # cs) =
     (if c = CHR ''*'' \<and> cs \<noteq> [] \<and> hd cs = CHR ''/'' then c # hd cs # translate_from TrCode n (tl cs)
      else c # translate_from TrBlock n cs)"
  by pat_completeness auto
termination by (relation "measure (\<lambda>(_, _, s). length s)") auto

declare translate_from.simps [simp del]

definition translate_placeholders :: "string \<Rightarrow> string" where
  "translate_placeholders sql = translate_from TrCode 0 sql"

text \<open>
  Statements without quoted identifiers, comments, dollar signs or a marker glued to a digit, on
  which the two scanners read literals alike.
\<close>

fun plain_sql :: "string \<Rightarrow> bool" where
  "plain_sql [] = True"
| "plain_sql (c # cs) =
     (c \<noteq> dquote \<and> c \<noteq> CHR ''$'' \<and> c \<noteq> CHR ''-'' \<and> c \<noteq> CHR ''/'' \<and>
      (c = CHR ''?'' \<longrightarrow> cs = [] \<or> \<not> is_digit (hd cs)) \<and> plain_sql cs)"

lemma translate_head:
  "translate_from TrCode n cs \<noteq> [] \<Longrightarrow>
     cs \<noteq> [] \<and> (hd (translate_from TrCode n cs) = hd cs \<or> hd (translate_from TrCode n cs) = CHR ''$'')"
  by (cases cs) (auto simp: translate_from.simps dollar_def)

lemma digits_of_show_nat:
  "rest = [] \<or> \<not> is_digit (hd rest) \<Longrightarrow> digits_of (show_nat n @ rest) = show_nat n"
  using show_nat_digits [of n] by (cases rest) (auto simp: digits_of_def takeWhile_append2)

lemma numbers_dollar:
  "rest = [] \<or> \<not> is_digit (hd rest) \<Longrightarrow>
     numbers False (dollar n @ rest) = n # numbers False rest"
  using digits_of_show_nat [of rest n]
  by (simp add: dollar_def numbers.simps digits_value_show_nat)

lemma not_digit_punct: "\<not> is_digit (CHR ''$'')" "\<not> is_digit (CHR ''?'')"
  by (simp_all add: is_digit_def)

lemma plain_tl: "plain_sql cs \<Longrightarrow> plain_sql (tl cs)"
  by (cases cs) auto

lemma upto_Cons_ex: "(\<exists>k. xs = [Suc (Suc n)..<Suc (Suc n) + k]) \<Longrightarrow> \<exists>k. Suc n # xs = [Suc n..<Suc n + k]"
  by (metis add_Suc_shift add_Suc_right less_add_Suc1 upt_conv_Cons)

lemma numbers_translate:
  "plain_sql s \<Longrightarrow> mode = TrCode \<or> mode = TrQuoted squote \<Longrightarrow>
     \<exists>k. numbers (mode \<noteq> TrCode) (translate_from mode n s) = [Suc n..<Suc n + k]"
proof (induction mode n s rule: translate_from.induct)
  case (1 mode n)
  then show ?case by (auto simp: translate_from.simps numbers.simps)
next
  case (2 n c cs)
  have marked: "numbers False (dollar (n + 1) @ translate_from TrCode (n + 1) cs) =
      Suc n # numbers False (translate_from TrCode (n + 1) cs)"
    if "c = CHR ''?''"
    using that "2.prems"(1) translate_head [of "n + 1" cs] not_digit_punct
    by (subst numbers_dollar) auto
  have c: "c \<noteq> dquote" "c \<noteq> CHR ''$''" "c \<noteq> CHR ''-''" "c \<noteq> CHR ''/''" "plain_sql cs"
    using "2.prems"(1) by auto
  consider (quote) "c = squote"
    | (oper) "c = CHR ''?''" "cs \<noteq> []" "hd cs = CHR ''|'' \<or> hd cs = CHR ''&'' \<or> hd cs = CHR ''?''"
    | (mark) "c = CHR ''?''" "\<not> (cs \<noteq> [] \<and> (hd cs = CHR ''|'' \<or> hd cs = CHR ''&'' \<or> hd cs = CHR ''?''))"
    | (other) "c \<noteq> squote" "c \<noteq> CHR ''?''"
    by blast
  then show ?case
  proof cases
    case quote
    then show ?thesis using "2.IH"(1) c
      by (simp add: translate_from.simps(2) numbers.simps(2))
  next
    case oper
    then have "hd cs \<noteq> squote" "hd cs \<noteq> CHR ''$''" by auto
    with oper c show ?thesis using "2.IH"(4) plain_tl [OF c(5)]
      by (simp add: translate_from.simps(2) numbers.simps(2))
  next
    case mark
    with c have "\<exists>k. numbers False (translate_from TrCode (n + 1) cs) = [Suc (n + 1)..<Suc (n + 1) + k]"
      using "2.IH"(5) by simp
    moreover have "translate_from TrCode n (c # cs) = dollar (n + 1) @ translate_from TrCode (n + 1) cs"
      using mark by (auto simp: translate_from.simps(2))
    ultimately show ?thesis
      using upto_Cons_ex [of "numbers False (translate_from TrCode (n + 1) cs)" n]
        marked mark by simp
  next
    case other
    then show ?thesis using "2.IH"(6) c
      by (simp add: translate_from.simps(2) numbers.simps(2))
  qed
next
  case (3 q n c cs)
  then have q: "q = squote" "plain_sql cs" "plain_sql (tl cs)" using plain_tl [of cs] by auto
  show ?case
  proof (cases "c = q")
    case True
    show ?thesis
    proof (cases "cs \<noteq> [] \<and> hd cs = q")
      case True
      with \<open>c = q\<close> q "3.IH"(1) show ?thesis by (simp add: translate_from.simps(3) numbers.simps(2))
    next
      case False
      have "translate_from TrCode n cs = [] \<or> hd (translate_from TrCode n cs) \<noteq> squote"
        using translate_head [of n cs] False q(1) by (cases "translate_from TrCode n cs = []") auto
      moreover have "translate_from (TrQuoted q) n (c # cs) = c # translate_from TrCode n cs"
        using False True by (auto simp: translate_from.simps(3))
      ultimately show ?thesis using False True q "3.IH"(2)
        by (auto simp: numbers.simps(2))
    qed
  next
    case False
    with q "3.IH"(3) show ?thesis by (simp add: translate_from.simps(3) numbers.simps(2))
  qed
qed auto

text \<open>
  The Postgres translation numbers the markers it rewrites
  1, 2, 3, ... in order of appearance and never inside a string literal, so a translated statement
  satisfies the state facade's guard.
\<close>

theorem translation_numbers_in_order:
  assumes "plain_sql sql"
  shows "\<exists>k. placeholders (translate_placeholders sql) = [1..<Suc k] \<and>
    (\<exists>n. assert_placeholder_order (translate_placeholders sql) = Inr n)"
proof -
  obtain k where k: "placeholders (translate_placeholders sql) = [1..<Suc k]"
    using numbers_translate [OF assms, of TrCode 0]
    by (auto simp: placeholders_def translate_placeholders_def)
  have "accepts m [m..<m + j]" if "1 \<le> m" for m j
    using that
  proof (induction j arbitrary: m)
    case (Suc j)
    have "[m..<m + Suc j] = m # [Suc m..<Suc m + j]" by (simp add: upt_conv_Cons del: upt_Suc)
    with Suc.IH [of "Suc m"] show ?case by simp
  qed simp
  then have "accepts 1 [1..<1 + k]" by blast
  then have "accepts 1 (numbers False (translate_placeholders sql))"
    using k by (simp add: placeholders_def)
  then have "\<exists>n. assert_placeholder_order (translate_placeholders sql) = Inr n"
    using scan_order_accepts [of "[]" 1 False "translate_placeholders sql"]
    by (simp add: assert_placeholder_order_def)
  with k show ?thesis by blast
qed

theorem translation_numbers_in_order_witness:
  "\<exists>k. placeholders (translate_placeholders ''UPDATE t SET a = ?, b = 'why?' WHERE c = ?'') = [1..<Suc k] \<and>
    (\<exists>n. assert_placeholder_order (translate_placeholders ''UPDATE t SET a = ?, b = 'why?' WHERE c = ?'') = Inr n)"
  by (rule translation_numbers_in_order) (simp add: is_digit_def)

end
