(* ===== verification/Control_Store.thy ===== *)
theory Control_Store
  imports Json Effects
begin

text \<open>
  The control plane's tables (\<open>backend/control/schema.ts\<close>) and the statements the code
  runs on them (\<open>backend/control/admission.ts\<close>, \<open>watch.ts\<close>, \<open>controller.ts\<close>),
  each transaction as one atomic step of the store: the store serialises them. The locale
  \<open>versioned_store\<close> is the contract a watcher relies on: every step that changes a row
  gives it a revision above every revision there was, and nothing but such a step changes rows.
\<close>

section \<open>Tables\<close>

record resource_row =
  rr_kind :: string
  rr_tenant :: string
  rr_name :: string
  rr_revision :: nat
  rr_fence :: int
  rr_spec :: string
  rr_status :: "string option"
  rr_deleted :: "string option"
  rr_created :: string
  rr_updated :: string

datatype op_name = Created | Updated | Deleted

record outbox_row =
  ob_revision :: nat
  ob_kind :: string
  ob_tenant :: string
  ob_name :: string
  ob_op :: op_name
  ob_at :: string

type_synonym row_key = "string \<times> string \<times> string"

definition key_of :: "resource_row \<Rightarrow> row_key" where
  "key_of r = (rr_kind r, rr_tenant r, rr_name r)"

record store =
  s_schema :: bool                                 \<comment> \<open>the three tables exist\<close>
  s_rows :: "resource_row list"
  s_outbox :: "outbox_row list"
  s_marks :: "(string \<times> nat) list"

definition empty_store :: store where
  "empty_store = \<lparr>s_schema = False, s_rows = [], s_outbox = [], s_marks = []\<rparr>"

definition migrated_store :: store where
  "migrated_store = empty_store\<lparr>s_schema := True\<rparr>"

section \<open>Statements\<close>

definition max_revision :: "resource_row list \<Rightarrow> nat" where
  "max_revision rs = fold max (map rr_revision rs) 0"

text \<open>\<open>(SELECT COALESCE(MAX(revision), 0) + 1 FROM resource)\<close>\<close>

definition next_revision :: "store \<Rightarrow> nat" where
  "next_revision s = max_revision (s_rows s) + 1"

definition select_one :: "row_key \<Rightarrow> store \<Rightarrow> resource_row option" where
  "select_one k s = find (\<lambda>r. key_of r = k) (s_rows s)"

definition update_where ::
  "(resource_row \<Rightarrow> bool) \<Rightarrow> (resource_row \<Rightarrow> resource_row) \<Rightarrow> store \<Rightarrow> store" where
  "update_where p f s = s\<lparr>s_rows := map (\<lambda>r. if p r then f r else r) (s_rows s)\<rparr>"

text \<open>The upsert of \<open>admit\<close>.\<close>

definition upsert :: "row_key \<Rightarrow> int \<Rightarrow> string \<Rightarrow> string \<Rightarrow> store \<Rightarrow> store" where
  "upsert k fence body now s =
     (case select_one k s of
        None \<Rightarrow>
          (case k of (kind, tenant, name) \<Rightarrow>
             s\<lparr>s_rows := s_rows s @
               [\<lparr>rr_kind = kind, rr_tenant = tenant, rr_name = name, rr_revision = next_revision s,
                 rr_fence = fence, rr_spec = body, rr_status = None, rr_deleted = None,
                 rr_created = now, rr_updated = now\<rparr>]\<rparr>)
      | Some _ \<Rightarrow>
          update_where (\<lambda>r. key_of r = k \<and> rr_fence r \<le> fence)
            (\<lambda>r. r\<lparr>rr_revision := next_revision s, rr_fence := fence, rr_spec := body,
                    rr_deleted := None, rr_updated := now\<rparr>) s)"

text \<open>The updates of \<open>retract\<close> and \<open>setStatus\<close>.\<close>

definition tombstone :: "row_key \<Rightarrow> int \<Rightarrow> string \<Rightarrow> store \<Rightarrow> store" where
  "tombstone k fence now s =
     update_where (\<lambda>r. key_of r = k \<and> rr_fence r \<le> fence)
       (\<lambda>r. r\<lparr>rr_revision := next_revision s, rr_deleted := Some now, rr_updated := now,
               rr_fence := fence\<rparr>) s"

definition update_status :: "row_key \<Rightarrow> string option \<Rightarrow> int \<Rightarrow> string \<Rightarrow> store \<Rightarrow> store" where
  "update_status k body fence now s =
     update_where (\<lambda>r. key_of r = k \<and> rr_fence r \<le> fence)
       (\<lambda>r. r\<lparr>rr_revision := next_revision s, rr_status := body, rr_fence := fence,
               rr_updated := now\<rparr>) s"

text \<open>
  \<open>INSERT INTO outbox ... SELECT revision, ... FROM resource WHERE key\<close>: the revision is the
  outbox's primary key.
\<close>

definition outbox_insert :: "row_key \<Rightarrow> op_name \<Rightarrow> string \<Rightarrow> store \<Rightarrow> exn + store" where
  "outbox_insert k op at s =
     (case select_one k s of
        None \<Rightarrow> Inr s
      | Some r \<Rightarrow>
          if rr_revision r \<in> set (map ob_revision (s_outbox s)) then Inl UniqueViolation
          else Inr (s\<lparr>s_outbox := s_outbox s @
                 [\<lparr>ob_revision = rr_revision r, ob_kind = rr_kind r, ob_tenant = rr_tenant r,
                   ob_name = rr_name r, ob_op = op, ob_at = at\<rparr>]\<rparr>))"

text \<open>The watermark upsert of a controller, which only moves forward.\<close>

definition mark_upsert :: "string \<Rightarrow> nat \<Rightarrow> store \<Rightarrow> store" where
  "mark_upsert c n s =
     (case map_of (s_marks s) c of
        None \<Rightarrow> s\<lparr>s_marks := s_marks s @ [(c, n)]\<rparr>
      | Some old \<Rightarrow> if old < n then s\<lparr>s_marks := obj_set c n (s_marks s)\<rparr> else s)"

text \<open>The transactions: all of a transaction's statements, or none.\<close>

datatype store_op =
    OpAdmit row_key op_name int string string
  | OpRetract row_key int string
  | OpStatus row_key "string option" int string
  | OpMark string nat
  | OpMigrate

fun run_op :: "store_op \<Rightarrow> store \<Rightarrow> exn + store" where
  "run_op (OpAdmit k op fence body now) s =
     (if s_schema s then outbox_insert k op now (upsert k fence body now s)
      else Inl (NoSuchTable ''resource''))"
| "run_op (OpRetract k fence now) s =
     (if s_schema s then outbox_insert k Deleted now (tombstone k fence now s)
      else Inl (NoSuchTable ''resource''))"
| "run_op (OpStatus k body fence now) s =
     (if s_schema s then outbox_insert k Updated now (update_status k body fence now s)
      else Inl (NoSuchTable ''resource''))"
| "run_op (OpMark c n) s =
     (if s_schema s then Inr (mark_upsert c n s) else Inl (NoSuchTable ''controller_watermark''))"
| "run_op OpMigrate s = Inr (s\<lparr>s_schema := True\<rparr>)"

definition apply_op :: "store_op \<Rightarrow> store \<Rightarrow> store" where
  "apply_op p s = (case run_op p s of Inl _ \<Rightarrow> s | Inr s' \<Rightarrow> s')"

text \<open>The watch's scan, oldest first and bounded.\<close>

definition changes_scan :: "string list \<Rightarrow> nat \<Rightarrow> nat \<Rightarrow> store \<Rightarrow> resource_row list" where
  "changes_scan kinds since limit s =
     take limit (sort_key rr_revision
       (filter (\<lambda>r. rr_revision r > since \<and> (kinds = [] \<or> rr_kind r \<in> set kinds)) (s_rows s)))"

definition live_rows :: "string \<Rightarrow> string \<Rightarrow> store \<Rightarrow> resource_row list" where
  "live_rows kind tenant s =
     sort_key rr_revision
       (filter (\<lambda>r. rr_kind r = kind \<and> rr_tenant r = tenant \<and> rr_deleted r = None) (s_rows s))"

section \<open>Well-formed stores\<close>

definition store_wf :: "store \<Rightarrow> bool" where
  "store_wf s \<longleftrightarrow>
     distinct (map key_of (s_rows s)) \<and> distinct (map rr_revision (s_rows s)) \<and>
     list_all (\<lambda>r. 0 < rr_revision r) (s_rows s) \<and>
     set (map rr_revision (s_rows s)) \<subseteq> set (map ob_revision (s_outbox s)) \<and>
     list_all (\<lambda>o'. ob_revision o' \<le> max_revision (s_rows s)) (s_outbox s) \<and>
     distinct (map ob_revision (s_outbox s))"

lemma max_revision_Max: "max_revision rs = Max (insert 0 (rr_revision ` set rs))"
  unfolding max_revision_def by (metis Max.set_eq_fold list.set(2) list.set_map)

lemma max_revision_ge: "r \<in> set rs \<Longrightarrow> rr_revision r \<le> max_revision rs"
  by (simp add: max_revision_Max)

lemma max_revision_le: "(\<And>r. r \<in> set rs \<Longrightarrow> rr_revision r \<le> m) \<Longrightarrow> max_revision rs \<le> m"
  by (auto simp: max_revision_Max)

lemma next_revision_gt: "r \<in> set (s_rows s) \<Longrightarrow> rr_revision r < next_revision s"
  by (simp add: next_revision_def max_revision_ge less_Suc_eq_le)

section \<open>What a transaction does\<close>

text \<open>One row put under its key, over the row that was there or as a new one.\<close>

definition put_row :: "resource_row \<Rightarrow> resource_row list \<Rightarrow> resource_row list" where
  "put_row r' rs =
     (if key_of r' \<in> set (map key_of rs)
      then map (\<lambda>r. if key_of r = key_of r' then r' else r) rs
      else rs @ [r'])"

definition outbox_of :: "resource_row \<Rightarrow> op_name \<Rightarrow> string \<Rightarrow> outbox_row" where
  "outbox_of r op at =
     \<lparr>ob_revision = rr_revision r, ob_kind = rr_kind r, ob_tenant = rr_tenant r,
      ob_name = rr_name r, ob_op = op, ob_at = at\<rparr>"

text \<open>
  A committed change: the row got the next global revision, its fence did not fall, and the
  outbox got the entry of the same revision.
\<close>

definition committed :: "store \<Rightarrow> resource_row \<Rightarrow> op_name \<Rightarrow> string \<Rightarrow> store \<Rightarrow> bool" where
  "committed s r' op at s' \<longleftrightarrow>
     s_rows s' = put_row r' (s_rows s) \<and> rr_revision r' = next_revision s \<and>
     (\<forall>r \<in> set (s_rows s). key_of r = key_of r' \<longrightarrow> rr_fence r \<le> rr_fence r' \<and> rr_created r' = rr_created r) \<and>
     s_outbox s' = s_outbox s @ [outbox_of r' op at] \<and>
     s_marks s' = s_marks s \<and> s_schema s' = s_schema s"

lemma set_put_row:
  "set (put_row r' rs) = insert r' {r \<in> set rs. key_of r \<noteq> key_of r'}"
  by (auto simp: put_row_def image_iff)

lemma keys_put_row:
  "map key_of (put_row r' rs) =
     (if key_of r' \<in> set (map key_of rs) then map key_of rs else map key_of rs @ [key_of r'])"
  by (auto simp: put_row_def)

lemma distinct_put_row_revisions:
  assumes "distinct (map key_of rs)" and "distinct (map rr_revision rs)"
    and "\<And>r. r \<in> set rs \<Longrightarrow> rr_revision r < rr_revision r'"
  shows "distinct (map rr_revision (put_row r' rs))"
  using assms
proof (induction rs)
  case (Cons r rs)
  have "rr_revision r \<notin> rr_revision ` set (put_row r' rs)" if "key_of r \<noteq> key_of r'"
    using Cons.prems by (force simp: set_put_row)
  moreover have "put_row r' (r # rs) = r # put_row r' rs" if "key_of r \<noteq> key_of r'"
    using that by (auto simp: put_row_def)
  moreover have "put_row r' (r # rs) = r' # rs" if k: "key_of r = key_of r'"
  proof -
    have "\<forall>x \<in> set rs. key_of r' \<noteq> key_of x" using Cons.prems(1) k by (auto simp: image_iff)
    then have "map (\<lambda>x. if key_of x = key_of r' then r' else x) rs = rs"
      by (intro map_idI) auto
    with k show ?thesis by (simp add: put_row_def)
  qed
  ultimately show ?case using Cons by (cases "key_of r = key_of r'") force+
qed (simp add: put_row_def)

lemma max_put_row:
  assumes "\<And>r. r \<in> set rs \<Longrightarrow> rr_revision r < rr_revision r'"
  shows "max_revision (put_row r' rs) = rr_revision r'"
proof (rule antisym)
  show "max_revision (put_row r' rs) \<le> rr_revision r'"
    using assms by (intro max_revision_le) (auto simp: set_put_row intro: less_imp_le)
  show "rr_revision r' \<le> max_revision (put_row r' rs)"
    by (intro max_revision_ge) (simp add: set_put_row)
qed

lemma committed_max: "committed s r' op at s' \<Longrightarrow> max_revision (s_rows s') = next_revision s"
  using max_put_row [of "s_rows s" r'] next_revision_gt [of _ s] by (auto simp: committed_def)

lemma committed_wf:
  assumes "committed s r' op at s'" and wf: "store_wf s"
  shows "store_wf s'"
proof -
  have rows: "s_rows s' = put_row r' (s_rows s)" and ob: "s_outbox s' = s_outbox s @ [outbox_of r' op at]"
    and rev': "rr_revision r' = next_revision s"
    using assms(1) by (auto simp: committed_def)
  have lt: "r \<in> set (s_rows s) \<Longrightarrow> rr_revision r < rr_revision r'" for r
    using next_revision_gt rev' by simp
  have "distinct (map key_of (s_rows s'))"
    using wf by (simp add: rows keys_put_row store_wf_def)
  moreover have "distinct (map rr_revision (s_rows s'))"
    unfolding rows using wf lt by (intro distinct_put_row_revisions) (auto simp: store_wf_def)
  moreover have "list_all (\<lambda>r. 0 < rr_revision r) (s_rows s')"
    using wf by (auto simp: rows set_put_row store_wf_def list_all_iff rev' next_revision_def)
  moreover have "set (map rr_revision (s_rows s')) \<subseteq> set (map ob_revision (s_outbox s'))"
    using wf by (auto simp: rows set_put_row ob outbox_of_def store_wf_def)
  moreover have "list_all (\<lambda>o'. ob_revision o' \<le> max_revision (s_rows s')) (s_outbox s')"
    using wf committed_max [OF assms(1)]
    by (auto simp: ob outbox_of_def store_wf_def list_all_iff rev' next_revision_def)
  moreover have "distinct (map ob_revision (s_outbox s'))"
    using wf by (auto simp: ob outbox_of_def store_wf_def list_all_iff rev' next_revision_def)
  ultimately show ?thesis by (simp add: store_wf_def)
qed

lemma select_one_Some: "select_one k s = Some r \<Longrightarrow> r \<in> set (s_rows s) \<and> key_of r = k"
  by (auto simp: select_one_def find_Some_iff)

lemma select_one_None: "select_one k s = None \<longleftrightarrow> k \<notin> set (map key_of (s_rows s))"
  by (auto simp: select_one_def find_None_iff)

lemma select_one_unique:
  "distinct (map key_of (s_rows s)) \<Longrightarrow> r \<in> set (s_rows s) \<Longrightarrow> select_one (key_of r) s = Some r"
  by (metis distinct_map inj_on_def option.exhaust select_one_None select_one_Some list.set_map image_eqI)

lemma update_where_key:
  assumes "distinct (map key_of (s_rows s))" and "select_one k s = Some r" and "p r"
    and "key_of (f r) = k"
  shows "s_rows (update_where (\<lambda>x. key_of x = k \<and> p x) f s) = put_row (f r) (s_rows s)"
proof -
  have r: "r \<in> set (s_rows s)" "key_of r = k" using select_one_Some [OF assms(2)] by auto
  have one: "x = r" if "x \<in> set (s_rows s)" "key_of x = k" for x
    using select_one_unique [OF assms(1) that(1)] assms(2) that(2) by simp
  have "key_of (f r) \<in> set (map key_of (s_rows s))" using r assms(4) by force
  then show ?thesis
    using one assms(3,4) by (auto simp: update_where_def put_row_def)
qed

lemma update_where_skip:
  assumes "\<And>r. select_one k s = Some r \<Longrightarrow> \<not> p r" and "distinct (map key_of (s_rows s))"
  shows "update_where (\<lambda>x. key_of x = k \<and> p x) f s = s"
proof -
  have "map (\<lambda>r. if key_of r = k \<and> p r then f r else r) (s_rows s) = s_rows s"
    using assms select_one_unique [OF assms(2)] by (intro map_idI) auto
  then show ?thesis by (simp add: update_where_def)
qed

definition commit_row :: "resource_row \<Rightarrow> op_name \<Rightarrow> string \<Rightarrow> store \<Rightarrow> store" where
  "commit_row r' op at s =
     s\<lparr>s_rows := put_row r' (s_rows s), s_outbox := s_outbox s @ [outbox_of r' op at]\<rparr>"

definition admitted_row :: "row_key \<Rightarrow> int \<Rightarrow> string \<Rightarrow> string \<Rightarrow> store \<Rightarrow> resource_row" where
  "admitted_row k fence body now s =
     (case select_one k s of
        None \<Rightarrow>
          \<lparr>rr_kind = fst k, rr_tenant = fst (snd k), rr_name = snd (snd k),
           rr_revision = next_revision s, rr_fence = fence, rr_spec = body, rr_status = None,
           rr_deleted = None, rr_created = now, rr_updated = now\<rparr>
      | Some r \<Rightarrow> r\<lparr>rr_revision := next_revision s, rr_fence := fence, rr_spec := body,
                     rr_deleted := None, rr_updated := now\<rparr>)"

lemma key_of_update [simp]:
  "key_of (r\<lparr>rr_revision := n\<rparr>) = key_of r" "key_of (r\<lparr>rr_fence := f\<rparr>) = key_of r"
  "key_of (r\<lparr>rr_spec := b\<rparr>) = key_of r" "key_of (r\<lparr>rr_deleted := d\<rparr>) = key_of r"
  "key_of (r\<lparr>rr_updated := u\<rparr>) = key_of r" "key_of (r\<lparr>rr_status := t\<rparr>) = key_of r"
  by (simp_all add: key_of_def)

lemma key_admitted [simp]: "key_of (admitted_row k fence body now s) = k"
  by (auto simp: admitted_row_def dest: select_one_Some split: option.split) (simp add: key_of_def)

lemma revision_admitted [simp]: "rr_revision (admitted_row k fence body now s) = next_revision s"
  by (simp add: admitted_row_def split: option.split)

lemma wf_keys: "store_wf s \<Longrightarrow> distinct (map key_of (s_rows s))"
  by (simp add: store_wf_def)

lemma outbox_insert_put:
  assumes wf: "store_wf s" and k: "key_of r' = k" and v: "rr_revision r' = next_revision s"
    and t: "s_rows t = put_row r' (s_rows s)" "s_outbox t = s_outbox s"
  shows "outbox_insert k op at t = Inr (t\<lparr>s_outbox := s_outbox s @ [outbox_of r' op at]\<rparr>)"
proof -
  have "distinct (map key_of (s_rows t))" using wf by (simp add: t keys_put_row store_wf_def)
  then have "select_one k t = Some r'"
    using select_one_unique [of t r'] k by (simp add: t set_put_row)
  moreover have "rr_revision r' \<notin> set (map ob_revision (s_outbox t))"
    using wf by (auto simp: t v store_wf_def list_all_iff next_revision_def)
  ultimately show ?thesis by (simp add: outbox_insert_def outbox_of_def t)
qed

lemma outbox_insert_taken:
  assumes "store_wf s" and "select_one k s = Some r"
  shows "outbox_insert k op at s = Inl UniqueViolation"
proof -
  have "rr_revision r \<in> set (map ob_revision (s_outbox s))"
    using assms select_one_Some [OF assms(2)] by (auto simp: store_wf_def)
  with assms(2) show ?thesis by (simp add: outbox_insert_def)
qed

text \<open>The three transactions, exactly.\<close>

lemma run_admit:
  assumes wf: "store_wf s" and "s_schema s"
  shows "run_op (OpAdmit k op fence body now) s =
    (if (case select_one k s of None \<Rightarrow> True | Some r \<Rightarrow> rr_fence r \<le> fence)
     then Inr (commit_row (admitted_row k fence body now s) op now s)
     else Inl UniqueViolation)"
proof (cases "select_one k s")
  case None
  have "upsert k fence body now s = s\<lparr>s_rows := put_row (admitted_row k fence body now s) (s_rows s)\<rparr>"
  proof -
    have "put_row (admitted_row k fence body now s) (s_rows s) =
        s_rows s @ [admitted_row k fence body now s]"
      using None select_one_None [of k s] by (simp add: put_row_def)
    with None show ?thesis by (cases k) (simp add: upsert_def admitted_row_def)
  qed
  with None assms show ?thesis
    by (simp add: outbox_insert_put [OF wf key_admitted revision_admitted] commit_row_def)
next
  case (Some r)
  show ?thesis
  proof (cases "rr_fence r \<le> fence")
    case True
    have "upsert k fence body now s = s\<lparr>s_rows := put_row (admitted_row k fence body now s) (s_rows s)\<rparr>"
      using update_where_key [OF wf_keys [OF wf] Some, of "\<lambda>r. rr_fence r \<le> fence"] True Some
        select_one_Some [OF Some]
      by (simp add: upsert_def admitted_row_def update_where_def)
    with True Some assms show ?thesis
      by (simp add: outbox_insert_put [OF wf key_admitted revision_admitted] commit_row_def)
  next
    case False
    then have "upsert k fence body now s = s"
      using Some update_where_skip [OF _ wf_keys [OF wf], of k "\<lambda>r. rr_fence r \<le> fence"]
      by (simp add: upsert_def)
    with False Some assms show ?thesis by (simp add: outbox_insert_taken)
  qed
qed

definition tombstone_row :: "resource_row \<Rightarrow> int \<Rightarrow> string \<Rightarrow> store \<Rightarrow> resource_row" where
  "tombstone_row r fence now s =
     r\<lparr>rr_revision := next_revision s, rr_deleted := Some now, rr_updated := now, rr_fence := fence\<rparr>"

definition status_row :: "resource_row \<Rightarrow> string option \<Rightarrow> int \<Rightarrow> string \<Rightarrow> store \<Rightarrow> resource_row" where
  "status_row r body fence now s =
     r\<lparr>rr_revision := next_revision s, rr_status := body, rr_fence := fence, rr_updated := now\<rparr>"

lemma guarded_update:
  assumes wf: "store_wf s" and "s_schema s"
    and f: "\<And>r. key_of (f r) = key_of r" "\<And>r. rr_revision (f r) = next_revision s"
  shows "outbox_insert k op now (update_where (\<lambda>r. key_of r = k \<and> rr_fence r \<le> fence) f s) =
    (case select_one k s of
       None \<Rightarrow> Inr s
     | Some r \<Rightarrow> if rr_fence r \<le> fence then Inr (commit_row (f r) op now s) else Inl UniqueViolation)"
proof (cases "select_one k s")
  case None
  then have "update_where (\<lambda>r. key_of r = k \<and> rr_fence r \<le> fence) f s = s"
    by (intro update_where_skip wf_keys [OF wf]) simp
  with None show ?thesis by (simp add: outbox_insert_def)
next
  case (Some r)
  have k: "key_of r = k" using select_one_Some [OF Some] by simp
  show ?thesis
  proof (cases "rr_fence r \<le> fence")
    case True
    let ?t = "update_where (\<lambda>r. key_of r = k \<and> rr_fence r \<le> fence) f s"
    have "s_rows ?t = put_row (f r) (s_rows s)"
      using True by (intro update_where_key [OF wf_keys [OF wf] Some]) (simp_all add: f k)
    moreover have "s_outbox ?t = s_outbox s" by (simp add: update_where_def)
    ultimately have "outbox_insert k op now ?t = Inr (?t\<lparr>s_outbox := s_outbox s @ [outbox_of (f r) op now]\<rparr>)"
      by (intro outbox_insert_put [OF wf]) (simp_all add: f k)
    moreover have "?t\<lparr>s_outbox := s_outbox s @ [outbox_of (f r) op now]\<rparr> = commit_row (f r) op now s"
      using \<open>s_rows ?t = _\<close> by (simp add: commit_row_def update_where_def)
    ultimately show ?thesis using True Some by simp
  next
    case False
    then have "update_where (\<lambda>r. key_of r = k \<and> rr_fence r \<le> fence) f s = s"
      using Some by (intro update_where_skip wf_keys [OF wf]) simp
    with False Some show ?thesis by (simp add: outbox_insert_taken [OF wf])
  qed
qed

lemma run_retract:
  assumes "store_wf s" and "s_schema s"
  shows "run_op (OpRetract k fence now) s =
    (case select_one k s of
       None \<Rightarrow> Inr s
     | Some r \<Rightarrow> if rr_fence r \<le> fence then Inr (commit_row (tombstone_row r fence now s) Deleted now s)
                 else Inl UniqueViolation)"
  using guarded_update [OF assms, of "\<lambda>r. tombstone_row r fence now s" k Deleted now fence] assms
  by (simp add: tombstone_row_def tombstone_def)

lemma run_status:
  assumes "store_wf s" and "s_schema s"
  shows "run_op (OpStatus k body fence now) s =
    (case select_one k s of
       None \<Rightarrow> Inr s
     | Some r \<Rightarrow> if rr_fence r \<le> fence then Inr (commit_row (status_row r body fence now s) Updated now s)
                 else Inl UniqueViolation)"
  using guarded_update [OF assms, of "\<lambda>r. status_row r body fence now s" k Updated now fence] assms
  by (simp add: status_row_def update_status_def)

section \<open>Every transaction\<close>

lemma committed_admitted:
  assumes "case select_one k s of None \<Rightarrow> True | Some r \<Rightarrow> rr_fence r \<le> fence" and "store_wf s"
  shows "committed s (admitted_row k fence body now s) op now
    (commit_row (admitted_row k fence body now s) op now s)"
  using assms select_one_unique [OF wf_keys [OF assms(2)]]
  by (auto simp: committed_def commit_row_def) (auto simp: admitted_row_def)

lemma committed_update:
  assumes "select_one k s = Some r" and "store_wf s" and "key_of r' = k"
    and "rr_revision r' = next_revision s" and "rr_fence r \<le> rr_fence r'" and "rr_created r' = rr_created r"
  shows "committed s r' op now (commit_row r' op now s)"
proof -
  have "x = r" if "x \<in> set (s_rows s)" "key_of x = k" for x
    using select_one_unique [OF wf_keys [OF assms(2)] that(1)] assms(1) that(2) by simp
  with assms show ?thesis by (auto simp: committed_def commit_row_def)
qed

lemma run_op_cases:
  assumes wf: "store_wf s" and run: "run_op p s = Inr s'"
  shows "(s_rows s' = s_rows s \<and> s_outbox s' = s_outbox s) \<or> (\<exists>r' op at. committed s r' op at s')"
proof (cases "s_schema s")
  case False
  with run show ?thesis by (cases p) auto
next
  case True
  note sel = select_one_Some
  show ?thesis
  proof (cases p)
    case (OpAdmit k op fence body now)
    with run run_admit [OF wf True, of k op fence body now]
    have "case select_one k s of None \<Rightarrow> True | Some r \<Rightarrow> rr_fence r \<le> fence"
      and "s' = commit_row (admitted_row k fence body now s) op now s"
      by (auto simp del: run_op.simps split: if_splits)
    with committed_admitted [OF _ wf] show ?thesis by blast
  next
    case (OpRetract k fence now)
    with run have *: "(case select_one k s of None \<Rightarrow> Inr s
       | Some r \<Rightarrow> if rr_fence r \<le> fence then Inr (commit_row (tombstone_row r fence now s) Deleted now s)
                   else Inl UniqueViolation) = Inr s'"
      using run_retract [OF wf True, of k fence now] by simp
    show ?thesis
    proof (cases "select_one k s")
      case (Some r)
      with * have "s' = commit_row (tombstone_row r fence now s) Deleted now s" "rr_fence r \<le> fence"
        by (auto split: if_splits)
      then have "committed s (tombstone_row r fence now s) Deleted now s'"
        using committed_update [OF Some wf, of "tombstone_row r fence now s"] sel [OF Some]
        by (simp add: tombstone_row_def)
      then show ?thesis by blast
    qed (use * in auto)
  next
    case (OpStatus k body fence now)
    with run have *: "(case select_one k s of None \<Rightarrow> Inr s
       | Some r \<Rightarrow> if rr_fence r \<le> fence then Inr (commit_row (status_row r body fence now s) Updated now s)
                   else Inl UniqueViolation) = Inr s'"
      using run_status [OF wf True, of k body fence now] by simp
    show ?thesis
    proof (cases "select_one k s")
      case (Some r)
      with * have "s' = commit_row (status_row r body fence now s) Updated now s" "rr_fence r \<le> fence"
        by (auto split: if_splits)
      then have "committed s (status_row r body fence now s) Updated now s'"
        using committed_update [OF Some wf, of "status_row r body fence now s"] sel [OF Some]
        by (simp add: status_row_def)
      then show ?thesis by blast
    qed (use * in auto)
  next
    case (OpMark c n)
    with run True show ?thesis by (auto simp: mark_upsert_def split: option.splits if_splits)
  next
    case OpMigrate
    with run show ?thesis by auto
  qed
qed

lemma wf_same_tables:
  "s_rows s' = s_rows s \<Longrightarrow> s_outbox s' = s_outbox s \<Longrightarrow> store_wf s' = store_wf s"
  by (simp add: store_wf_def)

lemma run_op_wf: "store_wf s \<Longrightarrow> run_op p s = Inr s' \<Longrightarrow> store_wf s'"
  using run_op_cases committed_wf wf_same_tables by metis

lemma apply_op_cases:
  assumes "store_wf s"
  shows "(s_rows (apply_op p s) = s_rows s \<and> s_outbox (apply_op p s) = s_outbox s) \<or>
    (\<exists>r' op at. committed s r' op at (apply_op p s))"
  using run_op_cases [OF assms] by (auto simp: apply_op_def split: sum.split)

lemma apply_op_wf: "store_wf s \<Longrightarrow> store_wf (apply_op p s)"
  using run_op_wf by (auto simp: apply_op_def split: sum.split)

section \<open>The contract a watcher relies on\<close>

locale versioned_store =
  fixes step :: "'p \<Rightarrow> 's \<Rightarrow> 's" and rows :: "'s \<Rightarrow> 'r set" and revision :: "'r \<Rightarrow> nat"
    and ok :: "'s \<Rightarrow> bool"
  assumes ok_step: "ok s \<Longrightarrow> ok (step p s)"
    and change_above: "ok s \<Longrightarrow> r \<in> rows (step p s) \<Longrightarrow> r \<notin> rows s \<Longrightarrow> q \<in> rows s \<Longrightarrow> revision q < revision r"
    and never_lower: "ok s \<Longrightarrow> q \<in> rows s \<Longrightarrow> \<exists>r \<in> rows (step p s). revision q \<le> revision r"
begin

lemma ok_steps: "ok s \<Longrightarrow> ok (fold step ps s)"
  by (induction ps arbitrary: s) (simp_all add: ok_step)

text \<open>Whatever appears later is above everything there was.\<close>

lemma later_above:
  "ok s \<Longrightarrow> r \<in> rows (fold step ps s) \<Longrightarrow> r \<notin> rows s \<Longrightarrow> q \<in> rows s \<Longrightarrow> revision q < revision r"
proof (induction ps arbitrary: s q)
  case (Cons p ps)
  show ?case
  proof (cases "r \<in> rows (step p s)")
    case True
    with Cons.prems show ?thesis by (blast intro: change_above)
  next
    case False
    obtain q' where "q' \<in> rows (step p s)" "revision q \<le> revision q'"
      using never_lower Cons.prems by blast
    moreover have "revision q' < revision r"
      using Cons.IH [of "step p s" q'] Cons.prems False calculation(1) ok_step by simp
    ultimately show ?thesis by simp
  qed
qed simp

text \<open>
  A watcher that has seen every row up to its watermark, the watermark being no higher than what
  the store held, has still seen every row up to it after any further steps.
\<close>

lemma watermark_stays_complete:
  assumes "ok s" and "m = 0 \<or> (\<exists>q \<in> rows s. m \<le> revision q)"
    and "\<And>r. r \<in> rows s \<Longrightarrow> revision r \<le> m \<Longrightarrow> r \<in> seen"
    and "\<And>r. r \<in> rows (fold step ps s) \<Longrightarrow> 0 < revision r"
    and "r \<in> rows (fold step ps s)" and "revision r \<le> m"
  shows "r \<in> seen"
proof (cases "r \<in> rows s")
  case True
  with assms(3,6) show ?thesis by blast
next
  case False
  show ?thesis
  proof (cases "m = 0")
    case True
    with assms(4,5,6) show ?thesis by fastforce
  next
    case False
    then obtain q where "q \<in> rows s" "m \<le> revision q" using assms(2) by blast
    with later_above [OF assms(1,5) \<open>r \<notin> rows s\<close>] assms(6) show ?thesis by fastforce
  qed
qed

end

interpretation control: versioned_store apply_op "\<lambda>s. set (s_rows s)" rr_revision store_wf
proof
  show "store_wf s \<Longrightarrow> store_wf (apply_op p s)" for s p by (rule apply_op_wf)
  show "store_wf s \<Longrightarrow> r \<in> set (s_rows (apply_op p s)) \<Longrightarrow> r \<notin> set (s_rows s) \<Longrightarrow>
      q \<in> set (s_rows s) \<Longrightarrow> rr_revision q < rr_revision r" for s r q p
    using apply_op_cases [of s p] next_revision_gt [of q s] by (auto simp: committed_def set_put_row)
  show "store_wf s \<Longrightarrow> q \<in> set (s_rows s) \<Longrightarrow>
      \<exists>r \<in> set (s_rows (apply_op p s)). rr_revision q \<le> rr_revision r" for s q p
    using apply_op_cases [of s p] next_revision_gt [of q s]
    by (force simp: committed_def set_put_row)
qed

end
