(* ===== verification/State.thy ===== *)
theory State
  imports Kernel Placeholders Control_Store
begin

text \<open>
  The governed state facade: SQL (\<open>backend/state/sql.ts\<close>), leases (\<open>lease.ts\<close>),
  the event bus (\<open>watch.ts\<close>) and backups (\<open>backup.ts\<close>). Every facade call demands its capability, checks its statements'
  placeholders, waits for the node and then crosses to the store. Just before it does,
  other processes may run transactions (\<open>w_env\<close>); a local read answers from the replica, which
  is an earlier state of the store, a consistent one from the store itself.
\<close>

section \<open>The world of the state layer\<close>

record store_event =
  y_ops :: "store_op list"
  y_sync :: bool                        \<comment> \<open>the replica catches up\<close>
  y_fault :: "exn option"

text \<open>\<open>NotifyEnvelope\<close>\<close>

record envelope =
  v_kind :: string
  v_tenant :: "string option"
  v_name :: string
  v_revision :: nat

record lease_handle =
  lh_key :: string
  lh_token :: int
  lh_release :: "(exn + unit) option"   \<comment> \<open>the release in flight and its outcome\<close>

record world = plane +
  w_ready :: "exn + unit"
  w_store :: store
  w_replica :: store
  w_env :: "store_event list"
  w_now :: string
  w_bus :: "envelope list"
  w_leases :: "lease_handle list"
  w_locks :: "(exn + int) list"         \<comment> \<open>what the next lock requests answer\<close>
  w_releases :: "(exn + unit) list"     \<comment> \<open>what the next release requests answer\<close>

definition crossing :: "('x world_scheme, unit) io" where
  "crossing w =
     (case w_env w of
        [] \<Rightarrow> (Inr (), w)
      | ev # evs \<Rightarrow>
          let s = fold apply_op (y_ops ev) (w_store w);
              u = w\<lparr>w_store := s, w_replica := (if y_sync ev then s else w_replica w), w_env := evs\<rparr>
          in (case y_fault ev of Some e \<Rightarrow> (Inl e, u) | None \<Rightarrow> (Inr (), u)))"

definition state_ready :: "('x world_scheme, unit) io" where
  "state_ready = bnd (gets w_ready) lift"

definition SQL_RESOURCE :: string where
  "SQL_RESOURCE = ''state''"

definition BACKUP_RESOURCE :: string where
  "BACKUP_RESOURCE = ''state-backups''"

definition COORD_RESOURCE :: string where
  "COORD_RESOURCE = SQL_RESOURCE"

section \<open>SQL\<close>

definition attrs :: "string list \<Rightarrow> demand_options" where
  "attrs tables =
     (if tables = [] then no_options
      else with_attributes [(''tables'', JArr (map JStr tables))])"

fun check_all :: "string list \<Rightarrow> exn + unit" where
  "check_all [] = Inr ()"
| "check_all (sql # rest) = sbind (assert_placeholder_order sql) (\<lambda>_. check_all rest)"

definition sql_gate ::
  "kernel \<Rightarrow> string \<Rightarrow> string list \<Rightarrow> string list \<Rightarrow> ('x world_scheme, unit) io" where
  "sql_gate K kind tables sqls =
     seq (demand K kind SQL_RESOURCE (attrs tables))
    (seq (lift (check_all sqls))
    (seq state_ready crossing))"

text \<open>
  The last argument is what the statement means; a read is a function of the tables, a write a
  transaction of them.
\<close>

definition query ::
  "kernel \<Rightarrow> string \<Rightarrow> string list \<Rightarrow> (store \<Rightarrow> exn + 'a) \<Rightarrow> ('x world_scheme, 'a) io" where
  "query K sql tables run =
     seq (sql_gate K ''db.read'' tables [sql]) (bnd (gets (\<lambda>w. run (w_replica w))) lift)"

definition query_consistent ::
  "kernel \<Rightarrow> string \<Rightarrow> string list \<Rightarrow> (store \<Rightarrow> exn + 'a) \<Rightarrow> ('x world_scheme, 'a) io" where
  "query_consistent K sql tables run =
     seq (sql_gate K ''db.read'' tables [sql]) (bnd (gets (\<lambda>w. run (w_store w))) lift)"

definition commit :: "store_op \<Rightarrow> ('x world_scheme, unit) io" where
  "commit p =
     bnd (gets (\<lambda>w. run_op p (w_store w))) (\<lambda>r.
       case r of
         Inl e \<Rightarrow> throw e
       | Inr s \<Rightarrow> modify (\<lambda>w. w\<lparr>w_store := s\<rparr>))"

definition execute ::
  "kernel \<Rightarrow> string \<Rightarrow> string list \<Rightarrow> store_op \<Rightarrow> ('x world_scheme, unit) io" where
  "execute K sql tables p = seq (sql_gate K ''db.write'' tables [sql]) (commit p)"

definition txn ::
  "kernel \<Rightarrow> string list \<Rightarrow> string list \<Rightarrow> store_op \<Rightarrow> ('x world_scheme, unit) io" where
  "txn K sqls tables p = seq (sql_gate K ''db.txn'' tables sqls) (commit p)"

section \<open>The event bus\<close>

definition notify :: "kernel \<Rightarrow> envelope \<Rightarrow> ('x world_scheme, unit) io" where
  "notify K e =
     seq (demand K ''notify.publish'' COORD_RESOURCE (with_attributes [(''topic'', JStr (v_kind e))]))
    (seq state_ready (modify (\<lambda>w. w\<lparr>w_bus := w_bus w @ [e]\<rparr>)))"

text \<open>
  The pump hands one event to every handler registered when it arrives; a handler that throws
  neither stops the pump nor hides the event from the others.
\<close>

fun fan_out :: "(envelope \<Rightarrow> ('w, unit) io) list \<Rightarrow> envelope \<Rightarrow> ('w, unit) io" where
  "fan_out [] e = ret ()"
| "fan_out (h # hs) e = seq (catch (h e) (\<lambda>_. ret ())) (fan_out hs e)"

section \<open>Leases\<close>

definition lock :: "kernel \<Rightarrow> string \<Rightarrow> ('x world_scheme, nat) io" where
  "lock K key =
     seq (demand K ''lock.acquire'' COORD_RESOURCE (with_attributes [(''key'', JStr key)]))
    (seq state_ready
    (bnd (gets w_locks) (\<lambda>answers.
       case answers of
         [] \<Rightarrow> throw (Failure ''lock held'')
       | a # rest \<Rightarrow>
           seq (modify (\<lambda>w. w\<lparr>w_locks := rest\<rparr>))
          (bnd (lift a) (\<lambda>token.
           bnd (gets (\<lambda>w. length (w_leases w))) (\<lambda>i.
             seq (modify (\<lambda>w. w\<lparr>w_leases := w_leases w @
                   [\<lparr>lh_key = key, lh_token = token, lh_release = None\<rparr>]\<rparr>))
                 (ret i)))))))"

definition release :: "kernel \<Rightarrow> nat \<Rightarrow> ('x world_scheme, unit) io" where
  "release K i =
     bnd (gets (\<lambda>w. w_leases w ! i)) (\<lambda>l.
       case lh_release l of
         Some r \<Rightarrow> lift r
       | None \<Rightarrow>
           seq (demand K ''lock.acquire'' COORD_RESOURCE (with_attributes [(''key'', JStr (lh_key l))]))
          (bnd (gets (\<lambda>w. case w_releases w of [] \<Rightarrow> Inr () | r # _ \<Rightarrow> r)) (\<lambda>r.
           seq (modify (\<lambda>w. w\<lparr>w_releases := tl (w_releases w),
                             w_leases := (w_leases w)[i := l\<lparr>lh_release := Some r\<rparr>]\<rparr>))
               (lift r))))"

definition with_lease :: "kernel \<Rightarrow> string \<Rightarrow> (int \<Rightarrow> ('x world_scheme, 'a) io) \<Rightarrow> ('x world_scheme, 'a) io" where
  "with_lease K key f =
     bnd (lock K key) (\<lambda>i.
     bnd (gets (\<lambda>w. lh_token (w_leases w ! i))) (\<lambda>token.
       finally_do (f token) (release K i)))"

section \<open>Backups\<close>

text \<open>The addon's backup calls are arguments.\<close>

definition backup :: "kernel \<Rightarrow> ('x world_scheme, unit) io \<Rightarrow> ('x world_scheme, unit) io" where
  "backup K addon_backup =
     seq (demand K ''bucket.write'' BACKUP_RESOURCE no_options) (seq state_ready addon_backup)"

definition backup_list_local :: "kernel \<Rightarrow> ('x world_scheme, 'b list) io \<Rightarrow> ('x world_scheme, 'b list) io" where
  "backup_list_local K addon_list =
     seq (demand K ''bucket.list'' BACKUP_RESOURCE no_options) (seq state_ready addon_list)"

definition backup_list_s3 :: "kernel \<Rightarrow> ('x world_scheme, 'b list) io \<Rightarrow> ('x world_scheme, 'b list) io" where
  "backup_list_s3 K addon_list =
     seq (demand K ''bucket.list'' BACKUP_RESOURCE no_options) (seq state_ready addon_list)"

section \<open>What crossings do to the store\<close>

text \<open>
  Between two worlds the store went through some sequence of transactions, and the replica is a
  state the store went through.
\<close>

definition store_steps :: "'x world_scheme \<Rightarrow> 'x world_scheme \<Rightarrow> bool" where
  "store_steps w w' \<longleftrightarrow> (\<exists>ps. w_store w' = fold apply_op ps (w_store w))"

interpretation steps: step_order store_steps
proof
  show "store_steps w w" for w :: "'x world_scheme" by (auto simp: store_steps_def intro: exI [of _ "[]"])
next
  fix u v w :: "'x world_scheme"
  assume "store_steps u v" "store_steps v w"
  then obtain ps qs where "w_store v = fold apply_op ps (w_store u)" "w_store w = fold apply_op qs (w_store v)"
    by (auto simp: store_steps_def)
  then have "w_store w = fold apply_op (ps @ qs) (w_store u)" by simp
  then show "store_steps u w" unfolding store_steps_def by blast
qed

named_theorems stepping \<open>programs that change the store only by transactions\<close>

lemma store_steps_frame: "w_store w' = w_store w \<Longrightarrow> store_steps w w'"
  by (auto simp: store_steps_def intro: exI [of _ "[]"])

lemma crossing_steps [stepping]: "along store_steps crossing"
  by (rule alongI)
     (auto simp: crossing_def store_steps_def Let_def intro: exI [of _ "[]"] split: list.splits option.splits)

lemma plane_only_store:
  assumes "plane_only w w'"
  shows "w_store w' = w_store w" and "w_replica w' = w_replica w" and "w_env w' = w_env w"
    and "w_now w' = w_now w" and "w_bus w' = w_bus w" and "w_ready w' = w_ready w"
    and "w_leases w' = w_leases w" and "p_observer w' = p_observer w"
  using assms by (auto simp: plane_only_def)

lemma demand_steps [stepping]: "along store_steps (demand K kind res opts)"
  using demand_plane [of K kind res opts]
  by (auto simp: along_def intro!: store_steps_frame plane_only_store(1))

lemma state_ready_steps [stepping]: "along store_steps state_ready"
  unfolding state_ready_def by (intro steps.along_bnd steps.along_gets steps.along_lift)

lemma sql_gate_steps [stepping]: "along store_steps (sql_gate K kind tables sqls)"
  unfolding sql_gate_def by (intro steps.along_bnd steps.along_lift stepping)

lemma query_steps [stepping]: "along store_steps (query K sql tables run)"
  unfolding query_def by (intro steps.along_bnd steps.along_gets steps.along_lift stepping)

lemma query_consistent_steps [stepping]: "along store_steps (query_consistent K sql tables run)"
  unfolding query_consistent_def by (intro steps.along_bnd steps.along_gets steps.along_lift stepping)

lemma commit_steps [stepping]: "along store_steps (commit p)"
proof (rule alongI)
  fix w :: "'x world_scheme"
  have "w_store (snd (commit p w)) = fold apply_op [p] (w_store w)"
    by (simp add: commit_def bnd_run apply_op_def split: sum.split)
  then show "store_steps w (snd (commit p w))" unfolding store_steps_def by blast
qed

lemma execute_steps [stepping]: "along store_steps (execute K sql tables p)"
  unfolding execute_def by (intro steps.along_bnd stepping)

lemma txn_steps [stepping]: "along store_steps (txn K sqls tables p)"
  unfolding txn_def by (intro steps.along_bnd stepping)

lemma notify_steps [stepping]: "along store_steps (notify K e)"
  unfolding notify_def
  by (intro steps.along_bnd stepping) (simp add: along_modify store_steps_frame)

end
