(* ===== verification/Admission.thy ===== *)
theory Admission
  imports State
begin

text \<open>
  The kind registry (\<open>backend/control/kinds.ts\<close>), row hydration (\<open>rows.ts\<close>) and the
  five-step admission path (\<open>admission.ts\<close>): validate, adjudicate, commit, read back,
  notify. The world \<open>cell\<close> adds the registry to the world of the state layer.
\<close>

section \<open>Kinds\<close>

text \<open>\<open>Kind\<close>; \<open>kn_ref\<close> is the object's identity, which \<open>===\<close> compares.\<close>

record kind_def =
  kn_ref :: nat
  kn_name :: string
  kn_tenant_scoped :: bool
  kn_validate :: "js \<Rightarrow> exn + js"

record cell = world +
  cl_kinds :: "(string \<times> kind_def) list"

definition register_kind :: "kind_def \<Rightarrow> ('x cell_scheme, kind_def) io" where
  "register_kind k =
     bnd (gets (\<lambda>w. map_of (cl_kinds w) (kn_name k))) (\<lambda>existing.
       if (case existing of None \<Rightarrow> False | Some e \<Rightarrow> kn_ref e \<noteq> kn_ref k)
       then throw (Failure (''kind '' @ quoted (kn_name k) @ '' is already registered with a different definition''))
       else seq (modify (\<lambda>w. w\<lparr>cl_kinds := obj_set (kn_name k) k (cl_kinds w)\<rparr>)) (ret k))"

definition registered_kinds :: "'x cell_scheme \<Rightarrow> string list" where
  "registered_kinds w = sort (map fst (cl_kinds w))"

definition require_kind :: "string \<Rightarrow> ('x cell_scheme, kind_def) io" where
  "require_kind name =
     bnd (gets (\<lambda>w. (map_of (cl_kinds w) name, registered_kinds w))) (\<lambda>(found, names).
       case found of
         Some k \<Rightarrow> ret k
       | None \<Rightarrow> throw (Failure (''unknown kind '' @ quoted name @ ''; registered: '' @
           (if join '', '' names = [] then ''<none>'' else join '', '' names))))"

text \<open>The validator helpers.\<close>

definition require_string :: "string \<Rightarrow> js \<Rightarrow> string \<Rightarrow> exn + string" where
  "require_string kind obj field =
     (case js_get obj field of
        JStr s \<Rightarrow>
          (if trim s = [] then Inl (InvalidSpecError kind field ''must not be empty'') else Inr (trim s))
      | v \<Rightarrow> Inl (InvalidSpecError kind field (''expected a string, got '' @ typeof v)))"

definition optional_string :: "string \<Rightarrow> js \<Rightarrow> string \<Rightarrow> exn + string option" where
  "optional_string kind obj field =
     (if nullish (js_get obj field) then Inr None
      else sbind (require_string kind obj field) (\<lambda>s. Inr (Some s)))"

definition require_object :: "string \<Rightarrow> js \<Rightarrow> exn + js" where
  "require_object kind input =
     (case input of
        JObj kvs \<Rightarrow> Inr (JObj kvs)
      | _ \<Rightarrow> Inl (InvalidSpecError kind ''<root>'' ''expected an object''))"

definition require_enum :: "string \<Rightarrow> js \<Rightarrow> string \<Rightarrow> string list \<Rightarrow> exn + string" where
  "require_enum kind obj field allowed =
     sbind (require_string kind obj field) (\<lambda>v.
       if v \<in> set allowed then Inr v
       else Inl (InvalidSpecError kind field
              (''expected one of '' @ join '', '' allowed @ '', got '' @ quoted v)))"

section \<open>Resources\<close>

record resource =
  re_kind :: string
  re_tenant :: string
  re_name :: string
  re_revision :: nat
  re_fence :: int
  re_spec :: js
  re_status :: js
  re_deleted :: "string option"
  re_created :: string
  re_updated :: string

definition parse_or_throw :: "string \<Rightarrow> exn + js" where
  "parse_or_throw s = (case parse_json s of None \<Rightarrow> Inl (Failure ''SyntaxError'') | Some v \<Rightarrow> Inr v)"

definition hydrate_row :: "resource_row \<Rightarrow> exn + resource" where
  "hydrate_row r =
     sbind (parse_or_throw (rr_spec r)) (\<lambda>spec.
     sbind (case rr_status r of None \<Rightarrow> Inr JNull | Some t \<Rightarrow> parse_or_throw t) (\<lambda>status.
       Inr \<lparr>re_kind = rr_kind r, re_tenant = rr_tenant r, re_name = rr_name r,
            re_revision = rr_revision r, re_fence = rr_fence r, re_spec = spec, re_status = status,
            re_deleted = rr_deleted r, re_created = rr_created r, re_updated = rr_updated r\<rparr>))"

fun hydrate_all :: "resource_row list \<Rightarrow> exn + resource list" where
  "hydrate_all [] = Inr []"
| "hydrate_all (r # rs) = sbind (hydrate_row r) (\<lambda>x. sbind (hydrate_all rs) (\<lambda>xs. Inr (x # xs)))"

text \<open>\<open>!row.deleted_at\<close> is true of a null and of an empty text.\<close>

definition is_deleted :: "resource_row \<Rightarrow> bool" where
  "is_deleted r = (case rr_deleted r of None \<Rightarrow> False | Some t \<Rightarrow> t \<noteq> [])"

record admit_options =
  ao_tenant :: "string option"
  ao_fence :: "int option"
  ao_actor :: "string option"

definition no_admit_options :: admit_options where
  "no_admit_options = \<lparr>ao_tenant = None, ao_fence = None, ao_actor = None\<rparr>"

definition given :: "string option \<Rightarrow> bool" where
  "given t = (case t of None \<Rightarrow> False | Some s \<Rightarrow> s \<noteq> [])"

definition tenant_of :: "kind_def \<Rightarrow> admit_options \<Rightarrow> exn + string" where
  "tenant_of k opts =
     (if kn_tenant_scoped k then
        (if given (ao_tenant opts) then Inr (the (ao_tenant opts))
         else Inl (TenancyError (''kind '' @ quoted (kn_name k) @ '' is tenant-scoped and no tenant was given'')))
      else if given (ao_tenant opts) then
        Inl (TenancyError (''kind '' @ quoted (kn_name k) @ '' is cluster-scoped; a tenant ('' @
               quoted (the (ao_tenant opts)) @ '') is not meaningful for it''))
      else Inr [])"

definition fence_of :: "admit_options \<Rightarrow> int" where
  "fence_of opts = (case ao_fence opts of None \<Rightarrow> 0 | Some f \<Rightarrow> f)"

section \<open>Statements\<close>

text \<open>The statements, up to white space.\<close>

definition SELECT_ONE :: string where
  "SELECT_ONE = ''SELECT * FROM resource WHERE kind = $1 AND tenant = $2 AND name = $3''"

definition ADMIT_SQL :: "string list" where
  "ADMIT_SQL =
     [''INSERT INTO resource (kind, tenant, name, revision, fence, spec, status, deleted_at, created_at, updated_at) VALUES ($1, $2, $3, (SELECT COALESCE(MAX(revision), 0) + 1 FROM resource), $4, $5, NULL, NULL, $6, $6) ON CONFLICT (kind, tenant, name) DO UPDATE SET revision = (SELECT COALESCE(MAX(revision), 0) + 1 FROM resource), fence = excluded.fence, spec = excluded.spec, deleted_at = NULL, updated_at = excluded.updated_at WHERE resource.fence <= excluded.fence'',
      ''INSERT INTO outbox (revision, kind, tenant, name, op, at) SELECT revision, kind, tenant, name, $1, $2 FROM resource WHERE kind = $3 AND tenant = $4 AND name = $5'']"

definition RETRACT_SQL :: "string list" where
  "RETRACT_SQL =
     [''UPDATE resource SET revision = (SELECT COALESCE(MAX(revision), 0) + 1 FROM resource), deleted_at = $1, updated_at = $1, fence = $2 WHERE kind = $3 AND tenant = $4 AND name = $5 AND fence <= $2'',
      ''INSERT INTO outbox (revision, kind, tenant, name, op, at) SELECT revision, kind, tenant, name, 'deleted', $1 FROM resource WHERE kind = $2 AND tenant = $3 AND name = $4'']"

definition STATUS_SQL :: "string list" where
  "STATUS_SQL =
     [''UPDATE resource SET revision = (SELECT COALESCE(MAX(revision), 0) + 1 FROM resource), status = $1, fence = $2, updated_at = $3 WHERE kind = $4 AND tenant = $5 AND name = $6 AND fence <= $2'',
      ''INSERT INTO outbox (revision, kind, tenant, name, op, at) SELECT revision, kind, tenant, name, 'updated', $1 FROM resource WHERE kind = $2 AND tenant = $3 AND name = $4'']"

definition LIST_SQL :: string where
  "LIST_SQL = ''SELECT * FROM resource WHERE kind = $1 AND tenant = $2 AND deleted_at IS NULL ORDER BY revision''"

definition in_schema :: "string \<Rightarrow> (store \<Rightarrow> 'a) \<Rightarrow> store \<Rightarrow> exn + 'a" where
  "in_schema table f s = (if s_schema s then Inr (f s) else Inl (NoSuchTable table))"

section \<open>The five steps\<close>

definition read_back :: "kernel \<Rightarrow> row_key \<Rightarrow> ('x world_scheme, resource) io" where
  "read_back K k =
     bnd (query_consistent K SELECT_ONE [''resource''] (in_schema ''resource'' (select_one k))) (\<lambda>row.
       case row of
         None \<Rightarrow> throw (Failure (''admitted '' @ fst k @ ''/'' @ snd (snd k) @
                   '' but it was not readable afterwards''))
       | Some r \<Rightarrow> lift (hydrate_row r))"

fun op_text :: "op_name \<Rightarrow> string" where
  "op_text Created = ''created''"
| "op_text Updated = ''updated''"
| "op_text Deleted = ''deleted''"

definition admission_decision ::
  "kernel \<Rightarrow> row_key \<Rightarrow> op_name \<Rightarrow> nat \<Rightarrow> string option \<Rightarrow> bool \<Rightarrow> effect_decision" where
  "admission_decision K k op revision actor on_status =
     (case k of (kind, tenant, name) \<Rightarrow>
        \<lparr>e_model = k_model K, e_gate = k_gate K, e_service = ''control'',
         e_capability = \<lparr>c_kind = ''resource.'' @ op_text op, c_resource = kind\<rparr>,
         e_context = context_hash K (JObj
           ([(''kind'', JStr kind), (''name'', JStr name), (''op'', JStr (op_text op)),
             (''revision'', JInt (int revision)), (''tenant'', JStr tenant)] @
            (if on_status then [(''column'', JStr ''status'')] else []) @
            (if given actor then [(''actor'', JStr (the actor))] else []))),
         e_outcome = ''allow'',
         e_reason = (if on_status then ''status'' else ''admitted'') @ '':'' @ kind @ ''/'' @
           (if tenant = [] then ''-'' else tenant) @ ''/'' @ name @ ''@'' @ show_nat revision,
         e_checks = []\<rparr>)"

definition record_admission ::
  "kernel \<Rightarrow> row_key \<Rightarrow> op_name \<Rightarrow> nat \<Rightarrow> string option \<Rightarrow> bool \<Rightarrow> ('x plane_scheme, unit) io" where
  "record_admission K k op revision actor on_status =
     zoom p_ledger (\<lambda>l. p_ledger_update (\<lambda>_. l))
       (append_decision K (admission_decision K k op revision actor on_status) None)"

definition envelope_of :: "row_key \<Rightarrow> nat \<Rightarrow> envelope" where
  "envelope_of k revision =
     \<lparr>v_kind = fst k, v_tenant = (if fst (snd k) = [] then None else Some (fst (snd k))),
      v_name = snd (snd k), v_revision = revision\<rparr>"

text \<open>Steps four and five, and the Decision between them.\<close>

definition finish_write ::
  "kernel \<Rightarrow> row_key \<Rightarrow> op_name \<Rightarrow> string option \<Rightarrow> bool \<Rightarrow> ('x world_scheme, resource) io" where
  "finish_write K k op actor on_status =
     bnd (read_back K k) (\<lambda>stored.
     seq (record_admission K k op (re_revision stored) actor on_status)
    (seq (notify K (envelope_of k (re_revision stored)))
         (ret stored)))"

definition admit ::
  "kernel \<Rightarrow> string \<Rightarrow> string \<Rightarrow> js \<Rightarrow> admit_options \<Rightarrow> ('x cell_scheme, resource) io" where
  "admit K kind_name name spec opts =
     bnd (require_kind kind_name) (\<lambda>kind.
     bnd (lift (tenant_of kind opts)) (\<lambda>tenant.
     bnd (lift (kn_validate kind spec)) (\<lambda>validated.
     bnd (gets w_now) (\<lambda>now.
       let k = (kn_name kind, tenant, name); fence = fence_of opts; body = show_js validated in
       bnd (query_consistent K SELECT_ONE [''resource''] (in_schema ''resource'' (select_one k))) (\<lambda>existing.
         case existing of
           None \<Rightarrow>
             seq (txn K ADMIT_SQL [''resource'', ''outbox''] (OpAdmit k Created fence body now))
                 (finish_write K k Created (ao_actor opts) False)
         | Some r \<Rightarrow>
             if rr_fence r > fence then throw (SupersededError (kn_name kind) name fence)
             else if \<not> is_deleted r \<and> rr_spec r = body \<and> rr_fence r = fence then lift (hydrate_row r)
             else
               let op = (if is_deleted r then Created else Updated) in
               seq (txn K ADMIT_SQL [''resource'', ''outbox''] (OpAdmit k op fence body now))
                   (finish_write K k op (ao_actor opts) False))))))"

definition retract ::
  "kernel \<Rightarrow> string \<Rightarrow> string \<Rightarrow> admit_options \<Rightarrow> ('x cell_scheme, resource option) io" where
  "retract K kind_name name opts =
     bnd (require_kind kind_name) (\<lambda>kind.
     bnd (lift (tenant_of kind opts)) (\<lambda>tenant.
     bnd (gets w_now) (\<lambda>now.
       let k = (kn_name kind, tenant, name); fence = fence_of opts in
       bnd (query_consistent K SELECT_ONE [''resource''] (in_schema ''resource'' (select_one k))) (\<lambda>existing.
         case existing of
           None \<Rightarrow> ret None
         | Some r \<Rightarrow>
             if is_deleted r then ret None
             else if rr_fence r > fence then throw (SupersededError (kn_name kind) name fence)
             else
               seq (txn K RETRACT_SQL [''resource'', ''outbox''] (OpRetract k fence now))
                   (bnd (finish_write K k Deleted (ao_actor opts) False) (\<lambda>stored. ret (Some stored)))))))"

definition set_status ::
  "kernel \<Rightarrow> string \<Rightarrow> string \<Rightarrow> js \<Rightarrow> admit_options \<Rightarrow> ('x cell_scheme, resource option) io" where
  "set_status K kind_name name status opts =
     bnd (require_kind kind_name) (\<lambda>kind.
     bnd (lift (tenant_of kind opts)) (\<lambda>tenant.
     bnd (gets w_now) (\<lambda>now.
       let k = (kn_name kind, tenant, name); fence = fence_of opts; body = show_js status in
       bnd (query_consistent K SELECT_ONE [''resource''] (in_schema ''resource'' (select_one k))) (\<lambda>existing.
         case existing of
           None \<Rightarrow> ret None
         | Some r \<Rightarrow>
             if is_deleted r then ret None
             else if rr_fence r > fence then throw (SupersededError (kn_name kind) name fence)
             else if rr_status r = Some body then bnd (lift (hydrate_row r)) (\<lambda>stored. ret (Some stored))
             else
               seq (txn K STATUS_SQL [''resource'', ''outbox''] (OpStatus k (Some body) fence now))
                   (bnd (finish_write K k Updated (ao_actor opts) True) (\<lambda>stored. ret (Some stored)))))))"

definition get_resource ::
  "kernel \<Rightarrow> string \<Rightarrow> string \<Rightarrow> admit_options \<Rightarrow> ('x cell_scheme, resource option) io" where
  "get_resource K kind_name name opts =
     bnd (require_kind kind_name) (\<lambda>kind.
     bnd (lift (tenant_of kind opts)) (\<lambda>tenant.
     bnd (query K SELECT_ONE [''resource''] (in_schema ''resource'' (select_one (kn_name kind, tenant, name)))) (\<lambda>row.
       case row of
         None \<Rightarrow> ret None
       | Some r \<Rightarrow> if is_deleted r then ret None else bnd (lift (hydrate_row r)) (\<lambda>x. ret (Some x)))))"

definition list_resources ::
  "kernel \<Rightarrow> string \<Rightarrow> admit_options \<Rightarrow> ('x cell_scheme, resource list) io" where
  "list_resources K kind_name opts =
     bnd (require_kind kind_name) (\<lambda>kind.
     bnd (lift (tenant_of kind opts)) (\<lambda>tenant.
     bnd (query K LIST_SQL [''resource''] (in_schema ''resource'' (live_rows (kn_name kind) tenant))) (\<lambda>rows.
       lift (hydrate_all rows))))"

end
