(* ===== verification/Admission_Claims.thy ===== *)
theory Admission_Claims
  imports Admission
begin

text \<open>
  What admission guarantees: the exact outcome on every branch when nobody interferes, and,
  under any interleaving with other writers, that the store only moves by whole transactions, that
  no fence falls and that a watcher's watermark loses nothing.
\<close>

section \<open>The statements pass the guard\<close>

lemma sql_accepted:
  "check_all [SELECT_ONE] = Inr ()" "check_all ADMIT_SQL = Inr ()" "check_all RETRACT_SQL = Inr ()"
  "check_all STATUS_SQL = Inr ()" "check_all [LIST_SQL] = Inr ()"
  by code_simp+

section \<open>Quiet worlds\<close>

definition permissive :: "kernel \<Rightarrow> bool" where
  "permissive K \<longleftrightarrow> (\<forall>req. a_outcome (k_adjudicate K req) = ''allow'')"

definition quiet :: "'x world_scheme \<Rightarrow> bool" where
  "quiet w \<longleftrightarrow> w_ready w = Inr () \<and> w_env w = [] \<and> s_schema (w_store w) \<and> store_wf (w_store w)"

lemma permissive_demand [simp]: "permissive K \<Longrightarrow> demand K kind res opts w = (Inr (), w)"
  by (rule demand_granted) (simp add: granted_def permissive_def)

lemma quiet_gate:
  "permissive K \<Longrightarrow> quiet w \<Longrightarrow> check_all sqls = Inr () \<Longrightarrow> sql_gate K kind tables sqls w = (Inr (), w)"
  by (simp add: sql_gate_def bnd_run quiet_def state_ready_def crossing_def)

lemma quiet_query_consistent:
  "permissive K \<Longrightarrow> quiet w \<Longrightarrow> check_all [sql] = Inr () \<Longrightarrow>
     query_consistent K sql tables f w = (f (w_store w), w)"
  by (simp add: query_consistent_def bnd_run quiet_gate)

lemma quiet_txn:
  "permissive K \<Longrightarrow> quiet w \<Longrightarrow> check_all sqls = Inr () \<Longrightarrow>
     txn K sqls tables p w =
       (case run_op p (w_store w) of Inl e \<Rightarrow> (Inl e, w) | Inr s \<Rightarrow> (Inr (), w\<lparr>w_store := s\<rparr>))"
  by (simp add: txn_def commit_def bnd_run quiet_gate split: sum.split)

text \<open>The last steps of a write: the row as it now is, its Decision, its envelope.\<close>

definition finished :: "kernel \<Rightarrow> resource_row \<Rightarrow> op_name \<Rightarrow> string option \<Rightarrow> bool \<Rightarrow> 'x world_scheme \<Rightarrow> 'x world_scheme" where
  "finished K r op actor on_status w =
     w\<lparr>p_ledger := snd (append_decision K (admission_decision K (key_of r) op (rr_revision r) actor on_status) None (p_ledger w)),
       w_bus := w_bus w @ [envelope_of (key_of r) (rr_revision r)]\<rparr>"

lemma hydrate_revision: "hydrate_row r = Inr x \<Longrightarrow> re_revision x = rr_revision r"
  by (auto simp: hydrate_row_def sbind_Inr_iff)

lemma quiet_finish:
  assumes K: "permissive K" and q: "quiet w" and r: "select_one (key_of r) (w_store w) = Some r"
    and h: "hydrate_row r = Inr x"
    and led: "\<And>e. fst (append_decision K e None (p_ledger w)) = Inr ()"
  shows "finish_write K (key_of r) op actor on_status w = (Inr x, finished K r op actor on_status w)"
proof -
  have rb: "read_back K (key_of r) w = (Inr x, w)"
    using K q r h sql_accepted(1)
    by (simp add: read_back_def bnd_run quiet_query_consistent in_schema_def quiet_def)
  obtain l where l: "append_decision K (admission_decision K (key_of r) op (rr_revision r) actor on_status) None
      (p_ledger w) = (Inr (), l)"
    using led by (metis prod.collapse)
  have nt: "notify K e u = (Inr (), u\<lparr>w_bus := w_bus u @ [e]\<rparr>)" if "w_ready u = Inr ()" for e u
    using K that by (simp add: notify_def bnd_run state_ready_def)
  show ?thesis
    using q by (simp add: finish_write_def bnd_run rb hydrate_revision [OF h] record_admission_def
        zoom_def l nt quiet_def finished_def)
qed

text \<open>The admitted specs the validators answer can be stored and read back.\<close>

lemma hydrate_storable:
  "storable v \<Longrightarrow> rr_spec r = show_js v \<Longrightarrow> rr_status r = None \<or> (\<exists>t. storable t \<and> rr_status r = Some (show_js t)) \<Longrightarrow>
     \<exists>x. hydrate_row r = Inr x \<and> re_spec x = v"
  by (auto simp: hydrate_row_def parse_or_throw_def parse_stringify)

section \<open>Every branch of a write\<close>

definition texts_ok :: "store \<Rightarrow> bool" where
  "texts_ok s = list_all (\<lambda>r. parse_json (rr_spec r) \<noteq> None \<and>
     (case rr_status r of None \<Rightarrow> True | Some t \<Rightarrow> parse_json t \<noteq> None)) (s_rows s)"

lemma texts_hydrate:
  "texts_ok s \<Longrightarrow> r \<in> set (s_rows s) \<Longrightarrow> \<exists>x. hydrate_row r = Inr x"
  by (auto simp: texts_ok_def list_all_iff hydrate_row_def parse_or_throw_def split: option.splits)

lemma quiet_commit:
  assumes "quiet w" and "committed (w_store w) r op at (commit_row r op at (w_store w))"
  shows "quiet (w\<lparr>w_store := commit_row r op at (w_store w)\<rparr>)"
  using assms committed_wf [OF assms(2)] by (simp add: quiet_def commit_row_def)

lemma select_committed:
  assumes "committed s r op at s'" and "store_wf s"
  shows "select_one (key_of r) s' = Some r"
proof -
  have "r \<in> set (s_rows s')" using assms(1) by (simp add: committed_def set_put_row)
  with select_one_unique [OF wf_keys [OF committed_wf [OF assms]]] show ?thesis by blast
qed

lemma require_found: "map_of (cl_kinds w) n = Some k \<Longrightarrow> require_kind n w = (Inr k, w)"
  by (simp add: require_kind_def bnd_run)

text \<open>A committed write followed by the last steps.\<close>

lemma quiet_write:
  assumes K: "permissive K" and q: "quiet w" and sqls: "check_all sqls = Inr ()"
    and run: "run_op p (w_store w) = Inr (commit_row r op at (w_store w))"
    and com: "committed (w_store w) r op at (commit_row r op at (w_store w))"
    and h: "hydrate_row r = Inr x"
    and led: "\<And>e. fst (append_decision K e None (p_ledger w)) = Inr ()"
  shows "seq (txn K sqls tables p) (finish_write K (key_of r) op actor b) w =
    (Inr x, finished K r op actor b (w\<lparr>w_store := commit_row r op at (w_store w)\<rparr>))"
proof -
  have "store_wf (w_store w)" using q by (simp add: quiet_def)
  then have sel: "select_one (key_of r) (commit_row r op at (w_store w)) = Some r"
    using select_committed [OF com] by blast
  show ?thesis
    using quiet_finish [OF K quiet_commit [OF q com], of r x op actor b] h led sel
    by (simp add: bnd_run quiet_txn [OF K q sqls] run)
qed

lemma quiet_admit:
  assumes "permissive K" and "quiet w" and "texts_ok (w_store w)"
    and "map_of (cl_kinds w) kind_name = Some kind" and "tenant_of kind opts = Inr tenant"
    and "kn_validate kind spec = Inr v" and "storable v"
    and "\<And>e. fst (append_decision K e None (p_ledger w)) = Inr ()"
  shows "admit K kind_name name spec opts w =
    (let k = (kn_name kind, tenant, name); s = w_store w; now = w_now w;
         row = admitted_row k (fence_of opts) (show_js v) now s
     in case select_one k s of
          None \<Rightarrow>
            (hydrate_row row,
             finished K row Created (ao_actor opts) False (w\<lparr>w_store := commit_row row Created now s\<rparr>))
        | Some r \<Rightarrow>
            if fence_of opts < rr_fence r then (Inl (SupersededError (kn_name kind) name (fence_of opts)), w)
            else if \<not> is_deleted r \<and> rr_spec r = show_js v \<and> rr_fence r = fence_of opts
            then (hydrate_row r, w)
            else
              (let op = (if is_deleted r then Created else Updated) in
               (hydrate_row row,
                finished K row op (ao_actor opts) False (w\<lparr>w_store := commit_row row op now s\<rparr>))))"
proof -
  define k where "k = (kn_name kind, tenant, name)"
  define row where "row = admitted_row k (fence_of opts) (show_js v) (w_now w) (w_store w)"
  have wf: "store_wf (w_store w)" and sch: "s_schema (w_store w)" using assms(2) by (auto simp: quiet_def)
  have key: "key_of row = k" by (simp add: row_def)
  obtain x where x: "hydrate_row row = Inr x"
  proof (cases "select_one k (w_store w)")
    case None
    then show ?thesis using that assms(7)
      by (auto simp: row_def admitted_row_def hydrate_row_def parse_or_throw_def parse_stringify)
  next
    case (Some r)
    then have "r \<in> set (s_rows (w_store w))" using select_one_Some by blast
    then have "case rr_status r of None \<Rightarrow> True | Some t \<Rightarrow> parse_json t \<noteq> None"
      using assms(3) by (simp add: texts_ok_def list_all_iff)
    with Some show ?thesis using that assms(7)
      by (auto simp: row_def admitted_row_def hydrate_row_def parse_or_throw_def parse_stringify
          split: option.splits)
  qed
  have writes: "seq (txn K ADMIT_SQL [''resource'', ''outbox''] (OpAdmit k op (fence_of opts) (show_js v) (w_now w)))
        (finish_write K k op (ao_actor opts) False) w =
      (hydrate_row row, finished K row op (ao_actor opts) False
         (w\<lparr>w_store := commit_row row op (w_now w) (w_store w)\<rparr>))"
    if ok: "case select_one k (w_store w) of None \<Rightarrow> True | Some r \<Rightarrow> rr_fence r \<le> fence_of opts" for op
    using quiet_write [OF assms(1,2) sql_accepted(2) _ _ x assms(8), of
        "OpAdmit k op (fence_of opts) (show_js v) (w_now w)" op "w_now w"]
      run_admit [OF wf sch, of k op "fence_of opts" "show_js v" "w_now w"] ok
      committed_admitted [OF ok wf, of "show_js v" "w_now w" op] x
    by (simp add: row_def [symmetric] key del: run_op.simps)
  have read: "query_consistent K SELECT_ONE [''resource''] (in_schema ''resource'' (select_one k)) w =
      (Inr (select_one k (w_store w)), w)"
    by (simp add: quiet_query_consistent [OF assms(1,2) sql_accepted(1)] in_schema_def sch)
  have run: "admit K kind_name name spec opts w =
      (case select_one k (w_store w) of
         None \<Rightarrow> seq (txn K ADMIT_SQL [''resource'', ''outbox''] (OpAdmit k Created (fence_of opts) (show_js v) (w_now w)))
                 (finish_write K k Created (ao_actor opts) False)
       | Some r \<Rightarrow>
           if rr_fence r > fence_of opts then throw (SupersededError (kn_name kind) name (fence_of opts))
           else if \<not> is_deleted r \<and> rr_spec r = show_js v \<and> rr_fence r = fence_of opts then lift (hydrate_row r)
           else seq (txn K ADMIT_SQL [''resource'', ''outbox'']
                   (OpAdmit k (if is_deleted r then Created else Updated) (fence_of opts) (show_js v) (w_now w)))
                 (finish_write K k (if is_deleted r then Created else Updated) (ao_actor opts) False)) w"
    by (simp only: admit_def Let_def bnd_ok [where m = "require_kind kind_name", OF require_found [OF assms(4)]] bnd_lift [OF assms(5)]
        bnd_lift [OF assms(6)] bnd_gets k_def [symmetric] bnd_ok [where m = "query_consistent K SELECT_ONE [''resource''] (in_schema ''resource'' (select_one k))", OF read])
  show ?thesis
    unfolding run Let_def k_def [symmetric] row_def [symmetric]
    using writes by (auto split: option.split)
qed

text \<open>
  C4: with no interference an admission answers exactly as follows. A fence
  below the recorded one is refused and changes nothing. The same normalized spec at the same
  fence on a live row changes nothing either: no revision, no outbox row, no Decision, no
  event. Anything else commits one row at the next global revision (created when the key is new or
  was retracted, updated otherwise; the status is kept) with its outbox row, appends the Decision,
  publishes the event of that revision after the commit, and answers the stored resource.
\<close>

theorem admit_each_branch:
  assumes "permissive K" and "quiet w" and "texts_ok (w_store w)"
    and "map_of (cl_kinds w) kind_name = Some kind" and "tenant_of kind opts = Inr tenant"
    and "kn_validate kind spec = Inr v" and "storable v"
    and "\<And>e. fst (append_decision K e None (p_ledger w)) = Inr ()"
  shows "admit K kind_name name spec opts w =
    (let k = (kn_name kind, tenant, name); s = w_store w; now = w_now w;
         row = admitted_row k (fence_of opts) (show_js v) now s
     in case select_one k s of
          None \<Rightarrow>
            (hydrate_row row,
             finished K row Created (ao_actor opts) False (w\<lparr>w_store := commit_row row Created now s\<rparr>))
        | Some r \<Rightarrow>
            if fence_of opts < rr_fence r then (Inl (SupersededError (kn_name kind) name (fence_of opts)), w)
            else if \<not> is_deleted r \<and> rr_spec r = show_js v \<and> rr_fence r = fence_of opts
            then (hydrate_row r, w)
            else
              (let op = (if is_deleted r then Created else Updated) in
               (hydrate_row row,
                finished K row op (ao_actor opts) False (w\<lparr>w_store := commit_row row op now s\<rparr>))))"
  using assms by (rule quiet_admit)

lemma quiet_set_status:
  assumes "permissive K" and "quiet w" and "texts_ok (w_store w)"
    and "map_of (cl_kinds w) kind_name = Some kind" and "tenant_of kind opts = Inr tenant"
    and "storable v" and "\<And>e. fst (append_decision K e None (p_ledger w)) = Inr ()"
    and "k = (kn_name kind, tenant, name)"
  shows "set_status K kind_name name v opts w =
    (case select_one k (w_store w) of
       None \<Rightarrow> (Inr None, w)
     | Some r \<Rightarrow>
         if is_deleted r then (Inr None, w)
         else if fence_of opts < rr_fence r then (Inl (SupersededError (kn_name kind) name (fence_of opts)), w)
         else if rr_status r = Some (show_js v) then (map_sum id Some (hydrate_row r), w)
         else
           (let row = r\<lparr>rr_status := Some (show_js v), rr_revision := next_revision (w_store w),
                        rr_fence := fence_of opts, rr_updated := w_now w\<rparr>
            in (map_sum id Some (hydrate_row row),
                finished K row Updated (ao_actor opts) True
                  (w\<lparr>w_store := commit_row row Updated (w_now w) (w_store w)\<rparr>))))"
proof -
  have wf: "store_wf (w_store w)" and sch: "s_schema (w_store w)" using assms(2) by (auto simp: quiet_def)
  have read: "query_consistent K SELECT_ONE [''resource''] (in_schema ''resource'' (select_one k)) w =
      (Inr (select_one k (w_store w)), w)"
    by (simp add: quiet_query_consistent [OF assms(1,2) sql_accepted(1)] in_schema_def sch)
  let ?p = "OpStatus k (Some (show_js v)) (fence_of opts) (w_now w)"
  have run: "set_status K kind_name name v opts w =
      (case select_one k (w_store w) of
         None \<Rightarrow> ret None
       | Some r \<Rightarrow>
           if is_deleted r then ret None
           else if rr_fence r > fence_of opts then throw (SupersededError (kn_name kind) name (fence_of opts))
           else if rr_status r = Some (show_js v) then bnd (lift (hydrate_row r)) (\<lambda>stored. ret (Some stored))
           else bnd (seq (txn K STATUS_SQL [''resource'', ''outbox''] ?p)
                  (finish_write K k Updated (ao_actor opts) True)) (\<lambda>stored. ret (Some stored))) w"
    by (simp only: set_status_def Let_def bnd_ok [where m = "require_kind kind_name", OF require_found [OF assms(4)]]
        bnd_lift [OF assms(5)] bnd_gets assms(8) [symmetric] bnd_bnd
        bnd_ok [where m = "query_consistent K SELECT_ONE [''resource''] (in_schema ''resource'' (select_one k))", OF read])
  show ?thesis
  proof (cases "select_one k (w_store w)")
    case None
    then show ?thesis by (simp add: run)
  next
    case (Some r)
    let ?row = "r\<lparr>rr_status := Some (show_js v), rr_revision := next_revision (w_store w),
                   rr_fence := fence_of opts, rr_updated := w_now w\<rparr>"
    have row: "?row = status_row r (Some (show_js v)) (fence_of opts) (w_now w) (w_store w)"
      by (simp add: status_row_def)
    have key: "key_of ?row = k" using select_one_Some [OF Some] by simp
    obtain y where y: "hydrate_row r = Inr y" using texts_hydrate [OF assms(3)] select_one_Some [OF Some] by blast
    then obtain x where x: "hydrate_row ?row = Inr x"
      using assms(6) by (auto simp: hydrate_row_def parse_or_throw_def parse_stringify sbind_Inr_iff split: option.splits)
    have wr: "seq (txn K STATUS_SQL [''resource'', ''outbox''] ?p) (finish_write K k Updated (ao_actor opts) True) w =
        (Inr x, finished K ?row Updated (ao_actor opts) True (w\<lparr>w_store := commit_row ?row Updated (w_now w) (w_store w)\<rparr>))"
      if f: "rr_fence r \<le> fence_of opts"
    proof -
      have op: "run_op ?p (w_store w) = Inr (commit_row ?row Updated (w_now w) (w_store w))"
        using run_status [OF wf sch, of k "Some (show_js v)" "fence_of opts" "w_now w"] Some f row by simp
      have com: "committed (w_store w) ?row Updated (w_now w) (commit_row ?row Updated (w_now w) (w_store w))"
        using committed_update [OF Some wf, of ?row] f key by simp
      show ?thesis using quiet_write [OF assms(1,2) sql_accepted(4) op com x assms(7)] key by simp
    qed
    let ?M = "seq (txn K STATUS_SQL [''resource'', ''outbox''] ?p) (finish_write K k Updated (ao_actor opts) True)"
    have "rr_fence r \<le> fence_of opts \<Longrightarrow> bnd ?M (\<lambda>stored. ret (Some stored)) w =
        (Inr (Some x), finished K ?row Updated (ao_actor opts) True (w\<lparr>w_store := commit_row ?row Updated (w_now w) (w_store w)\<rparr>))"
      using bnd_ok [of ?M w x _ "\<lambda>stored. ret (Some stored)", OF wr] by simp
    then show ?thesis
      unfolding run Let_def using Some y x by (auto simp: bnd_lift not_less)
  qed
qed

text \<open>
  With no interference a status write answers null for a missing
  or retracted resource, refuses a stale fence, does nothing when the status is already the stored
  one, and otherwise commits a row that differs from the stored one only in its status, its
  revision, its fence and its update time: the spec, the creation time and the tombstone are the
  operator's and stay.
\<close>

theorem status_never_touches_intent:
  assumes "permissive K" and "quiet w" and "texts_ok (w_store w)"
    and "map_of (cl_kinds w) kind_name = Some kind" and "tenant_of kind opts = Inr tenant"
    and "storable v" and "\<And>e. fst (append_decision K e None (p_ledger w)) = Inr ()"
    and "k = (kn_name kind, tenant, name)"
  shows "set_status K kind_name name v opts w =
    (case select_one k (w_store w) of
       None \<Rightarrow> (Inr None, w)
     | Some r \<Rightarrow>
         if is_deleted r then (Inr None, w)
         else if fence_of opts < rr_fence r then (Inl (SupersededError (kn_name kind) name (fence_of opts)), w)
         else if rr_status r = Some (show_js v) then (map_sum id Some (hydrate_row r), w)
         else
           (let row = r\<lparr>rr_status := Some (show_js v), rr_revision := next_revision (w_store w),
                        rr_fence := fence_of opts, rr_updated := w_now w\<rparr>
            in (map_sum id Some (hydrate_row row),
                finished K row Updated (ao_actor opts) True
                  (w\<lparr>w_store := commit_row row Updated (w_now w) (w_store w)\<rparr>))))"
  using assms by (rule quiet_set_status)

section \<open>Under interference\<close>

text \<open>Nothing a writer does lowers a fence, forgets a row or changes its creation time.\<close>

definition rows_kept :: "store \<Rightarrow> store \<Rightarrow> bool" where
  "rows_kept s s' = list_all (\<lambda>r. list_ex (\<lambda>r'. key_of r' = key_of r \<and> rr_fence r \<le> rr_fence r' \<and>
     rr_revision r \<le> rr_revision r' \<and> rr_created r' = rr_created r) (s_rows s')) (s_rows s)"

lemma rows_kept_refl: "rows_kept s s"
  by (auto simp: rows_kept_def list_all_iff list_ex_iff)

lemma rows_kept_trans: "rows_kept s t \<Longrightarrow> rows_kept t u \<Longrightarrow> rows_kept s u"
  unfolding rows_kept_def list_all_iff list_ex_iff by (metis order_trans)

lemma apply_op_keeps_rows:
  assumes "store_wf s"
  shows "rows_kept s (apply_op p s)"
proof -
  consider "s_rows (apply_op p s) = s_rows s" | r' op at where "committed s r' op at (apply_op p s)"
    using apply_op_cases [OF assms] by blast
  then show ?thesis
  proof cases
    case 1
    then show ?thesis using rows_kept_refl [of s] by (simp add: rows_kept_def)
  next
    case 2
    then show ?thesis
      using next_revision_gt [of _ s]
      by (fastforce simp: rows_kept_def list_all_iff list_ex_iff committed_def set_put_row intro: less_imp_le)
  qed
qed

lemma steps_keep_rows: "store_wf s \<Longrightarrow> rows_kept s (fold apply_op ps s) \<and> store_wf (fold apply_op ps s)"
proof (induction ps arbitrary: s)
  case (Cons p ps)
  then show ?case
    using apply_op_wf [of s p] apply_op_keeps_rows [of s p] rows_kept_trans by (auto simp: comp_def)
qed (simp add: rows_kept_refl)

lemma read_back_steps [stepping]: "along store_steps (read_back K k)"
  unfolding read_back_def
  by (intro steps.along_bnd steps.along_option steps.along_throw steps.along_lift stepping)

lemma record_admission_steps [stepping]: "along store_steps (record_admission K k op n actor b)"
  unfolding record_admission_def
  by (rule alongI) (simp add: zoom_def store_steps_frame split: prod.split)

lemma finish_write_steps [stepping]: "along store_steps (finish_write K k op actor b)"
  unfolding finish_write_def by (intro steps.along_bnd steps.along_ret stepping)

lemma require_kind_steps [stepping]: "along store_steps (require_kind n)"
  unfolding require_kind_def
  by (intro steps.along_bnd steps.along_gets) (auto split: option.split)

lemma admit_steps [stepping]: "along store_steps (admit K n name spec opts)"
  unfolding admit_def Let_def
  by (intro steps.along_bnd steps.along_gets steps.along_lift steps.along_option steps.along_if
      steps.along_throw stepping)

lemma retract_steps [stepping]: "along store_steps (retract K n name opts)"
  unfolding retract_def Let_def
  by (intro steps.along_bnd steps.along_gets steps.along_lift steps.along_option steps.along_if
      steps.along_throw steps.along_ret stepping)

lemma set_status_steps [stepping]: "along store_steps (set_status K n name v opts)"
  unfolding set_status_def Let_def
  by (intro steps.along_bnd steps.along_gets steps.along_lift steps.along_option steps.along_if
      steps.along_throw steps.along_ret stepping)

lemma along_steps_keep:
  assumes "along store_steps m" and "store_wf (w_store w)"
  shows "rows_kept (w_store w) (w_store (snd (m w))) \<and> store_wf (w_store (snd (m w)))"
  using assms steps_keep_rows by (metis along_def store_steps_def)

text \<open>
  C13: whatever other writers commit between any two calls, whichever calls
  fail and whatever the operation answers, an admission, a retraction and a status write leave the
  tables well formed (keys and revisions unique, every row's revision in the outbox exactly once)
  and keep every row that was there, never with a lower fence or revision: a superseded holder's
  write cannot have been applied over a newer one, and a retraction leaves its tombstone.
\<close>

theorem writes_keep_the_store:
  assumes "store_wf (w_store w)"
  shows "rows_kept (w_store w) (w_store (snd (admit K n name spec opts w))) \<and>
    store_wf (w_store (snd (admit K n name spec opts w))) \<and>
    rows_kept (w_store w) (w_store (snd (retract K n name opts w))) \<and>
    store_wf (w_store (snd (retract K n name opts w))) \<and>
    rows_kept (w_store w) (w_store (snd (set_status K n name spec opts w))) \<and>
    store_wf (w_store (snd (set_status K n name spec opts w)))"
  using along_steps_keep [OF admit_steps assms(1)] along_steps_keep [OF retract_steps assms(1)]
    along_steps_keep [OF set_status_steps assms(1)] by blast

section \<open>Instances\<close>

definition allow_kernel :: kernel where
  "allow_kernel = demo_kernel\<lparr>k_adjudicate := (\<lambda>_. \<lparr>a_outcome = ''allow'', a_reason = [], a_checks = [],
     a_config = ''g'', a_model = ''M''\<rparr>)\<rparr>"

definition open_ledger :: ledger where
  "open_ledger = (boot_ledger ready_disk [])\<lparr>l_initialized := True\<rparr>"

definition note_kind :: kind_def where
  "note_kind = \<lparr>kn_ref = 0, kn_name = ''note'', kn_tenant_scoped = True,
     kn_validate = (\<lambda>v. sbind (require_object ''note'' v) (\<lambda>obj.
       sbind (require_string ''note'' obj ''body'') (\<lambda>b. Inr (JObj [(''body'', JStr b)]))))\<rparr>"

definition note_row :: "int \<Rightarrow> string \<Rightarrow> nat \<Rightarrow> resource_row" where
  "note_row fence body n =
     \<lparr>rr_kind = ''note'', rr_tenant = ''t'', rr_name = ''a'', rr_revision = n, rr_fence = fence,
      rr_spec = show_js (JObj [(''body'', JStr body)]), rr_status = None, rr_deleted = None,
      rr_created = ''c'', rr_updated = ''c''\<rparr>"

definition note_store :: store where
  "note_store = migrated_store\<lparr>s_rows := [note_row 1 ''x'' 1],
     s_outbox := [outbox_of (note_row 1 ''x'' 1) Created ''c'']\<rparr>"

definition demo_cell :: "store \<Rightarrow> store_event list \<Rightarrow> cell" where
  "demo_cell s evs =
     \<lparr>p_ledger = open_ledger, p_scope = None, p_request = ApiCall ''members'', p_observer = None,
      p_observed = [], w_ready = Inr (), w_store = s, w_replica = s, w_env = evs, w_now = ''now'',
      w_bus = [], w_leases = [], w_locks = [], w_releases = [], cl_kinds = [(''note'', note_kind)]\<rparr>"

definition tenant_options :: "int \<Rightarrow> admit_options" where
  "tenant_options f = \<lparr>ao_tenant = Some ''t'', ao_fence = Some f, ao_actor = None\<rparr>"

definition note_spec :: "string \<Rightarrow> js" where
  "note_spec b = JObj [(''body'', JStr b)]"

lemma allow_permissive: "permissive allow_kernel"
  by (simp add: permissive_def allow_kernel_def)

lemma allow_build [simp]: "k_build allow_kernel = k_build demo_kernel" "k_model allow_kernel = ''M''"
  by (simp_all add: allow_kernel_def demo_kernel_def)

lemma open_ledger_appends: "fst (append_decision allow_kernel e None open_ledger) = Inr ()"
proof -
  have links: "builds_links allow_kernel" "collision_free allow_kernel ''M''"
    using demo_links demo_collision_free by (simp_all add: builds_links_def collision_free_def)
  have key: "signing_key allow_kernel = Inr None"
    by (simp add: signing_key_def allow_kernel_def demo_kernel_def)
  let ?l = "open_ledger"
  have "fst (append_loop allow_kernel ''decision'' e None None 2 ?l) = Inr ()"
    by (rule append_loop_live [OF links])
       (auto simp: open_ledger_def boot_ledger_def ready_disk_def chain_inv_def chain_ok_def
         env_anchored_def no_fault_def event_at_def quiet_event_def intro: exI [of _ 0])
  moreover have "run_queue allow_kernel ?l = (Inr (), ?l)"
    by (simp add: run_queue_def bnd_run open_ledger_def boot_ledger_def)
  moreover have "init_guarded allow_kernel ?l = (Inr (), ?l)"
    by (simp add: init_guarded_def catch_run init_unlocked_def open_ledger_def)
  ultimately show ?thesis
    by (simp add: append_decision_def append_task_def append_unlocked_def bnd_run key CAS_ATTEMPTS_def)
qed

lemma note_validates: "kn_validate note_kind (note_spec ''x'') = Inr (note_spec ''x'')"
  by (simp add: note_kind_def note_spec_def require_object_def require_string_def own_of_def trim_def is_space_def)

lemma note_storable: "storable (note_spec b)"
  by (simp add: note_spec_def)

lemma note_quiet: "quiet (demo_cell note_store [])"
  by (simp add: quiet_def demo_cell_def note_store_def migrated_store_def empty_store_def store_wf_def
      note_row_def outbox_of_def max_revision_def)

lemma note_texts: "texts_ok note_store"
  using parse_stringify [OF note_storable [of "''x''"]]
  by (simp add: texts_ok_def note_store_def note_row_def note_spec_def del: show_js.simps)

theorem admit_each_branch_witness:
  "admit allow_kernel ''note'' ''a'' (note_spec ''x'') (tenant_options 1) (demo_cell note_store []) =
    (hydrate_row (note_row 1 ''x'' 1), demo_cell note_store [])"
proof -
  have "admit allow_kernel ''note'' ''a'' (note_spec ''x'') (tenant_options 1) (demo_cell note_store []) =
    (let k = (kn_name note_kind, ''t'', ''a''); s = w_store (demo_cell note_store []); now = w_now (demo_cell note_store []);
         row = admitted_row k (fence_of (tenant_options 1)) (show_js (note_spec ''x'')) now s
     in case select_one k s of
          None \<Rightarrow>
            (hydrate_row row,
             finished allow_kernel row Created (ao_actor (tenant_options 1)) False
               ((demo_cell note_store [])\<lparr>w_store := commit_row row Created now s\<rparr>))
        | Some r \<Rightarrow>
            if fence_of (tenant_options 1) < rr_fence r
            then (Inl (SupersededError (kn_name note_kind) ''a'' (fence_of (tenant_options 1))), demo_cell note_store [])
            else if \<not> is_deleted r \<and> rr_spec r = show_js (note_spec ''x'') \<and> rr_fence r = fence_of (tenant_options 1)
            then (hydrate_row r, demo_cell note_store [])
            else
              (let op = (if is_deleted r then Created else Updated) in
               (hydrate_row row,
                finished allow_kernel row op (ao_actor (tenant_options 1)) False
                  ((demo_cell note_store [])\<lparr>w_store := commit_row row op now s\<rparr>))))"
    by (rule admit_each_branch [OF allow_permissive note_quiet _ _ _ note_validates note_storable])
       (simp_all add: demo_cell_def note_texts tenant_of_def tenant_options_def note_kind_def given_def
         open_ledger_appends)
  then show ?thesis
    by (simp add: Let_def demo_cell_def note_store_def migrated_store_def empty_store_def select_one_def
        note_row_def key_of_def note_kind_def tenant_options_def fence_of_def is_deleted_def note_spec_def)
qed

theorem status_never_touches_intent_witness:
  "set_status allow_kernel ''note'' ''a'' (JStr ''seen'') (tenant_options 0) (demo_cell note_store []) =
    (Inl (SupersededError ''note'' ''a'' 0), demo_cell note_store [])"
proof -
  have key: "(''note'', ''t'', ''a'') = (kn_name note_kind, ''t'', ''a'')" by (simp add: note_kind_def)
  have found: "map_of (cl_kinds (demo_cell note_store [])) ''note'' = Some note_kind"
    by (simp add: demo_cell_def)
  have ten: "tenant_of note_kind (tenant_options 0) = Inr ''t''"
    by (simp add: tenant_of_def tenant_options_def note_kind_def given_def)
  have tx: "texts_ok (w_store (demo_cell note_store []))" by (simp add: demo_cell_def note_texts)
  have led: "fst (append_decision allow_kernel e None (p_ledger (demo_cell note_store []))) = Inr ()" for e
    by (simp add: demo_cell_def open_ledger_appends)
  have st: "storable (JStr ''seen'')" by simp
  have sel: "select_one (''note'', ''t'', ''a'') (w_store (demo_cell note_store [])) = Some (note_row 1 ''x'' 1)"
    by (simp add: demo_cell_def note_store_def migrated_store_def empty_store_def select_one_def note_row_def key_of_def)
  show ?thesis
    using status_never_touches_intent [OF allow_permissive note_quiet tx found ten st led key]
    by (simp add: sel is_deleted_def note_row_def fence_of_def tenant_options_def note_kind_def)
qed

theorem writes_keep_the_store_witness:
  "rows_kept note_store (w_store (snd (admit allow_kernel ''note'' ''a'' (note_spec ''y'') (tenant_options 1)
     (demo_cell note_store
        [\<lparr>y_ops = [], y_sync = False, y_fault = None\<rparr>,
         \<lparr>y_ops = [OpAdmit (''note'', ''t'', ''a'') Updated 5 ''1'' ''n''], y_sync = True, y_fault = None\<rparr>]))))"
proof -
  have "store_wf note_store" using note_quiet by (simp add: quiet_def demo_cell_def)
  then show ?thesis
    using writes_keep_the_store [of "demo_cell note_store
        [\<lparr>y_ops = [], y_sync = False, y_fault = None\<rparr>,
         \<lparr>y_ops = [OpAdmit (''note'', ''t'', ''a'') Updated 5 ''1'' ''n''], y_sync = True, y_fault = None\<rparr>]"
        allow_kernel "''note''" "''a''" "note_spec ''y''" "tenant_options 1"]
    by (simp add: demo_cell_def)
qed

section \<open>Two races\<close>

definition calm_event :: store_event where
  "calm_event = \<lparr>y_ops = [], y_sync = True, y_fault = None\<rparr>"

definition op_event :: "store_op \<Rightarrow> store_event" where
  "op_event p = \<lparr>y_ops = [p], y_sync = True, y_fault = None\<rparr>"

text \<open>
  A holder superseded between its read and its transaction: the predicate keeps its write out,
  but what it is told is the outbox's key violation and not the superseding error.
\<close>

theorem superseded_in_the_race:
  "fst (admit allow_kernel ''note'' ''a'' (note_spec ''y'') (tenant_options 1)
     (demo_cell note_store [calm_event, op_event (OpAdmit (''note'', ''t'', ''a'') Updated 5 ''1'' ''n'')])) =
   Inl UniqueViolation"
  by code_simp

text \<open>
  A write that lands between the transaction and the read back is answered, recorded and
  announced in place of the one that was admitted.
\<close>

theorem read_back_of_another_write:
  "(case fst (admit allow_kernel ''note'' ''a'' (note_spec ''y'') (tenant_options 1)
      (demo_cell note_store
         [calm_event, calm_event, op_event (OpAdmit (''note'', ''t'', ''a'') Updated 1 ''1'' ''n'')])) of
      Inl _ \<Rightarrow> None
    | Inr r \<Rightarrow> Some (re_revision r, re_spec r)) = Some (3, JInt 1)"
  by code_simp

end
