(* ===== verification/Controller.thy ===== *)
theory Controller
  imports Admission_Claims
begin

text \<open>
  The change feed (\<open>backend/control/watch.ts\<close>), the schema gate of
  \<open>backend/control/schema.ts\<close>, and the leased, fenced, watermarked reconcile loop
  (\<open>backend/control/controller.ts\<close>). The clock is the list of readings the pass takes; once
  it is used up every deadline has passed, which bounds the loop. \<open>ct_trace\<close> is the list of
  changes the reconciler has returned from, which only the statements read.
\<close>

section \<open>The feed\<close>

record change =
  ch_resource :: resource
  ch_retracted :: bool

record watch_options =
  wo_kinds :: "string list"
  wo_batch :: nat

definition change_of :: "resource_row \<Rightarrow> exn + change" where
  "change_of r =
     sbind (hydrate_row r) (\<lambda>x. Inr \<lparr>ch_resource = x, ch_retracted = (rr_deleted r \<noteq> None)\<rparr>)"

fun changes_of :: "resource_row list \<Rightarrow> exn + change list" where
  "changes_of [] = Inr []"
| "changes_of (r # rs) = sbind (change_of r) (\<lambda>c. sbind (changes_of rs) (\<lambda>cs. Inr (c # cs)))"

text \<open>The kind filter's placeholders are numbered after the watermark's.\<close>

definition kind_filter :: "nat \<Rightarrow> string" where
  "kind_filter n =
     (if n > 0 then '' AND kind IN ('' @ join '', '' (map (\<lambda>i. CHR ''$'' # show_nat (i + 2)) [0..<n]) @ '')''
      else [])"

definition changes_sql :: "string list \<Rightarrow> nat \<Rightarrow> string" where
  "changes_sql kinds limit =
     ''SELECT * FROM resource WHERE revision > $1'' @ kind_filter (length kinds) @
     '' ORDER BY revision LIMIT '' @ show_nat limit"

definition changes_since ::
  "kernel \<Rightarrow> nat \<Rightarrow> watch_options \<Rightarrow> ('x world_scheme, change list) io" where
  "changes_since K since opts =
     bnd (query K (changes_sql (wo_kinds opts) (wo_batch opts)) [''resource'']
            (in_schema ''resource'' (changes_scan (wo_kinds opts) since (wo_batch opts)))) (\<lambda>rows.
       lift (changes_of rows))"

text \<open>Which events wake a waiting loop.\<close>

definition wakes :: "string list \<Rightarrow> envelope \<Rightarrow> bool" where
  "wakes kinds e \<longleftrightarrow> kinds = [] \<or> v_kind e \<in> set kinds"

section \<open>The schema gate\<close>

definition control_schema_present :: "kernel \<Rightarrow> ('x world_scheme, bool) io" where
  "control_schema_present K =
     query K ''SELECT name FROM sqlite_master WHERE type = 'table' AND name IN ($1, $2)''
       [''sqlite_master''] (\<lambda>s. Inr (s_schema s))"

text \<open>
  One probe; a failing one keeps waiting and is reported when its message is a new one. The
  state of the wait is the last message and the messages reported.
\<close>

definition probe_schema ::
  "kernel \<Rightarrow> string option \<times> string list \<Rightarrow> 'x world_scheme \<Rightarrow>
    (bool \<times> (string option \<times> string list)) \<times> 'x world_scheme" where
  "probe_schema K st w =
     (case control_schema_present K w of
        (Inr b, u) \<Rightarrow> ((b, st), u)
      | (Inl e, u) \<Rightarrow>
          ((False, if Some (err_message e) = fst st then st
                   else (Some (err_message e), snd st @ [err_message e])), u))"

text \<open>
  The wait, on the list of what ends each poll interval: \<open>True\<close> when \<open>cancel()\<close> was
  called by then. The answer is \<open>None\<close> while it is still waiting.
\<close>

fun poll_schema ::
  "kernel \<Rightarrow> bool list \<Rightarrow> string option \<times> string list \<Rightarrow> 'x world_scheme \<Rightarrow>
    (bool option \<times> (string option \<times> string list)) \<times> 'x world_scheme" where
  "poll_schema K [] st w = ((None, st), w)"
| "poll_schema K (cancelled # polls) st w =
     (if cancelled then ((Some False, st), w)
      else (case probe_schema K st w of
              ((b, st'), u) \<Rightarrow> if b then ((Some True, st'), u) else poll_schema K polls st' u))"

definition await_control_schema ::
  "kernel \<Rightarrow> bool \<Rightarrow> bool list \<Rightarrow> 'x world_scheme \<Rightarrow>
    (bool option \<times> (string option \<times> string list)) \<times> 'x world_scheme" where
  "await_control_schema K cancelled polls w =
     (case probe_schema K (None, []) w of
        ((b, st), u) \<Rightarrow>
          if b then ((Some True, st), u)
          else if cancelled then ((Some False, st), u)
          else poll_schema K polls st u)"

section \<open>Watermarks\<close>

definition read_watermark :: "kernel \<Rightarrow> string \<Rightarrow> ('x world_scheme, nat) io" where
  "read_watermark K name =
     query K ''SELECT revision FROM controller_watermark WHERE controller = $1'' [''controller_watermark'']
       (in_schema ''controller_watermark'' (\<lambda>s.
          case map_of (s_marks s) name of Some n \<Rightarrow> n | None \<Rightarrow> 0))"

definition write_watermark :: "kernel \<Rightarrow> string \<Rightarrow> nat \<Rightarrow> ('x world_scheme, unit) io" where
  "write_watermark K name n =
     execute K ''INSERT INTO controller_watermark (controller, revision, updated_at) VALUES ($1, $2, $3) ON CONFLICT (controller) DO UPDATE SET revision = excluded.revision, updated_at = excluded.updated_at WHERE controller_watermark.revision < excluded.revision''
       [''controller_watermark''] (OpMark name n)"

section \<open>The loop\<close>

record ctl_world = cell +
  ct_clock :: "nat list"
  ct_mark :: nat
  ct_trace :: "change list"

record ('w) controller_spec =
  cs_name :: string
  cs_kinds :: "string list"
  cs_batch :: nat
  cs_budget :: nat
  cs_reconcile :: "change \<Rightarrow> int \<Rightarrow> ('w, unit) io"

text \<open>\<open>Date.now()\<close>; \<open>None\<close> is later than every deadline.\<close>

definition read_clock :: "('x ctl_world_scheme, nat option) io" where
  "read_clock w =
     (case ct_clock w of
        [] \<Rightarrow> (Inr None, w)
      | t # ts \<Rightarrow> (Inr (Some t), w\<lparr>ct_clock := ts\<rparr>))"

definition past :: "nat \<Rightarrow> nat option \<Rightarrow> bool" where
  "past deadline t = (case t of None \<Rightarrow> True | Some n \<Rightarrow> n \<ge> deadline)"

fun process_batch ::
  "(change \<Rightarrow> int \<Rightarrow> ('x ctl_world_scheme, unit) io) \<Rightarrow> int \<Rightarrow> nat \<Rightarrow> nat \<Rightarrow> change list \<Rightarrow>
    ('x ctl_world_scheme, nat) io" where
  "process_batch reconcile fence deadline processed [] = ret processed"
| "process_batch reconcile fence deadline processed (c # cs) =
     bnd read_clock (\<lambda>t.
       if past deadline t then ret processed
       else
         seq (reconcile c fence)
        (seq (modify (\<lambda>w. w\<lparr>ct_trace := ct_trace w @ [c]\<rparr>))
             (process_batch reconcile fence deadline (re_revision (ch_resource c)) cs)))"

primrec pass_loop ::
  "kernel \<Rightarrow> 'x ctl_world_scheme controller_spec \<Rightarrow> int \<Rightarrow> nat \<Rightarrow> nat \<Rightarrow> ('x ctl_world_scheme, unit) io" where
  "pass_loop K spec fence deadline 0 = ret ()"
| "pass_loop K spec fence deadline (Suc fuel) =
     bnd read_clock (\<lambda>t.
       if past deadline t then ret ()
       else
         bnd (gets ct_mark) (\<lambda>mark.
         bnd (changes_since K mark \<lparr>wo_kinds = cs_kinds spec, wo_batch = cs_batch spec\<rparr>) (\<lambda>batch.
           if batch = [] then ret ()
           else
             bnd (process_batch (cs_reconcile spec) fence deadline 0 batch) (\<lambda>processed.
               if processed = 0 then ret ()
               else
                 seq (modify (\<lambda>w. w\<lparr>ct_mark := processed\<rparr>))
                (seq (write_watermark K (cs_name spec) processed)
                     (pass_loop K spec fence deadline fuel))))))"

text \<open>Every round of the loop takes a reading, so one round more than the readings left is enough.\<close>

definition leased_pass ::
  "kernel \<Rightarrow> 'x ctl_world_scheme controller_spec \<Rightarrow> int \<Rightarrow> ('x ctl_world_scheme, unit) io" where
  "leased_pass K spec fence =
     bnd read_clock (\<lambda>t.
       let deadline = (case t of None \<Rightarrow> 0 | Some n \<Rightarrow> n + cs_budget spec) in
       bnd (read_watermark K (cs_name spec)) (\<lambda>m.
       seq (modify (\<lambda>w. w\<lparr>ct_mark := m\<rparr>))
           (bnd (gets (\<lambda>w. length (ct_clock w))) (\<lambda>n. pass_loop K spec fence deadline (Suc n)))))"

definition pass ::
  "kernel \<Rightarrow> 'x ctl_world_scheme controller_spec \<Rightarrow> ('x ctl_world_scheme, unit) io" where
  "pass K spec = with_lease K (''ctl:'' @ cs_name spec) (leased_pass K spec)"

text \<open>
  The loop once its gate is open: a failing pass is logged and the loop goes on; the list says
  after which passes \<open>stop()\<close> has been called.
\<close>

fun run_passes ::
  "kernel \<Rightarrow> 'x ctl_world_scheme controller_spec \<Rightarrow> bool list \<Rightarrow> ('x ctl_world_scheme, unit) io" where
  "run_passes K spec [] = catch (pass K spec) (\<lambda>_. ret ())"
| "run_passes K spec (stopped # stops) =
     seq (catch (pass K spec) (\<lambda>_. ret ()))
         (if stopped then ret () else run_passes K spec stops)"

text \<open>\<open>runOnce\<close>: \<open>stop()\<close> is called at once, so the wait is cancelled unless the first probe
  found the schema, and one pass runs.\<close>

definition run_once ::
  "kernel \<Rightarrow> 'x ctl_world_scheme controller_spec \<Rightarrow> ('x ctl_world_scheme, nat) io" where
  "run_once K spec w =
     (case await_control_schema K True [] w of
        ((opened, _), u) \<Rightarrow>
          seq (modify (\<lambda>w. w\<lparr>ct_mark := 0\<rparr>))
         (seq (if opened = Some True then run_passes K spec [True] else ret ()) (gets ct_mark)) u)"

end
