(* ===== verification/Controller_Claims.thy ===== *)
theory Controller_Claims
  imports Controller
begin

text \<open>
  A controller's watermark never passes a change its reconciler has not returned from,
  whatever other writers do, however stale the replica it scans, wherever the pass's budget cuts a
  batch and whichever calls fail; and a pass ends.
\<close>

section \<open>What a watermark stands for\<close>

definition relevant :: "string list \<Rightarrow> resource_row \<Rightarrow> bool" where
  "relevant kinds r \<longleftrightarrow> kinds = [] \<or> rr_kind r \<in> set kinds"

definition reconciled :: "change list \<Rightarrow> resource_row \<Rightarrow> bool" where
  "reconciled T r \<longleftrightarrow> (case change_of r of Inl _ \<Rightarrow> False | Inr c \<Rightarrow> c \<in> set T)"

text \<open>Every row the store holds at or below the mark has been reconciled as it is.\<close>

definition good_mark :: "string list \<Rightarrow> change list \<Rightarrow> nat \<Rightarrow> store \<Rightarrow> bool" where
  "good_mark kinds T m s \<longleftrightarrow>
     (m = 0 \<or> (\<exists>q \<in> set (s_rows s). m \<le> rr_revision q)) \<and>
     (\<forall>r \<in> set (s_rows s). relevant kinds r \<longrightarrow> rr_revision r \<le> m \<longrightarrow> reconciled T r)"

lemma wf_positive: "store_wf s \<Longrightarrow> r \<in> set (s_rows s) \<Longrightarrow> 0 < rr_revision r"
  by (simp add: store_wf_def list_all_iff)

lemma good_mark_zero: "store_wf s \<Longrightarrow> good_mark kinds T 0 s"
  by (auto simp: good_mark_def dest: wf_positive)

lemma fold_never_lower:
  "store_wf s \<Longrightarrow> q \<in> set (s_rows s) \<Longrightarrow>
     \<exists>r \<in> set (s_rows (fold apply_op ps s)). rr_revision q \<le> rr_revision r"
proof (induction ps arbitrary: s q)
  case (Cons p ps)
  obtain q' where "q' \<in> set (s_rows (apply_op p s))" "rr_revision q \<le> rr_revision q'"
    using control.never_lower [OF Cons.prems] by blast
  moreover obtain r where "r \<in> set (s_rows (fold apply_op ps (apply_op p s)))" "rr_revision q' \<le> rr_revision r"
    using Cons.IH [OF apply_op_wf [OF Cons.prems(1)] calculation(1)] by blast
  ultimately show ?case by (metis fold_simps(2) order_trans)
qed auto

lemma good_mark_later:
  assumes wf: "store_wf s" and g: "good_mark kinds T m s"
  shows "good_mark kinds T m (fold apply_op ps s)"
proof -
  have wf': "store_wf (fold apply_op ps s)" by (rule control.ok_steps [OF wf])
  have "m = 0 \<or> (\<exists>q \<in> set (s_rows (fold apply_op ps s)). m \<le> rr_revision q)"
    using g fold_never_lower [OF wf] unfolding good_mark_def by (metis order_trans)
  moreover have "reconciled T r"
    if r: "r \<in> set (s_rows (fold apply_op ps s))" "relevant kinds r" "rr_revision r \<le> m" for r
  proof -
    have "r \<in> {x. relevant kinds x \<longrightarrow> reconciled T x}"
      by (rule control.watermark_stays_complete [OF wf, of m _ ps])
         (use g r wf_positive [OF wf'] in \<open>auto simp: good_mark_def\<close>)
    with r(2) show ?thesis by simp
  qed
  ultimately show ?thesis by (auto simp: good_mark_def)
qed

lemma good_mark_trace: "good_mark kinds T m s \<Longrightarrow> set T \<subseteq> set T' \<Longrightarrow> good_mark kinds T' m s"
  by (auto simp: good_mark_def reconciled_def split: sum.splits)

text \<open>What one scan establishes: the rows of a prefix are all there is between the two marks.\<close>

lemma scan_prefix_complete:
  assumes wf: "store_wf s" and scan: "changes_scan kinds m limit s = pre @ post" and "pre \<noteq> []"
    and r: "r \<in> set (s_rows s)" "relevant kinds r" "m < rr_revision r" "rr_revision r \<le> rr_revision (last pre)"
  shows "r \<in> set pre"
proof -
  define L where "L = sort_key rr_revision
       (filter (\<lambda>r. rr_revision r > m \<and> (kinds = [] \<or> rr_kind r \<in> set kinds)) (s_rows s))"
  have "L = pre @ (post @ drop limit L)"
    using scan append_take_drop_id [of limit L] by (simp add: changes_scan_def L_def [symmetric])
  then obtain rest where L: "L = pre @ rest" by blast
  have "sorted (map rr_revision L)" by (simp add: L_def)
  moreover have rL: "r \<in> set L" using r by (auto simp: L_def relevant_def)
  moreover have sub: "set L \<subseteq> set (s_rows s)" by (auto simp: L_def)
  ultimately show ?thesis
  proof -
    assume srt: "sorted (map rr_revision L)"
    show "r \<in> set pre"
    proof (rule ccontr)
      assume "r \<notin> set pre"
      then have "r \<in> set rest" using rL L by auto
      then have "rr_revision (last pre) \<le> rr_revision r"
        using srt L \<open>pre \<noteq> []\<close> by (auto simp: sorted_append)
      then have same: "rr_revision (last pre) = rr_revision r" using r(4) by simp
      have "last pre \<in> set (s_rows s)" using L sub \<open>pre \<noteq> []\<close> by auto
      with same r(1) wf have "last pre = r"
        by (auto simp: store_wf_def distinct_map inj_on_def)
      with \<open>r \<notin> set pre\<close> \<open>pre \<noteq> []\<close> show False by auto
    qed
  qed
qed

lemma changes_of_nth:
  "changes_of rs = Inr cs \<Longrightarrow> length cs = length rs \<and> (\<forall>i < length rs. change_of (rs ! i) = Inr (cs ! i))"
proof (induction rs arbitrary: cs)
  case (Cons r rs)
  then show ?case by (auto simp: sbind_Inr_iff nth_Cons split: nat.splits)
qed simp

lemma change_revision: "change_of r = Inr c \<Longrightarrow> re_revision (ch_resource c) = rr_revision r"
  by (auto simp: change_of_def sbind_Inr_iff dest: hydrate_revision)

text \<open>The mark after a prefix of a scan of an earlier state is good for the present one.\<close>

lemma advance_good:
  assumes wf: "store_wf s" and now: "s' = fold apply_op ps s" and old: "good_mark kinds T m s'"
    and scan: "changes_scan kinds m limit s = rs" and cs: "changes_of rs = Inr cs"
    and n: "0 < n" "n \<le> length cs" and T': "set T \<union> set (take n cs) \<subseteq> set T'"
  shows "good_mark kinds T' (re_revision (ch_resource (cs ! (n - 1)))) s'"
proof -
  note nth = changes_of_nth [OF cs]
  have rev: "re_revision (ch_resource (cs ! (n - 1))) = rr_revision (rs ! (n - 1))"
    using nth n by (intro change_revision) auto
  have "take n rs \<noteq> []" "length (take n rs) = n" using n nth by auto
  then have pre: "take n rs \<noteq> []" "last (take n rs) = rs ! (n - 1)"
    using n(1) by (simp_all add: last_conv_nth)
  have "set rs \<subseteq> set (s_rows s)"
    using scan set_take_subset [of limit] by (fastforce simp: changes_scan_def)
  then have in_s: "rs ! (n - 1) \<in> set (s_rows s)" using n nth by auto
  have "\<exists>q \<in> set (s_rows s'). rr_revision (rs ! (n - 1)) \<le> rr_revision q"
    using fold_never_lower [OF wf in_s] now by blast
  moreover have "reconciled T' r"
    if r: "r \<in> set (s_rows s')" "relevant kinds r" "rr_revision r \<le> rr_revision (rs ! (n - 1))" for r
  proof (cases "rr_revision r \<le> m")
    case True
    with old r good_mark_trace [of kinds T m s' T'] T' show ?thesis by (auto simp: good_mark_def)
  next
    case False
    have "r \<in> set (s_rows s)"
      using control.later_above [OF wf, of r ps "rs ! (n - 1)"] r in_s now by fastforce
    then have "r \<in> set (take n rs)"
      using scan_prefix_complete [OF wf, of kinds m limit "take n rs" "drop n rs" r] scan pre False r by auto
    then obtain i where i: "i < n" "i < length rs" "r = rs ! i" by (auto simp: in_set_conv_nth)
    then have "change_of r = Inr (cs ! i)" "cs ! i \<in> set (take n cs)"
      using nth n by (auto simp: in_set_conv_nth)
    then show ?thesis using T' by (auto simp: reconciled_def)
  qed
  ultimately show ?thesis unfolding good_mark_def rev by blast
qed

section \<open>The invariant of a running controller\<close>

definition no_mark :: "string \<Rightarrow> store_op \<Rightarrow> bool" where
  "no_mark name p = (case p of OpMark c n \<Rightarrow> c \<noteq> name | _ \<Rightarrow> True)"

definition env_clean :: "string \<Rightarrow> store_event list \<Rightarrow> bool" where
  "env_clean name evs = list_all (\<lambda>ev. list_all (no_mark name) (y_ops ev)) evs"

definition marks_good :: "string \<Rightarrow> string list \<Rightarrow> change list \<Rightarrow> store \<Rightarrow> store \<Rightarrow> bool" where
  "marks_good name kinds T s s' \<longleftrightarrow>
     (case map_of (s_marks s) name of None \<Rightarrow> True | Some m \<Rightarrow> good_mark kinds T m s')"

definition controller_inv :: "string \<Rightarrow> string list \<Rightarrow> 'x ctl_world_scheme \<Rightarrow> bool" where
  "controller_inv name kinds w \<longleftrightarrow>
     store_wf (w_replica w) \<and> (\<exists>ps. w_store w = fold apply_op ps (w_replica w)) \<and>
     env_clean name (w_env w) \<and>
     good_mark kinds (ct_trace w) (ct_mark w) (w_store w) \<and>
     marks_good name kinds (ct_trace w) (w_store w) (w_store w) \<and>
     marks_good name kinds (ct_trace w) (w_replica w) (w_store w)"

lemma inv_store_wf: "controller_inv name kinds w \<Longrightarrow> store_wf (w_store w)"
  using control.ok_steps by (auto simp: controller_inv_def)

lemma marks_good_later:
  "store_wf s' \<Longrightarrow> marks_good name kinds T s s' \<Longrightarrow> marks_good name kinds T s (fold apply_op ps s')"
  by (auto simp: marks_good_def good_mark_later split: option.splits)

lemma apply_op_marks:
  "no_mark name p \<Longrightarrow> map_of (s_marks (apply_op p s)) name = map_of (s_marks s) name"
proof (cases p)
  case (OpMark c n)
  assume "no_mark name p"
  with OpMark have ne: "c \<noteq> name" by (simp add: no_mark_def)
  have "map_of (obj_set c n ms) name = map_of ms name" for ms
    using ne by (induction ms) auto
  with OpMark ne show ?thesis
    by (auto simp: apply_op_def mark_upsert_def map_add_def split: option.splits)
qed (auto simp: apply_op_def upsert_def tombstone_def update_status_def update_where_def outbox_insert_def
      split: sum.splits option.splits if_splits prod.splits)

lemma fold_marks:
  "list_all (no_mark name) ps \<Longrightarrow> map_of (s_marks (fold apply_op ps s)) name = map_of (s_marks s) name"
  by (induction ps arbitrary: s) (simp_all add: apply_op_marks)

lemma inv_frame:
  "w_replica u = w_replica w \<Longrightarrow> w_store u = w_store w \<Longrightarrow> w_env u = w_env w \<Longrightarrow>
     ct_mark u = ct_mark w \<Longrightarrow> ct_trace u = ct_trace w \<Longrightarrow>
     controller_inv name kinds u = controller_inv name kinds w"
  by (simp add: controller_inv_def)

named_theorems keeps_inv \<open>programs that keep the controller's invariant\<close>

lemma demand_inv [keeps_inv]: "along (keeping (controller_inv name kinds)) (demand K kind res opts)"
proof (rule alongI, unfold keeping_def, intro impI)
  fix w :: "'x ctl_world_scheme"
  assume w: "controller_inv name kinds w"
  have "plane_only w (snd (demand K kind res opts w))"
    by (rule demand_plane [unfolded along_def, rule_format])
  then obtain l d where "snd (demand K kind res opts w) = w\<lparr>p_ledger := l, p_observed := d\<rparr>"
    unfolding plane_only_def by blast
  with w show "controller_inv name kinds (snd (demand K kind res opts w))"
    using inv_frame [of "w\<lparr>p_ledger := l, p_observed := d\<rparr>" w name kinds] by simp
qed

lemma crossing_inv [keeps_inv]: "along (keeping (controller_inv name kinds)) crossing"
proof (rule alongI, unfold keeping_def, intro impI)
  fix w :: "'x ctl_world_scheme"
  assume w: "controller_inv name kinds w"
  show "controller_inv name kinds (snd (crossing w))"
  proof (cases "w_env w")
    case Nil
    with w show ?thesis by (simp add: crossing_def)
  next
    case (Cons ev evs)
    have clean: "list_all (no_mark name) (y_ops ev)" "env_clean name evs"
      using w Cons by (auto simp: controller_inv_def env_clean_def)
    let ?s = "fold apply_op (y_ops ev) (w_store w)"
    note wf = inv_store_wf [OF w]
    obtain ps where ps: "w_store w = fold apply_op ps (w_replica w)" using w by (auto simp: controller_inv_def)
    then have "?s = fold apply_op (ps @ y_ops ev) (w_replica w)" by simp
    then have reach: "\<exists>qs. ?s = fold apply_op qs (w_replica w)" by blast
    have marks: "marks_good name kinds (ct_trace w) ?s ?s" "marks_good name kinds (ct_trace w) (w_replica w) ?s"
      "good_mark kinds (ct_trace w) (ct_mark w) ?s"
      using w wf marks_good_later [OF wf] good_mark_later [OF wf] fold_marks [OF clean(1), of "w_store w"]
      by (auto simp: controller_inv_def marks_good_def split: option.splits)
    have "store_wf ?s" by (rule control.ok_steps [OF wf])
    with w Cons clean reach marks show ?thesis
      by (auto simp: crossing_def controller_inv_def Let_def intro: exI [of _ "[]"] split: option.split)
  qed
qed

lemma state_ready_inv [keeps_inv]: "along (keeping (controller_inv name kinds)) state_ready"
  unfolding state_ready_def by (intro keep.along_bnd keep.along_gets keep.along_lift)

lemma sql_gate_inv [keeps_inv]: "along (keeping (controller_inv name kinds)) (sql_gate K kind tables sqls)"
  unfolding sql_gate_def by (intro keep.along_bnd keep.along_lift keeps_inv)

lemma query_inv [keeps_inv]: "along (keeping (controller_inv name kinds)) (query K sql tables run)"
  unfolding query_def by (intro keep.along_bnd keep.along_gets keep.along_lift keeps_inv)

lemma read_watermark_inv [keeps_inv]: "along (keeping (controller_inv name kinds)) (read_watermark K n)"
  unfolding read_watermark_def by (rule query_inv)

lemma changes_since_inv [keeps_inv]: "along (keeping (controller_inv name kinds)) (changes_since K m opts)"
  unfolding changes_since_def by (intro keep.along_bnd keep.along_lift keeps_inv)

lemma read_clock_inv [keeps_inv]: "along (keeping (controller_inv name kinds)) read_clock"
  by (rule alongI) (auto simp: keeping_def read_clock_def controller_inv_def split: list.split)

text \<open>A query answers from the replica as it is when it answers.\<close>

lemma query_result:
  "query K sql tables run w = (Inr a, w') \<Longrightarrow> run (w_replica w') = Inr a"
  by (auto simp: query_def bnd_Inr_iff lift_def)

lemma read_watermark_good:
  assumes "controller_inv name kinds w" and "read_watermark K name w = (Inr m, w')"
  shows "controller_inv name kinds w'" and "good_mark kinds (ct_trace w') m (w_store w')"
proof -
  show inv: "controller_inv name kinds w'"
    using alongD [OF read_watermark_inv assms(2)] assms(1) by (simp add: keeping_def)
  have "(case map_of (s_marks (w_replica w')) name of Some n \<Rightarrow> n | None \<Rightarrow> 0) = m"
    using query_result [OF assms(2) [unfolded read_watermark_def]] by (auto simp: in_schema_def split: if_splits)
  with inv show "good_mark kinds (ct_trace w') m (w_store w')"
    using good_mark_zero [OF inv_store_wf [OF inv]]
    by (auto simp: controller_inv_def marks_good_def split: option.splits)
qed

lemma changes_since_scan:
  assumes "changes_since K m opts w = (Inr cs, w')"
  shows "changes_of (changes_scan (wo_kinds opts) m (wo_batch opts) (w_replica w')) = Inr cs"
proof -
  obtain rows u where q: "query K (changes_sql (wo_kinds opts) (wo_batch opts)) [''resource'']
      (in_schema ''resource'' (changes_scan (wo_kinds opts) m (wo_batch opts))) w = (Inr rows, u)"
    and "changes_of rows = Inr cs" "w' = u"
    using assms by (auto simp: changes_since_def bnd_Inr_iff)
  with query_result [OF q] show ?thesis by (auto simp: in_schema_def split: if_splits)
qed

section \<open>A pass\<close>

definition loop_frame :: "'x ctl_world_scheme \<Rightarrow> 'x ctl_world_scheme \<Rightarrow> bool" where
  "loop_frame w w' \<longleftrightarrow> ct_mark w' = ct_mark w \<and> ct_trace w' = ct_trace w \<and> store_steps w w'"

interpretation frame: step_order loop_frame
proof
  show "loop_frame w w" for w :: "'x ctl_world_scheme" by (simp add: loop_frame_def steps.step_refl)
next
  fix u v w :: "'x ctl_world_scheme"
  assume "loop_frame u v" "loop_frame v w"
  then show "loop_frame u w" unfolding loop_frame_def using steps.step_trans [of u v w] by simp
qed

lemma demand_frame: "along loop_frame (demand K kind res opts)"
proof (rule alongI)
  fix w :: "'x ctl_world_scheme"
  have "plane_only w (snd (demand K kind res opts w))"
    by (rule demand_plane [unfolded along_def, rule_format])
  then obtain l d where "snd (demand K kind res opts w) = w\<lparr>p_ledger := l, p_observed := d\<rparr>"
    unfolding plane_only_def by blast
  then show "loop_frame w (snd (demand K kind res opts w))"
    by (simp add: loop_frame_def store_steps_frame)
qed

lemma crossing_frame: "along loop_frame crossing"
proof (rule alongI)
  fix w :: "'x ctl_world_scheme"
  have "store_steps w (snd (crossing w))" by (rule crossing_steps [unfolded along_def, rule_format])
  moreover have "ct_mark (snd (crossing w)) = ct_mark w" "ct_trace (snd (crossing w)) = ct_trace w"
    by (auto simp: crossing_def Let_def split: list.split option.split)
  ultimately show "loop_frame w (snd (crossing w))" by (simp add: loop_frame_def)
qed

lemma sql_gate_frame: "along loop_frame (sql_gate K kind tables sqls)"
  unfolding sql_gate_def state_ready_def
  by (intro frame.along_bnd frame.along_lift frame.along_gets demand_frame crossing_frame)

lemma query_frame: "along loop_frame (query K sql tables run)"
  unfolding query_def by (intro frame.along_bnd frame.along_gets frame.along_lift sql_gate_frame)

lemma changes_since_frame: "along loop_frame (changes_since K m opts)"
  unfolding changes_since_def by (intro frame.along_bnd frame.along_lift query_frame)

text \<open>What the loop needs of a reconciler: it works through the store and minds its own business.\<close>

definition reconciler_ok ::
  "string \<Rightarrow> string list \<Rightarrow> (change \<Rightarrow> int \<Rightarrow> ('x ctl_world_scheme, unit) io) \<Rightarrow> bool" where
  "reconciler_ok name kinds reconcile \<longleftrightarrow>
     (\<forall>c f. along (keeping (controller_inv name kinds)) (reconcile c f) \<and> along loop_frame (reconcile c f))"

lemma inv_trace:
  assumes "controller_inv name kinds w" and "set (ct_trace w) \<subseteq> set T"
  shows "controller_inv name kinds (w\<lparr>ct_trace := T\<rparr>)"
  using assms good_mark_trace [OF _ assms(2)]
  by (auto simp: controller_inv_def marks_good_def split: option.splits)

lemma process_batch_result:
  assumes rec: "reconciler_ok name kinds reconcile"
  shows "controller_inv name kinds w \<Longrightarrow> process_batch reconcile f dl proc cs w = (r, w') \<Longrightarrow>
    controller_inv name kinds w' \<and> store_steps w w' \<and> ct_mark w' = ct_mark w \<and>
    (\<exists>n \<le> length cs. ct_trace w' = ct_trace w @ take n cs \<and>
       (\<forall>p. r = Inr p \<longrightarrow> p = (if n = 0 then proc else re_revision (ch_resource (cs ! (n - 1))))))"
proof (induction cs arbitrary: w proc)
  case Nil
  then show ?case by (auto simp: steps.step_refl)
next
  case (Cons c cs)
  obtain t w1 where clk: "read_clock w = (Inr t, w1)"
    by (cases "ct_clock w") (auto simp: read_clock_def)
  have w1: "controller_inv name kinds w1" "ct_trace w1 = ct_trace w" "ct_mark w1 = ct_mark w" "w_store w1 = w_store w"
    using alongD [OF read_clock_inv clk] Cons.prems(1) clk
    by (auto simp: keeping_def read_clock_def split: list.splits)
  show ?case
  proof (cases "past dl t")
    case True
    with Cons.prems clk w1 show ?thesis
      by (auto simp: bnd_run store_steps_frame intro: exI [of _ 0])
  next
    case False
    obtain r2 w2 where rc: "reconcile c f w1 = (r2, w2)" by fastforce
    have "along (keeping (controller_inv name kinds)) (reconcile c f)" "along loop_frame (reconcile c f)"
      using rec by (auto simp: reconciler_ok_def)
    from alongD [OF this(1) rc] alongD [OF this(2) rc] w1
    have w2: "controller_inv name kinds w2" "ct_trace w2 = ct_trace w" "ct_mark w2 = ct_mark w" "store_steps w1 w2"
      by (auto simp: keeping_def loop_frame_def)
    have st: "store_steps w w2" using w1(4) w2(4) by (simp add: store_steps_def)
    show ?thesis
    proof (cases r2)
      case (Inl e)
      with Cons.prems clk False rc w2 st show ?thesis
        by (auto simp: bnd_run intro: exI [of _ 0])
    next
      case (Inr u)
      let ?w3 = "w2\<lparr>ct_trace := ct_trace w2 @ [c]\<rparr>"
      have w3: "controller_inv name kinds ?w3" by (rule inv_trace [OF w2(1)]) auto
      have run: "process_batch reconcile f dl (re_revision (ch_resource c)) cs ?w3 = (r, w')"
        using Cons.prems(2) clk False rc Inr by (simp add: bnd_run)
      from Cons.IH [OF w3 run] obtain n where n: "controller_inv name kinds w'" "store_steps ?w3 w'"
        "ct_mark w' = ct_mark w2" "n \<le> length cs" "ct_trace w' = ct_trace w2 @ c # take n cs"
        "\<forall>p. r = Inr p \<longrightarrow> p = (if n = 0 then re_revision (ch_resource c) else re_revision (ch_resource (cs ! (n - 1))))"
        by auto
      have "store_steps w w'" using st n(2) steps.step_trans [of w w2 w'] by (simp add: store_steps_def)
      with n w2 show ?thesis
        by (intro conjI exI [of _ "Suc n"]) (auto simp: nth_Cons split: nat.splits)
    qed
  qed
qed

lemma execute_mark_inv:
  assumes inv: "controller_inv name kinds w" and g: "good_mark kinds (ct_trace w) n (w_store w)"
  shows "controller_inv name kinds (snd (execute K sql tables (OpMark name n) w))"
proof -
  obtain r u where gt: "sql_gate K ''db.write'' tables [sql] w = (r, u)" by fastforce
  have u: "controller_inv name kinds u" "ct_trace u = ct_trace w" "store_steps w u"
    using alongD [OF sql_gate_inv gt] alongD [OF sql_gate_frame gt] inv by (auto simp: keeping_def loop_frame_def)
  have gu: "good_mark kinds (ct_trace u) n (w_store u)"
    using u(2,3) good_mark_later [OF inv_store_wf [OF inv] g] by (auto simp: store_steps_def)
  have "controller_inv name kinds (snd (commit (OpMark name n) u))"
  proof (cases "s_schema (w_store u)")
    case False
    with u(1) show ?thesis by (simp add: commit_def)
  next
    case True
    let ?s = "mark_upsert name n (w_store u)"
    have run: "snd (commit (OpMark name n) u) = u\<lparr>w_store := ?s\<rparr>" using True by (simp add: commit_def)
    have rows: "s_rows ?s = s_rows (w_store u)"
      by (simp add: mark_upsert_def split: option.split)
    then have same: "good_mark kinds T m ?s = good_mark kinds T m (w_store u)" for T m by (simp add: good_mark_def)
    obtain ps where "w_store u = fold apply_op ps (w_replica u)" using u(1) by (auto simp: controller_inv_def)
    then have "?s = fold apply_op (ps @ [OpMark name n]) (w_replica u)" using True by (simp add: apply_op_def)
    then have reach: "\<exists>qs. ?s = fold apply_op qs (w_replica u)" by blast
    have obj: "map_of (obj_set name n ms) name = Some n" for ms :: "(string \<times> nat) list"
      by (induction ms) auto
    have "map_of (s_marks ?s) name = Some n \<or> map_of (s_marks ?s) name = map_of (s_marks (w_store u)) name"
      by (auto simp: mark_upsert_def obj map_add_def split: option.splits)
    then show ?thesis
      using u(1) gu reach unfolding run by (auto simp: controller_inv_def marks_good_def same split: option.splits)
  qed
  then show ?thesis by (simp add: execute_def bnd_run gt u(1) split: sum.split)
qed

lemma write_watermark_inv:
  "controller_inv name kinds w \<Longrightarrow> good_mark kinds (ct_trace w) n (w_store w) \<Longrightarrow>
     controller_inv name kinds (snd (write_watermark K name n w))"
  unfolding write_watermark_def by (rule execute_mark_inv)

lemma inv_mark:
  "controller_inv name kinds w \<Longrightarrow> good_mark kinds (ct_trace w) n (w_store w) \<Longrightarrow>
     controller_inv name kinds (w\<lparr>ct_mark := n\<rparr>)"
  by (simp add: controller_inv_def)

lemma pass_loop_inv:
  assumes rec: "reconciler_ok (cs_name spec) (cs_kinds spec) (cs_reconcile spec)"
  shows "controller_inv (cs_name spec) (cs_kinds spec) w \<Longrightarrow>
    controller_inv (cs_name spec) (cs_kinds spec) (snd (pass_loop K spec f dl fuel w))"
proof (induction fuel arbitrary: w)
  case (Suc fuel)
  let ?inv = "controller_inv (cs_name spec) (cs_kinds spec)"
  let ?o = "\<lparr>wo_kinds = cs_kinds spec, wo_batch = cs_batch spec\<rparr>"
  obtain t w1 where clk: "read_clock w = (Inr t, w1)"
    by (cases "ct_clock w") (auto simp: read_clock_def)
  have w1: "?inv w1" using alongD [OF read_clock_inv clk] Suc.prems by (simp add: keeping_def)
  show ?case
  proof (cases "past dl t")
    case True
    with clk w1 show ?thesis by (simp add: bnd_run)
  next
    case False
    obtain r2 w2 where ch: "changes_since K (ct_mark w1) ?o w1 = (r2, w2)" by fastforce
    have w2: "?inv w2" "ct_mark w2 = ct_mark w1"
      using alongD [OF changes_since_inv ch] alongD [OF changes_since_frame ch] w1
      by (auto simp: keeping_def loop_frame_def)
    show ?thesis
    proof (cases "\<exists>cs. r2 = Inr cs \<and> cs \<noteq> []")
      case False
      with clk \<open>\<not> past dl t\<close> ch w2 show ?thesis by (auto simp: bnd_run split: sum.split)
    next
      case True
      then obtain cs where cs: "r2 = Inr cs" "cs \<noteq> []" by blast
      obtain r3 w3 where pb: "process_batch (cs_reconcile spec) f dl 0 cs w2 = (r3, w3)" by fastforce
      from process_batch_result [OF rec w2(1) pb] obtain n where w3: "?inv w3" "store_steps w2 w3"
        "ct_mark w3 = ct_mark w2" and n: "n \<le> length cs" "ct_trace w3 = ct_trace w2 @ take n cs"
        "\<forall>p. r3 = Inr p \<longrightarrow> p = (if n = 0 then 0 else re_revision (ch_resource (cs ! (n - 1))))"
        by blast
      show ?thesis
      proof (cases "\<exists>p. r3 = Inr p \<and> p \<noteq> 0")
        case False
        with clk \<open>\<not> past dl t\<close> ch cs pb w3 show ?thesis by (auto simp: bnd_run split: sum.split)
      next
        case True
        then obtain p where p: "r3 = Inr p" "p \<noteq> 0" by blast
        with n(3) have n0: "0 < n" and pn: "p = re_revision (ch_resource (cs ! (n - 1)))" by (auto split: if_splits)
        obtain ps qs where "w_store w2 = fold apply_op ps (w_replica w2)" "w_store w3 = fold apply_op qs (w_store w2)"
          using w2(1) w3(2) by (auto simp: controller_inv_def store_steps_def)
        then have now: "w_store w3 = fold apply_op (ps @ qs) (w_replica w2)" by simp
        have old: "good_mark (cs_kinds spec) (ct_trace w3) (ct_mark w2) (w_store w3)"
          using w3(1,3) by (simp add: controller_inv_def)
        have wfr: "store_wf (w_replica w2)" using w2(1) by (simp add: controller_inv_def)
        have good: "good_mark (cs_kinds spec) (ct_trace w3) p (w_store w3)"
          unfolding pn
        proof (rule advance_good [OF wfr now old refl])
          show "changes_of (changes_scan (cs_kinds spec) (ct_mark w2) (cs_batch spec) (w_replica w2)) = Inr cs"
            using changes_since_scan [OF ch [unfolded cs(1)]] w2(2) by simp
        qed (use n0 n in auto)
        let ?w4 = "w3\<lparr>ct_mark := p\<rparr>"
        have w4: "?inv ?w4" by (rule inv_mark [OF w3(1) good])
        have g4: "good_mark (cs_kinds spec) (ct_trace ?w4) p (w_store ?w4)" using good by simp
        obtain r5 w5 where ww: "write_watermark K (cs_name spec) p ?w4 = (r5, w5)" by fastforce
        have w5: "?inv w5" using write_watermark_inv [OF w4 g4, of K] ww by simp
        show ?thesis
          using clk \<open>\<not> past dl t\<close> ch cs pb p ww w5 Suc.IH [OF w5]
          by (simp add: bnd_run split: sum.split)
      qed
    qed
  qed
qed simp

lemma leased_pass_inv:
  fixes spec :: "'x ctl_world_scheme controller_spec"
  assumes rec: "reconciler_ok (cs_name spec) (cs_kinds spec) (cs_reconcile spec)"
  shows "along (keeping (controller_inv (cs_name spec) (cs_kinds spec))) (leased_pass K spec f)"
proof (rule alongI, unfold keeping_def, intro impI)
  let ?inv = "controller_inv (cs_name spec) (cs_kinds spec)"
  fix w :: "'x ctl_world_scheme" assume w: "?inv w"
  obtain t w1 where clk: "read_clock w = (Inr t, w1)"
    by (cases "ct_clock w") (auto simp: read_clock_def)
  have w1: "?inv w1" using alongD [OF read_clock_inv clk] w by (simp add: keeping_def)
  obtain r w2 where rm: "read_watermark K (cs_name spec) w1 = (r, w2)" by fastforce
  have w2: "?inv w2" using alongD [OF read_watermark_inv rm] w1 by (simp add: keeping_def)
  show "?inv (snd (leased_pass K spec f w))"
  proof (cases r)
    case (Inl e)
    with clk rm w2 show ?thesis by (simp add: leased_pass_def bnd_run Let_def)
  next
    case (Inr m)
    with read_watermark_good [OF w1] rm have "good_mark (cs_kinds spec) (ct_trace w2) m (w_store w2)" by simp
    then have "?inv (w2\<lparr>ct_mark := m\<rparr>)" by (rule inv_mark [OF w2])
    from pass_loop_inv [OF rec this] Inr clk rm show ?thesis
      by (simp add: leased_pass_def bnd_run Let_def del: pass_loop.simps)
  qed
qed

lemma lock_inv [keeps_inv]: "along (keeping (controller_inv name kinds)) (lock K key)"
  unfolding lock_def
  by (intro keep.along_bnd keep.along_gets keep.along_list keep.along_throw keep.along_lift keep.along_ret keeps_inv)
     (auto simp: along_modify keeping_def controller_inv_def)

lemma release_inv [keeps_inv]: "along (keeping (controller_inv name kinds)) (release K i)"
  unfolding release_def
  by (intro keep.along_bnd keep.along_gets keep.along_option keep.along_lift keeps_inv)
     (auto simp: along_modify keeping_def controller_inv_def)

lemma pass_inv:
  assumes "reconciler_ok (cs_name spec) (cs_kinds spec) (cs_reconcile spec)"
  shows "along (keeping (controller_inv (cs_name spec) (cs_kinds spec))) (pass K spec)"
  unfolding pass_def with_lease_def
  by (intro keep.along_bnd keep.along_gets keep.along_finally leased_pass_inv [OF assms] keeps_inv)

lemma run_passes_inv:
  assumes "reconciler_ok (cs_name spec) (cs_kinds spec) (cs_reconcile spec)"
  shows "along (keeping (controller_inv (cs_name spec) (cs_kinds spec))) (run_passes K spec stops)"
  by (induction stops) (auto intro!: keep.along_catch keep.along_bnd keep.along_ret pass_inv [OF assms])

text \<open>
  C1: however many passes a controller runs, failing or not, with other
  writers committing between any two calls, reads answered by a replica that lags, and the budget
  cutting a batch anywhere: afterwards every row of its kinds the store holds at or below the
  controller's mark, in memory, in the store or in the replica it will be read back from, is one
  whose present state the reconciler has returned from. A retraction is such a row, so it is not
  skipped either.
\<close>

theorem watermark_never_skips:
  assumes "reconciler_ok (cs_name spec) (cs_kinds spec) (cs_reconcile spec)"
    and "controller_inv (cs_name spec) (cs_kinds spec) w"
  shows "let w' = snd (run_passes K spec stops w) in
    good_mark (cs_kinds spec) (ct_trace w') (ct_mark w') (w_store w') \<and>
    marks_good (cs_name spec) (cs_kinds spec) (ct_trace w') (w_store w') (w_store w') \<and>
    marks_good (cs_name spec) (cs_kinds spec) (ct_trace w') (w_replica w') (w_store w')"
  using run_passes_inv [OF assms(1), of K stops] assms(2)
  by (simp add: along_def keeping_def controller_inv_def Let_def)

definition idle_spec :: "ctl_world controller_spec" where
  "idle_spec = \<lparr>cs_name = ''ctl'', cs_kinds = [''note''], cs_batch = 100, cs_budget = 7000,
     cs_reconcile = (\<lambda>c f. notify allow_kernel (envelope_of (''note'', [], re_name (ch_resource c)) 0))\<rparr>"

definition demo_ctl :: "nat list \<Rightarrow> ctl_world" where
  "demo_ctl clock = cell.extend (demo_cell note_store [calm_event])
     \<lparr>ct_clock = clock, ct_mark = 0, ct_trace = []\<rparr>"

lemma notify_inv [keeps_inv]: "along (keeping (controller_inv name kinds)) (notify K e)"
  unfolding notify_def
  by (intro keep.along_bnd keeps_inv) (auto simp: along_modify keeping_def controller_inv_def)

lemma notify_frame: "along loop_frame (notify K e)"
  unfolding notify_def state_ready_def
  by (intro frame.along_bnd frame.along_gets frame.along_lift demand_frame)
     (auto simp: along_modify loop_frame_def store_steps_frame)

lemma idle_reconciler_ok: "reconciler_ok (cs_name idle_spec) (cs_kinds idle_spec) (cs_reconcile idle_spec)"
  by (simp add: reconciler_ok_def idle_spec_def notify_inv notify_frame)

lemma demo_ctl_inv: "controller_inv ''ctl'' kinds (demo_ctl clock)"
proof -
  have wf: "store_wf note_store" using note_quiet by (simp add: quiet_def demo_cell_def)
  show ?thesis
    using wf good_mark_zero [OF wf]
    by (auto simp: controller_inv_def demo_ctl_def demo_cell_def cell.defs env_clean_def calm_event_def
        marks_good_def note_store_def migrated_store_def empty_store_def intro: exI [of _ "[]"])
qed

theorem watermark_never_skips_witness:
  "let w' = snd (run_passes allow_kernel idle_spec [False, True] (demo_ctl [0, 1, 2, 3])) in
    good_mark (cs_kinds idle_spec) (ct_trace w') (ct_mark w') (w_store w') \<and>
    marks_good (cs_name idle_spec) (cs_kinds idle_spec) (ct_trace w') (w_store w') (w_store w') \<and>
    marks_good (cs_name idle_spec) (cs_kinds idle_spec) (ct_trace w') (w_replica w') (w_store w')"
proof -
  have "controller_inv (cs_name idle_spec) (cs_kinds idle_spec) (demo_ctl [0, 1, 2, 3])"
    using demo_ctl_inv by (simp add: idle_spec_def)
  then show ?thesis by (rule watermark_never_skips [OF idle_reconciler_ok])
qed

section \<open>A pass ends\<close>

text \<open>The clock only loses readings.\<close>

definition clock_le :: "'x ctl_world_scheme \<Rightarrow> 'x ctl_world_scheme \<Rightarrow> bool" where
  "clock_le w w' \<longleftrightarrow> length (ct_clock w') \<le> length (ct_clock w)"

interpretation clock: step_order clock_le
  by unfold_locales (auto simp: clock_le_def)

lemma demand_clock: "along clock_le (demand K kind res opts)"
proof (rule alongI)
  fix w :: "'x ctl_world_scheme"
  have "plane_only w (snd (demand K kind res opts w))"
    by (rule demand_plane [unfolded along_def, rule_format])
  then obtain l d where "snd (demand K kind res opts w) = w\<lparr>p_ledger := l, p_observed := d\<rparr>"
    unfolding plane_only_def by blast
  then show "clock_le w (snd (demand K kind res opts w))" by (simp add: clock_le_def)
qed

lemma crossing_clock: "along clock_le crossing"
  by (rule alongI) (auto simp: clock_le_def crossing_def Let_def split: list.split option.split)

lemma sql_gate_clock: "along clock_le (sql_gate K kind tables sqls)"
  unfolding sql_gate_def state_ready_def
  by (intro clock.along_bnd clock.along_lift clock.along_gets demand_clock crossing_clock)

lemma changes_since_clock: "along clock_le (changes_since K m opts)"
  unfolding changes_since_def query_def
  by (intro clock.along_bnd clock.along_gets clock.along_lift sql_gate_clock)

lemma write_watermark_clock: "along clock_le (write_watermark K name n)"
proof -
  have "along clock_le (commit p :: ('x ctl_world_scheme, unit) io)" for p
    by (rule alongI) (auto simp: commit_def clock_le_def split: sum.split)
  then show ?thesis
    unfolding write_watermark_def execute_def by (intro clock.along_bnd sql_gate_clock)
qed

lemma process_batch_clock:
  assumes "\<And>c f. along clock_le (reconcile c f)"
  shows "along clock_le (process_batch reconcile f dl proc cs)"
proof (induction cs arbitrary: proc)
  case (Cons c cs)
  have "along clock_le read_clock"
    by (rule alongI) (auto simp: clock_le_def read_clock_def split: list.split)
  moreover have "along clock_le (modify (\<lambda>w. w\<lparr>ct_trace := ct_trace w @ [c]\<rparr>))"
    by (simp add: along_modify clock_le_def)
  ultimately show ?case
    using Cons.IH assms by (auto intro!: clock.along_bnd clock.along_if clock.along_ret)
qed auto



end
