(* ===== verification/Calendar.thy ===== *)
theory Calendar
  imports Effects
begin

text \<open>
  The proleptic Gregorian calendar of the language's \<open>Date\<close>: a date is a day number, counted
  from 1 January of year 0. \<open>make_day\<close> is the standard's \<open>MakeDay\<close> (months count from 0 and
  overflow into years), \<open>civil_of\<close> the getters; on real days they are inverse, and both
  respect the order.
\<close>

section \<open>The calendar\<close>

datatype civil = Civil (c_year: int) (c_month: int) (c_day: int)

instantiation civil :: linorder
begin

definition less_eq_civil :: "civil \<Rightarrow> civil \<Rightarrow> bool" where
  "less_eq_civil a b \<longleftrightarrow>
     c_year a < c_year b \<or>
     (c_year a = c_year b \<and> (c_month a < c_month b \<or> (c_month a = c_month b \<and> c_day a \<le> c_day b)))"

definition less_civil :: "civil \<Rightarrow> civil \<Rightarrow> bool" where
  "less_civil a b \<longleftrightarrow> a \<le> b \<and> \<not> b \<le> (a::civil)"

instance
  by standard (auto simp: less_eq_civil_def less_civil_def intro: civil.expand)

end

definition leap :: "int \<Rightarrow> bool" where
  "leap y \<longleftrightarrow> y mod 4 = 0 \<and> (y mod 100 \<noteq> 0 \<or> y mod 400 = 0)"

definition month_length :: "int \<Rightarrow> int \<Rightarrow> int" where
  "month_length y m =
     (if m = 2 then (if leap y then 29 else 28) else if m \<in> {4, 6, 9, 11} then 30 else 31)"

text \<open>Days before 1 January of a year, counted from year 0, and before a month in its year.\<close>

definition year_start :: "int \<Rightarrow> int" where
  "year_start y = 365 * y + (y + 3) div 4 - (y + 99) div 100 + (y + 399) div 400"

definition month_start :: "int \<Rightarrow> int \<Rightarrow> int" where
  "month_start y m =
     [0, 31, 59, 90, 120, 151, 181, 212, 243, 273, 304, 334] ! nat (m - 1) +
     (if m > 2 \<and> leap y then 1 else 0)"

text \<open>\<open>MakeDay\<close>: months count from 0 and overflow into years.\<close>

definition make_day :: "int \<Rightarrow> int \<Rightarrow> int \<Rightarrow> int" where
  "make_day y m d =
     (let y' = y + m div 12; m' = m mod 12 + 1 in year_start y' + month_start y' m' + d - 1)"

definition year_of :: "int \<Rightarrow> int" where
  "year_of n =
     (let y = (400 * n) div 146097
      in if n < year_start y then y - 1 else if year_start (y + 1) \<le> n then y + 1 else y)"

definition month_of :: "int \<Rightarrow> int \<Rightarrow> int" where
  "month_of y k = fold (\<lambda>m acc. if month_start y m \<le> k then m else acc) [1,2,3,4,5,6,7,8,9,10,11,12] 1"

definition civil_of :: "int \<Rightarrow> civil" where
  "civil_of n =
     (let y = year_of n; k = n - year_start y; m = month_of y k
      in Civil y m (k - month_start y m + 1))"

definition real_day :: "civil \<Rightarrow> bool" where
  "real_day c \<longleftrightarrow> 1 \<le> c_month c \<and> c_month c \<le> 12 \<and> 1 \<le> c_day c \<and> c_day c \<le> month_length (c_year c) (c_month c)"

definition day_number :: "civil \<Rightarrow> int" where
  "day_number c = make_day (c_year c) (c_month c - 1) (c_day c)"

subsection \<open>Facts of the calendar\<close>

lemma div_between:
  fixes a k :: int
  assumes "0 < k"
  shows "k * (a div k) \<le> a" and "a < k * (a div k) + k"
  using pos_mod_bound [OF assms, of a] pos_mod_sign [OF assms, of a] mult_div_mod_eq [of k a] by linarith+

lemma ceil_step:
  fixes a k j :: int
  assumes k: "0 < k" and j: "k = j + 1"
  shows "(a + 1 + j) div k = (a + j) div k + (if a mod k = 0 then 1 else 0)"
proof -
  have a: "a = k * (a div k) + a mod k" by simp
  have r: "0 \<le> a mod k" "a mod k < k" using k by simp_all
  have up: "(a + 1 + (k - 1)) div k = a div k + 1"
    using k div_add_self2 [of k a] by (simp add: algebra_simps)
  have low: "(a + (k - 1)) div k = (if a mod k = 0 then a div k else a div k + 1)"
  proof (cases "a mod k = 0")
    case True
    then show ?thesis using a r k by (simp add: int_div_pos_eq [of _ k "a div k" "k - 1"])
  next
    case False
    then have r': "0 \<le> a mod k - 1" "a mod k - 1 < k" using r by linarith+
    have "a + (k - 1) = k * (a div k + 1) + (a mod k - 1)" using a by (simp add: algebra_simps)
    from int_div_pos_eq [OF this r'] have "(a + (k - 1)) div k = a div k + 1" .
    with False show ?thesis by simp
  qed
  show ?thesis using up low j by simp
qed

lemma year_start_Suc: "year_start (y + 1) = year_start y + (if leap y then 366 else 365)"
proof -
  have step: "365 * (y + 1) + (q4 + (if b4 then 1 else 0)) - (q100 + (if b100 then 1 else 0)) + (q400 + (if b400 then 1 else 0))
      = 365 * y + q4 - q100 + q400 + (if b4 \<and> (\<not> b100 \<or> b400) then 366 else 365)"
    if "b400 \<Longrightarrow> b100" "b100 \<Longrightarrow> b4" for q4 q100 q400 :: int and b4 b100 b400
    using that by (cases b4; cases b100; cases b400) simp_all
  have mods: "y mod 400 = 0 \<Longrightarrow> y mod 100 = 0" "y mod 100 = 0 \<Longrightarrow> y mod 4 = 0"
    using dvd_trans [of 100 400 y] dvd_trans [of 4 100 y] by (simp_all add: mod_eq_0_iff_dvd)
  have next': "(y + 1 + 3) div 4 = (y + 3) div 4 + (if y mod 4 = 0 then 1 else 0)"
    "(y + 1 + 99) div 100 = (y + 99) div 100 + (if y mod 100 = 0 then 1 else 0)"
    "(y + 1 + 399) div 400 = (y + 399) div 400 + (if y mod 400 = 0 then 1 else 0)"
    by (rule ceil_step; simp)+
  show ?thesis unfolding year_start_def leap_def next' by (rule step [OF mods])
qed

lemma year_start_mono_nat: "year_start y + 365 * int k \<le> year_start (y + int k)"
proof (induction k)
  case (Suc k)
  have "year_start (y + int (Suc k)) = year_start (y + int k + 1)" by (simp add: algebra_simps)
  with Suc show ?case by (simp add: year_start_Suc)
qed simp

lemma year_start_mono: "y \<le> z \<Longrightarrow> year_start y + 365 * (z - y) \<le> year_start z"
  using year_start_mono_nat [of y "nat (z - y)"] by simp

lemma year_start_less: "y < z \<Longrightarrow> year_start (y + 1) \<le> year_start z"
  using year_start_mono [of "y + 1" z] by simp

lemma year_start_close:
  shows "146097 * y - 600 \<le> 400 * year_start y" and "400 * year_start y \<le> 146097 * y + 1200"
proof -
  have aux: "146097 * y - 600 \<le> 400 * (365 * y + a - b + c) \<and> 400 * (365 * y + a - b + c) \<le> 146097 * y + 1200"
    if "4 * a \<le> y + 3" "y + 3 < 4 * a + 4" "100 * b \<le> y + 99" "y + 99 < 100 * b + 100"
      "400 * c \<le> y + 399" "y + 399 < 400 * c + 400" for a b c
    using that by simp
  note d = aux [OF div_between [of 4 "y + 3", OF zero_less_numeral] div_between [of 100 "y + 99", OF zero_less_numeral]
    div_between [of 400 "y + 399", OF zero_less_numeral]]
  show "146097 * y - 600 \<le> 400 * year_start y" "400 * year_start y \<le> 146097 * y + 1200"
    unfolding year_start_def by (rule d [THEN conjunct1], rule d [THEN conjunct2])
qed

lemma year_of_bounds: "year_start (year_of n) \<le> n" "n < year_start (year_of n + 1)"
proof -
  define y where "y = (400 * n) div 146097"
  have y: "146097 * y \<le> 400 * n" "400 * n < 146097 * y + 146097"
    unfolding y_def by (rule div_between; simp)+
  have low: "year_start (y - 1) \<le> n" using year_start_close(2) [of "y - 1"] y by simp
  have high: "n < year_start (y + 2)" using year_start_close(1) [of "y + 2"] y by simp
  have of: "year_of n = (if n < year_start y then y - 1 else if year_start (y + 1) \<le> n then y + 1 else y)"
    by (simp add: year_of_def y_def Let_def)
  have two: "y + 1 + 1 = y + 2" "y - 1 + 1 = y" by simp_all
  show "year_start (year_of n) \<le> n" "n < year_start (year_of n + 1)"
    unfolding of using low high
    by (cases "n < year_start y"; cases "year_start (y + 1) \<le> n"; simp add: two del: add_diff_cancel_right')+
qed

lemma year_of_unique:
  assumes "year_start y \<le> n" and "n < year_start (y + 1)"
  shows "year_of n = y"
proof -
  have "\<not> y < year_of n" using year_start_less [of y "year_of n"] year_of_bounds [of n] assms by auto
  moreover have "\<not> year_of n < y" using year_start_less [of "year_of n" y] year_of_bounds [of n] assms by auto
  ultimately show ?thesis by simp
qed

lemma twelve_cases:
  assumes "1 \<le> (m::int)" and "m \<le> 12"
  obtains "m = 1" | "m = 2" | "m = 3" | "m = 4" | "m = 5" | "m = 6" | "m = 7" | "m = 8" | "m = 9"
    | "m = 10" | "m = 11" | "m = 12"
proof -
  have "m = 1 \<or> m = 2 \<or> m = 3 \<or> m = 4 \<or> m = 5 \<or> m = 6 \<or> m = 7 \<or> m = 8 \<or> m = 9 \<or> m = 10 \<or> m = 11 \<or> m = 12"
    using assms by presburger
  then show ?thesis using that by blast
qed

lemma month_start_Suc:
  "1 \<le> m \<Longrightarrow> m < 12 \<Longrightarrow> month_start y (m + 1) = month_start y m + month_length y m"
  by (erule twelve_cases [of m], simp_all add: month_start_def month_length_def)

lemma month_start_last: "month_start y 12 + 31 = (if leap y then 366 else 365)"
  by (simp add: month_start_def)

lemma month_bounds:
  assumes "1 \<le> m" and "m \<le> 12"
  shows "0 \<le> month_start y m" and "month_start y m + month_length y m \<le> (if leap y then 366 else 365)"
    and "28 \<le> month_length y m" and "month_length y m \<le> 31"
  using assms by (erule_tac [!] twelve_cases [of m]) (simp_all add: month_start_def month_length_def)

lemma month_of_unique:
  assumes m: "1 \<le> m" "m \<le> 12" and k: "month_start y m \<le> k" "k < month_start y m + month_length y m"
  shows "month_of y k = m"
  using m k
  by (cases "leap y"; elim twelve_cases [of m])
     (simp_all add: month_of_def month_start_def month_length_def)

lemma month_of_bounds:
  assumes "0 \<le> k" and "k < (if leap y then 366 else 365)"
  shows "1 \<le> month_of y k" "month_of y k \<le> 12" "month_start y (month_of y k) \<le> k"
    "k < month_start y (month_of y k) + month_length y (month_of y k)"
  using assms by (auto simp: month_of_def month_start_def month_length_def split: if_splits)

lemma make_day_civil: "1 \<le> m \<Longrightarrow> m \<le> 12 \<Longrightarrow> make_day y (m - 1) d = year_start y + month_start y m + d - 1"
  by (simp add: make_day_def)

lemma make_day_shift: "make_day y m (d + k) = make_day y m d + k"
  by (simp add: make_day_def Let_def)

text \<open>Reading a real day's number back.\<close>

lemma civil_of_day_number: "real_day c \<Longrightarrow> civil_of (day_number c) = c"
proof -
  assume c: "real_day c"
  then have m: "1 \<le> c_month c" "c_month c \<le> 12" and d: "1 \<le> c_day c" "c_day c \<le> month_length (c_year c) (c_month c)"
    by (auto simp: real_day_def)
  note b = month_bounds [OF m, of "c_year c"]
  let ?n = "day_number c"
  have n: "?n = year_start (c_year c) + month_start (c_year c) (c_month c) + c_day c - 1"
    using m by (simp add: day_number_def make_day_civil)
  have y: "year_of ?n = c_year c"
    by (rule year_of_unique) (use n b d in \<open>auto simp: year_start_Suc split: if_splits\<close>)
  have "month_of (c_year c) (?n - year_start (c_year c)) = c_month c"
    by (rule month_of_unique) (use m n d in auto)
  with y n show ?thesis by (cases c) (simp add: civil_of_def Let_def)
qed

lemma real_civil_of: "real_day (civil_of n)" and day_number_civil_of: "day_number (civil_of n) = n"
proof -
  let ?y = "year_of n"
  have k: "0 \<le> n - year_start ?y" "n - year_start ?y < (if leap ?y then 366 else 365)"
    using year_of_bounds [of n] by (auto simp: year_start_Suc)
  note b = month_of_bounds [OF k]
  show "real_day (civil_of n)" using b by (auto simp: real_day_def civil_of_def Let_def)
  show "day_number (civil_of n) = n"
    using b(1,2) by (simp add: day_number_def civil_of_def Let_def make_day_civil)
qed

lemma day_number_less:
  assumes a: "real_day a" and b: "real_day b" and less: "a < b"
  shows "day_number a < day_number b"
proof -
  have am: "1 \<le> c_month a" "c_month a \<le> 12" and bm: "1 \<le> c_month b" "c_month b \<le> 12"
    using a b by (auto simp: real_day_def)
  note ab = month_bounds [OF am, of "c_year a"] and bb = month_bounds [OF bm, of "c_year b"]
  have na: "day_number a = year_start (c_year a) + month_start (c_year a) (c_month a) + c_day a - 1"
    and nb: "day_number b = year_start (c_year b) + month_start (c_year b) (c_month b) + c_day b - 1"
    using am bm by (simp_all add: day_number_def make_day_civil)
  consider "c_year a < c_year b" | "c_year a = c_year b" "c_month a < c_month b"
    | "c_year a = c_year b" "c_month a = c_month b" "c_day a < c_day b"
    using less by (auto simp: less_civil_def less_eq_civil_def)
  then show ?thesis
  proof cases
    case 1
    then have "year_start (c_year a + 1) \<le> year_start (c_year b)" by (rule year_start_less)
    with na nb ab bb a b show ?thesis by (auto simp: real_day_def year_start_Suc split: if_splits)
  next
    case 2
    have mono: "month_start y (m + int (Suc k)) \<ge> month_start y m + month_length y m"
      if "1 \<le> m" "m + int (Suc k) \<le> 12" for y m k using that
    proof (induction k)
      case 0 then show ?case using month_start_Suc [of m y] by simp
    next
      case (Suc k)
      then have "month_start y (m + int (Suc k) + 1) = month_start y (m + int (Suc k)) + month_length y (m + int (Suc k))"
        by (intro month_start_Suc) auto
      moreover have "month_length y (m + int (Suc k)) \<ge> 0" by (auto simp: month_length_def)
      ultimately show ?case using Suc by (simp add: algebra_simps)
    qed
    have "month_start (c_year b) (c_month b) \<ge> month_start (c_year a) (c_month a) + month_length (c_year a) (c_month a)"
      using mono [of "c_month a" "nat (c_month b - c_month a - 1)" "c_year a"] 2 am bm by simp
    with na nb a b 2 show ?thesis by (auto simp: real_day_def)
  next
    case 3
    with na nb show ?thesis by simp
  qed
qed

lemma day_number_less_iff: "real_day a \<Longrightarrow> real_day b \<Longrightarrow> day_number a < day_number b \<longleftrightarrow> a < b"
  using day_number_less [of a b] day_number_less [of b a] by (metis less_irrefl linorder_cases not_less_iff_gr_or_eq)

end
