(* ===== verification/Dates.thy ===== *)
theory Dates
  imports Calendar
begin

text \<open>
  \<open>backend/members/dates.ts\<close>: calendar days as texts \<open>YYYY-MM-DD\<close>. A \<open>Date\<close> is
  \<open>Some\<close> day number or, when invalid, \<open>None\<close>, and printing an invalid one throws. The
  engine's parser takes any day of the month up to 31 and rolls it over; the texts of another shape,
  which only a hand-written row could hold, are invalid dates here.
\<close>

section \<open>Dates of the language\<close>

definition day_shape :: "string \<Rightarrow> bool" where
  "day_shape s \<longleftrightarrow>
     length s = 10 \<and> list_all is_digit (take 4 s) \<and> s ! 4 = CHR ''-'' \<and>
     list_all is_digit (take 2 (drop 5 s)) \<and> s ! 7 = CHR ''-'' \<and> list_all is_digit (drop 8 s)"

definition digits_int :: "string \<Rightarrow> int" where
  "digits_int s = int (digits_value 0 s)"

text \<open>\<open>new Date(`${day}T00:00:00Z`)\<close>\<close>

definition parse_day :: "string \<Rightarrow> int option" where
  "parse_day s =
     (let y = digits_int (take 4 s); m = digits_int (take 2 (drop 5 s)); d = digits_int (drop 8 s)
      in if day_shape s \<and> 1 \<le> m \<and> m \<le> 12 \<and> 1 \<le> d \<and> d \<le> 31 then Some (make_day y (m - 1) d) else None)"

text \<open>\<open>TimeClip\<close>: a hundred million days either side of 1970.\<close>

definition EPOCH :: int where
  "EPOCH = 719528"

definition time_clip :: "int \<Rightarrow> int option" where
  "time_clip n = (if \<bar>n - EPOCH\<bar> \<le> 100000000 then Some n else None)"

definition pad_int :: "nat \<Rightarrow> int \<Rightarrow> string" where
  "pad_int w i = pad_zero w (show_nat (nat i))"

definition iso_text :: "civil \<Rightarrow> string" where
  "iso_text c =
     (let y = c_year c
      in (if 0 \<le> y \<and> y \<le> 9999 then pad_int 4 y
          else (if y < 0 then ''-'' else ''+'') @ pad_int 6 \<bar>y\<bar>) @
         ''-'' @ pad_int 2 (c_month c) @ ''-'' @ pad_int 2 (c_day c))"

text \<open>\<open>toISOString().slice(0, 10)\<close>\<close>

definition iso_slice :: "int option \<Rightarrow> exn + string" where
  "iso_slice date =
     (case date of
        None \<Rightarrow> Inl (RangeErr ''Invalid time value'')
      | Some n \<Rightarrow> Inr (take 10 (iso_text (civil_of n))))"

section \<open>The operations\<close>

definition is_day :: "string \<Rightarrow> bool" where
  "is_day s \<longleftrightarrow>
     day_shape s \<and> parse_day s \<noteq> None \<and> iso_slice (parse_day s) = Inr s"

datatype paid_on = PaidDay string | PaidProblem string

definition resolve_paid_on :: "string option \<Rightarrow> string \<Rightarrow> paid_on" where
  "resolve_paid_on provided now =
     (case provided of
        None \<Rightarrow> PaidDay now
      | Some p \<Rightarrow>
          (if \<not> is_day p then PaidProblem (''paidOn '' @ quoted p @ '' is not a calendar day (YYYY-MM-DD)'')
           else if p > now then PaidProblem (''paidOn '' @ quoted p @ '' is in the future; today is '' @ now)
           else PaidDay p))"

definition add_days :: "string \<Rightarrow> int \<Rightarrow> exn + string" where
  "add_days day count =
     iso_slice (case parse_day day of None \<Rightarrow> None | Some n \<Rightarrow> time_clip (n + count))"

datatype billing = Annual | Monthly

definition add_period :: "string \<Rightarrow> billing \<Rightarrow> exn + string" where
  "add_period day period =
     iso_slice (case parse_day day of
        None \<Rightarrow> None
      | Some n \<Rightarrow>
          (case civil_of n of Civil y m d \<Rightarrow>
             (let moved = (case period of Annual \<Rightarrow> make_day (y + 1) (m - 1) 1 | Monthly \<Rightarrow> make_day y m 1);
                  ty = c_year (civil_of moved); tm = c_month (civil_of moved);
                  uy = (if 0 \<le> ty \<and> ty \<le> 99 then 1900 + ty else ty);
                  last_of = c_day (civil_of (make_day uy tm 0))
              in time_clip (make_day ty (tm - 1) (min d last_of)))))"

end
