(* ===== verification/Dates_Claims.thy ===== *)
theory Dates_Claims
  imports Dates
begin

text \<open>
  What the calendar operations promise. The texts \<open>is_day\<close> accepts are exactly the printed real
  days of the years 0 to 9999 (\<open>is_day_iff\<close>), so comparing two of them as texts compares the
  days (the renewal rule and the payment check compare texts), counting days is addition, and a
  billing period advances by exactly one month or year, clamped to the end of the target month.
\<close>

section \<open>Digit texts\<close>

lemma length_pad_zero [simp]: "length (pad_zero w s) = max w (length s)"
  by (simp add: pad_zero_def)

lemma digits_value_zeros: "digits_value 0 (replicate k (CHR ''0'') @ s) = digits_value 0 s"
  by (induction k) simp_all

lemma digits_value_pad [simp]: "digits_value 0 (pad_zero w (show_nat n)) = n"
  by (simp add: pad_zero_def digits_value_zeros digits_value_show_nat)

lemma pad_digits: "list_all is_digit (pad_zero w (show_nat n))"
  using show_nat_digits [of n] by (auto simp: pad_zero_def list_all_iff is_digit_def)

lemma length_show_nat_le: "n < 10 ^ Suc w \<Longrightarrow> length (show_nat n) \<le> Suc w"
proof (induction w arbitrary: n)
  case 0
  then show ?case by (subst show_nat.simps) simp
next
  case (Suc w)
  then have "n div 10 < 10 ^ Suc w" by (simp add: less_mult_imp_div_less mult.commute)
  from Suc.IH [OF this] show ?case by (subst show_nat.simps) simp
qed

lemma pad_int_facts:
  assumes "0 \<le> i" and "i < 10 ^ Suc w"
  shows "length (pad_int (Suc w) i) = Suc w" and "list_all is_digit (pad_int (Suc w) i)"
    and "digits_int (pad_int (Suc w) i) = i"
proof -
  have "nat i < 10 ^ Suc w" using assms by (simp add: nat_less_iff)
  from length_show_nat_le [OF this] show "length (pad_int (Suc w) i) = Suc w"
    by (simp add: pad_int_def)
  show "list_all is_digit (pad_int (Suc w) i)" by (simp add: pad_int_def pad_digits)
  show "digits_int (pad_int (Suc w) i) = i" using assms by (simp add: pad_int_def digits_int_def)
qed

lemma digits_value_bounds:
  "list_all is_digit s \<Longrightarrow> k * 10 ^ length s \<le> digits_value k s \<and> digits_value k s < (k + 1) * 10 ^ length s"
proof (induction s arbitrary: k)
  case (Cons c s)
  let ?d = "code_unit c - 48"
  have d: "?d \<le> 9" using Cons.prems by (auto simp: is_digit_def)
  from Cons have "(10 * k + ?d) * 10 ^ length s \<le> digits_value (10 * k + ?d) s"
    and "digits_value (10 * k + ?d) s < (10 * k + ?d + 1) * 10 ^ length s" by auto
  moreover have "(10 * k + ?d + 1) * 10 ^ length s \<le> (10 * (k + 1)) * 10 ^ length s"
    using d by (intro mult_right_mono) auto
  moreover have "(10 * k) * 10 ^ length s \<le> (10 * k + ?d) * 10 ^ length s" by (intro mult_right_mono) auto
  ultimately show ?case by (simp add: algebra_simps)
qed simp

lemma digits_value_less:
  assumes "length s = length t" and "list_all is_digit s" and "list_all is_digit t" and "j < k"
  shows "digits_value j s < digits_value k t"
proof -
  have "Suc j * 10 ^ length s \<le> k * 10 ^ length t" using assms(1,4) by (simp add: Suc_leI mult_le_mono1 del: mult_Suc)
  with digits_value_bounds [OF assms(2), of j] digits_value_bounds [OF assms(3), of k] show ?thesis by simp
qed

text \<open>Digit texts of one length compare as their numbers do.\<close>

lemma digits_order:
  "length s = length t \<Longrightarrow> list_all is_digit s \<Longrightarrow> list_all is_digit t \<Longrightarrow>
   (s < t) = (digits_value k s < digits_value k t) \<and> (s = t) = (digits_value k s = digits_value k t)"
proof (induction s t arbitrary: k rule: list_induct2)
  case (Cons c s d t)
  let ?c = "code_unit c - 48" and ?d = "code_unit d - 48"
  have cd: "48 \<le> code_unit c" "48 \<le> code_unit d" using Cons.prems by (auto simp: is_digit_def)
  have less: "c < d \<longleftrightarrow> ?c < ?d" using cd by (auto simp: less_char_def)
  have eq: "c = d \<longleftrightarrow> ?c = ?d" using cd by (metis le_add_diff_inverse of_char_eq_iff)
  consider "?c < ?d" | "?d < ?c" | "?c = ?d" by linarith
  then show ?case
  proof cases
    case 1
    then have "digits_value (10 * k + ?c) s < digits_value (10 * k + ?d) t"
      using Cons.prems Cons.hyps by (intro digits_value_less) auto
    with 1 show ?thesis by (simp add: less eq)
  next
    case 2
    then have "digits_value (10 * k + ?d) t < digits_value (10 * k + ?c) s"
      using Cons.prems Cons.hyps by (intro digits_value_less) auto
    with 2 show ?thesis by (simp add: less eq)
  next
    case 3
    with Cons.IH [of "10 * k + ?c"] Cons.prems show ?thesis by (simp add: less eq)
  qed
qed simp

lemma append_less:
  fixes a b x y :: string
  shows "length a = length b \<Longrightarrow> a @ x < b @ y \<longleftrightarrow> a < b \<or> (a = b \<and> x < y)"
  by (induction a b rule: list_induct2) auto

section \<open>Printed days\<close>

definition printable :: "civil \<Rightarrow> bool" where
  "printable c \<longleftrightarrow> real_day c \<and> 0 \<le> c_year c \<and> c_year c \<le> 9999"

lemma printable_fields:
  assumes "printable c"
  shows "length (pad_int 4 (c_year c)) = 4" "length (pad_int 2 (c_month c)) = 2" "length (pad_int 2 (c_day c)) = 2"
    "list_all is_digit (pad_int 4 (c_year c))" "list_all is_digit (pad_int 2 (c_month c))"
    "list_all is_digit (pad_int 2 (c_day c))"
    "digits_int (pad_int 4 (c_year c)) = c_year c" "digits_int (pad_int 2 (c_month c)) = c_month c"
    "digits_int (pad_int 2 (c_day c)) = c_day c"
proof -
  have m: "1 \<le> c_month c" "c_month c \<le> 12" and d: "1 \<le> c_day c" "c_day c \<le> 31"
    and y: "0 \<le> c_year c" "c_year c \<le> 9999"
    using assms month_bounds(4) [of "c_month c" "c_year c"] by (auto simp: printable_def real_day_def)
  note Y = pad_int_facts [of "c_year c" 3] and M = pad_int_facts [of "c_month c" 1] and D = pad_int_facts [of "c_day c" 1]
  show "length (pad_int 4 (c_year c)) = 4" "length (pad_int 2 (c_month c)) = 2" "length (pad_int 2 (c_day c)) = 2"
    "list_all is_digit (pad_int 4 (c_year c))" "list_all is_digit (pad_int 2 (c_month c))"
    "list_all is_digit (pad_int 2 (c_day c))"
    "digits_int (pad_int 4 (c_year c)) = c_year c" "digits_int (pad_int 2 (c_month c)) = c_month c"
    "digits_int (pad_int 2 (c_day c)) = c_day c"
    using Y M D m d y by (simp_all add: eval_nat_numeral)
qed

lemma iso_text_printable:
  "printable c \<Longrightarrow> iso_text c =
     pad_int 4 (c_year c) @ CHR ''-'' # pad_int 2 (c_month c) @ CHR ''-'' # pad_int 2 (c_day c)"
  by (simp add: iso_text_def printable_def)

lemma length_iso_text: "printable c \<Longrightarrow> length (iso_text c) = 10"
  by (simp add: iso_text_printable printable_fields)

lemma iso_text_parts:
  assumes "printable c"
  shows "take 4 (iso_text c) = pad_int 4 (c_year c)" "take 2 (drop 5 (iso_text c)) = pad_int 2 (c_month c)"
    "drop 8 (iso_text c) = pad_int 2 (c_day c)" "iso_text c ! 4 = CHR ''-''" "iso_text c ! 7 = CHR ''-''"
  using printable_fields(1,2,3) [OF assms] by (simp_all add: iso_text_printable [OF assms] nth_append)

lemma parse_iso_text:
  assumes "printable c"
  shows "day_shape (iso_text c)" and "parse_day (iso_text c) = Some (day_number c)"
proof -
  show shape: "day_shape (iso_text c)"
    using printable_fields [OF assms] by (simp add: day_shape_def iso_text_parts [OF assms] length_iso_text [OF assms])
  have "1 \<le> c_month c" "c_month c \<le> 12" "1 \<le> c_day c" "c_day c \<le> 31"
    using assms month_bounds(4) [of "c_month c" "c_year c"] by (auto simp: printable_def real_day_def)
  with shape show "parse_day (iso_text c) = Some (day_number c)"
    using printable_fields(7,8,9) [OF assms]
    by (simp add: parse_day_def Let_def iso_text_parts [OF assms] day_number_def)
qed

lemma iso_slice_printable: "printable c \<Longrightarrow> iso_slice (Some (day_number c)) = Inr (iso_text c)"
  using civil_of_day_number [of c] length_iso_text [of c] by (simp add: iso_slice_def printable_def)

lemma digits_int_range:
  "list_all is_digit s \<Longrightarrow> 0 \<le> digits_int s \<and> digits_int s < 10 ^ length s"
  using digits_value_bounds [of s 0] by (simp add: digits_int_def)

lemma parse_day_year:
  assumes "parse_day s = Some n"
  shows "0 \<le> year_of n" and "year_of n \<le> 9999"
proof -
  let ?y = "digits_int (take 4 s)" and ?m = "digits_int (take 2 (drop 5 s))" and ?d = "digits_int (drop 8 s)"
  have shape: "day_shape s" and m: "1 \<le> ?m" "?m \<le> 12" and d: "1 \<le> ?d" "?d \<le> 31"
    and n: "n = year_start ?y + month_start ?y ?m + ?d - 1"
    using assms by (auto simp: parse_day_def Let_def make_day_civil split: if_splits)
  have y: "0 \<le> ?y" "?y \<le> 9999"
    using digits_int_range [of "take 4 s"] shape by (auto simp: day_shape_def)
  have "month_start ?y ?m + 31 \<le> (if leap ?y then 366 else 365)" and "0 \<le> month_start ?y ?m"
    using m by (elim twelve_cases [of ?m]; simp add: month_start_def)+
  then have "year_of n = ?y" using n d by (intro year_of_unique) (auto simp: year_start_Suc)
  with y show "0 \<le> year_of n" "year_of n \<le> 9999" by auto
qed

lemma is_day_iff: "is_day s \<longleftrightarrow> (\<exists>c. printable c \<and> s = iso_text c)"
proof
  assume s: "is_day s"
  then obtain n where n: "parse_day s = Some n" and slice: "iso_slice (Some n) = Inr s"
    by (auto simp: is_day_def)
  have c: "printable (civil_of n)"
    using parse_day_year [OF n] real_civil_of [of n] by (simp add: printable_def civil_of_def Let_def)
  moreover have "s = iso_text (civil_of n)"
    using slice length_iso_text [OF c] by (simp add: iso_slice_def)
  ultimately show "\<exists>c. printable c \<and> s = iso_text c" by blast
next
  assume "\<exists>c. printable c \<and> s = iso_text c"
  then show "is_day s" by (auto simp: is_day_def parse_iso_text iso_slice_printable)
qed

lemma digits_int_order:
  assumes "length s = length t" and "list_all is_digit s" and "list_all is_digit t"
  shows "s < t \<longleftrightarrow> digits_int s < digits_int t" and "s = t \<longleftrightarrow> digits_int s = digits_int t"
  using digits_order [OF assms, of 0] by (auto simp: digits_int_def)

lemma iso_text_less:
  assumes a: "printable a" and b: "printable b"
  shows "iso_text a < iso_text b \<longleftrightarrow> a < b"
proof -
  note A = printable_fields [OF a] and B = printable_fields [OF b]
  have y: "length (pad_int 4 (c_year a)) = length (pad_int 4 (c_year b))"
    and m: "length (pad_int 2 (c_month a)) = length (pad_int 2 (c_month b))"
    and d: "length (pad_int 2 (c_day a)) = length (pad_int 2 (c_day b))"
    using A(1-3) B(1-3) by simp_all
  have minus: "(CHR ''-'' # s < CHR ''-'' # t) = (s < t)" for s t :: string by simp
  have "iso_text a < iso_text b \<longleftrightarrow>
      c_year a < c_year b \<or> (c_year a = c_year b \<and>
        (c_month a < c_month b \<or> (c_month a = c_month b \<and> c_day a < c_day b)))"
    unfolding iso_text_printable [OF a] iso_text_printable [OF b] append_less [OF y] append_less [OF m] minus
      digits_int_order [OF y A(4) B(4)] digits_int_order [OF m A(5) B(5)] digits_int_order [OF d A(6) B(6)]
      A(7-9) B(7-9) ..
  then show ?thesis unfolding less_civil_def less_eq_civil_def by linarith
qed

lemma day_text:
  assumes "is_day s"
  obtains c where "printable c" "s = iso_text c" "parse_day s = Some (day_number c)"
  using assms parse_iso_text(2) by (auto simp: is_day_iff)

lemma printable_civil_of:
  assumes "0 \<le> n" and "n < year_start 10000"
  shows "printable (civil_of n)"
proof -
  have zero: "year_start 0 = 0" by code_simp
  have "\<not> year_of n < 0" using year_start_less [of "year_of n" 0] year_of_bounds [of n] assms(1)
    by (cases "year_of n < 0") (auto simp: zero)
  moreover have "\<not> 9999 < year_of n" using year_start_mono [of 10000 "year_of n"] year_of_bounds [of n] assms(2) by auto
  ultimately show ?thesis using real_civil_of [of n] by (simp add: printable_def civil_of_def Let_def)
qed

section \<open>Comparing and counting\<close>

text \<open>
  Comparing two calendar days as texts, as the renewal rule and the payment check do,
  is comparing the days; and adding days to a day is adding to its number, for every result
  before year 10000.
\<close>

theorem day_texts:
  assumes a: "is_day a" and b: "is_day b" and pa: "parse_day a = Some m" and pb: "parse_day b = Some n"
    and k: "0 \<le> m + k" "m + k < year_start 10000"
  shows "(a < b \<longleftrightarrow> m < n) \<and> (a = b \<longleftrightarrow> m = n) \<and>
    (\<exists>t. add_days a k = Inr t \<and> is_day t \<and> parse_day t = Some (m + k))"
proof (intro conjI)
  obtain c where c: "printable c" "a = iso_text c" "m = day_number c" using a pa by (auto elim: day_text)
  obtain d where d: "printable d" "b = iso_text d" "n = day_number d" using b pb by (auto elim: day_text)
  have real: "real_day c" "real_day d" using c(1) d(1) by (simp_all add: printable_def)
  show "a < b \<longleftrightarrow> m < n"
    using iso_text_less [OF c(1) d(1)] day_number_less_iff [OF real] c d by simp
  show "a = b \<longleftrightarrow> m = n"
    unfolding c(2,3) d(2,3)
    using arg_cong [of "day_number c" "day_number d" civil_of] civil_of_day_number [OF real(1)] civil_of_day_number [OF real(2)]
      parse_iso_text(2) [OF c(1)] parse_iso_text(2) [OF d(1)] by (metis option.inject)
  let ?e = "civil_of (m + k)"
  have e: "printable ?e" using printable_civil_of [OF k] .
  have "time_clip (m + k) = Some (m + k)" using k by (simp add: time_clip_def EPOCH_def year_start_def)
  then have "add_days a k = Inr (iso_text ?e)"
    using pa iso_slice_printable [OF e] by (simp add: add_days_def day_number_civil_of)
  moreover have "is_day (iso_text ?e)" "parse_day (iso_text ?e) = Some (m + k)"
    using e parse_iso_text [OF e] by (auto simp: is_day_iff day_number_civil_of)
  ultimately show "\<exists>t. add_days a k = Inr t \<and> is_day t \<and> parse_day t = Some (m + k)" by blast
qed

lemmas iso_print = iso_text_def Let_def pad_int_def pad_zero_def print_nat

lemma demo_days:
  "iso_text (Civil 2025 12 31) = ''2025-12-31''" "iso_text (Civil 2026 1 30) = ''2026-01-30''"
  "iso_text (Civil 2026 12 31) = ''2026-12-31''" "iso_text (Civil 2025 1 1) = ''2025-01-01''"
  "iso_text (Civil 2026 1 31) = ''2026-01-31''" "iso_text (Civil 2026 2 28) = ''2026-02-28''"
  by (simp_all add: iso_print)

lemma demo_printable:
  "printable (Civil 2025 12 31)" "printable (Civil 2026 1 30)" "printable (Civil 2026 12 31)"
  "printable (Civil 2025 1 1)" "printable (Civil 2026 1 31)"
  by code_simp+

lemma demo_real_days:
  "is_day ''2025-12-31''" "is_day ''2026-01-30''" "is_day ''2026-12-31''" "is_day ''2025-01-01''" "is_day ''2026-01-31''"
  using demo_days demo_printable is_day_iff by metis+

theorem day_texts_witness:
  "''2025-12-31'' < ''2026-01-30'' \<and> (\<exists>t. add_days ''2025-12-31'' 30 = Inr t \<and> is_day t)"
proof -
  note demo_real_days
  moreover have "parse_day ''2025-12-31'' = Some 739981" "parse_day ''2026-01-30'' = Some 740011" by code_simp+
  ultimately show ?thesis using day_texts [of "''2025-12-31''" "''2026-01-30''" 739981 740011 30]
    by (auto simp: year_start_def)
qed

section \<open>Billing periods\<close>

lemma last_day:
  assumes "1 \<le> m" and "m \<le> 12"
  shows "make_day y m 0 = day_number (Civil y m (month_length y m))"
proof (cases "m = 12")
  case True
  then show ?thesis
    using month_start_last [of y] by (simp add: make_day_def day_number_def year_start_Suc month_start_def month_length_def)
next
  case False
  then have "make_day y m 0 = year_start y + month_start y (m + 1) - 1"
    using assms by (simp add: make_day_def)
  with False assms month_start_Suc [of m y] show ?thesis by (simp add: day_number_def make_day_civil)
qed

lemma leap_century:
  assumes "1 \<le> y" and "y \<le> 99"
  shows "leap (1900 + y) = leap y"
proof -
  have "(1900 + y) mod 4 = y mod 4" using mod_mult_self2 [of y 4 475] by (simp add: add.commute)
  moreover have "(1900 + y) mod 100 = y mod 100" using mod_mult_self2 [of y 100 19] by (simp add: add.commute)
  moreover have "y mod 100 = y" using assms by simp
  ultimately show ?thesis using assms by (simp add: leap_def)
qed

text \<open>The month a period ends in.\<close>

fun next_month :: "billing \<Rightarrow> int \<times> int \<Rightarrow> int \<times> int" where
  "next_month Annual (y, m) = (y + 1, m)"
| "next_month Monthly (y, m) = (if m = 12 then (y + 1, 1) else (y, m + 1))"

lemma moved_first:
  assumes "1 \<le> m" and "m \<le> 12" and "next_month p (y, m) = (y', m')"
  shows "(case p of Annual \<Rightarrow> make_day (y + 1) (m - 1) 1 | Monthly \<Rightarrow> make_day y m 1) = day_number (Civil y' m' 1)"
    and "1 \<le> m'" and "m' \<le> 12" and "y \<le> y'" and "y' \<le> y + 1"
  using assms by (cases p; auto simp: day_number_def make_day_def Let_def split: if_splits)+

text \<open>
  The operation on a real day, before the quirk of the two-digit years is resolved: \<open>Date.UTC\<close> reads
  a year below 100 as one of the twentieth century.
\<close>

definition utc_year :: "int \<Rightarrow> int" where
  "utc_year y = (if 0 \<le> y \<and> y \<le> 99 then 1900 + y else y)"

lemma add_period_civil:
  assumes c: "printable (Civil y m d)" and n: "next_month p (y, m) = (y', m')"
  shows "add_period (iso_text (Civil y m d)) p =
    iso_slice (time_clip (day_number (Civil y' m' (min d (month_length (utc_year y') m')))))"
proof -
  have m: "1 \<le> m" "m \<le> 12" and real: "real_day (Civil y m d)"
    using c by (auto simp: printable_def real_day_def)
  note mv = moved_first [OF m n]
  have first: "real_day (Civil y' m' 1)" using mv(2,3) month_bounds(3) [OF mv(2,3), of y'] by (simp add: real_day_def)
  have "real_day (Civil (utc_year y') m' (month_length (utc_year y') m'))"
    using mv(2,3) month_bounds(3) [OF mv(2,3), of "utc_year y'"] by (simp add: real_day_def)
  from civil_of_day_number [OF this]
  have lastd: "c_day (civil_of (make_day (utc_year y') m' 0)) = month_length (utc_year y') m'"
    by (simp add: last_day [OF mv(2,3)])
  have num: "make_day y' (m' - 1) e = day_number (Civil y' m' e)" for e by (simp add: day_number_def)
  show ?thesis
    unfolding add_period_def parse_iso_text(2) [OF c] option.case civil_of_day_number [OF real] civil.case mv(1)
      civil_of_day_number [OF first] civil.sel Let_def utc_year_def [symmetric] lastd num ..
qed

lemma day_in_range:
  assumes c: "real_day c" and y: "0 \<le> c_year c" "c_year c \<le> 10000"
  shows "time_clip (day_number c) = Some (day_number c)"
proof -
  have m: "1 \<le> c_month c" "c_month c \<le> 12" and d: "1 \<le> c_day c" "c_day c \<le> month_length (c_year c) (c_month c)"
    using c by (auto simp: real_day_def)
  have b: "0 \<le> month_start (c_year c) (c_month c)" "month_start (c_year c) (c_month c) + month_length (c_year c) (c_month c) \<le> 366"
    using month_bounds(1,2) [OF m, of "c_year c"] by (auto split: if_splits)
  have n: "day_number c = year_start (c_year c) + month_start (c_year c) (c_month c) + c_day c - 1"
    using m by (simp add: day_number_def make_day_civil)
  have "year_start 0 = 0" "year_start 10000 = 3652425" by code_simp+
  then have "0 \<le> year_start (c_year c)" "year_start (c_year c) \<le> 3652425"
    using year_start_mono [of 0 "c_year c"] year_start_mono [of "c_year c" 10000] y by simp_all
  then have "0 \<le> day_number c" "day_number c \<le> 3652425 + 366" using n b d by linarith+
  then show ?thesis by (simp add: time_clip_def EPOCH_def)
qed

lemma period_step:
  assumes c: "printable (Civil y m d)" and y: "1 \<le> y" "y \<le> 9998" and n: "next_month p (y, m) = (y', m')"
  shows "add_period (iso_text (Civil y m d)) p = Inr (iso_text (Civil y' m' (min d (month_length y' m')))) \<and>
    is_day (iso_text (Civil y' m' (min d (month_length y' m')))) \<and>
    iso_text (Civil y m d) < iso_text (Civil y' m' (min d (month_length y' m')))"
proof -
  have m: "1 \<le> m" "m \<le> 12" and d: "1 \<le> d" using c by (auto simp: printable_def real_day_def)
  note mv = moved_first [OF m n]
  have len: "28 \<le> month_length y' m'" using month_bounds(3) [OF mv(2,3)] .
  have same: "month_length (utc_year y') m' = month_length y' m'"
    using leap_century [of y'] mv(4) y by (auto simp: month_length_def utc_year_def)
  let ?t = "Civil y' m' (min d (month_length y' m'))"
  have t: "printable ?t" using mv y len d by (simp add: printable_def real_day_def)
  have clip: "time_clip (day_number ?t) = Some (day_number ?t)"
    using t by (intro day_in_range) (auto simp: printable_def)
  have "add_period (iso_text (Civil y m d)) p = Inr (iso_text ?t)"
    unfolding add_period_civil [OF c n] same clip by (rule iso_slice_printable [OF t])
  moreover have "is_day (iso_text ?t)" using t by (auto simp: is_day_iff)
  moreover have "Civil y m d < ?t"
    using n by (cases p) (auto simp: less_civil_def less_eq_civil_def split: if_splits)
  ultimately show ?thesis using iso_text_less [OF c t] by simp
qed

text \<open>
  One billing period on from a day of the years 1 to 9998 is the same day of the
  next year or month, or the last day of that month when it is shorter; it is a calendar day, and
  later.
\<close>

theorem period_advances:
  assumes c: "printable (Civil y m d)" and y: "1 \<le> y" "y \<le> 9998" and n: "next_month p (y, m) = (y', m')"
  shows "add_period (iso_text (Civil y m d)) p = Inr (iso_text (Civil y' m' (min d (month_length y' m')))) \<and>
    is_day (iso_text (Civil y' m' (min d (month_length y' m')))) \<and>
    iso_text (Civil y m d) < iso_text (Civil y' m' (min d (month_length y' m')))"
  using assms by (rule period_step)

theorem period_advances_witness:
  "add_period ''2026-01-31'' Monthly = Inr ''2026-02-28'' \<and> ''2026-01-31'' < ''2026-02-28''"
proof -
  have "month_length 2026 2 = 28" by code_simp
  with demo_days demo_printable show ?thesis using period_advances [of 2026 1 31 Monthly 2026 2] by simp
qed

text \<open>Year 0 is read as 1900 when the length of the target month is looked up, so it has no leap day.\<close>

lemma period_of_year_zero: "add_period ''0000-01-31'' Monthly = Inr ''0000-02-28'' \<and> month_length 0 2 = 29"
proof -
  have rep: "replicate 3 c = [c, c, c]" for c :: char by (simp add: eval_nat_numeral)
  have "printable (Civil 0 1 31)" "printable (Civil 0 2 28)" by code_simp+
  moreover have "iso_text (Civil 0 1 31) = ''0000-01-31''" "iso_text (Civil 0 2 28) = ''0000-02-28''"
    by (simp_all add: iso_print rep)
  moreover have "min 31 (month_length (utc_year 0) 2) = 28" "month_length 0 2 = 29" by code_simp+
  ultimately show ?thesis
    using add_period_civil [of 0 1 31 Monthly 0 2] iso_slice_printable [of "Civil 0 2 28"] day_in_range [of "Civil 0 2 28"]
    by (simp add: printable_def)
qed

text \<open>A term past year 9999 is not a calendar day any more.\<close>

lemma period_past_9999:
  "add_period ''9999-12-31'' Annual = Inr ''+010000-12'' \<and> \<not> is_day ''+010000-12''"
proof
  have c: "printable (Civil 9999 12 31)" and r: "real_day (Civil 10000 12 31)" by code_simp+
  have texts: "iso_text (Civil 9999 12 31) = ''9999-12-31''" "take 10 (iso_text (Civil 10000 12 31)) = ''+010000-12''"
    "min 31 (month_length (utc_year 10000) 12) = 31"
    by (simp_all add: iso_text_def pad_int_def pad_zero_def print_nat month_length_def)
  have "next_month Annual (9999, 12) = (10000, 12)" by simp
  from add_period_civil [OF c this] have "add_period ''9999-12-31'' Annual = iso_slice (Some (day_number (Civil 10000 12 31)))"
    unfolding texts using day_in_range [OF r] by (simp only: civil.sel le_numeral_simps simp_thms zero_le_numeral order.refl)
  then show "add_period ''9999-12-31'' Annual = Inr ''+010000-12''"
    unfolding iso_slice_def option.case civil_of_day_number [OF r] texts .
  have "\<not> list_all is_digit (take 4 ''+010000-12'')" by (simp add: is_digit_def)
  then show "\<not> is_day ''+010000-12''" unfolding is_day_def day_shape_def by blast
qed

section \<open>The day of a payment\<close>

text \<open>
  A given day is taken exactly when it is a real day that has come; without one
  the payment is dated today. A day past today is refused, and so is a text that is no day.
\<close>

theorem paid_on_refusals:
  "resolve_paid_on None now = PaidDay now \<and>
   (resolve_paid_on (Some p) now = PaidDay q \<longleftrightarrow> q = p \<and> is_day p \<and> p \<le> now) \<and>
   ((\<exists>why. resolve_paid_on (Some p) now = PaidProblem why) \<longleftrightarrow> \<not> (is_day p \<and> p \<le> now))"
proof -
  obtain a b where "resolve_paid_on (Some p) now =
      (if \<not> is_day p then PaidProblem a else if now < p then PaidProblem b else PaidDay p)"
    by (rule that) (unfold resolve_paid_on_def option.case, rule refl)
  moreover have "resolve_paid_on None now = PaidDay now" unfolding resolve_paid_on_def option.case ..
  moreover have "now < p \<longleftrightarrow> \<not> p \<le> now" by (simp only: not_le)
  ultimately show ?thesis by (cases "is_day p"; cases "p \<le> now") auto
qed

end
