(* ===== verification/Members_Kinds.thy ===== *)
theory Members_Kinds
  imports Dates_Claims Admission_Claims
begin

text \<open>
  The five kinds of the membership core (\<open>backend/members/kinds.ts\<close>): the typed specs and
  statuses as records, how they lie in a row (the objects, with their keys in the order the code
  builds them), the validator helpers and the validators. Every validator reads an object into a
  record and writes the record out again, the contract \<open>validated_kind\<close>: what it
  accepts is normal, so what the store hands back is accepted unchanged.
\<close>

section \<open>Specs and statuses\<close>

definition TENANT :: string where "TENANT = ''tenant''"
definition TIER :: string where "TIER = ''tier''"
definition MEMBER :: string where "MEMBER = ''member''"
definition MEMBERSHIP :: string where "MEMBERSHIP = ''membership''"
definition DUES_INVOICE :: string where "DUES_INVOICE = ''duesInvoice''"

lemmas kind_names = TENANT_def TIER_def MEMBER_def MEMBERSHIP_def DUES_INVOICE_def

datatype billing_period = Recurring billing | Lifetime

fun period_text :: "billing_period \<Rightarrow> string" where
  "period_text (Recurring Annual) = ''annual''"
| "period_text (Recurring Monthly) = ''monthly''"
| "period_text Lifetime = ''lifetime''"

definition period_of :: "string \<Rightarrow> billing_period" where
  "period_of s =
     (if s = ''annual'' then Recurring Annual else if s = ''monthly'' then Recurring Monthly else Lifetime)"

record tenant_spec =
  tn_display :: string
  tn_contact :: "string option"

record tier_spec =
  ti_label :: string
  ti_dues :: int
  ti_period :: billing_period
  ti_voting :: bool
  ti_grace :: int

record member_spec =
  me_display :: string
  me_email :: string
  me_sub :: "string option"
  me_joined :: string

record membership_spec =
  ms_member :: string
  ms_tier :: string
  ms_starts :: string
  ms_ends :: "string option"
  ms_renew :: bool

record invoice_spec =
  in_membership :: string
  in_member :: string
  in_tier :: string
  in_amount :: int
  in_start :: string
  in_end :: string
  in_due :: string

datatype membership_state = Active | Pending | Lapsed | Invalid

record membership_status =
  st_state :: membership_state
  st_renews :: "string option"
  st_lapsed :: "string option"
  st_invoice :: "string option"
  st_problem :: "string option"

datatype invoice_state = Open | Paid | Void

record invoice_status =
  is_state :: invoice_state
  is_paid :: "string option"
  is_by :: "string option"

subsection \<open>In a row\<close>

definition opt_field :: "string \<Rightarrow> string option \<Rightarrow> (string \<times> js) list" where
  "opt_field k v = (case v of None \<Rightarrow> [] | Some s \<Rightarrow> [(k, JStr s)])"

definition js_tenant :: "tenant_spec \<Rightarrow> js" where
  "js_tenant s = JObj ((''displayName'', JStr (tn_display s)) # opt_field ''contactEmail'' (tn_contact s))"

definition js_tier :: "tier_spec \<Rightarrow> js" where
  "js_tier s =
     JObj [(''label'', JStr (ti_label s)), (''duesCents'', JInt (ti_dues s)),
           (''period'', JStr (period_text (ti_period s))), (''votingRights'', JBool (ti_voting s)),
           (''graceDays'', JInt (ti_grace s))]"

definition js_member :: "member_spec \<Rightarrow> js" where
  "js_member s =
     JObj ([(''displayName'', JStr (me_display s)), (''email'', JStr (me_email s)),
            (''joinedOn'', JStr (me_joined s))] @ opt_field ''sub'' (me_sub s))"

definition js_membership :: "membership_spec \<Rightarrow> js" where
  "js_membership s =
     JObj ([(''member'', JStr (ms_member s)), (''tier'', JStr (ms_tier s)), (''startsOn'', JStr (ms_starts s)),
            (''autoRenew'', JBool (ms_renew s))] @ opt_field ''endsOn'' (ms_ends s))"

definition js_invoice :: "invoice_spec \<Rightarrow> js" where
  "js_invoice s =
     JObj [(''membership'', JStr (in_membership s)), (''member'', JStr (in_member s)), (''tier'', JStr (in_tier s)),
           (''amountCents'', JInt (in_amount s)), (''periodStart'', JStr (in_start s)),
           (''periodEnd'', JStr (in_end s)), (''dueOn'', JStr (in_due s))]"

fun state_text :: "membership_state \<Rightarrow> string" where
  "state_text Active = ''active''"
| "state_text Pending = ''pending''"
| "state_text Lapsed = ''lapsed''"
| "state_text Invalid = ''invalid''"

fun invoice_state_text :: "invoice_state \<Rightarrow> string" where
  "invoice_state_text Open = ''open''"
| "invoice_state_text Paid = ''paid''"
| "invoice_state_text Void = ''void''"

text \<open>Every status literal of the rule writes its keys in this order.\<close>

definition js_status :: "membership_status \<Rightarrow> js" where
  "js_status s =
     JObj ((''state'', JStr (state_text (st_state s))) # opt_field ''lapsedOn'' (st_lapsed s) @
           opt_field ''currentInvoice'' (st_invoice s) @ opt_field ''renewsOn'' (st_renews s) @
           opt_field ''problem'' (st_problem s))"

definition js_invoice_status :: "invoice_status \<Rightarrow> js" where
  "js_invoice_status s =
     JObj ((''state'', JStr (invoice_state_text (is_state s))) # opt_field ''paidOn'' (is_paid s) @
           opt_field ''recordedBy'' (is_by s))"

text \<open>
  Reading a stored spec back through its type. The type is the validator's promise; a field of
  another type, which no validated row has, reads as empty here.
\<close>

definition text_at :: "js \<Rightarrow> string \<Rightarrow> string" where
  "text_at v k = (case js_get v k of JStr s \<Rightarrow> s | _ \<Rightarrow> [])"

definition opt_text_at :: "js \<Rightarrow> string \<Rightarrow> string option" where
  "opt_text_at v k = (case js_get v k of JStr s \<Rightarrow> Some s | _ \<Rightarrow> None)"

definition int_at :: "js \<Rightarrow> string \<Rightarrow> int" where
  "int_at v k = (case js_get v k of JInt i \<Rightarrow> i | _ \<Rightarrow> 0)"

definition bool_at :: "js \<Rightarrow> string \<Rightarrow> bool" where
  "bool_at v k = (js_get v k = JBool True)"

lemmas at_defs = text_at_def opt_text_at_def int_at_def bool_at_def

definition tenant_at :: "js \<Rightarrow> tenant_spec" where
  "tenant_at v = \<lparr>tn_display = text_at v ''displayName'', tn_contact = opt_text_at v ''contactEmail''\<rparr>"

definition tier_at :: "js \<Rightarrow> tier_spec" where
  "tier_at v =
     \<lparr>ti_label = text_at v ''label'', ti_dues = int_at v ''duesCents'', ti_period = period_of (text_at v ''period''),
      ti_voting = bool_at v ''votingRights'', ti_grace = int_at v ''graceDays''\<rparr>"

definition member_at :: "js \<Rightarrow> member_spec" where
  "member_at v =
     \<lparr>me_display = text_at v ''displayName'', me_email = text_at v ''email'', me_sub = opt_text_at v ''sub'',
      me_joined = text_at v ''joinedOn''\<rparr>"

definition membership_at :: "js \<Rightarrow> membership_spec" where
  "membership_at v =
     \<lparr>ms_member = text_at v ''member'', ms_tier = text_at v ''tier'', ms_starts = text_at v ''startsOn'',
      ms_ends = opt_text_at v ''endsOn'', ms_renew = bool_at v ''autoRenew''\<rparr>"

definition invoice_at :: "js \<Rightarrow> invoice_spec" where
  "invoice_at v =
     \<lparr>in_membership = text_at v ''membership'', in_member = text_at v ''member'', in_tier = text_at v ''tier'',
      in_amount = int_at v ''amountCents'', in_start = text_at v ''periodStart'', in_end = text_at v ''periodEnd'',
      in_due = text_at v ''dueOn''\<rparr>"

section \<open>Validator helpers\<close>

definition require_int :: "string \<Rightarrow> js \<Rightarrow> string \<Rightarrow> exn + int" where
  "require_int kind obj field =
     (case js_get obj field of
        JInt i \<Rightarrow> (if i < 0 then Inl (InvalidSpecError kind field ''must not be negative'') else Inr i)
      | v \<Rightarrow> Inl (InvalidSpecError kind field (''expected an integer, got '' @ typeof v)))"

definition optional_int :: "string \<Rightarrow> js \<Rightarrow> string \<Rightarrow> int \<Rightarrow> exn + int" where
  "optional_int kind obj field fallback =
     (if nullish (js_get obj field) then Inr fallback else require_int kind obj field)"

definition require_bool :: "string \<Rightarrow> js \<Rightarrow> string \<Rightarrow> exn + bool" where
  "require_bool kind obj field =
     (case js_get obj field of
        JBool b \<Rightarrow> Inr b
      | v \<Rightarrow> Inl (InvalidSpecError kind field (''expected a boolean, got '' @ typeof v)))"

definition require_day :: "string \<Rightarrow> js \<Rightarrow> string \<Rightarrow> exn + string" where
  "require_day kind obj field =
     sbind (require_string kind obj field) (\<lambda>v.
       if is_day v then Inr v
       else Inl (InvalidSpecError kind field (''expected a calendar day (YYYY-MM-DD), got '' @ quoted v)))"

definition optional_day :: "string \<Rightarrow> js \<Rightarrow> string \<Rightarrow> exn + string option" where
  "optional_day kind obj field =
     (if nullish (js_get obj field) then Inr None
      else sbind (require_day kind obj field) (\<lambda>d. Inr (Some d)))"

text \<open>
  The pattern \<open>^[^\s@]+@[^\s@]+\.[^\s@]+$\<close>: no white space, one \<open>@\<close> with something before it, and
  after it a dot that is neither the first nor the last character.
\<close>

definition email_shape :: "string \<Rightarrow> bool" where
  "email_shape s \<longleftrightarrow>
     \<not> list_ex is_space s \<and>
     (case split_on (CHR ''@'') s of
        [u, h] \<Rightarrow> u \<noteq> [] \<and> CHR ''.'' \<in> set (butlast (tl h))
      | _ \<Rightarrow> False)"

definition require_email :: "string \<Rightarrow> js \<Rightarrow> string \<Rightarrow> exn + string" where
  "require_email kind obj field =
     sbind (require_string kind obj field) (\<lambda>v.
       if email_shape v then Inr (to_lower v)
       else Inl (InvalidSpecError kind field (''expected an email address, got '' @ quoted v)))"

definition optional_email :: "string \<Rightarrow> js \<Rightarrow> string \<Rightarrow> exn + string option" where
  "optional_email kind obj field =
     (if nullish (js_get obj field) then Inr None
      else sbind (require_email kind obj field) (\<lambda>e. Inr (Some e)))"

section \<open>The kinds\<close>

definition validate_tenant :: "js \<Rightarrow> exn + js" where
  "validate_tenant input =
     sbind (require_object TENANT input) (\<lambda>obj.
     sbind (require_string TENANT obj ''displayName'') (\<lambda>display.
     sbind (optional_email TENANT obj ''contactEmail'') (\<lambda>contact.
       Inr (js_tenant \<lparr>tn_display = display, tn_contact = contact\<rparr>))))"

definition validate_tier :: "js \<Rightarrow> exn + js" where
  "validate_tier input =
     sbind (require_object TIER input) (\<lambda>obj.
     sbind (require_string TIER obj ''label'') (\<lambda>label.
     sbind (require_int TIER obj ''duesCents'') (\<lambda>dues.
     sbind (require_enum TIER obj ''period'' [''annual'', ''monthly'', ''lifetime'']) (\<lambda>period.
     sbind (require_bool TIER obj ''votingRights'') (\<lambda>voting.
     sbind (optional_int TIER obj ''graceDays'' 30) (\<lambda>grace.
       Inr (js_tier \<lparr>ti_label = label, ti_dues = dues, ti_period = period_of period, ti_voting = voting,
                     ti_grace = grace\<rparr>)))))))"

definition validate_member :: "js \<Rightarrow> exn + js" where
  "validate_member input =
     sbind (require_object MEMBER input) (\<lambda>obj.
     sbind (require_string MEMBER obj ''displayName'') (\<lambda>display.
     sbind (require_email MEMBER obj ''email'') (\<lambda>email.
     sbind (require_day MEMBER obj ''joinedOn'') (\<lambda>joined.
     sbind (optional_string MEMBER obj ''sub'') (\<lambda>sub.
       Inr (js_member \<lparr>me_display = display, me_email = email, me_sub = sub, me_joined = joined\<rparr>))))))"

definition validate_membership :: "js \<Rightarrow> exn + js" where
  "validate_membership input =
     sbind (require_object MEMBERSHIP input) (\<lambda>obj.
     sbind (require_string MEMBERSHIP obj ''member'') (\<lambda>member.
     sbind (require_string MEMBERSHIP obj ''tier'') (\<lambda>tier.
     sbind (require_day MEMBERSHIP obj ''startsOn'') (\<lambda>starts.
     sbind (require_bool MEMBERSHIP obj ''autoRenew'') (\<lambda>renew.
     sbind (optional_day MEMBERSHIP obj ''endsOn'') (\<lambda>ends.
       if (case ends of None \<Rightarrow> False | Some e \<Rightarrow> e < starts)
       then Inl (InvalidSpecError MEMBERSHIP ''endsOn'' (''must not precede startsOn ('' @ starts @ '')''))
       else Inr (js_membership \<lparr>ms_member = member, ms_tier = tier, ms_starts = starts, ms_ends = ends,
                                ms_renew = renew\<rparr>)))))))"

definition validate_invoice :: "js \<Rightarrow> exn + js" where
  "validate_invoice input =
     sbind (require_object DUES_INVOICE input) (\<lambda>obj.
     sbind (require_string DUES_INVOICE obj ''membership'') (\<lambda>membership.
     sbind (require_string DUES_INVOICE obj ''member'') (\<lambda>member.
     sbind (require_string DUES_INVOICE obj ''tier'') (\<lambda>tier.
     sbind (require_int DUES_INVOICE obj ''amountCents'') (\<lambda>amount.
     sbind (require_day DUES_INVOICE obj ''periodStart'') (\<lambda>start.
     sbind (require_day DUES_INVOICE obj ''periodEnd'') (\<lambda>end'.
     sbind (require_day DUES_INVOICE obj ''dueOn'') (\<lambda>due.
       Inr (js_invoice \<lparr>in_membership = membership, in_member = member, in_tier = tier, in_amount = amount,
                        in_start = start, in_end = end', in_due = due\<rparr>)))))))))"

definition tenant_kind :: kind_def where
  "tenant_kind = \<lparr>kn_ref = 1, kn_name = TENANT, kn_tenant_scoped = False, kn_validate = validate_tenant\<rparr>"

definition tier_kind :: kind_def where
  "tier_kind = \<lparr>kn_ref = 2, kn_name = TIER, kn_tenant_scoped = True, kn_validate = validate_tier\<rparr>"

definition member_kind :: kind_def where
  "member_kind = \<lparr>kn_ref = 3, kn_name = MEMBER, kn_tenant_scoped = True, kn_validate = validate_member\<rparr>"

definition membership_kind :: kind_def where
  "membership_kind = \<lparr>kn_ref = 4, kn_name = MEMBERSHIP, kn_tenant_scoped = True, kn_validate = validate_membership\<rparr>"

definition dues_invoice_kind :: kind_def where
  "dues_invoice_kind = \<lparr>kn_ref = 5, kn_name = DUES_INVOICE, kn_tenant_scoped = True, kn_validate = validate_invoice\<rparr>"

definition MEMBERSHIP_KINDS :: "kind_def list" where
  "MEMBERSHIP_KINDS = [tenant_kind, tier_kind, member_kind, membership_kind, dues_invoice_kind]"

definition register_membership_kinds :: "('x cell_scheme, unit) io" where
  "register_membership_kinds = each (\<lambda>k. seq (register_kind k) (ret ())) MEMBERSHIP_KINDS"

end
