(* ===== verification/Members_Kinds_Claims.thy ===== *)
theory Members_Kinds_Claims
  imports Members_Kinds
begin

text \<open>
  The contract of a validator as a locale, its five instances, and what they give: every
  accepted spec is a normal form that is read back from its row unchanged, and every refusal
  names the kind and the field.
\<close>

section \<open>The contract\<close>

locale validated_kind =
  fixes name :: string and validate :: "js \<Rightarrow> exn + js" and ok :: "'s \<Rightarrow> bool"
    and enc :: "'s \<Rightarrow> js" and dec :: "js \<Rightarrow> 's"
  assumes accepts: "validate v = Inr w \<Longrightarrow> ok (dec w) \<and> w = enc (dec w)"
    and normal: "ok s \<Longrightarrow> validate (enc s) = Inr (enc s)"
    and decodes: "dec (enc s) = s"
    and rows: "ok s \<Longrightarrow> storable (enc s)"
    and blames: "validate v = Inl e \<Longrightarrow> \<exists>f m. e = InvalidSpecError name f m"
begin

lemma validated:
  assumes "validate v = Inr w"
  shows "ok (dec w)" "w = enc (dec w)" "validate w = Inr w" "storable w" "parse_json (show_js w) = Some w"
proof -
  show ok: "ok (dec w)" and enc: "w = enc (dec w)" using accepts [OF assms] by auto
  show "validate w = Inr w" using normal [OF ok] unfolding enc [symmetric] .
  show w: "storable w" using rows [OF ok] unfolding enc [symmetric] .
  from w show "parse_json (show_js w) = Some w" by (rule parse_stringify)
qed

lemma normalizes:
  "(validate v = Inr w \<longrightarrow> storable w \<and> parse_json (show_js w) = Some w \<and> validate w = Inr w) \<and>
   (validate v = Inr w \<and> validate v' = Inr w' \<and> show_js w = show_js w' \<longrightarrow> w = w') \<and>
   (validate v = Inl e \<longrightarrow> (\<exists>f m. e = InvalidSpecError name f m))"
  using validated blames by (metis option.inject)

end

section \<open>Fields\<close>

definition text_ok :: "string \<Rightarrow> bool" where
  "text_ok s \<longleftrightarrow> s \<noteq> [] \<and> trim s = s"

definition day_ok :: "string \<Rightarrow> bool" where
  "day_ok s \<longleftrightarrow> text_ok s \<and> is_day s"

definition email_ok :: "string \<Rightarrow> bool" where
  "email_ok s \<longleftrightarrow> text_ok s \<and> email_shape s \<and> to_lower s = s"

definition opt_ok :: "(string \<Rightarrow> bool) \<Rightarrow> string option \<Rightarrow> bool" where
  "opt_ok p v = (case v of None \<Rightarrow> True | Some s \<Rightarrow> p s)"

named_theorems reads \<open>a helper on a field that holds a normal value\<close>
named_theorems read_ok \<open>what a helper's answer satisfies\<close>
named_theorems read_err \<open>the errors of a helper\<close>

lemma require_string_reads [reads]: "js_get v f = JStr s \<Longrightarrow> text_ok s \<Longrightarrow> require_string k v f = Inr s"
  by (simp add: require_string_def text_ok_def)

lemma require_string_ok [read_ok]: "require_string k v f = Inr s \<Longrightarrow> text_ok s"
  by (auto simp: require_string_def text_ok_def split: js.splits if_splits)

lemma require_string_err [read_err]: "require_string k v f = Inl e \<Longrightarrow> \<exists>f m. e = InvalidSpecError k f m"
  by (auto simp: require_string_def split: js.splits if_splits)

lemma optional_string_reads [reads]:
  "js_get v f = (case s of None \<Rightarrow> JUndef | Some t \<Rightarrow> JStr t) \<Longrightarrow> opt_ok text_ok s \<Longrightarrow> optional_string k v f = Inr s"
  by (cases s) (simp_all add: optional_string_def nullish_def opt_ok_def require_string_reads)

lemma optional_string_ok [read_ok]: "optional_string k v f = Inr s \<Longrightarrow> opt_ok text_ok s"
  by (auto simp: optional_string_def opt_ok_def sbind_Inr_iff split: if_splits dest: read_ok)

lemma optional_string_err [read_err]: "optional_string k v f = Inl e \<Longrightarrow> \<exists>f m. e = InvalidSpecError k f m"
  by (auto simp: optional_string_def sbind_Inl_iff split: if_splits dest: read_err)

lemma require_int_reads [reads]: "js_get v f = JInt i \<Longrightarrow> 0 \<le> i \<Longrightarrow> require_int k v f = Inr i"
  by (simp add: require_int_def)

lemma require_int_ok [read_ok]: "require_int k v f = Inr i \<Longrightarrow> 0 \<le> i"
  by (auto simp: require_int_def split: js.splits if_splits)

lemma require_int_err [read_err]: "require_int k v f = Inl e \<Longrightarrow> \<exists>f m. e = InvalidSpecError k f m"
  by (auto simp: require_int_def split: js.splits if_splits)

lemma optional_int_reads [reads]: "js_get v f = JInt i \<Longrightarrow> 0 \<le> i \<Longrightarrow> optional_int k v f d = Inr i"
  by (simp add: optional_int_def nullish_def reads)

lemma optional_int_ok [read_ok]: "optional_int k v f d = Inr i \<Longrightarrow> 0 \<le> d \<Longrightarrow> 0 \<le> i"
  by (auto simp: optional_int_def split: if_splits dest: read_ok)

lemma optional_int_err [read_err]: "optional_int k v f d = Inl e \<Longrightarrow> \<exists>f m. e = InvalidSpecError k f m"
  by (auto simp: optional_int_def split: if_splits dest: read_err)

lemma require_bool_reads [reads]: "js_get v f = JBool b \<Longrightarrow> require_bool k v f = Inr b"
  by (simp add: require_bool_def)

lemma require_bool_err [read_err]: "require_bool k v f = Inl e \<Longrightarrow> \<exists>f m. e = InvalidSpecError k f m"
  by (auto simp: require_bool_def split: js.splits)

lemma require_day_reads [reads]: "js_get v f = JStr s \<Longrightarrow> day_ok s \<Longrightarrow> require_day k v f = Inr s"
  by (simp add: require_day_def day_ok_def reads)

lemma require_day_ok [read_ok]: "require_day k v f = Inr s \<Longrightarrow> day_ok s"
  by (auto simp: require_day_def day_ok_def sbind_Inr_iff split: if_splits dest: read_ok)

lemma require_day_err [read_err]: "require_day k v f = Inl e \<Longrightarrow> \<exists>f m. e = InvalidSpecError k f m"
  by (auto simp: require_day_def sbind_Inl_iff split: if_splits dest: read_err)

lemma optional_day_reads [reads]:
  "js_get v f = (case s of None \<Rightarrow> JUndef | Some t \<Rightarrow> JStr t) \<Longrightarrow> opt_ok day_ok s \<Longrightarrow> optional_day k v f = Inr s"
  by (cases s) (simp_all add: optional_day_def nullish_def opt_ok_def reads)

lemma optional_day_ok [read_ok]: "optional_day k v f = Inr s \<Longrightarrow> opt_ok day_ok s"
  by (auto simp: optional_day_def opt_ok_def sbind_Inr_iff split: if_splits dest: read_ok)

lemma optional_day_err [read_err]: "optional_day k v f = Inl e \<Longrightarrow> \<exists>f m. e = InvalidSpecError k f m"
  by (auto simp: optional_day_def sbind_Inl_iff split: if_splits dest: read_err)

lemma require_enum_reads [reads]:
  "js_get v f = JStr s \<Longrightarrow> text_ok s \<Longrightarrow> s \<in> set allowed \<Longrightarrow> require_enum k v f allowed = Inr s"
  by (simp add: require_enum_def reads)

lemma require_enum_ok [read_ok]: "require_enum k v f allowed = Inr s \<Longrightarrow> s \<in> set allowed"
  by (auto simp: require_enum_def sbind_Inr_iff split: if_splits)

lemma require_enum_err [read_err]: "require_enum k v f allowed = Inl e \<Longrightarrow> \<exists>f m. e = InvalidSpecError k f m"
  by (auto simp: require_enum_def sbind_Inl_iff split: if_splits dest: read_err)

lemma require_object_err [read_err]: "require_object k v = Inl e \<Longrightarrow> \<exists>f m. e = InvalidSpecError k f m"
  by (auto simp: require_object_def split: js.splits)

lemma require_object_obj [simp]: "require_object k (JObj kvs) = Inr (JObj kvs)"
  by (simp add: require_object_def)

text \<open>Lower case keeps the shape of an address.\<close>

lemma lower_char_sign: "code_unit c < 65 \<Longrightarrow> lower_char d = c \<longleftrightarrow> d = c"
proof
  assume c: "code_unit c < 65" and eq: "lower_char d = c"
  then have "code_unit (lower_char d) < 65" by simp
  then have "lower_char d = d" by (auto simp: of_char_lower_char lower_char_def Let_def split: if_splits)
  with eq show "d = c" by simp
qed (auto simp: lower_char_def Let_def)

lemma split_on_lower:
  assumes c: "code_unit c < 65"
  shows "split_on c (map lower_char s) = map (map lower_char) (split_on c s)"
  by (induction s) (auto simp: lower_char_sign [OF c] split: list.split)

lemma mem_lower: "code_unit c < 65 \<Longrightarrow> c \<in> set (map lower_char s) \<longleftrightarrow> c \<in> set s"
  by (auto simp: image_iff) (metis lower_char_sign)+

lemma email_shape_lower: "email_shape s \<Longrightarrow> email_shape (to_lower s)"
proof -
  assume s: "email_shape s"
  then obtain u h where uh: "split_on (CHR ''@'') s = [u, h]" "u \<noteq> []" "CHR ''.'' \<in> set (butlast (tl h))"
    and sp: "\<not> list_ex is_space s"
    by (auto simp: email_shape_def split: list.splits)
  have "code_unit (CHR ''@'') < 65" "code_unit (CHR ''.'') < 65" by simp_all
  note at = split_on_lower [OF this(1), of s] and dot = mem_lower [OF this(2)]
  have "CHR ''.'' \<in> set (butlast (tl (map lower_char h)))"
    using uh(3) dot [of "butlast (tl h)"] by (simp add: map_tl [symmetric] map_butlast [symmetric])
  moreover have "\<not> list_ex is_space (map lower_char s)" using sp by (simp add: list_ex_iff)
  ultimately show ?thesis using at uh by (simp add: email_shape_def to_lower_def)
qed

lemma require_email_reads [reads]: "js_get v f = JStr s \<Longrightarrow> email_ok s \<Longrightarrow> require_email k v f = Inr s"
  by (simp add: require_email_def email_ok_def reads)

lemma require_email_ok [read_ok]: "require_email k v f = Inr s \<Longrightarrow> email_ok s"
proof -
  assume "require_email k v f = Inr s"
  then obtain t where t: "require_string k v f = Inr t" "email_shape t" "s = to_lower t"
    by (auto simp: require_email_def sbind_Inr_iff split: if_splits)
  from require_string_ok [OF t(1)] have "text_ok s" by (simp add: t(3) text_ok_def) (simp add: to_lower_def)
  with t(2) show ?thesis by (simp add: email_ok_def t(3) email_shape_lower)
qed

lemma require_email_err [read_err]: "require_email k v f = Inl e \<Longrightarrow> \<exists>f m. e = InvalidSpecError k f m"
  by (auto simp: require_email_def sbind_Inl_iff split: if_splits dest: read_err)

lemma optional_email_reads [reads]:
  "js_get v f = (case s of None \<Rightarrow> JUndef | Some t \<Rightarrow> JStr t) \<Longrightarrow> opt_ok email_ok s \<Longrightarrow> optional_email k v f = Inr s"
  by (cases s) (simp_all add: optional_email_def nullish_def opt_ok_def reads)

lemma optional_email_ok [read_ok]: "optional_email k v f = Inr s \<Longrightarrow> opt_ok email_ok s"
  by (auto simp: optional_email_def opt_ok_def sbind_Inr_iff split: if_splits dest: read_ok)

lemma optional_email_err [read_err]: "optional_email k v f = Inl e \<Longrightarrow> \<exists>f m. e = InvalidSpecError k f m"
  by (auto simp: optional_email_def sbind_Inl_iff split: if_splits dest: read_err)

section \<open>The five kinds\<close>

lemma own_of_simps [simp]:
  "own_of [] k = JUndef"
  "own_of ((k', v) # kvs) k = (if k = k' then v else own_of kvs k)"
  "own_of (kvs @ kvs') k = (if k \<in> fst ` set kvs then own_of kvs k else own_of kvs' k)"
  by (auto simp: own_of_def map_add_def split: option.splits)
     (metis domD dom_map_of_conv_image_fst option.distinct(1) weak_map_of_SomeI map_of_eq_None_iff option.inject)+

lemma own_of_opt [simp]:
  "own_of (opt_field k' v) k = (if k = k' then (case v of None \<Rightarrow> JUndef | Some s \<Rightarrow> JStr s) else JUndef)"
  by (simp add: opt_field_def split: option.split)

lemma keys_opt [simp]: "fst ` set (opt_field k v) = (if v = None then {} else {k})"
  by (cases v) (simp_all add: opt_field_def)

lemma distinct_opt [simp]: "distinct (map fst (opt_field k v))"
  by (simp add: opt_field_def split: option.split)

lemma storable_opt [simp]: "list_all (\<lambda>(k, v). storable v) (opt_field k v)"
  by (simp add: opt_field_def split: option.split)

lemma opt_text_simps [simp]:
  "(case (case x of None \<Rightarrow> JUndef | Some s \<Rightarrow> JStr s) of JStr s \<Rightarrow> Some s | _ \<Rightarrow> None) = x"
  by (cases x) simp_all

definition tenant_ok :: "tenant_spec \<Rightarrow> bool" where
  "tenant_ok s \<longleftrightarrow> text_ok (tn_display s) \<and> opt_ok email_ok (tn_contact s)"

definition tier_ok :: "tier_spec \<Rightarrow> bool" where
  "tier_ok s \<longleftrightarrow> text_ok (ti_label s) \<and> 0 \<le> ti_dues s \<and> 0 \<le> ti_grace s"

definition member_ok :: "member_spec \<Rightarrow> bool" where
  "member_ok s \<longleftrightarrow> text_ok (me_display s) \<and> email_ok (me_email s) \<and> opt_ok text_ok (me_sub s) \<and> day_ok (me_joined s)"

definition membership_ok :: "membership_spec \<Rightarrow> bool" where
  "membership_ok s \<longleftrightarrow>
     text_ok (ms_member s) \<and> text_ok (ms_tier s) \<and> day_ok (ms_starts s) \<and>
     (case ms_ends s of None \<Rightarrow> True | Some e \<Rightarrow> day_ok e \<and> ms_starts s \<le> e)"

definition invoice_ok :: "invoice_spec \<Rightarrow> bool" where
  "invoice_ok s \<longleftrightarrow>
     text_ok (in_membership s) \<and> text_ok (in_member s) \<and> text_ok (in_tier s) \<and> 0 \<le> in_amount s \<and>
     day_ok (in_start s) \<and> day_ok (in_end s) \<and> day_ok (in_due s)"

lemma period_of_text [simp]: "period_of (period_text p) = p"
  by (cases p rule: period_text.cases) (simp_all add: period_of_def)

lemma period_text_ok: "text_ok (period_text p)" "period_text p \<in> {''annual'', ''monthly'', ''lifetime''}"
proof -
  have "text_ok ''annual''" "text_ok ''monthly''" "text_ok ''lifetime''" by code_simp+
  then show "text_ok (period_text p)" "period_text p \<in> {''annual'', ''monthly'', ''lifetime''}"
    by (cases p rule: period_text.cases; simp)+
qed

lemma tenant_at_js [simp]: "tenant_at (js_tenant s) = s"
  by (simp add: tenant_at_def js_tenant_def at_defs)

interpretation tenant: validated_kind TENANT validate_tenant tenant_ok js_tenant tenant_at
proof
  show "tenant_ok (tenant_at w) \<and> w = js_tenant (tenant_at w)" if "validate_tenant v = Inr w" for v w
    using that by (auto simp: validate_tenant_def sbind_Inr_iff tenant_ok_def dest!: read_ok)
  show "validate_tenant (js_tenant s) = Inr (js_tenant s)" if "tenant_ok s" for s
    using that by (simp add: validate_tenant_def js_tenant_def tenant_ok_def reads)
  show "tenant_at (js_tenant s) = s" for s by simp
  show "storable (js_tenant s)" if "tenant_ok s" for s by (simp add: js_tenant_def)
  show "\<exists>f m. e = InvalidSpecError TENANT f m" if "validate_tenant v = Inl e" for v e
    using that by (auto simp: validate_tenant_def sbind_Inl_iff dest: read_err)
qed

lemma tier_at_js [simp]: "tier_at (js_tier s) = s"
  by (simp add: tier_at_def js_tier_def at_defs)

interpretation tier: validated_kind TIER validate_tier tier_ok js_tier tier_at
proof
  show "tier_ok (tier_at w) \<and> w = js_tier (tier_at w)" if "validate_tier v = Inr w" for v w
    using that by (auto simp: validate_tier_def sbind_Inr_iff tier_ok_def dest!: read_ok)
  show "validate_tier (js_tier s) = Inr (js_tier s)" if "tier_ok s" for s
    using that period_text_ok [of "ti_period s"] by (simp add: validate_tier_def js_tier_def tier_ok_def reads)
  show "tier_at (js_tier s) = s" for s by simp
  show "storable (js_tier s)" if "tier_ok s" for s by (simp add: js_tier_def)
  show "\<exists>f m. e = InvalidSpecError TIER f m" if "validate_tier v = Inl e" for v e
    using that by (auto simp: validate_tier_def sbind_Inl_iff dest: read_err)
qed

lemma member_at_js [simp]: "member_at (js_member s) = s"
  by (simp add: member_at_def js_member_def at_defs)

interpretation member: validated_kind MEMBER validate_member member_ok js_member member_at
proof
  show "member_ok (member_at w) \<and> w = js_member (member_at w)" if "validate_member v = Inr w" for v w
    using that by (auto simp: validate_member_def sbind_Inr_iff member_ok_def dest!: read_ok)
  show "validate_member (js_member s) = Inr (js_member s)" if "member_ok s" for s
    using that by (simp add: validate_member_def js_member_def member_ok_def reads)
  show "member_at (js_member s) = s" for s by simp
  show "storable (js_member s)" if "member_ok s" for s by (simp add: js_member_def)
  show "\<exists>f m. e = InvalidSpecError MEMBER f m" if "validate_member v = Inl e" for v e
    using that by (auto simp: validate_member_def sbind_Inl_iff dest: read_err)
qed

lemma membership_at_js [simp]: "membership_at (js_membership s) = s"
  by (simp add: membership_at_def js_membership_def at_defs)

interpretation membership: validated_kind MEMBERSHIP validate_membership membership_ok js_membership membership_at
proof
  show "membership_ok (membership_at w) \<and> w = js_membership (membership_at w)" if "validate_membership v = Inr w" for v w
    using that by (auto simp: validate_membership_def sbind_Inr_iff membership_ok_def opt_ok_def not_less split: option.splits if_splits dest!: read_ok)
  show "validate_membership (js_membership s) = Inr (js_membership s)" if "membership_ok s" for s
    using that by (cases "ms_ends s")
      (simp_all add: validate_membership_def js_membership_def membership_ok_def opt_ok_def reads not_less
        optional_day_reads [where s = None] optional_day_reads [where s = "Some _"])
  show "membership_at (js_membership s) = s" for s by simp
  show "storable (js_membership s)" if "membership_ok s" for s by (simp add: js_membership_def)
  show "\<exists>f m. e = InvalidSpecError MEMBERSHIP f m" if "validate_membership v = Inl e" for v e
    using that by (auto simp: validate_membership_def sbind_Inl_iff dest: read_err split: if_splits)
qed

lemma invoice_at_js [simp]: "invoice_at (js_invoice s) = s"
  by (simp add: invoice_at_def js_invoice_def at_defs)

interpretation invoice: validated_kind DUES_INVOICE validate_invoice invoice_ok js_invoice invoice_at
proof
  show "invoice_ok (invoice_at w) \<and> w = js_invoice (invoice_at w)" if "validate_invoice v = Inr w" for v w
    using that by (auto simp: validate_invoice_def sbind_Inr_iff invoice_ok_def dest!: read_ok)
  show "validate_invoice (js_invoice s) = Inr (js_invoice s)" if "invoice_ok s" for s
    using that by (simp add: validate_invoice_def js_invoice_def invoice_ok_def reads)
  show "invoice_at (js_invoice s) = s" for s by simp
  show "storable (js_invoice s)" if "invoice_ok s" for s by (simp add: js_invoice_def)
  show "\<exists>f m. e = InvalidSpecError DUES_INVOICE f m" if "validate_invoice v = Inl e" for v e
    using that by (auto simp: validate_invoice_def sbind_Inl_iff dest: read_err)
qed

text \<open>
  Whatever one of the five validators accepts is its own normal form: the row's
  text reads back as the same value, the validator accepts that value unchanged, and two specs
  accepted with one text are one spec. Whatever it refuses is refused with the kind's name and a field.
\<close>

theorem kinds_normalize:
  assumes "k \<in> set MEMBERSHIP_KINDS"
  shows "(kn_validate k v = Inr w \<longrightarrow>
      storable w \<and> parse_json (show_js w) = Some w \<and> kn_validate k w = Inr w) \<and>
    (kn_validate k v = Inr w \<and> kn_validate k v' = Inr w' \<and> show_js w = show_js w' \<longrightarrow> w = w') \<and>
    (kn_validate k v = Inl e \<longrightarrow> (\<exists>f m. e = InvalidSpecError (kn_name k) f m))"
proof -
  consider "k = tenant_kind" | "k = tier_kind" | "k = member_kind" | "k = membership_kind" | "k = dues_invoice_kind"
    using assms unfolding MEMBERSHIP_KINDS_def by auto
  then show ?thesis
  proof cases
    case 1 show ?thesis unfolding 1 tenant_kind_def kind_def.simps by (rule tenant.normalizes)
  next
    case 2 show ?thesis unfolding 2 tier_kind_def kind_def.simps by (rule tier.normalizes)
  next
    case 3 show ?thesis unfolding 3 member_kind_def kind_def.simps by (rule member.normalizes)
  next
    case 4 show ?thesis unfolding 4 membership_kind_def kind_def.simps by (rule membership.normalizes)
  next
    case 5 show ?thesis unfolding 5 dues_invoice_kind_def kind_def.simps by (rule invoice.normalizes)
  qed
qed

theorem kinds_normalize_witness:
  "let ada = \<lparr>me_display = ''Ada'', me_email = ''ada@x.org'', me_sub = None, me_joined = ''2026-01-30''\<rparr>
   in kn_validate member_kind
        (JObj [(''email'', JStr '' Ada@X.org''), (''displayName'', JStr ''Ada ''), (''joinedOn'', JStr ''2026-01-30'')])
      = Inr (js_member ada) \<and>
      parse_json (show_js (js_member ada)) = Some (js_member ada) \<and>
      kn_validate member_kind (js_member ada) = Inr (js_member ada)"
proof -
  let ?ada = "\<lparr>me_display = ''Ada'', me_email = ''ada@x.org'', me_sub = None, me_joined = ''2026-01-30''\<rparr>"
  let ?v = "JObj [(''email'', JStr '' Ada@X.org''), (''displayName'', JStr ''Ada ''), (''joinedOn'', JStr ''2026-01-30'')]"
  have "member_kind \<in> set MEMBERSHIP_KINDS" by (simp add: MEMBERSHIP_KINDS_def)
  note normal = kinds_normalize [OF this, of ?v "js_member ?ada"]
  note demo_real_days(2)
  moreover have "email_shape ''Ada@X.org''" "to_lower ''Ada@X.org'' = ''ada@x.org''" "trim '' Ada@X.org'' = ''Ada@X.org''"
    "trim ''Ada '' = ''Ada''" "trim ''2026-01-30'' = ''2026-01-30''" by code_simp+
  ultimately have "kn_validate member_kind ?v = Inr (js_member ?ada)"
    by (simp add: member_kind_def validate_member_def require_string_def require_email_def require_day_def
        optional_string_def nullish_def)
  with normal show ?thesis by (simp add: Let_def)
qed

end
