(* ===== verification/Renewal.thy ===== *)
theory Renewal
  imports Members_Kinds_Claims
begin

text \<open>
  The renewal rule (\<open>backend/members/renewal.ts\<close>): a function of the membership, its tier,
  the invoice of the term being billed and the day. Printing a date can throw (a grace period
  beyond the range of dates), so the plan is the answer of a sum.
\<close>

section \<open>The rule\<close>

datatype template = DuesReminder | DuesReceipt

fun template_text :: "template \<Rightarrow> string" where
  "template_text DuesReminder = ''dues-reminder''"
| "template_text DuesReceipt = ''dues-receipt''"

record notice_intent =
  ni_template :: template
  ni_invoice :: string

record renewal_input =
  rn_name :: string
  rn_membership :: membership_spec
  rn_tier :: "tier_spec option"
  rn_invoice :: "(invoice_spec \<times> js) option"     \<comment> \<open>with its status, \<open>JNull\<close> when none is recorded\<close>
  rn_today :: string

record renewal_plan =
  pl_invoice :: "(string \<times> invoice_spec) option"
  pl_renew :: "membership_spec option"
  pl_notice :: "notice_intent option"
  pl_status :: membership_status

definition invoice_name_for :: "string \<Rightarrow> string \<Rightarrow> string" where
  "invoice_name_for membership_name period_start = membership_name @ ''-'' @ period_start"

definition status_of :: "membership_state \<Rightarrow> membership_status" where
  "status_of s = \<lparr>st_state = s, st_renews = None, st_lapsed = None, st_invoice = None, st_problem = None\<rparr>"

definition only_status :: "membership_status \<Rightarrow> renewal_plan" where
  "only_status s = \<lparr>pl_invoice = None, pl_renew = None, pl_notice = None, pl_status = s\<rparr>"

definition invalid_plan :: "string \<Rightarrow> renewal_plan" where
  "invalid_plan problem = only_status ((status_of Invalid)\<lparr>st_problem := Some problem\<rparr>)"

text \<open>\<open>invoice.status?.state ?? "open"\<close>, for the comparisons with \<open>"paid"\<close> and \<open>"void"\<close>.\<close>

definition recorded_state :: "js \<Rightarrow> string" where
  "recorded_state status = (case js_get status ''state'' of JStr s \<Rightarrow> s | _ \<Rightarrow> ''open'')"

definition due_invoice :: "string \<Rightarrow> membership_spec \<Rightarrow> tier_spec \<Rightarrow> string \<Rightarrow> string \<Rightarrow> exn + invoice_spec" where
  "due_invoice membership_name m tier ends period_end =
     sbind (add_days ends (ti_grace tier)) (\<lambda>due.
       Inr \<lparr>in_membership = membership_name, in_member = ms_member m, in_tier = ms_tier m,
            in_amount = ti_dues tier, in_start = ends, in_end = period_end, in_due = due\<rparr>)"

text \<open>The branches once the term is over and renews.\<close>

definition bill :: "renewal_input \<Rightarrow> tier_spec \<Rightarrow> billing \<Rightarrow> string \<Rightarrow> exn + renewal_plan" where
  "bill r tier period ends =
     sbind (add_period ends period) (\<lambda>period_end.
       let m = rn_membership r; name = invoice_name_for (rn_name r) ends in
       case rn_invoice r of
         None \<Rightarrow>
           sbind (due_invoice (rn_name r) m tier ends period_end) (\<lambda>spec.
             Inr \<lparr>pl_invoice = Some (name, spec), pl_renew = None,
                  pl_notice = Some \<lparr>ni_template = DuesReminder, ni_invoice = name\<rparr>,
                  pl_status = (status_of Pending)\<lparr>st_invoice := Some name, st_renews := Some period_end\<rparr>\<rparr>)
       | Some (spec, status) \<Rightarrow>
           (if recorded_state status = ''paid'' then
              Inr \<lparr>pl_invoice = None,
                   pl_renew = Some (m\<lparr>ms_starts := ends, ms_ends := Some (in_end spec)\<rparr>),
                   pl_notice = Some \<lparr>ni_template = DuesReceipt, ni_invoice = name\<rparr>,
                   pl_status = (status_of Active)\<lparr>st_renews := Some (in_end spec)\<rparr>\<rparr>
            else if recorded_state status = ''void'' then
              Inr (only_status ((status_of Lapsed)\<lparr>st_lapsed := Some ends, st_invoice := Some name\<rparr>))
            else if rn_today r > in_due spec then
              Inr (only_status ((status_of Lapsed)\<lparr>st_lapsed := Some (in_due spec), st_invoice := Some name\<rparr>))
            else
              Inr (only_status ((status_of Pending)\<lparr>st_invoice := Some name, st_renews := Some (in_end spec)\<rparr>))))"

definition evaluate :: "renewal_input \<Rightarrow> exn + renewal_plan" where
  "evaluate r =
     (let m = rn_membership r in
      case rn_tier r of
        None \<Rightarrow> Inr (invalid_plan (''tier '' @ quoted (ms_tier m) @ '' is not registered''))
      | Some tier \<Rightarrow>
          (case ti_period tier of
             Lifetime \<Rightarrow>
               (if given (ms_ends m)
                then Inr (invalid_plan (''tier '' @ quoted (ms_tier m) @
                       '' is lifetime, so this membership must not carry endsOn''))
                else Inr (only_status (status_of Active)))
           | Recurring period \<Rightarrow>
               (if \<not> given (ms_ends m)
                then Inr (invalid_plan (''tier '' @ quoted (ms_tier m) @ '' bills '' @ period_text (Recurring period) @
                       '', so this membership needs endsOn''))
                else
                  let ends = the (ms_ends m) in
                  if rn_today r < ends then Inr (only_status ((status_of Active)\<lparr>st_renews := Some ends\<rparr>))
                  else if \<not> ms_renew m then Inr (only_status ((status_of Lapsed)\<lparr>st_lapsed := Some ends\<rparr>))
                  else bill r tier period ends)))"

section \<open>What the rule decides\<close>

text \<open>A membership on a recurring tier, with a term that has ended, that renews.\<close>

definition over :: "renewal_input \<Rightarrow> tier_spec \<Rightarrow> billing \<Rightarrow> string \<Rightarrow> bool" where
  "over r tier period ends \<longleftrightarrow>
     rn_tier r = Some tier \<and> ti_period tier = Recurring period \<and> ms_ends (rn_membership r) = Some ends \<and>
     ends \<noteq> [] \<and> ends \<le> rn_today r \<and> ms_renew (rn_membership r)"

lemma evaluate_over: "over r tier period ends \<Longrightarrow> evaluate r = bill r tier period ends"
  by (auto simp: over_def evaluate_def Let_def given_def)

lemma evaluate_not_over:
  assumes "evaluate r = Inr p" and "\<And>tier period ends. \<not> over r tier period ends"
  shows "p = only_status (pl_status p)"
  using assms(1) assms(2) [of "the (rn_tier r)" "case ti_period (the (rn_tier r)) of Recurring b \<Rightarrow> b" "the (ms_ends (rn_membership r))"]
  by (auto simp: evaluate_def Let_def given_def invalid_plan_def only_status_def over_def not_less
      split: option.splits billing_period.splits if_splits)

lemma bill_cases:
  assumes "bill r tier period ends = Inr p"
  obtains (raise) pe spec where "rn_invoice r = None" "add_period ends period = Inr pe"
      "due_invoice (rn_name r) (rn_membership r) tier ends pe = Inr spec"
      "p = \<lparr>pl_invoice = Some (invoice_name_for (rn_name r) ends, spec), pl_renew = None,
            pl_notice = Some \<lparr>ni_template = DuesReminder, ni_invoice = invoice_name_for (rn_name r) ends\<rparr>,
            pl_status = (status_of Pending)\<lparr>st_invoice := Some (invoice_name_for (rn_name r) ends), st_renews := Some pe\<rparr>\<rparr>"
  | (paid) spec status where "rn_invoice r = Some (spec, status)" "recorded_state status = ''paid''"
      "p = \<lparr>pl_invoice = None,
            pl_renew = Some ((rn_membership r)\<lparr>ms_starts := ends, ms_ends := Some (in_end spec)\<rparr>),
            pl_notice = Some \<lparr>ni_template = DuesReceipt, ni_invoice = invoice_name_for (rn_name r) ends\<rparr>,
            pl_status = (status_of Active)\<lparr>st_renews := Some (in_end spec)\<rparr>\<rparr>"
  | (void) spec status where "rn_invoice r = Some (spec, status)" "recorded_state status = ''void''"
      "p = only_status ((status_of Lapsed)\<lparr>st_lapsed := Some ends, st_invoice := Some (invoice_name_for (rn_name r) ends)\<rparr>)"
  | (lapsed) spec status where "rn_invoice r = Some (spec, status)" "recorded_state status \<notin> {''paid'', ''void''}"
      "in_due spec < rn_today r"
      "p = only_status ((status_of Lapsed)\<lparr>st_lapsed := Some (in_due spec), st_invoice := Some (invoice_name_for (rn_name r) ends)\<rparr>)"
  | (owed) spec status where "rn_invoice r = Some (spec, status)" "recorded_state status \<notin> {''paid'', ''void''}"
      "rn_today r \<le> in_due spec"
      "p = only_status ((status_of Pending)\<lparr>st_invoice := Some (invoice_name_for (rn_name r) ends), st_renews := Some (in_end spec)\<rparr>)"
proof -
  obtain pe where pe: "add_period ends period = Inr pe"
    using assms by (auto simp: bill_def sbind_Inr_iff)
  note b = assms [unfolded bill_def pe sbind_simps Let_def]
  show thesis
  proof (cases "rn_invoice r")
    case None
    with b obtain spec where s: "due_invoice (rn_name r) (rn_membership r) tier ends pe = Inr spec"
      by (auto simp: sbind_Inr_iff)
    show thesis by (rule raise [OF None pe s]) (use b None s in simp)
  next
    case (Some i)
    obtain spec status where i: "i = (spec, status)" by (cases i)
    note inv = Some [unfolded i]
    note b' = b [unfolded inv option.case prod.case]
    consider "recorded_state status = ''paid''" | "recorded_state status = ''void''"
      | "recorded_state status \<notin> {''paid'', ''void''}" "in_due spec < rn_today r"
      | "recorded_state status \<notin> {''paid'', ''void''}" "rn_today r \<le> in_due spec"
      by fastforce
    then show thesis
    proof cases
      case 1 show thesis by (rule paid [OF inv 1]) (use b' 1 in simp)
    next
      case 2 show thesis by (rule void [OF inv 2]) (use b' 2 in simp)
    next
      case 3 show thesis by (rule lapsed [OF inv 3]) (use b' 3 in simp)
    next
      case 4 show thesis by (rule owed [OF inv 4]) (use b' 4 leD [OF 4(2)] in simp)
    qed
  qed
qed

text \<open>
  The date of an invoice the rule raises: the term it bills starts where the last one ended, ends
  one period later, and the dues are owed the grace period after the start.
\<close>

lemma due_invoice_fields:
  "due_invoice n m tier ends pe = Inr spec \<Longrightarrow>
   in_membership spec = n \<and> in_member spec = ms_member m \<and> in_tier spec = ms_tier m \<and>
   in_amount spec = ti_dues tier \<and> in_start spec = ends \<and> in_end spec = pe \<and>
   add_days ends (ti_grace tier) = Inr (in_due spec)"
  by (auto simp: due_invoice_def sbind_Inr_iff)

text \<open>
  What the rule writes besides a status. An invoice is raised exactly when a
  renewing term on a recurring tier is over and none has been raised; the term is extended exactly
  when the raised invoice is recorded paid, and it then starts where the last one ended and ends
  where the invoice says; in every other case the plan is a status alone. A reminder goes with the
  invoice and a receipt with the renewal.
\<close>

theorem renewal_decides:
  assumes "evaluate r = Inr p"
  shows "(pl_invoice p \<noteq> None \<longleftrightarrow> (\<exists>tier period ends. over r tier period ends) \<and> rn_invoice r = None) \<and>
    (pl_renew p \<noteq> None \<longleftrightarrow> (\<exists>tier period ends. over r tier period ends) \<and>
      (\<exists>spec status. rn_invoice r = Some (spec, status) \<and> recorded_state status = ''paid'')) \<and>
    (\<forall>m spec status. pl_renew p = Some m \<and> rn_invoice r = Some (spec, status) \<longrightarrow>
      ms_ends (rn_membership r) = Some (ms_starts m) \<and> ms_ends m = Some (in_end spec) \<and>
      ms_member m = ms_member (rn_membership r) \<and> ms_tier m = ms_tier (rn_membership r)) \<and>
    (pl_notice p = None \<longleftrightarrow> pl_invoice p = None \<and> pl_renew p = None) \<and>
    (\<forall>n. pl_notice p = Some n \<longrightarrow> (ni_template n = DuesReminder) = (pl_invoice p \<noteq> None)) \<and>
    (st_state (pl_status p) = Invalid \<longleftrightarrow>
      (case rn_tier r of None \<Rightarrow> True
       | Some tier \<Rightarrow> (ti_period tier = Lifetime) = given (ms_ends (rn_membership r))))"
proof (cases "\<exists>tier period ends. over r tier period ends")
  case False
  then have "p = only_status (pl_status p)" using evaluate_not_over [OF assms] by blast
  then have "pl_invoice p = None" "pl_renew p = None" "pl_notice p = None" by (metis only_status_def renewal_plan.select_convs)+
  moreover have "st_state (pl_status p) = Invalid \<longleftrightarrow>
      (case rn_tier r of None \<Rightarrow> True
       | Some tier \<Rightarrow> (ti_period tier = Lifetime) = given (ms_ends (rn_membership r)))"
    using assms False
    by (auto simp: evaluate_def Let_def over_def given_def invalid_plan_def only_status_def status_of_def not_less
        split: option.splits billing_period.splits if_splits)
  ultimately show ?thesis using False by simp
next
  case True
  then obtain tier period ends where o: "over r tier period ends" by blast
  have b: "bill r tier period ends = Inr p" using assms evaluate_over [OF o] by simp
  have ends: "ms_ends (rn_membership r) = Some ends" using o by (simp add: over_def)
  from b show ?thesis
    by (cases rule: bill_cases) (use True ends o in \<open>auto simp: only_status_def status_of_def over_def given_def\<close>)
qed

text \<open>A yearly membership whose term ended on the last day of 2025.\<close>

definition demo_tier :: tier_spec where
  "demo_tier = \<lparr>ti_label = ''Full'', ti_dues = 5000, ti_period = Recurring Annual, ti_voting = True, ti_grace = 30\<rparr>"

definition demo_membership :: membership_spec where
  "demo_membership = \<lparr>ms_member = ''ada'', ms_tier = ''full'', ms_starts = ''2025-01-01'', ms_ends = Some ''2025-12-31'',
     ms_renew = True\<rparr>"

definition demo_renewal :: "(invoice_spec \<times> js) option \<Rightarrow> renewal_input" where
  "demo_renewal i = \<lparr>rn_name = ''ada'', rn_membership = demo_membership, rn_tier = Some demo_tier,
     rn_invoice = i, rn_today = ''2026-01-05''\<rparr>"

definition demo_invoice :: invoice_spec where
  "demo_invoice = \<lparr>in_membership = ''ada'', in_member = ''ada'', in_tier = ''full'', in_amount = 5000,
     in_start = ''2025-12-31'', in_end = ''2026-12-31'', in_due = ''2026-01-30''\<rparr>"

lemma demo_over: "over (demo_renewal i) demo_tier Annual ''2025-12-31''"
  by (simp add: over_def demo_renewal_def demo_tier_def demo_membership_def)

lemma add_days_civil:
  assumes "printable c" and "printable d" and "day_number d = day_number c + k"
  shows "add_days (iso_text c) k = Inr (iso_text d)"
  using assms day_in_range [of d] iso_slice_printable [of d]
  by (simp add: add_days_def parse_iso_text printable_def)

lemma demo_dates: "add_period ''2025-12-31'' Annual = Inr ''2026-12-31''" "add_days ''2025-12-31'' 30 = Inr ''2026-01-30''"
proof -
  note c = demo_printable(1,3,2)
  have m: "month_length 2026 12 = 31" by code_simp
  have n: "day_number (Civil 2026 1 30) = day_number (Civil 2025 12 31) + 30" by code_simp
  show "add_period ''2025-12-31'' Annual = Inr ''2026-12-31''"
    using period_step [OF c(1), of Annual 2026 12] by (simp add: demo_days m)
  show "add_days ''2025-12-31'' 30 = Inr ''2026-01-30''" using add_days_civil [OF c(1,3) n] by (simp add: demo_days)
qed

lemma demo_raises:
  "evaluate (demo_renewal None) = Inr \<lparr>pl_invoice = Some (''ada-2025-12-31'', demo_invoice), pl_renew = None,
     pl_notice = Some \<lparr>ni_template = DuesReminder, ni_invoice = ''ada-2025-12-31''\<rparr>,
     pl_status = (status_of Pending)\<lparr>st_invoice := Some ''ada-2025-12-31'', st_renews := Some ''2026-12-31''\<rparr>\<rparr>"
  unfolding evaluate_over [OF demo_over]
  by (simp add: bill_def demo_dates demo_renewal_def due_invoice_def invoice_name_for_def demo_tier_def demo_membership_def
      demo_invoice_def Let_def)

theorem renewal_decides_witness:
  "\<exists>p. evaluate (demo_renewal None) = Inr p \<and> pl_invoice p \<noteq> None \<and> pl_renew p = None"
  using renewal_decides [OF demo_raises] demo_over [of None] demo_raises
  by (auto simp: demo_renewal_def [of None])

text \<open>
  C30: what the rule does with the invoice it raised. While the invoice is open the
  rule raises nothing more and repeats its status through the due day, and lapses the membership
  after it; once it is recorded paid the next term follows the last one without a gap, and the
  renewed membership is active with the status the renewal wrote until that term ends.
\<close>

theorem renewal_cycle:
  assumes o: "over r tier period ends" and none: "rn_invoice r = None" and p: "evaluate r = Inr p"
    and raised: "pl_invoice p = Some (name, spec)" and paid: "recorded_state st = ''paid''"
  shows "evaluate (r\<lparr>rn_invoice := Some (spec, JNull)\<rparr>) = Inr (only_status
      (if rn_today r \<le> in_due spec then pl_status p
       else (status_of Lapsed)\<lparr>st_lapsed := Some (in_due spec), st_invoice := Some name\<rparr>)) \<and>
    (\<exists>q m. evaluate (r\<lparr>rn_invoice := Some (spec, st)\<rparr>) = Inr q \<and> pl_renew q = Some m \<and> pl_invoice q = None \<and>
      ms_starts m = ends \<and> ms_ends m = Some (in_end spec) \<and>
      (rn_today r < in_end spec \<longrightarrow>
        evaluate (r\<lparr>rn_membership := m, rn_invoice := None\<rparr>) = Inr (only_status (pl_status q))))"
proof -
  have b: "bill r tier period ends = Inr p" using p evaluate_over [OF o] by simp
  then obtain pe where pe: "add_period ends period = Inr pe"
    and d: "due_invoice (rn_name r) (rn_membership r) tier ends pe = Inr spec"
    and name: "name = invoice_name_for (rn_name r) ends"
    and st: "pl_status p = (status_of Pending)\<lparr>st_invoice := Some name, st_renews := Some pe\<rparr>"
    using none raised by (cases rule: bill_cases) (auto simp: only_status_def)
  have spec: "in_end spec = pe" using due_invoice_fields [OF d] by simp
  have o': "over (r\<lparr>rn_invoice := i\<rparr>) tier period ends" for i using o by (simp add: over_def)
  have open': "recorded_state JNull = ''open''" by (simp add: recorded_state_def)
  have one: "evaluate (r\<lparr>rn_invoice := Some (spec, JNull)\<rparr>) = Inr (only_status
      (if rn_today r \<le> in_due spec then pl_status p
       else (status_of Lapsed)\<lparr>st_lapsed := Some (in_due spec), st_invoice := Some name\<rparr>))"
    unfolding evaluate_over [OF o'] by (simp add: bill_def pe Let_def open' name st spec not_le [symmetric])
  let ?m = "(rn_membership r)\<lparr>ms_starts := ends, ms_ends := Some pe\<rparr>"
  have two: "\<exists>q. evaluate (r\<lparr>rn_invoice := Some (spec, st)\<rparr>) = Inr q \<and> pl_renew q = Some ?m \<and> pl_invoice q = None \<and>
      pl_status q = (status_of Active)\<lparr>st_renews := Some pe\<rparr>"
    unfolding evaluate_over [OF o'] by (simp add: bill_def pe Let_def paid spec)
  have three: "evaluate (r\<lparr>rn_membership := ?m, rn_invoice := None\<rparr>) =
      Inr (only_status ((status_of Active)\<lparr>st_renews := Some pe\<rparr>))" if "rn_today r < pe"
  proof -
    have "pe \<noteq> []" using that by auto
    then show ?thesis using o that by (simp add: evaluate_def over_def Let_def given_def)
  qed
  show ?thesis using one two three spec by fastforce
qed

theorem renewal_cycle_witness:
  "evaluate (demo_renewal (Some (demo_invoice, JNull))) =
     Inr (only_status ((status_of Pending)\<lparr>st_invoice := Some ''ada-2025-12-31'', st_renews := Some ''2026-12-31''\<rparr>)) \<and>
   (\<exists>q m. evaluate (demo_renewal (Some (demo_invoice, JObj [(''state'', JStr ''paid'')]))) = Inr q \<and>
      pl_renew q = Some m \<and> ms_starts m = ''2025-12-31'' \<and> ms_ends m = Some ''2026-12-31'')"
proof -
  have r: "(demo_renewal None)\<lparr>rn_invoice := i\<rparr> = demo_renewal i" for i by (simp add: demo_renewal_def)
  have none: "rn_invoice (demo_renewal None) = None" by (simp add: demo_renewal_def)
  have paid: "recorded_state (JObj [(''state'', JStr ''paid'')]) = ''paid''" by (simp add: recorded_state_def)
  have "rn_today (demo_renewal None) \<le> in_due demo_invoice" by (simp add: demo_renewal_def demo_invoice_def)
  moreover have "in_end demo_invoice = ''2026-12-31''" by (simp add: demo_invoice_def)
  ultimately show ?thesis
    using renewal_cycle [OF demo_over none demo_raises, of "''ada-2025-12-31''" demo_invoice, OF _ paid] by (auto simp: r)
qed

text \<open>
  A tier may carry any grace period that is not negative, and one too long for a date to hold
  makes the rule throw for every membership of the tier that comes up for renewal.
\<close>

lemma endless_grace:
  "\<exists>tier. tier_ok tier \<and> (\<exists>r. over r tier Annual ''2025-12-31'' \<and> evaluate r = Inl (RangeErr ''Invalid time value''))"
proof -
  let ?tier = "demo_tier\<lparr>ti_grace := 200000000\<rparr>"
  let ?r = "(demo_renewal None)\<lparr>rn_tier := Some ?tier\<rparr>"
  have o: "over ?r ?tier Annual ''2025-12-31''"
    by (simp add: over_def demo_renewal_def demo_tier_def demo_membership_def)
  have "parse_day ''2025-12-31'' = Some 739981" by code_simp
  then have "add_days ''2025-12-31'' 200000000 = Inl (RangeErr ''Invalid time value'')"
    by (simp add: add_days_def time_clip_def EPOCH_def iso_slice_def)
  then have "evaluate ?r = Inl (RangeErr ''Invalid time value'')"
    unfolding evaluate_over [OF o]
    by (simp add: bill_def demo_dates demo_renewal_def due_invoice_def Let_def)
  moreover have "tier_ok ?tier"
  proof -
    have "trim ''Full'' = ''Full''" by code_simp
    then show ?thesis by (simp add: tier_ok_def demo_tier_def text_ok_def)
  qed
  ultimately show ?thesis using o by blast
qed

end
