(* ===== verification/Hiq_Lock.thy ===== *)
theory Hiq_Lock
  imports Effects Json
begin

text \<open>
  Reclaiming the lock of a store whose previous owner is gone (\<open>backend/hiq/lock.ts\<close>). The
  process and the machine it runs on are a record of what the system calls answer; the data
  directory is the world: whether the store's lock file is there, the text of the owner record,
  and how the next removal and the next write of a file turn out.
\<close>

section \<open>The machine and the directory\<close>

datatype signal_result = Delivered | NotPermitted | NoProcess

record machine =
  h_pid :: int
  h_hostname :: string
  h_ns :: "string option"                 \<comment> \<open>\<open>readlink /proc/self/ns/pid\<close>; \<open>None\<close> when it throws\<close>
  h_stat :: "int \<Rightarrow> string option"        \<comment> \<open>\<open>/proc/<pid>/stat\<close>\<close>
  h_signal :: "int \<Rightarrow> signal_result"      \<comment> \<open>\<open>kill(pid, 0)\<close>\<close>
  h_node :: "string option"               \<comment> \<open>\<open>ENRAHITU_HIQ_NODE_ID\<close>\<close>
  h_now :: string

record volume =
  v_lock :: bool
  v_owner :: "string option"              \<comment> \<open>\<open>None\<close>: the record cannot be read\<close>
  v_rm :: "string option"                 \<comment> \<open>\<open>Some m\<close>: removing the lock throws\<close>
  v_write :: "string option option"       \<comment> \<open>\<open>Some t\<close>: writing the record throws and leaves \<open>t\<close>\<close>

record node_owner =
  no_pid :: js                            \<comment> \<open>a number\<close>
  no_node :: "string option"
  no_ns :: "string option"
  no_host :: "string option"
  no_start :: "string option"
  no_since :: string

datatype cleared_reason = OwnerGone | NoOwnerRecord | Self | NamespaceGone

datatype kept_reason = OwnerAlive | ForeignNode

datatype reclaim_outcome =
    Unconfigured
  | Claimed node_owner
  | Cleared cleared_reason "node_owner option"
  | Kept kept_reason node_owner
  | FailedTo string

section \<open>Processes\<close>

fun nth_of :: "'a list \<Rightarrow> nat \<Rightarrow> 'a option" where
  "nth_of [] n = None"
| "nth_of (x # xs) n = (case n of 0 \<Rightarrow> Some x | Suc k \<Rightarrow> nth_of xs k)"

text \<open>The text after the last closing parenthesis, \<open>None\<close> when there is none.\<close>

fun after_last :: "char \<Rightarrow> string \<Rightarrow> string option" where
  "after_last c [] = None"
| "after_last c (x # xs) =
     (case after_last c xs of Some r \<Rightarrow> Some r | None \<Rightarrow> (if x = c then Some xs else None))"

text \<open>Two characters after the parenthesis the third field starts; the start time is field 22.\<close>

definition process_start_time :: "machine \<Rightarrow> int \<Rightarrow> string option" where
  "process_start_time h pid =
     (case h_stat h pid of
        None \<Rightarrow> None
      | Some stat \<Rightarrow>
          (case after_last (CHR '')'') stat of
             None \<Rightarrow> None
           | Some rest \<Rightarrow> nth_of (split_on (CHR '' '') (drop 1 rest)) 19))"

fun is_process_alive :: "machine \<Rightarrow> js \<Rightarrow> bool" where
  "is_process_alive h (JInt pid) = (0 < pid \<and> h_signal h pid \<noteq> NoProcess)"
| "is_process_alive h _ = False"

definition owner_still_running :: "machine \<Rightarrow> node_owner \<Rightarrow> bool" where
  "owner_still_running h o' =
     (if \<not> is_process_alive h (no_pid o') then False
      else (case no_start o' of
              None \<Rightarrow> True
            | Some start \<Rightarrow>
                (case no_pid o' of
                   JInt pid \<Rightarrow> (case process_start_time h pid of None \<Rightarrow> True | Some current \<Rightarrow> current = start)
                 | _ \<Rightarrow> True)))"

definition pid_namespace :: "machine \<Rightarrow> string" where
  "pid_namespace h = (case h_ns h of Some ns \<Rightarrow> ns | None \<Rightarrow> ''host:'' @ h_hostname h)"

definition interpretable_here :: "machine \<Rightarrow> node_owner \<Rightarrow> bool" where
  "interpretable_here h o' =
     (case no_ns o' of Some ns \<Rightarrow> ns = pid_namespace h | None \<Rightarrow> no_host o' = Some (h_hostname h))"

definition node_id :: "machine \<Rightarrow> string" where
  "node_id h = (case h_node h of None \<Rightarrow> ''1'' | Some s \<Rightarrow> if trim s = [] then ''1'' else trim s)"

section \<open>The owner record\<close>

definition str_field :: "js \<Rightarrow> string \<Rightarrow> string option" where
  "str_field v k = (case js_get v k of JStr s \<Rightarrow> Some s | _ \<Rightarrow> None)"

definition owner_of_js :: "js \<Rightarrow> node_owner option" where
  "owner_of_js parsed =
     (if typeof parsed \<noteq> ''object'' \<or> parsed = JNull then None
      else if typeof (js_get parsed ''pid'') \<noteq> ''number'' then None
      else if str_field parsed ''ns'' = None \<and> str_field parsed ''host'' = None then None
      else Some \<lparr>no_pid = js_get parsed ''pid'', no_node = str_field parsed ''node'', no_ns = str_field parsed ''ns'',
                 no_host = str_field parsed ''host'', no_start = str_field parsed ''start'',
                 no_since = (case str_field parsed ''since'' of Some s \<Rightarrow> s | None \<Rightarrow> [])\<rparr>)"

definition read_owner :: "volume \<Rightarrow> node_owner option" where
  "read_owner v =
     (case v_owner v of
        None \<Rightarrow> None
      | Some raw \<Rightarrow> (case parse_json raw of None \<Rightarrow> None | Some parsed \<Rightarrow> owner_of_js parsed))"

definition own_record_of :: "machine \<Rightarrow> node_owner" where
  "own_record_of h =
     \<lparr>no_pid = JInt (h_pid h), no_node = Some (node_id h), no_ns = Some (pid_namespace h), no_host = None,
      no_start = process_start_time h (h_pid h), no_since = h_now h\<rparr>"

definition js_owner :: "node_owner \<Rightarrow> js" where
  "js_owner o' =
     JObj ([(''pid'', no_pid o')] @
           (case no_node o' of None \<Rightarrow> [] | Some s \<Rightarrow> [(''node'', JStr s)]) @
           (case no_ns o' of None \<Rightarrow> [] | Some s \<Rightarrow> [(''ns'', JStr s)]) @
           (case no_start o' of None \<Rightarrow> [] | Some s \<Rightarrow> [(''start'', JStr s)]) @
           [(''since'', JStr (no_since o'))])"

definition write_owner :: "machine \<Rightarrow> (volume, node_owner) io" where
  "write_owner h =
     seq (modify (\<lambda>v. v\<lparr>v_owner := (case v_write v of
            None \<Rightarrow> Some (show_js (js_owner (own_record_of h)) @ [CHR 10])
          | Some left \<Rightarrow> left)\<rparr>))
         (ret (own_record_of h))"

definition rm_lock :: "(volume, unit) io" where
  "rm_lock =
     bnd (gets v_rm) (\<lambda>fault.
       case fault of Some m \<Rightarrow> throw (Failure m) | None \<Rightarrow> modify (\<lambda>v. v\<lparr>v_lock := False\<rparr>))"

section \<open>The decision\<close>

definition decide :: "machine \<Rightarrow> string option \<Rightarrow> (volume, reclaim_outcome) io" where
  "decide h data_dir =
     (if data_dir = None \<or> data_dir = Some [] then ret Unconfigured
      else
        bnd (gets v_lock) (\<lambda>locked.
          if \<not> locked then bnd (write_owner h) (\<lambda>o'. ret (Claimed o'))
          else
            bnd (gets read_owner) (\<lambda>owner.
              case owner of
                None \<Rightarrow> seq rm_lock (seq (write_owner h) (ret (Cleared NoOwnerRecord None)))
              | Some o' \<Rightarrow>
                  if no_node o' \<noteq> None \<and> no_node o' \<noteq> Some (node_id h) then ret (Kept ForeignNode o')
                  else if \<not> interpretable_here h o' then
                    seq rm_lock (seq (write_owner h) (ret (Cleared NamespaceGone (Some o'))))
                  else if no_pid o' \<noteq> JInt (h_pid h) \<and> owner_still_running h o' then ret (Kept OwnerAlive o')
                  else
                    seq rm_lock (seq (write_owner h)
                      (ret (Cleared (if no_pid o' = JInt (h_pid h) then Self else OwnerGone) (Some o')))))))"

text \<open>\<open>String(err)\<close> of an error of the file system.\<close>

definition err_string :: "exn \<Rightarrow> string" where
  "err_string e = ''Error: '' @ err_message e"

definition reclaim_state_machine :: "machine \<Rightarrow> string option \<Rightarrow> (volume, reclaim_outcome) io" where
  "reclaim_state_machine h data_dir = catch (decide h data_dir) (\<lambda>e. ret (FailedTo (err_string e)))"

section \<open>When a lock may be removed\<close>

text \<open>The recorded owner may still be running, as far as the record and the machine can tell.\<close>

definition may_run :: "machine \<Rightarrow> node_owner \<Rightarrow> bool" where
  "may_run h o' \<longleftrightarrow> interpretable_here h o' \<and> no_pid o' \<noteq> JInt (h_pid h) \<and> owner_still_running h o'"

definition foreign :: "machine \<Rightarrow> node_owner \<Rightarrow> bool" where
  "foreign h o' \<longleftrightarrow> no_node o' \<noteq> None \<and> no_node o' \<noteq> Some (node_id h)"

definition must_keep :: "machine \<Rightarrow> node_owner \<Rightarrow> bool" where
  "must_keep h o' \<longleftrightarrow> foreign h o' \<or> may_run h o'"

lemma keeps:
  assumes "v_lock v" and "read_owner v = Some o'" and "must_keep h o'" and "d \<noteq> []"
  shows "reclaim_state_machine h (Some d) v = (Inr (Kept (if foreign h o' then ForeignNode else OwnerAlive) o'), v)"
  using assms by (auto simp: reclaim_state_machine_def catch_run decide_def must_keep_def may_run_def foreign_def)

lemma clears:
  assumes "v_lock v" and "case read_owner v of None \<Rightarrow> True | Some o' \<Rightarrow> \<not> must_keep h o'" and "d \<noteq> []" and "v_rm v = None"
  shows "\<exists>why. reclaim_state_machine h (Some d) v =
    (Inr (Cleared why (read_owner v)),
     v\<lparr>v_lock := False, v_owner := (case v_write v of
         None \<Rightarrow> Some (show_js (js_owner (own_record_of h)) @ [CHR 10]) | Some left \<Rightarrow> left)\<rparr>)"
  using assms
  by (auto simp: reclaim_state_machine_def catch_run decide_def must_keep_def may_run_def foreign_def
      rm_lock_def write_owner_def bnd_run split: option.splits)

lemma stuck_lock:
  assumes "v_lock v" and "case read_owner v of None \<Rightarrow> True | Some o' \<Rightarrow> \<not> must_keep h o'" and "d \<noteq> []" and "v_rm v = Some m"
  shows "reclaim_state_machine h (Some d) v = (Inr (FailedTo (err_string (Failure m))), v)"
  using assms
  by (auto simp: reclaim_state_machine_def catch_run decide_def must_keep_def may_run_def foreign_def
      rm_lock_def bnd_run split: option.splits)

lemma claims:
  assumes "\<not> v_lock v" and "d \<noteq> []"
  shows "reclaim_state_machine h (Some d) v = (Inr (Claimed (own_record_of h)),
    v\<lparr>v_owner := (case v_write v of
         None \<Rightarrow> Some (show_js (js_owner (own_record_of h)) @ [CHR 10]) | Some left \<Rightarrow> left)\<rparr>)"
  using assms by (simp add: reclaim_state_machine_def catch_run decide_def write_owner_def bnd_run)

lemma unconfigured: "d = None \<or> d = Some [] \<Longrightarrow> reclaim_state_machine h d v = (Inr Unconfigured, v)"
  by (auto simp: reclaim_state_machine_def catch_run decide_def)

text \<open>
  C35: reclaiming answers an outcome in every case. Nothing of the directory
  changes when the lock's record names another node, or a process that can be looked up here and
  may still be running. A lock is only removed when there is no readable record, or when its owner
  is this process, is gone, or belonged to another pid namespace of the same node.
\<close>

theorem lock_kept_or_stale:
  "(\<exists>r. fst (reclaim_state_machine h d v) = Inr r) \<and>
    (v_lock v \<and> (case read_owner v of None \<Rightarrow> False | Some o' \<Rightarrow> must_keep h o') \<longrightarrow>
       snd (reclaim_state_machine h d v) = v) \<and>
    (v_lock v \<and> \<not> v_lock (snd (reclaim_state_machine h d v)) \<longrightarrow>
       (case read_owner v of None \<Rightarrow> True
        | Some o' \<Rightarrow> \<not> foreign h o' \<and>
            (\<not> interpretable_here h o' \<or> no_pid o' = JInt (h_pid h) \<or> \<not> owner_still_running h o')))"
proof (cases "d = None \<or> d = Some []")
  case True
  then show ?thesis using unconfigured by simp
next
  case False
  then obtain e where d: "d = Some e" "e \<noteq> []" by auto
  show ?thesis
  proof (cases "\<not> v_lock v")
    case True
    then show ?thesis using claims [OF _ d(2), of v h] d by simp
  next
    case locked: False
    show ?thesis
    proof (cases "case read_owner v of None \<Rightarrow> True | Some o' \<Rightarrow> \<not> must_keep h o'")
      case False
      then obtain o' where "read_owner v = Some o'" "must_keep h o'" by (auto split: option.splits)
      with keeps [of v o' h e] locked d show ?thesis by simp
    next
      case stale: True
      then have justified: "case read_owner v of None \<Rightarrow> True | Some o' \<Rightarrow> \<not> foreign h o' \<and>
          (\<not> interpretable_here h o' \<or> no_pid o' = JInt (h_pid h) \<or> \<not> owner_still_running h o')"
        by (auto simp: must_keep_def may_run_def split: option.splits)
      have lock: "v_lock v" using locked by simp
      have "\<exists>r u. reclaim_state_machine h d v = (Inr r, u)"
      proof (cases "v_rm v")
        case None
        from clears [OF lock stale d(2) None] d(1) show ?thesis by blast
      next
        case (Some m)
        from stuck_lock [OF lock stale d(2) Some] d(1) show ?thesis by blast
      qed
      with justified stale show ?thesis by (auto split: option.splits)
    qed
  qed
qed

section \<open>One process after another\<close>

text \<open>What a process wrote is what the next one reads.\<close>

definition numeric_pid :: "node_owner \<Rightarrow> bool" where
  "numeric_pid o' \<longleftrightarrow> (\<exists>n. no_pid o' = JInt n)"

lemma own_fields [simp]:
  "js_get (js_owner o') ''pid'' = no_pid o'"
  "str_field (js_owner o') ''node'' = no_node o'"
  "str_field (js_owner o') ''ns'' = no_ns o'"
  "str_field (js_owner o') ''start'' = no_start o'"
  "str_field (js_owner o') ''since'' = Some (no_since o')"
  "str_field (js_owner o') ''host'' = None"
  by (auto simp: js_owner_def str_field_def own_of_def split: option.splits)

lemma storable_owner: "numeric_pid o' \<Longrightarrow> storable (js_owner o')"
  by (auto simp: js_owner_def numeric_pid_def split: option.splits)

lemma read_written:
  "v_owner v = Some (show_js (js_owner (own_record_of h)) @ [CHR 10]) \<Longrightarrow> read_owner v = Some (own_record_of h)"
proof -
  assume v: "v_owner v = Some (show_js (js_owner (own_record_of h)) @ [CHR 10])"
  let ?s = "show_js (js_owner (own_record_of h))"
  have num: "numeric_pid (own_record_of h)" by (simp add: numeric_pid_def own_record_of_def)
  have "number_ends [CHR 10]" by (simp add: number_ends_def is_digit_def)
  from parse_show(1) [OF storable_owner [OF num] this, of "Suc (length (?s @ [CHR 10]))"]
  have "parse_json (?s @ [CHR 10]) = Some (js_owner (own_record_of h))"
    by (simp add: parse_json_def skip_ws_def is_json_space_def)
  moreover have "owner_of_js (js_owner (own_record_of h)) = Some (own_record_of h)"
  proof -
    have "typeof (js_owner (own_record_of h)) = ''object''" "js_owner (own_record_of h) \<noteq> JNull"
      by (simp_all add: js_owner_def)
    then show ?thesis unfolding owner_of_js_def by (simp add: own_record_of_def)
  qed
  ultimately show ?thesis using v by (simp add: read_owner_def)
qed

text \<open>Two processes of one machine, which share its namespace, its name and its node.\<close>

definition same_place :: "machine \<Rightarrow> machine \<Rightarrow> bool" where
  "same_place h g \<longleftrightarrow> h_hostname h = h_hostname g \<and> h_ns h = h_ns g \<and> node_id h = node_id g \<and> h_pid h \<noteq> h_pid g"

text \<open>
  A process that claimed the directory or cleared its lock, with its record
  written, keeps the lock against every later start in the same place while it runs: the later start
  finds the lock the store created, answers that the owner is alive and changes nothing. So two starts
  in one place, one after the other, never both get the store.
\<close>

theorem live_owner_keeps_lock:
  assumes first: "reclaim_state_machine h (Some d) v = (Inr r, u)" "\<not> v_lock u" "v_write v = None" and d: "d \<noteq> []"
    and place: "same_place h g" and pid: "0 < h_pid h"
    and alive: "h_signal g (h_pid h) \<noteq> NoProcess"
    and start: "process_start_time g (h_pid h) = process_start_time h (h_pid h)"
  shows "reclaim_state_machine g (Some d) (u\<lparr>v_lock := True\<rparr>) =
    (Inr (Kept OwnerAlive (own_record_of h)), u\<lparr>v_lock := True\<rparr>)"
proof -
  have "v_owner u = Some (show_js (js_owner (own_record_of h)) @ [CHR 10])"
  proof (cases "v_lock v")
    case False
    from claims [OF this d, of h] first show ?thesis by auto
  next
    case True
    show ?thesis
    proof (cases "case read_owner v of None \<Rightarrow> True | Some o' \<Rightarrow> \<not> must_keep h o'")
      case False
      then obtain o' where "read_owner v = Some o'" "must_keep h o'" by (auto split: option.splits)
      from keeps [OF True this d] first True show ?thesis by simp
    next
      case stale: True
      show ?thesis
      proof (cases "v_rm v")
        case None
        from clears [OF True stale d None] first show ?thesis by auto
      next
        case (Some m)
        from stuck_lock [OF True stale d Some] first True show ?thesis by simp
      qed
    qed
  qed
  then have rec: "read_owner (u\<lparr>v_lock := True\<rparr>) = Some (own_record_of h)"
    using read_written [of "u\<lparr>v_lock := True\<rparr>" h] by simp
  have "owner_still_running g (own_record_of h)"
    using pid alive start by (auto simp: owner_still_running_def own_record_of_def split: option.split)
  moreover have "interpretable_here g (own_record_of h)" "\<not> foreign g (own_record_of h)"
    using place by (auto simp: interpretable_here_def own_record_of_def pid_namespace_def same_place_def foreign_def split: option.splits)
  moreover have "no_pid (own_record_of h) \<noteq> JInt (h_pid g)" using place by (simp add: own_record_of_def same_place_def)
  ultimately have "must_keep g (own_record_of h)" "\<not> foreign g (own_record_of h)"
    by (simp_all add: must_keep_def may_run_def)
  from keeps [OF _ rec this(1) d] this(2) show ?thesis by simp
qed

definition demo_machine :: "int \<Rightarrow> machine" where
  "demo_machine pid = \<lparr>h_pid = pid, h_hostname = ''box'', h_ns = Some ''pid:[1]'', h_stat = (\<lambda>_. None),
     h_signal = (\<lambda>_. Delivered), h_node = None, h_now = ''t''\<rparr>"

definition empty_volume :: volume where
  "empty_volume = \<lparr>v_lock = False, v_owner = None, v_rm = None, v_write = None\<rparr>"

theorem lock_kept_or_stale_witness:
  "let v = \<lparr>v_lock = True, v_owner = Some (show_js (js_owner (own_record_of (demo_machine 7))) @ [CHR 10]),
         v_rm = None, v_write = None\<rparr>
   in snd (reclaim_state_machine (demo_machine 8) (Some ''/data'') v) = v"
proof -
  let ?v = "\<lparr>v_lock = True, v_owner = Some (show_js (js_owner (own_record_of (demo_machine 7))) @ [CHR 10]),
         v_rm = None, v_write = None\<rparr>"
  have r: "read_owner ?v = Some (own_record_of (demo_machine 7))" by (rule read_written) simp
  have "must_keep (demo_machine 8) (own_record_of (demo_machine 7))"
    by (simp add: must_keep_def may_run_def foreign_def owner_still_running_def interpretable_here_def own_record_of_def
        demo_machine_def pid_namespace_def node_id_def process_start_time_def)
  with lock_kept_or_stale [of "demo_machine 8" "Some ''/data''" ?v] r show ?thesis by (simp add: Let_def)
qed

theorem live_owner_keeps_lock_witness:
  "\<exists>u. snd (reclaim_state_machine (demo_machine 7) (Some ''/data'') empty_volume) = u \<and>
     fst (reclaim_state_machine (demo_machine 8) (Some ''/data'') (u\<lparr>v_lock := True\<rparr>)) =
       Inr (Kept OwnerAlive (own_record_of (demo_machine 7)))"
proof -
  have "\<not> v_lock empty_volume" by (simp add: empty_volume_def)
  from claims [OF this, of "''/data''" "demo_machine 7"]
  have first: "reclaim_state_machine (demo_machine 7) (Some ''/data'') empty_volume =
      (Inr (Claimed (own_record_of (demo_machine 7))),
       empty_volume\<lparr>v_owner := Some (show_js (js_owner (own_record_of (demo_machine 7))) @ [CHR 10])\<rparr>)"
    by (simp add: empty_volume_def)
  have "fst (reclaim_state_machine (demo_machine 8) (Some ''/data'')
      (snd (reclaim_state_machine (demo_machine 7) (Some ''/data'') empty_volume)\<lparr>v_lock := True\<rparr>)) =
    Inr (Kept OwnerAlive (own_record_of (demo_machine 7)))"
    unfolding first snd_conv
    by (subst live_owner_keeps_lock [OF first])
      (simp_all add: empty_volume_def demo_machine_def same_place_def node_id_def process_start_time_def)
  then show ?thesis by blast
qed

text \<open>
  A start whose record could not be written runs without one, and the next start in the same place
  takes the lock away from it while it runs.
\<close>

lemma unrecorded_owner_loses_lock:
  assumes d: "d \<noteq> []" and v: "\<not> v_lock v" "v_write v = Some None" "v_rm v = None"
    and u: "snd (reclaim_state_machine h (Some d) v) = u"
  shows "fst (reclaim_state_machine h (Some d) v) = Inr (Claimed (own_record_of h)) \<and>
    fst (reclaim_state_machine g (Some d) (u\<lparr>v_lock := True\<rparr>)) = Inr (Cleared NoOwnerRecord None) \<and>
    \<not> v_lock (snd (reclaim_state_machine g (Some d) (u\<lparr>v_lock := True\<rparr>)))"
proof -
  have u': "u = v\<lparr>v_owner := None\<rparr>" using claims [OF v(1) d, of h] v u by simp
  have "reclaim_state_machine h (Some d) v = (Inr (Claimed (own_record_of h)), v\<lparr>v_owner := None\<rparr>)"
    using claims [OF v(1) d, of h] v by simp
  moreover have "reclaim_state_machine g (Some d) (u\<lparr>v_lock := True\<rparr>) =
      (Inr (Cleared NoOwnerRecord None), v\<lparr>v_owner := None, v_lock := False\<rparr>)"
    using v d
    by (simp add: u' reclaim_state_machine_def catch_run decide_def read_owner_def rm_lock_def write_owner_def bnd_run)
  ultimately show ?thesis by simp
qed

text \<open>
  Two starts that both run before the store creates its lock both claim the directory. The record
  then names the second; if that one ends, the third start clears the lock of the first.
\<close>

lemma overlapping_claims:
  assumes d: "d \<noteq> []" and v: "\<not> v_lock v" "v_write v = None" "v_rm v = None"
    and place: "same_place g k" "h_signal k (h_pid g) = NoProcess" "0 < h_pid g"
    and u: "u = snd (reclaim_state_machine g (Some d) (snd (reclaim_state_machine h (Some d) v)))"
  shows "fst (reclaim_state_machine g (Some d) (snd (reclaim_state_machine h (Some d) v))) = Inr (Claimed (own_record_of g)) \<and>
    \<not> v_lock (snd (reclaim_state_machine k (Some d) (u\<lparr>v_lock := True\<rparr>)))"
proof -
  let ?t = "show_js (js_owner (own_record_of g)) @ [CHR 10]"
  have h: "snd (reclaim_state_machine h (Some d) v) = v\<lparr>v_owner := Some (show_js (js_owner (own_record_of h)) @ [CHR 10])\<rparr>"
    using claims [OF v(1) d, of h] v by simp
  have g: "reclaim_state_machine g (Some d) (snd (reclaim_state_machine h (Some d) v)) =
      (Inr (Claimed (own_record_of g)), v\<lparr>v_owner := Some ?t\<rparr>)"
    unfolding h using claims [of "v\<lparr>v_owner := Some (show_js (js_owner (own_record_of h)) @ [CHR 10])\<rparr>" d g] v d by simp
  have u': "u = v\<lparr>v_owner := Some ?t\<rparr>" using u g by simp
  have rec: "read_owner (u\<lparr>v_lock := True\<rparr>) = Some (own_record_of g)"
    using read_written [of "u\<lparr>v_lock := True\<rparr>" g] u' by simp
  have "\<not> must_keep k (own_record_of g)"
    using place by (auto simp: must_keep_def may_run_def foreign_def owner_still_running_def own_record_of_def same_place_def)
  then have stale: "case read_owner (u\<lparr>v_lock := True\<rparr>) of None \<Rightarrow> True | Some o' \<Rightarrow> \<not> must_keep k o'" by (simp add: rec)
  from clears [OF _ stale d] g v u' show ?thesis by auto
qed

end
