(* ===== verification/Mail_Notices.thy ===== *)
theory Mail_Notices
  imports Members_Kinds_Claims
begin

text \<open>
  The \<open>mailNotice\<close> kind (\<open>backend/mail/kinds.ts\<close>), the delivery rule
  (\<open>schedule.ts\<close>) and the raising of a notice (\<open>notice.ts\<close>). Instants are
  milliseconds; their texts are those of \<open>toISOString\<close>, and clock readings lie in the range
  it prints. Keys of the parameters that look like array indices, which the language would
  list first, are outside the model.
\<close>

section \<open>The kind\<close>

definition MAIL_NOTICE :: string where "MAIL_NOTICE = ''mailNotice''"

record notice_spec =
  mn_to :: string
  mn_template :: string
  mn_params :: "(string \<times> string) list"
  mn_subject :: string
  mn_reply :: "string option"

datatype notice_state = NPending | NSent | NFailed

record notice_status =
  ns_state :: notice_state
  ns_attempts :: int
  ns_error :: "string option"
  ns_sent :: "string option"
  ns_next :: "string option"

text \<open>\<open>^[a-z0-9][a-z0-9-]{0,62}$\<close>\<close>

definition template_name :: "string \<Rightarrow> bool" where
  "template_name s \<longleftrightarrow>
     (case s of
        [] \<Rightarrow> False
      | c # cs \<Rightarrow> (is_lower_alpha c \<or> is_digit c) \<and> length cs \<le> 62 \<and>
          list_all (\<lambda>c. is_lower_alpha c \<or> is_digit c \<or> c = CHR ''-'') cs)"

text \<open>
  The parameters, key by key. Assigning a text to the key \<open>__proto__\<close> leaves the object as it is.
\<close>

fun read_params :: "(string \<times> string) list \<Rightarrow> (string \<times> js) list \<Rightarrow> exn + (string \<times> string) list" where
  "read_params acc [] = Inr acc"
| "read_params acc ((k, v) # kvs) =
     (case v of
        JStr s \<Rightarrow> read_params (if k = ''__proto__'' then acc else obj_set k s acc) kvs
      | _ \<Rightarrow> Inl (InvalidSpecError MAIL_NOTICE (''params.'' @ k) (''expected a string, got '' @ typeof v)))"

definition require_params :: "js \<Rightarrow> exn + (string \<times> string) list" where
  "require_params v =
     (if nullish v then Inr []
      else (case v of
              JObj kvs \<Rightarrow> read_params [] kvs
            | _ \<Rightarrow> Inl (InvalidSpecError MAIL_NOTICE ''params'' ''expected an object of strings'')))"

definition js_params :: "(string \<times> string) list \<Rightarrow> js" where
  "js_params ps = JObj (map (\<lambda>(k, s). (k, JStr s)) ps)"

definition js_notice :: "notice_spec \<Rightarrow> js" where
  "js_notice s =
     JObj ([(''to'', JStr (mn_to s)), (''template'', JStr (mn_template s)), (''params'', js_params (mn_params s)),
            (''subject'', JStr (mn_subject s))] @ opt_field ''replyTo'' (mn_reply s))"

fun texts_of :: "(string \<times> js) list \<Rightarrow> (string \<times> string) list" where
  "texts_of [] = []"
| "texts_of ((k, v) # kvs) = (case v of JStr s \<Rightarrow> (k, s) # texts_of kvs | _ \<Rightarrow> texts_of kvs)"

definition notice_at :: "js \<Rightarrow> notice_spec" where
  "notice_at v =
     \<lparr>mn_to = text_at v ''to'', mn_template = text_at v ''template'',
      mn_params = (case js_get v ''params'' of JObj kvs \<Rightarrow> texts_of kvs | _ \<Rightarrow> []),
      mn_subject = text_at v ''subject'', mn_reply = opt_text_at v ''replyTo''\<rparr>"

definition validate_notice :: "js \<Rightarrow> exn + js" where
  "validate_notice input =
     sbind (require_object MAIL_NOTICE input) (\<lambda>obj.
     sbind (require_string MAIL_NOTICE obj ''to'') (\<lambda>raw.
       let to = to_lower (trim raw) in
       if \<not> email_shape to then
         Inl (InvalidSpecError MAIL_NOTICE ''to'' (''expected an email address, got '' @ quoted to))
       else
     sbind (require_string MAIL_NOTICE obj ''template'') (\<lambda>template.
       if \<not> template_name template then
         Inl (InvalidSpecError MAIL_NOTICE ''template''
           (''expected a template name (lowercase letters, digits and hyphens), got '' @ quoted template))
       else
     sbind (require_string MAIL_NOTICE obj ''subject'') (\<lambda>subject.
     sbind (require_params (js_get obj ''params'')) (\<lambda>params.
     sbind (optional_string MAIL_NOTICE obj ''replyTo'') (\<lambda>reply.
       if (case reply of None \<Rightarrow> False | Some r \<Rightarrow> \<not> email_shape r)
       then Inl (InvalidSpecError MAIL_NOTICE ''replyTo'' ''expected an email address'')
       else Inr (js_notice \<lparr>mn_to = to, mn_template = template, mn_params = params, mn_subject = trim subject,
                            mn_reply = map_option to_lower reply\<rparr>)))))))"

definition mail_notice_kind :: kind_def where
  "mail_notice_kind = \<lparr>kn_ref = 6, kn_name = MAIL_NOTICE, kn_tenant_scoped = True, kn_validate = validate_notice\<rparr>"

definition register_mail_kinds :: "('x cell_scheme, unit) io" where
  "register_mail_kinds = seq (register_kind mail_notice_kind) (ret ())"

subsection \<open>Statuses in a row\<close>

fun notice_state_text :: "notice_state \<Rightarrow> string" where
  "notice_state_text NPending = ''pending''"
| "notice_state_text NSent = ''sent''"
| "notice_state_text NFailed = ''failed''"

definition js_notice_status :: "notice_status \<Rightarrow> js" where
  "js_notice_status s =
     JObj ([(''state'', JStr (notice_state_text (ns_state s))), (''attempts'', JInt (ns_attempts s))] @
           opt_field ''lastError'' (ns_error s) @ opt_field ''sentAt'' (ns_sent s) @
           opt_field ''nextAttemptAt'' (ns_next s))"

definition notice_state_of :: "string \<Rightarrow> notice_state" where
  "notice_state_of s = (if s = ''sent'' then NSent else if s = ''failed'' then NFailed else NPending)"

text \<open>\<open>None\<close> is the status \<open>null\<close>.\<close>

definition notice_status_at :: "js \<Rightarrow> notice_status option" where
  "notice_status_at v =
     (if nullish v then None
      else Some \<lparr>ns_state = notice_state_of (text_at v ''state''), ns_attempts = int_at v ''attempts'',
                 ns_error = opt_text_at v ''lastError'', ns_sent = opt_text_at v ''sentAt'',
                 ns_next = opt_text_at v ''nextAttemptAt''\<rparr>)"

section \<open>Instants\<close>

definition DAY_MS :: int where "DAY_MS = 86400000"

definition iso_instant :: "int \<Rightarrow> string" where
  "iso_instant ms =
     (let day = ms div DAY_MS; t = ms mod DAY_MS
      in iso_text (civil_of (day + EPOCH)) @ ''T'' @ pad_int 2 (t div 3600000) @ '':'' @
         pad_int 2 (t div 60000 mod 60) @ '':'' @ pad_int 2 (t div 1000 mod 60) @ ''.'' @
         pad_int 3 (t mod 1000) @ ''Z'')"

text \<open>\<open>Date.parse\<close> on the texts \<open>toISOString\<close> prints for the years 0 to 9999; \<open>None\<close> is \<open>NaN\<close>.\<close>

definition parse_instant :: "string \<Rightarrow> int option" where
  "parse_instant s =
     (let digits = (\<lambda>i n. take n (drop i s)) in
      if length s = 24 \<and> s ! 10 = CHR ''T'' \<and> s ! 13 = CHR '':'' \<and> s ! 16 = CHR '':'' \<and> s ! 19 = CHR ''.'' \<and>
         s ! 23 = CHR ''Z'' \<and> list_all is_digit (digits 11 2 @ digits 14 2 @ digits 17 2 @ digits 20 3) \<and>
         digits_int (digits 11 2) \<le> 23 \<and> digits_int (digits 14 2) \<le> 59 \<and> digits_int (digits 17 2) \<le> 59
      then map_option (\<lambda>n. (n - EPOCH) * DAY_MS + digits_int (digits 11 2) * 3600000 +
             digits_int (digits 14 2) * 60000 + digits_int (digits 17 2) * 1000 + digits_int (digits 20 3))
           (parse_day (take 10 s))
      else None)"

section \<open>The delivery rule\<close>

definition MAX_ATTEMPTS :: int where "MAX_ATTEMPTS = 6"

definition BASE_BACKOFF_MS :: int where "BASE_BACKOFF_MS = 60000"

definition notice_name_for :: "string \<Rightarrow> string \<Rightarrow> string" where
  "notice_name_for kind subject = kind @ ''-'' @ subject"

definition next_attempt_after :: "int \<Rightarrow> int \<Rightarrow> string" where
  "next_attempt_after attempts now = iso_instant (now + BASE_BACKOFF_MS * 2 ^ nat (max 0 (attempts - 1)))"

datatype delivery_plan = Attempt | AlreadySent | GivenUp | NotYetDue

definition plan_for :: "notice_status option \<Rightarrow> int \<Rightarrow> delivery_plan" where
  "plan_for status now =
     (case status of
        None \<Rightarrow> Attempt
      | Some s \<Rightarrow>
          (if ns_state s = NSent then AlreadySent
           else if ns_state s = NFailed then GivenUp
           else if (case ns_next s of
                      None \<Rightarrow> False
                    | Some t \<Rightarrow> t \<noteq> [] \<and> (case parse_instant t of None \<Rightarrow> False | Some at \<Rightarrow> at > now))
             then NotYetDue
           else Attempt))"

definition attempts_of :: "notice_status option \<Rightarrow> int" where
  "attempts_of status = (case status of None \<Rightarrow> 0 | Some s \<Rightarrow> ns_attempts s)"

definition after_failure :: "notice_status option \<Rightarrow> string \<Rightarrow> int \<Rightarrow> notice_status" where
  "after_failure status error now =
     (let attempts = attempts_of status + 1;
          state = (if attempts \<ge> MAX_ATTEMPTS then NFailed else NPending)
      in \<lparr>ns_state = state, ns_attempts = attempts, ns_error = Some (take 500 error), ns_sent = None,
          ns_next = (if state = NPending then Some (next_attempt_after attempts now) else None)\<rparr>)"

definition after_success :: "notice_status option \<Rightarrow> int \<Rightarrow> notice_status" where
  "after_success status now =
     \<lparr>ns_state = NSent, ns_attempts = attempts_of status + 1, ns_error = None,
      ns_sent = Some (iso_instant now), ns_next = None\<rparr>"

section \<open>Raising a notice\<close>

definition raise_notice ::
  "kernel \<Rightarrow> string \<Rightarrow> string \<Rightarrow> string \<Rightarrow> js \<Rightarrow> string option \<Rightarrow> ('x cell_scheme, unit) io" where
  "raise_notice K tenant kind subject spec actor =
     seq (admit K MAIL_NOTICE (notice_name_for kind subject) spec
            \<lparr>ao_tenant = Some tenant, ao_fence = None, ao_actor = actor\<rparr>)
         (ret ())"

section \<open>The kind's contract\<close>

definition params_ok :: "(string \<times> string) list \<Rightarrow> bool" where
  "params_ok ps \<longleftrightarrow> distinct (map fst ps) \<and> ''__proto__'' \<notin> fst ` set ps"

definition notice_ok :: "notice_spec \<Rightarrow> bool" where
  "notice_ok s \<longleftrightarrow>
     email_ok (mn_to s) \<and> text_ok (mn_template s) \<and> template_name (mn_template s) \<and> params_ok (mn_params s) \<and>
     text_ok (mn_subject s) \<and> opt_ok email_ok (mn_reply s)"

lemma read_params_ok: "read_params acc kvs = Inr ps \<Longrightarrow> params_ok acc \<Longrightarrow> params_ok ps"
  by (induction acc kvs rule: read_params.induct)
     (auto simp: params_ok_def distinct_obj_set keys_obj_set split: js.splits if_splits)

lemma read_params_err: "read_params acc kvs = Inl e \<Longrightarrow> \<exists>f m. e = InvalidSpecError MAIL_NOTICE f m"
  by (induction acc kvs rule: read_params.induct) (auto split: js.splits)

lemma read_params_reads:
  "params_ok (acc @ ps) \<Longrightarrow> read_params acc (map (\<lambda>(k, s). (k, JStr s)) ps) = Inr (acc @ ps)"
proof (induction ps arbitrary: acc)
  case (Cons p ps)
  obtain k s where p: "p = (k, s)" by (cases p)
  have "obj_set k s acc = acc @ [(k, s)]" using Cons.prems by (intro obj_set_fresh) (auto simp: p params_ok_def)
  moreover have "k \<noteq> ''__proto__''" using Cons.prems by (auto simp: p params_ok_def)
  ultimately show ?case using Cons.IH [of "acc @ [(k, s)]"] Cons.prems by (simp add: p)
qed simp

lemma require_params_ok: "require_params v = Inr ps \<Longrightarrow> params_ok ps"
  using read_params_ok [of "[]"]
  by (auto simp: require_params_def params_ok_def split: js.splits if_splits)

lemma require_params_err: "require_params v = Inl e \<Longrightarrow> \<exists>f m. e = InvalidSpecError MAIL_NOTICE f m"
  using read_params_err by (auto simp: require_params_def split: js.splits if_splits)

lemma require_params_reads: "params_ok ps \<Longrightarrow> require_params (js_params ps) = Inr ps"
  using read_params_reads [of "[]" ps] by (simp add: require_params_def js_params_def nullish_def)

lemma texts_of_params [simp]: "texts_of (map (\<lambda>(k, s). (k, JStr s)) ps) = ps"
  by (induction ps) auto

lemma notice_at_js [simp]: "notice_at (js_notice s) = s"
  by (simp add: notice_at_def js_notice_def at_defs js_params_def)

lemma js_params_storable: "distinct (map fst ps) \<Longrightarrow> storable (js_params ps)"
  by (auto simp: js_params_def list_all_iff comp_def case_prod_unfold)

end
