(* ===== verification/Mail_Notices_Claims.thy ===== *)
theory Mail_Notices_Claims
  imports Mail_Notices
begin

text \<open>
  What the delivery rule promises: the instants it stores are read back exactly, a failed notice is
  due again when its backoff has elapsed and not before, six failures are final, and raising a
  notice twice raises one.
\<close>

lemma if_Inl_Inr: "(if b then Inl e else x) = Inr y \<longleftrightarrow> \<not> b \<and> x = Inr y"
  by simp

interpretation notice: validated_kind MAIL_NOTICE validate_notice notice_ok js_notice notice_at
proof
  show "notice_ok (notice_at w) \<and> w = js_notice (notice_at w)" if "validate_notice v = Inr w" for v w
  proof -
    obtain obj raw tpl subj ps reply where o: "require_object MAIL_NOTICE v = Inr obj"
      and raw: "require_string MAIL_NOTICE obj ''to'' = Inr raw" "email_shape (to_lower (trim raw))"
      and tpl: "require_string MAIL_NOTICE obj ''template'' = Inr tpl" "template_name tpl"
      and subj: "require_string MAIL_NOTICE obj ''subject'' = Inr subj"
      and ps: "require_params (js_get obj ''params'') = Inr ps"
      and reply: "optional_string MAIL_NOTICE obj ''replyTo'' = Inr reply" "\<not> (case reply of None \<Rightarrow> False | Some r \<Rightarrow> \<not> email_shape r)"
      and w: "w = js_notice \<lparr>mn_to = to_lower (trim raw), mn_template = tpl, mn_params = ps, mn_subject = trim subj,
                            mn_reply = map_option to_lower reply\<rparr>"
      using \<open>validate_notice v = Inr w\<close> unfolding validate_notice_def sbind_Inr_iff Let_def if_Inl_Inr sum.inject by blast
    have low: "text_ok s \<Longrightarrow> text_ok (to_lower s)" for s by (simp add: text_ok_def) (simp add: to_lower_def)
    have "email_ok (to_lower (trim raw))"
      using require_string_ok [OF raw(1)] raw(2) low [of raw] by (simp add: email_ok_def text_ok_def)
    moreover have "opt_ok email_ok (map_option to_lower reply)"
      using optional_string_ok [OF reply(1)] reply(2) low
      by (cases reply) (auto simp: opt_ok_def email_ok_def email_shape_lower)
    moreover have "text_ok (trim subj)" "text_ok tpl"
      using require_string_ok [OF subj] require_string_ok [OF tpl(1)] by (simp_all add: text_ok_def)
    ultimately show ?thesis using tpl(2) require_params_ok [OF ps] by (simp add: w notice_ok_def)
  qed
  show "validate_notice (js_notice s) = Inr (js_notice s)" if "notice_ok s" for s
  proof -
    have ok: "email_ok (mn_to s)" "text_ok (mn_template s)" "template_name (mn_template s)" "params_ok (mn_params s)"
      "text_ok (mn_subject s)" "opt_ok email_ok (mn_reply s)"
      using that by (simp_all add: notice_ok_def)
    have reply: "optional_string MAIL_NOTICE (js_notice s) ''replyTo'' = Inr (mn_reply s)"
      using ok(6) by (intro optional_string_reads) (auto simp: js_notice_def opt_ok_def email_ok_def split: option.splits)
    have same: "map_option to_lower (mn_reply s) = mn_reply s"
      "\<not> (case mn_reply s of None \<Rightarrow> False | Some r \<Rightarrow> \<not> email_shape r)"
      using ok(6) by (auto simp: opt_ok_def email_ok_def split: option.splits)
    have obj: "require_object MAIL_NOTICE (js_notice s) = Inr (js_notice s)" by (simp add: js_notice_def)
    have fields: "js_get (js_notice s) ''to'' = JStr (mn_to s)" "js_get (js_notice s) ''template'' = JStr (mn_template s)"
      "js_get (js_notice s) ''subject'' = JStr (mn_subject s)" "js_get (js_notice s) ''params'' = js_params (mn_params s)"
      by (simp_all add: js_notice_def)
    have to: "require_string MAIL_NOTICE (js_notice s) ''to'' = Inr (mn_to s)" "to_lower (trim (mn_to s)) = mn_to s"
      "email_shape (mn_to s)"
      using ok(1) fields by (simp_all add: email_ok_def reads) (simp add: text_ok_def)
    have subj: "trim (mn_subject s) = mn_subject s" using ok(5) by (simp add: text_ok_def)
    show ?thesis
      using ok(2-5)
      by (simp add: validate_notice_def obj to subj Let_def reads fields require_params_reads reply same)
        (simp add: js_notice_def)
  qed
  show "notice_at (js_notice s) = s" for s by simp
  show "storable (js_notice s)" if "notice_ok s" for s
    using that js_params_storable [of "mn_params s"] by (simp add: js_notice_def notice_ok_def params_ok_def)
  show "\<exists>f m. e = InvalidSpecError MAIL_NOTICE f m" if "validate_notice v = Inl e" for v e
    using that
    by (auto simp: validate_notice_def sbind_Inl_iff Let_def dest: read_err require_params_err split: if_splits)
qed

section \<open>Instants\<close>

text \<open>The instants whose year has four digits.\<close>

definition printable_instant :: "int \<Rightarrow> bool" where
  "printable_instant ms \<longleftrightarrow> 0 \<le> ms div DAY_MS + EPOCH \<and> ms div DAY_MS + EPOCH < year_start 10000"

lemma pad_clock:
  assumes "0 \<le> i" and "i < 60"
  shows "length (pad_int 2 i) = 2" "list_all is_digit (pad_int 2 i)" "digits_int (pad_int 2 i) = i"
  using pad_int_facts [of i 1] assms by (simp_all add: eval_nat_numeral)

lemma pad_millis:
  assumes "0 \<le> i" and "i < 1000"
  shows "length (pad_int 3 i) = 3" "list_all is_digit (pad_int 3 i)" "digits_int (pad_int 3 i) = i"
  using pad_int_facts [of i 2] assms by (simp_all add: eval_nat_numeral)

lemma clock_parts:
  fixes t :: int
  shows "t = t div 3600000 * 3600000 + t div 60000 mod 60 * 60000 + t div 1000 mod 60 * 1000 + t mod 1000"
proof -
  have sum: "x = h * 3600000 + m * 60000 + s * 1000 + r"
    if "x = a * 1000 + r" "a = b * 60 + s" "b = h * 60 + m" for x a b h m s r :: int
    using that by simp
  have mins: "t div 1000 div 60 = t div 60000" using zdiv_zmult2_eq [of 60 t 1000] by simp
  have hours: "t div 60000 div 60 = t div 3600000" using zdiv_zmult2_eq [of 60 t 60000] by simp
  show ?thesis
    by (rule sum [of t "t div 1000" _ "t div 60000"])
      (simp_all only: mins [symmetric] hours [symmetric] div_mult_mod_eq)
qed

lemma below_60: "x mod 60 < 60" "0 \<le> x mod 60" "x mod 60 \<le> 59" for x :: int
  by simp_all

lemma hour_range:
  assumes "0 \<le> (t::int)" and "t < 86400000"
  shows "0 \<le> t div 3600000" "t div 3600000 \<le> 23" "t div 3600000 < 60"
proof -
  show "0 \<le> t div 3600000" using assms(1) by (simp add: pos_imp_zdiv_nonneg_iff)
  have mono: "t div 3600000 \<le> 86399999 div 3600000" using assms by (intro zdiv_mono1) simp_all
  show "t div 3600000 \<le> 23" using mono by simp
  show "t div 3600000 < 60" using mono by simp
qed

lemma iso_instant_back:
  assumes "printable_instant ms"
  shows "parse_instant (iso_instant ms) = Some ms"
proof -
  define t where "t = ms mod DAY_MS"
  define c where "c = civil_of (ms div DAY_MS + EPOCH)"
  define H where "H = pad_int 2 (t div 3600000)"
  define M where "M = pad_int 2 (t div 60000 mod 60)"
  define S where "S = pad_int 2 (t div 1000 mod 60)"
  define L where "L = pad_int 3 (t mod 1000)"
  have t: "0 \<le> t" "t < 86400000" by (simp_all add: t_def DAY_MS_def)
  note hour = hour_range [OF t]
  have c: "printable c" using assms printable_civil_of by (simp add: c_def printable_instant_def)
  have milli: "0 \<le> t mod 1000" "t mod 1000 < 1000" by simp_all
  note h = pad_clock [OF hour(1,3), folded H_def] and m = pad_clock [OF below_60(2,1) [of "t div 60000"], folded M_def]
    and s = pad_clock [OF below_60(2,1) [of "t div 1000"], folded S_def] and l = pad_millis [OF milli, folded L_def]
  have len: "length (iso_text c) = 10" "length H = 2" "length M = 2" "length S = 2" "length L = 3"
    using length_iso_text [OF c] h(1) m(1) s(1) l(1) by (simp_all only:)
  have shape: "iso_instant ms = iso_text c @ ''T'' @ H @ '':'' @ M @ '':'' @ S @ ''.'' @ L @ ''Z''"
    by (simp add: iso_instant_def Let_def c_def t_def H_def M_def S_def L_def)
  let ?s = "iso_text c @ ''T'' @ H @ '':'' @ M @ '':'' @ S @ ''.'' @ L @ ''Z''"
  have parts: "take 10 ?s = iso_text c" "take 2 (drop 11 ?s) = H" "take 2 (drop 14 ?s) = M" "take 2 (drop 17 ?s) = S"
    "take 3 (drop 20 ?s) = L" "?s ! 10 = CHR ''T''" "?s ! 13 = CHR '':''" "?s ! 16 = CHR '':''" "?s ! 19 = CHR ''.''"
    "?s ! 23 = CHR ''Z''" "length ?s = 24"
    using len by (simp_all add: nth_append)
  note whole = clock_parts [of t]
  have day: "parse_day (iso_text c) = Some (ms div DAY_MS + EPOCH)"
    using parse_iso_text(2) [OF c] by (simp add: c_def day_number_civil_of)
  have ms: "ms = ms div DAY_MS * DAY_MS + t" by (simp add: t_def)
  have digits: "list_all is_digit (H @ M @ S @ L)" "digits_int H = t div 3600000" "digits_int M = t div 60000 mod 60"
    "digits_int S = t div 1000 mod 60" "digits_int L = t mod 1000"
    using h m s l by simp_all
  have le: "t div 3600000 \<le> 23" "t div 60000 mod 60 \<le> 59" "t div 1000 mod 60 \<le> 59"
    by (rule hour(2), rule below_60(3), rule below_60(3))
  have sum: "(x + e - e) * y + a + b + f + g = x * y + (a + b + f + g)" for x e y a b f g :: int by simp
  have "parse_instant ?s = Some ((ms div DAY_MS + EPOCH - EPOCH) * DAY_MS + t div 3600000 * 3600000 +
      t div 60000 mod 60 * 60000 + t div 1000 mod 60 * 1000 + t mod 1000)"
    unfolding parse_instant_def Let_def parts digits(2-5) day option.map
    using digits(1) le by simp
  also have "(ms div DAY_MS + EPOCH - EPOCH) * DAY_MS + t div 3600000 * 3600000 +
      t div 60000 mod 60 * 60000 + t div 1000 mod 60 * 1000 + t mod 1000 = ms"
    unfolding sum by (simp only: whole [symmetric] ms [symmetric])
  finally show ?thesis unfolding shape .
qed

section \<open>When a notice is tried again\<close>

definition delay_after :: "int \<Rightarrow> int" where
  "delay_after attempts = BASE_BACKOFF_MS * 2 ^ nat (max 0 (attempts - 1))"

lemma iso_instant_nonempty [simp]: "iso_instant ms \<noteq> []"
  by (simp add: iso_instant_def Let_def)

lemma plan_after_failure:
  assumes "attempts_of s + 1 < MAX_ATTEMPTS" and "printable_instant (t + delay_after (attempts_of s + 1))"
  shows "plan_for (Some (after_failure s e t)) now =
    (if now < t + delay_after (attempts_of s + 1) then NotYetDue else Attempt)"
  using assms iso_instant_back [OF assms(2)]
  by (simp add: plan_for_def after_failure_def Let_def next_attempt_after_def delay_after_def)

lemma plan_given_up: "MAX_ATTEMPTS \<le> attempts_of s + 1 \<Longrightarrow> plan_for (Some (after_failure s e t)) now = GivenUp"
  by (simp add: plan_for_def after_failure_def Let_def)

lemma plan_after_success: "plan_for (Some (after_success s t)) now = AlreadySent"
  by (simp add: plan_for_def after_success_def)

lemma attempts_after_failure [simp]: "attempts_of (Some (after_failure s e t)) = attempts_of s + 1"
  by (simp add: attempts_of_def after_failure_def Let_def)

text \<open>
  A failure counts one attempt. Short of the last one the notice is due again from
  the instant one backoff later, through the text the status stores, and not a millisecond before; the
  last failure and a success are final at every later time.
\<close>

theorem retry_when_due:
  assumes "printable_instant (t + delay_after (attempts_of s + 1))"
  shows "attempts_of (Some (after_failure s e t)) = attempts_of s + 1 \<and>
    (attempts_of s + 1 < MAX_ATTEMPTS \<longrightarrow> plan_for (Some (after_failure s e t)) now =
      (if now < t + delay_after (attempts_of s + 1) then NotYetDue else Attempt)) \<and>
    (MAX_ATTEMPTS \<le> attempts_of s + 1 \<longrightarrow> plan_for (Some (after_failure s e t)) now = GivenUp) \<and>
    plan_for (Some (after_success s t)) now = AlreadySent"
  using plan_after_failure [OF _ assms] plan_given_up [of s e t now] plan_after_success by simp

lemma small_instant: "0 \<le> ms \<Longrightarrow> ms < 86400000 \<Longrightarrow> printable_instant ms"
proof -
  assume "0 \<le> ms" "ms < 86400000"
  then have "ms div DAY_MS = 0" by (simp add: DAY_MS_def)
  moreover have "EPOCH < year_start 10000" "0 \<le> EPOCH" by (simp_all add: EPOCH_def year_start_def)
  ultimately show ?thesis by (simp add: printable_instant_def)
qed

theorem retry_when_due_witness:
  "plan_for (Some (after_failure None ''refused'' 0)) 59999 = NotYetDue \<and>
   plan_for (Some (after_failure None ''refused'' 0)) 60000 = Attempt"
proof -
  have "printable_instant (0 + delay_after (attempts_of None + 1))"
    by (rule small_instant) (simp_all add: delay_after_def BASE_BACKOFF_MS_def attempts_of_def)
  from retry_when_due [OF this, of "''refused''" 59999] retry_when_due [OF this, of "''refused''" 60000]
  show ?thesis by (simp add: delay_after_def BASE_BACKOFF_MS_def attempts_of_def MAX_ATTEMPTS_def)
qed

text \<open>The statuses a notice goes through when every attempt fails.\<close>

definition failures :: "string \<Rightarrow> int list \<Rightarrow> notice_status option" where
  "failures e ts = fold (\<lambda>t s. Some (after_failure s e t)) ts None"

text \<open>
  Six attempts, each as soon as it is due, take half an hour: the notice is given up thirty-one
  minutes after the first one.
\<close>

lemma given_up_in_31_minutes:
  assumes t: "printable_instant (t + 60000)" "printable_instant (t + 180000)" "printable_instant (t + 420000)"
    "printable_instant (t + 900000)" "printable_instant (t + 1860000)"
  shows "list_all (\<lambda>n. plan_for (failures e (take n (map ((+) t) [0, 60000, 180000, 420000, 900000, 1860000])))
       (t + [0, 60000, 180000, 420000, 900000, 1860000] ! n) = Attempt) [0, 1, 2, 3, 4, 5] \<and>
    plan_for (failures e (map ((+) t) [0, 60000, 180000, 420000, 900000, 1860000])) now = GivenUp"
proof -
  have due: "plan_for (Some (after_failure s e a)) b = Attempt \<and> attempts_of (Some (after_failure s e a)) = n + 1"
    if "attempts_of s = n" "n < 5" "b = a + delay_after (n + 1)" "printable_instant b" for s n a b
    using plan_after_failure [of s a e b] that by (simp add: MAX_ATTEMPTS_def)
  have d: "delay_after (0 + 1) = 60000" "delay_after (1 + 1) = 120000" "delay_after (2 + 1) = 240000"
    "delay_after (3 + 1) = 480000" "delay_after (4 + 1) = 960000"
    by (simp_all add: delay_after_def BASE_BACKOFF_MS_def)
  define s1 where "s1 = Some (after_failure None e t)"
  define s2 where "s2 = Some (after_failure s1 e (t + 60000))"
  define s3 where "s3 = Some (after_failure s2 e (t + 180000))"
  define s4 where "s4 = Some (after_failure s3 e (t + 420000))"
  define s5 where "s5 = Some (after_failure s4 e (t + 900000))"
  define s6 where "s6 = Some (after_failure s5 e (t + 1860000))"
  have p1: "plan_for s1 (t + 60000) = Attempt" "attempts_of s1 = 1"
    using due [of None 0 "t + 60000" t] t(1) d(1) by (simp_all add: s1_def attempts_of_def [of None])
  have p2: "plan_for s2 (t + 180000) = Attempt" "attempts_of s2 = 2"
    using due [OF p1(2), of "t + 180000" "t + 60000"] t(2) d(2) by (simp_all add: s2_def)
  have p3: "plan_for s3 (t + 420000) = Attempt" "attempts_of s3 = 3"
    using due [OF p2(2), of "t + 420000" "t + 180000"] t(3) d(3) by (simp_all add: s3_def)
  have p4: "plan_for s4 (t + 900000) = Attempt" "attempts_of s4 = 4"
    using due [OF p3(2), of "t + 900000" "t + 420000"] t(4) d(4) by (simp_all add: s4_def)
  have p5: "plan_for s5 (t + 1860000) = Attempt" "attempts_of s5 = 5"
    using due [OF p4(2), of "t + 1860000" "t + 900000"] t(5) d(5) by (simp_all add: s5_def)
  have p6: "plan_for s6 now = GivenUp" using plan_given_up [of s5 e "t + 1860000" now] p5(2) by (simp add: s6_def MAX_ATTEMPTS_def)
  have p0: "plan_for None t = Attempt" by (simp add: plan_for_def)
  note chain = s1_def [symmetric] s2_def [symmetric] s3_def [symmetric] s4_def [symmetric] s5_def [symmetric] s6_def [symmetric]
  show ?thesis
    using p0 p1 p2 p3 p4 p5 p6
    by (simp add: failures_def eval_nat_numeral chain)
qed

section \<open>Raising twice\<close>

lemma quiet_admit_same:
  assumes K: "permissive K" and q: "quiet w" and kind: "map_of (cl_kinds w) n = Some kind"
    and t: "tenant_of kind opts = Inr tenant" and v: "kn_validate kind spec = Inr v"
    and r: "select_one (kn_name kind, tenant, name) (w_store w) = Some r" "\<not> is_deleted r"
    "rr_spec r = show_js v" "rr_fence r = fence_of opts"
  shows "admit K n name spec opts w = (hydrate_row r, w)"
proof -
  let ?k = "(kn_name kind, tenant, name)"
  have "query_consistent K SELECT_ONE [''resource''] (in_schema ''resource'' (select_one ?k)) w = (Inr (Some r), w)"
    using q r(1) by (simp add: quiet_query_consistent [OF K q sql_accepted(1)] in_schema_def quiet_def)
  note read = bnd_ok [where m = "query_consistent K SELECT_ONE [''resource''] (in_schema ''resource'' (select_one ?k))", OF this]
  show ?thesis
    using r
    by (simp add: admit_def Let_def bnd_ok [where m = "require_kind n", OF require_found [OF kind]]
        bnd_lift [OF t] bnd_lift [OF v] read)
qed

text \<open>After a successful admission the row it is about holds the admitted spec at the fence of the write.\<close>

lemma quiet_admit_row:
  assumes "permissive K" and "quiet w" and "texts_ok (w_store w)"
    and "map_of (cl_kinds w) n = Some kind" and "tenant_of kind opts = Inr tenant"
    and "kn_validate kind spec = Inr v" and "storable v"
    and "\<And>e. fst (append_decision K e None (p_ledger w)) = Inr ()"
    and done': "admit K n name spec opts w = (Inr x, u)"
  shows "\<exists>r. select_one (kn_name kind, tenant, name) (w_store u) = Some r \<and> \<not> is_deleted r \<and>
    rr_spec r = show_js v \<and> rr_fence r = fence_of opts \<and> hydrate_row r = Inr x \<and> quiet u \<and> cl_kinds u = cl_kinds w"
proof -
  let ?k = "(kn_name kind, tenant, name)"
  let ?row = "admitted_row ?k (fence_of opts) (show_js v) (w_now w) (w_store w)"
  note ad = quiet_admit [OF assms(1-8), of name]
  have wf: "store_wf (w_store w)" using assms(2) by (simp add: quiet_def)
  have row: "\<not> is_deleted ?row" "rr_spec ?row = show_js v" "rr_fence ?row = fence_of opts"
    by (simp_all add: admitted_row_def is_deleted_def split: option.split)
  have key: "key_of ?row = ?k" by (rule key_admitted)
  have com: "\<exists>r. select_one ?k (w_store u) = Some r \<and> \<not> is_deleted r \<and> rr_spec r = show_js v \<and>
      rr_fence r = fence_of opts \<and> hydrate_row r = Inr x \<and> quiet u \<and> cl_kinds u = cl_kinds w"
    if ok: "case select_one ?k (w_store w) of None \<Rightarrow> True | Some r \<Rightarrow> rr_fence r \<le> fence_of opts"
      and u: "hydrate_row ?row = Inr x"
        "u = finished K ?row op (ao_actor opts) False (w\<lparr>w_store := commit_row ?row op (w_now w) (w_store w)\<rparr>)" for op
  proof -
    have c: "committed (w_store w) ?row op (w_now w) (commit_row ?row op (w_now w) (w_store w))"
      using committed_admitted [OF ok wf] .
    have "quiet u" using quiet_commit [OF assms(2) c] by (simp add: u(2) quiet_def finished_def)
    moreover have "select_one ?k (w_store u) = Some ?row"
      using select_committed [OF c wf] key by (simp add: u(2) finished_def)
    ultimately show ?thesis using row u by (auto simp: finished_def)
  qed
  show ?thesis
  proof (cases "select_one ?k (w_store w)")
    case None
    with ad done' com [of Created] show ?thesis by (simp add: Let_def)
  next
    case (Some r)
    have "\<not> fence_of opts < rr_fence r" using ad done' Some by (auto simp: Let_def)
    moreover have ?thesis if "\<not> is_deleted r \<and> rr_spec r = show_js v \<and> rr_fence r = fence_of opts"
      using ad done' Some that assms(2) by (auto simp: Let_def)
    ultimately show ?thesis
      using ad done' Some com [of "if is_deleted r then Created else Updated"] by (fastforce simp: Let_def)
  qed
qed

text \<open>
  A notice raised again under the name it was raised under, with the same wording,
  changes nothing at all: no row, no revision, no Decision, no event. So reconciling a membership any number
  of times raises one reminder.
\<close>

theorem raised_once:
  assumes "permissive K" and "quiet w" and "texts_ok (w_store w)"
    and "map_of (cl_kinds w) MAIL_NOTICE = Some mail_notice_kind" and "tenant \<noteq> []"
    and "\<And>e. fst (append_decision K e None (p_ledger w)) = Inr ()"
    and "raise_notice K tenant kind subject spec actor w = (Inr (), u)"
  shows "raise_notice K tenant kind subject spec actor u = (Inr (), u)"
proof -
  let ?o = "\<lparr>ao_tenant = Some tenant, ao_fence = None, ao_actor = actor\<rparr>"
  have t: "tenant_of mail_notice_kind ?o = Inr tenant"
    using assms(5) by (simp add: tenant_of_def mail_notice_kind_def given_def)
  obtain x where first: "admit K MAIL_NOTICE (notice_name_for kind subject) spec ?o w = (Inr x, u)"
    using assms(7) by (auto simp: raise_notice_def bnd_Inr_iff)
  have vk: "kn_validate mail_notice_kind = validate_notice" by (simp add: mail_notice_kind_def)
  obtain v where v: "validate_notice spec = Inr v"
    using first
    by (cases "validate_notice spec")
       (auto simp: admit_def bnd_run require_found [OF assms(4)] t vk)
  note v' = v [folded vk] and st = notice.validated(4) [OF v]
  obtain r where r: "select_one (kn_name mail_notice_kind, tenant, notice_name_for kind subject) (w_store u) = Some r"
      "\<not> is_deleted r" "rr_spec r = show_js v" "rr_fence r = fence_of ?o" and h: "hydrate_row r = Inr x"
      and u: "quiet u" "cl_kinds u = cl_kinds w"
    using quiet_admit_row [OF assms(1-4) t v' st assms(6) first] by blast
  have "map_of (cl_kinds u) MAIL_NOTICE = Some mail_notice_kind" using assms(4) u(2) by simp
  from quiet_admit_same [OF assms(1) u(1) this t v' r] h show ?thesis
    by (simp add: raise_notice_def bnd_run)
qed

definition demo_notice :: notice_spec where
  "demo_notice = \<lparr>mn_to = ''ada@x.org'', mn_template = ''dues-reminder'', mn_params = [(''memberName'', ''Ada'')],
     mn_subject = ''Dues'', mn_reply = None\<rparr>"

lemma demo_notice_ok: "notice_ok demo_notice"
  by code_simp

theorem raised_once_witness:
  "let w = (demo_cell note_store [])\<lparr>cl_kinds := [(MAIL_NOTICE, mail_notice_kind)]\<rparr> in
   \<exists>u. raise_notice allow_kernel ''t'' ''dues-reminder'' ''i'' (js_notice demo_notice) None w = (Inr (), u) \<and> u \<noteq> w \<and>
     raise_notice allow_kernel ''t'' ''dues-reminder'' ''i'' (js_notice demo_notice) None u = (Inr (), u)"
proof -
  let ?w = "(demo_cell note_store [])\<lparr>cl_kinds := [(MAIL_NOTICE, mail_notice_kind)]\<rparr>"
  let ?o = "\<lparr>ao_tenant = Some ''t'', ao_fence = None, ao_actor = None\<rparr>"
  have q: "quiet ?w" using note_quiet by (simp add: quiet_def demo_cell_def)
  have tx: "texts_ok (w_store ?w)" using note_texts by (simp add: demo_cell_def)
  have kind: "map_of (cl_kinds ?w) MAIL_NOTICE = Some mail_notice_kind" by simp
  have led: "fst (append_decision allow_kernel e None (p_ledger ?w)) = Inr ()" for e
    using open_ledger_appends by (simp add: demo_cell_def)
  have t: "tenant_of mail_notice_kind ?o = Inr ''t''" by (simp add: tenant_of_def mail_notice_kind_def given_def)
  have v: "kn_validate mail_notice_kind (js_notice demo_notice) = Inr (js_notice demo_notice)"
    using notice.normal [OF demo_notice_ok] by (simp add: mail_notice_kind_def)
  have st: "storable (js_notice demo_notice)" by (rule notice.rows [OF demo_notice_ok])
  have none: "select_one (kn_name mail_notice_kind, ''t'', notice_name_for ''dues-reminder'' ''i'') (w_store ?w) = None"
    by (simp add: demo_cell_def note_store_def migrated_store_def empty_store_def select_one_def note_row_def key_of_def
        mail_notice_kind_def MAIL_NOTICE_def)
  let ?row = "admitted_row (kn_name mail_notice_kind, ''t'', notice_name_for ''dues-reminder'' ''i'') 0
      (show_js (js_notice demo_notice)) (w_now ?w) (w_store ?w)"
  have "rr_status ?row = None" "rr_spec ?row = show_js (js_notice demo_notice)"
    unfolding admitted_row_def none by simp_all
  then obtain x where x: "hydrate_row ?row = Inr x"
    by (auto simp: hydrate_row_def parse_or_throw_def parse_stringify [OF st])
  obtain u where u: "admit allow_kernel MAIL_NOTICE (notice_name_for ''dues-reminder'' ''i'') (js_notice demo_notice) ?o ?w = (Inr x, u)"
    and bus: "w_bus u \<noteq> w_bus ?w"
    using quiet_admit [OF allow_permissive q tx kind t v st led] none x
    by (auto simp: fence_of_def Let_def finished_def)
  then have first: "raise_notice allow_kernel ''t'' ''dues-reminder'' ''i'' (js_notice demo_notice) None ?w = (Inr (), u)"
    by (simp add: raise_notice_def bnd_run)
  from raised_once [OF allow_permissive q tx kind _ led first] first bus show ?thesis by (auto simp: Let_def)
qed

end
