(* ===== verification/Members_Edge.thy ===== *)
theory Members_Edge
  imports Renewal Controller
begin

text \<open>
  The edge of the membership domain: which association a deployment serves and whether its store
  agrees (\<open>backend/members/tenant.ts\<close>), which member record is a session's own
  (\<open>identity.ts\<close>), and the translation of errors and the fence rule of a human write
  (\<open>store.ts\<close>). The world \<open>app\<close> adds the process environment, the memoized tenant
  and the reading of the calendar.
\<close>

record app = ctl_world +
  ap_env :: "(string \<times> string) list"
  ap_tenant :: "string option"              \<comment> \<open>\<open>resolved\<close>\<close>
  ap_today :: string
  ap_warnings :: "string list"              \<comment> \<open>what the domain logged as warnings, by message\<close>

section \<open>The tenant seam\<close>

definition is_production :: "'x app_scheme \<Rightarrow> bool" where
  "is_production w \<longleftrightarrow> map_of (ap_env w) ''NODE_ENV'' = Some ''production''"

definition slug_char :: "char \<Rightarrow> bool" where
  "slug_char c \<longleftrightarrow> is_lower_alpha c \<or> is_digit c"

text \<open>\<open>^[a-z0-9][a-z0-9-]{1,62}$\<close>\<close>

definition is_slug :: "string \<Rightarrow> bool" where
  "is_slug s \<longleftrightarrow>
     (case s of
        [] \<Rightarrow> False
      | c # cs \<Rightarrow> slug_char c \<and> 1 \<le> length cs \<and> length cs \<le> 62 \<and> list_all (\<lambda>c. slug_char c \<or> c = CHR ''-'') cs)"

definition configured_tenant :: "'x app_scheme \<Rightarrow> exn + string" where
  "configured_tenant w =
     (let configured = (case map_of (ap_env w) ''ENRAHITU_TENANT'' of None \<Rightarrow> [] | Some s \<Rightarrow> trim s) in
      if configured = [] then
        (if is_production w
         then Inl (Failure ''ENRAHITU_TENANT is required: it names the association this deployment serves and seeds every resource key. Set it at provisioning to a stable slug and never change it.'')
         else Inr ''local-dev'')
      else if \<not> is_slug configured then
        Inl (Failure (''ENRAHITU_TENANT '' @ quoted configured @ '' is not a valid slug: lowercase letters, digits and hyphens, 2 to 63 characters, starting with a letter or digit.''))
      else Inr configured)"

definition tenant_id :: "('x app_scheme, string) io" where
  "tenant_id =
     bnd (gets ap_tenant) (\<lambda>memo.
       case memo of
         Some t \<Rightarrow> ret t
       | None \<Rightarrow>
           bnd (gets configured_tenant) (\<lambda>r.
           bnd (lift r) (\<lambda>t. seq (modify (\<lambda>w. w\<lparr>ap_tenant := Some t\<rparr>)) (ret t))))"

text \<open>
  The distinct tenants of all rows, tombstones included, in order, at most five.
\<close>

definition stored_tenants :: "store \<Rightarrow> string list" where
  "stored_tenants s = take 5 (sort (remdups (filter (\<lambda>t. t \<noteq> []) (map rr_tenant (s_rows s)))))"

definition TENANTS_SQL :: string where
  "TENANTS_SQL = ''SELECT DISTINCT tenant FROM resource WHERE tenant <> '' @ quoted [] @ '' ORDER BY tenant LIMIT 5''"

definition assert_tenant_consistency :: "kernel \<Rightarrow> ('x app_scheme, unit) io" where
  "assert_tenant_consistency K =
     bnd tenant_id (\<lambda>mine.
     bnd (query K TENANTS_SQL [''resource''] (in_schema ''resource'' stored_tenants)) (\<lambda>rows.
       let foreign = filter (\<lambda>t. t \<noteq> mine) rows in
       if foreign = [] then ret () else throw (TenantMismatchError mine foreign)))"

section \<open>A session's own record\<close>

record session_identity =
  se_user :: string
  se_email :: string
  se_verified :: bool

definition find_linked_member :: "('m \<Rightarrow> member_spec) \<Rightarrow> 'm list \<Rightarrow> session_identity \<Rightarrow> 'm option" where
  "find_linked_member spec members session =
     (case (if se_user session \<noteq> [] then find (\<lambda>m. me_sub (spec m) = Some (se_user session)) members else None) of
        Some m \<Rightarrow> Some m
      | None \<Rightarrow>
          (if \<not> se_verified session then None
           else
             let email = to_lower (trim (se_email session)) in
             if email = [] then None else find (\<lambda>m. me_email (spec m) = email) members))"

section \<open>Errors at the edge\<close>

definition SCHEMA_ABSENT :: string where
  "SCHEMA_ABSENT = ''the control plane schema has not been applied to this deployment yet, so the membership surface cannot serve. An operator applies it once, as a deploy step, before any of the association's records can be created.''"

definition missing_table :: "string \<Rightarrow> bool" where
  "missing_table m \<longleftrightarrow> contains_ci ''no such table'' m \<or> contains_ci ''does not exist'' m"

definition to_api_error :: "exn \<Rightarrow> exn" where
  "to_api_error e =
     (case e of
        APIError c m d \<Rightarrow> APIError c m d
      | _ \<Rightarrow>
          (if missing_table (err_message e) then APIError Unavailable SCHEMA_ABSENT []
           else
             (case e of
                InvalidSpecError k f m \<Rightarrow> APIError InvalidArgument (err_message e) ''INVALID_SPEC''
              | TenancyError m \<Rightarrow> APIError InvalidArgument (err_message e) []
              | SupersededError k n f \<Rightarrow> APIError Aborted (err_message e) ''SUPERSEDED''
              | _ \<Rightarrow> e)))"

definition guarded :: "('w, 'a) io \<Rightarrow> ('w, 'a) io" where
  "guarded fn = catch fn (\<lambda>e. throw (to_api_error e))"

record write_options =
  wr_tenant :: string
  wr_actor :: "string option"
  wr_expected :: "int option"

definition tenant_only :: "string \<Rightarrow> admit_options" where
  "tenant_only t = \<lparr>ao_tenant = Some t, ao_fence = None, ao_actor = None\<rparr>"

definition write_spec ::
  "kernel \<Rightarrow> string \<Rightarrow> string \<Rightarrow> js \<Rightarrow> write_options \<Rightarrow> ('x app_scheme, resource) io" where
  "write_spec K kind name spec opts =
     guarded
       (bnd (case wr_expected opts of
               Some f \<Rightarrow> ret f
             | None \<Rightarrow>
                 bnd (get_resource K kind name (tenant_only (wr_tenant opts))) (\<lambda>r.
                   ret (case r of None \<Rightarrow> 0 | Some x \<Rightarrow> re_fence x))) (\<lambda>fence.
          admit K kind name spec
            \<lparr>ao_tenant = Some (wr_tenant opts), ao_fence = Some fence, ao_actor = wr_actor opts\<rparr>))"

definition schema_present :: "kernel \<Rightarrow> ('x world_scheme, bool) io" where
  "schema_present K =
     catch (query K ''SELECT name FROM sqlite_master WHERE type = 'table' AND name = $1'' [''sqlite_master'']
              (\<lambda>s. Inr (s_schema s)))
       (\<lambda>_. ret False)"

end
