(* ===== verification/Members_Edge_Claims.thy ===== *)
theory Members_Edge_Claims
  imports Members_Edge
begin

text \<open>
  What the edge promises: a store with a row of another association is refused, a session sees a
  record only through its own subject or a verified address, and a write with a stale fence is
  refused with an answer the client can act on. The limits of each are stated as lemmas beside it.
\<close>

section \<open>One association\<close>

text \<open>Five distinct tenants are enough to find a foreign one, as at most one of them is ours.\<close>

lemma five_suffice:
  assumes d: "distinct ts" and t: "t \<in> set ts" "t \<noteq> mine"
  shows "\<exists>u \<in> set (take 5 ts). u \<noteq> mine"
proof (cases "length ts \<le> 5")
  case True
  with t show ?thesis by auto
next
  case False
  then obtain a b rest where ts: "ts = a # b # rest"
    by (cases ts; cases "tl ts") auto
  with d have "a \<noteq> b" "a \<in> set (take 5 ts)" "b \<in> set (take 5 ts)" by (auto simp: eval_nat_numeral)
  then show ?thesis by (cases "a = mine") auto
qed

lemma stored_tenants_foreign:
  "filter (\<lambda>t. t \<noteq> mine) (stored_tenants s) = [] \<longleftrightarrow> (\<forall>r \<in> set (s_rows s). rr_tenant r = [] \<or> rr_tenant r = mine)"
proof -
  let ?ts = "sort (remdups (filter (\<lambda>t. t \<noteq> []) (map rr_tenant (s_rows s))))"
  have set: "set ?ts = {t \<in> rr_tenant ` set (s_rows s). t \<noteq> []}" by auto
  have "(\<forall>t \<in> set (take 5 ?ts). t = mine) \<longleftrightarrow> (\<forall>t \<in> set ?ts. t = mine)"
    using five_suffice [of ?ts _ mine] by (metis distinct_remdups distinct_sort in_set_takeD)
  then show ?thesis unfolding stored_tenants_def filter_empty_conv set by auto
qed

lemma quiet_query:
  "permissive K \<Longrightarrow> quiet w \<Longrightarrow> check_all [sql] = Inr () \<Longrightarrow> query K sql tables f w = (f (w_replica w), w)"
  by (simp add: query_def bnd_run quiet_gate)

text \<open>
  The check at start passes exactly when every row the store can show
  belongs to this deployment's association or to none; a single row of another one stops it with
  the mismatch, whatever else the store holds.
\<close>

theorem foreign_dataset_refused:
  assumes "permissive K" and "quiet w" and "s_schema (w_replica w)" and "ap_tenant w = Some mine"
  shows "if \<forall>r \<in> set (s_rows (w_replica w)). rr_tenant r = [] \<or> rr_tenant r = mine
    then assert_tenant_consistency K w = (Inr (), w)
    else \<exists>ts. ts \<noteq> [] \<and> mine \<notin> set ts \<and> assert_tenant_consistency K w = (Inl (TenantMismatchError mine ts), w)"
proof -
  let ?f = "filter (\<lambda>t. t \<noteq> mine) (stored_tenants (w_replica w))"
  have "check_all [TENANTS_SQL] = Inr ()" by code_simp
  then have "assert_tenant_consistency K w = (if ?f = [] then (Inr (), w) else (Inl (TenantMismatchError mine ?f), w))"
    using assms by (simp add: assert_tenant_consistency_def tenant_id_def bnd_run quiet_query in_schema_def Let_def)
  then show ?thesis using stored_tenants_foreign [of mine "w_replica w"] by auto
qed

definition demo_app :: "store \<Rightarrow> store_event list \<Rightarrow> (string \<times> string) list \<Rightarrow> app" where
  "demo_app s evs vars = ctl_world.extend
     (cell.extend ((demo_cell s evs)\<lparr>cl_kinds := map (\<lambda>k. (kn_name k, k)) MEMBERSHIP_KINDS\<rparr>)
        \<lparr>ct_clock = [], ct_mark = 0, ct_trace = []\<rparr>)
     \<lparr>ap_env = vars, ap_tenant = Some ''t'', ap_today = ''2026-01-05'', ap_warnings = []\<rparr>"

lemmas demo_app_defs = demo_app_def demo_cell_def cell.defs ctl_world.defs

lemma demo_app_quiet: "store_wf s \<Longrightarrow> s_schema s \<Longrightarrow> quiet (demo_app s [] vars)"
  by (simp add: quiet_def demo_app_defs)

theorem foreign_dataset_refused_witness:
  "assert_tenant_consistency allow_kernel (demo_app note_store [] []) = (Inr (), demo_app note_store [] [])"
proof -
  have q: "quiet (demo_app note_store [] [])"
    using note_quiet by (intro demo_app_quiet) (auto simp: quiet_def demo_cell_def)
  show ?thesis
    using foreign_dataset_refused [OF allow_permissive q, of "''t''"]
    by (simp add: demo_app_defs note_store_def note_row_def migrated_store_def)
qed

section \<open>A session and its record\<close>

lemma find_SomeD: "find p xs = Some x \<Longrightarrow> x \<in> set xs \<and> p x"
  by (induction xs) (auto split: if_splits)

lemma find_linked_eq:
  "find_linked_member spec members s =
     (if se_user s \<noteq> [] \<and> find (\<lambda>m. me_sub (spec m) = Some (se_user s)) members \<noteq> None
      then find (\<lambda>m. me_sub (spec m) = Some (se_user s)) members
      else if \<not> se_verified s \<or> trim (se_email s) = [] then None
      else find (\<lambda>m. me_email (spec m) = to_lower (trim (se_email s))) members)"
proof -
  have "to_lower e = [] \<longleftrightarrow> e = []" for e by (simp add: to_lower_def)
  then show ?thesis by (simp add: find_linked_member_def Let_def split: option.split)
qed

lemma linked_by_subject:
  assumes "se_user s \<noteq> []" and "find (\<lambda>m. me_sub (spec m) = Some (se_user s)) members = Some m"
  shows "find_linked_member spec members s = Some m"
  by (simp add: find_linked_eq assms)

lemma linked_by_address:
  assumes "\<not> (se_user s \<noteq> [] \<and> find (\<lambda>m. me_sub (spec m) = Some (se_user s)) members \<noteq> None)"
  shows "find_linked_member spec members s =
    (if \<not> se_verified s \<or> trim (se_email s) = [] then None
     else find (\<lambda>m. me_email (spec m) = to_lower (trim (se_email s))) members)"
  by (simp only: find_linked_eq if_not_P [OF assms])

lemma linked_SomeD:
  assumes "find_linked_member spec members s = Some m"
  shows "m \<in> set members \<and>
    ((se_user s \<noteq> [] \<and> me_sub (spec m) = Some (se_user s)) \<or>
     (se_verified s \<and> trim (se_email s) \<noteq> [] \<and> me_email (spec m) = to_lower (trim (se_email s)) \<and>
      (se_user s = [] \<or> (\<forall>n \<in> set members. me_sub (spec n) \<noteq> Some (se_user s)))))"
proof (cases "se_user s \<noteq> [] \<and> find (\<lambda>m. me_sub (spec m) = Some (se_user s)) members \<noteq> None")
  case True
  then obtain n where n: "se_user s \<noteq> []" "find (\<lambda>m. me_sub (spec m) = Some (se_user s)) members = Some n" by blast
  with linked_by_subject [OF n] assms have "n = m" by simp
  with find_SomeD [OF n(2)] n(1) show ?thesis by blast
next
  case False
  note link = linked_by_address [OF False]
  have v: "se_verified s" "trim (se_email s) \<noteq> []" using assms unfolding link by (metis option.distinct(1))+
  then have "find (\<lambda>m. me_email (spec m) = to_lower (trim (se_email s))) members = Some m"
    using assms unfolding link by simp
  from find_SomeD [OF this] v False show ?thesis by (simp add: find_None_iff) blast
qed

text \<open>
  A session is answered a record only when the record names its subject, or
  when the identity provider verified the session's address and the record carries that address
  in lower case; an empty subject matches nothing, and a record that names the subject is preferred
  to one that only carries the address. An unverified session whose subject no record names is answered none.
\<close>

theorem own_record_only:
  "(\<forall>m. find_linked_member spec members s = Some m \<longrightarrow> m \<in> set members \<and>
      ((se_user s \<noteq> [] \<and> me_sub (spec m) = Some (se_user s)) \<or>
       (se_verified s \<and> trim (se_email s) \<noteq> [] \<and> me_email (spec m) = to_lower (trim (se_email s)) \<and>
        (se_user s = [] \<or> (\<forall>n \<in> set members. me_sub (spec n) \<noteq> Some (se_user s)))))) \<and>
   ((\<exists>m \<in> set members. se_user s \<noteq> [] \<and> me_sub (spec m) = Some (se_user s)) \<longrightarrow>
      (\<exists>m. find_linked_member spec members s = Some m \<and> me_sub (spec m) = Some (se_user s))) \<and>
   (\<not> se_verified s \<and> (\<forall>m \<in> set members. me_sub (spec m) \<noteq> Some (se_user s)) \<longrightarrow>
      find_linked_member spec members s = None)"
proof (intro conjI impI)
  show "\<forall>m. find_linked_member spec members s = Some m \<longrightarrow> m \<in> set members \<and>
      ((se_user s \<noteq> [] \<and> me_sub (spec m) = Some (se_user s)) \<or>
       (se_verified s \<and> trim (se_email s) \<noteq> [] \<and> me_email (spec m) = to_lower (trim (se_email s)) \<and>
        (se_user s = [] \<or> (\<forall>n \<in> set members. me_sub (spec n) \<noteq> Some (se_user s)))))"
    by (intro allI impI) (rule linked_SomeD)
next
  assume "\<exists>m \<in> set members. se_user s \<noteq> [] \<and> me_sub (spec m) = Some (se_user s)"
  then have "se_user s \<noteq> []" "find (\<lambda>m. me_sub (spec m) = Some (se_user s)) members \<noteq> None"
    unfolding find_None_iff by blast+
  then obtain m where "se_user s \<noteq> []" "find (\<lambda>m. me_sub (spec m) = Some (se_user s)) members = Some m" by blast
  from linked_by_subject [OF this] find_SomeD [OF this(2)]
  show "\<exists>m. find_linked_member spec members s = Some m \<and> me_sub (spec m) = Some (se_user s)" by blast
next
  assume no: "\<not> se_verified s \<and> (\<forall>m \<in> set members. me_sub (spec m) \<noteq> Some (se_user s))"
  then have "find (\<lambda>m. me_sub (spec m) = Some (se_user s)) members = None" unfolding find_None_iff by blast
  with no show "find_linked_member spec members s = None" by (simp add: linked_by_address)
qed

theorem own_record_only_witness:
  "let ada = \<lparr>me_display = ''Ada'', me_email = ''ada@x.org'', me_sub = Some ''s1'', me_joined = ''2026-01-30''\<rparr>
   in find_linked_member id [ada] \<lparr>se_user = ''s2'', se_email = ''ada@x.org'', se_verified = False\<rparr> = None"
proof -
  let ?ada = "\<lparr>me_display = ''Ada'', me_email = ''ada@x.org'', me_sub = Some ''s1'', me_joined = ''2026-01-30''\<rparr>"
  show ?thesis
    using own_record_only [of id "[?ada]" "\<lparr>se_user = ''s2'', se_email = ''ada@x.org'', se_verified = False\<rparr>"]
    by (simp add: Let_def)
qed

text \<open>
  A record already bound to one subject is still answered to another subject whose verified
  address it carries: the address is matched without looking at the binding.
\<close>

lemma bound_record_by_address:
  "me_sub (spec m) = Some ''s1'' \<Longrightarrow> me_email (spec m) = ''ada@x.org'' \<Longrightarrow>
   find_linked_member spec [m] \<lparr>se_user = ''s2'', se_email = ''Ada@x.org'', se_verified = True\<rparr> = Some m"
proof -
  have "to_lower (trim ''Ada@x.org'') = ''ada@x.org''" by code_simp
  then show "me_sub (spec m) = Some ''s1'' \<Longrightarrow> me_email (spec m) = ''ada@x.org'' \<Longrightarrow>
      find_linked_member spec [m] \<lparr>se_user = ''s2'', se_email = ''Ada@x.org'', se_verified = True\<rparr> = Some m"
    by (simp add: find_linked_member_def Let_def)
qed

section \<open>Errors and the fence rule\<close>

lemma guarded_ok: "m w = (Inr a, u) \<Longrightarrow> guarded m w = (Inr a, u)"
  by (simp add: guarded_def catch_run)

lemma guarded_fails: "m w = (Inl e, u) \<Longrightarrow> \<not> exits e \<Longrightarrow> guarded m w = (Inl (to_api_error e), u)"
  by (simp add: guarded_def catch_run)

text \<open>
  An edit sent with the fence the client read is refused as superseded, with
  the store untouched, when the row carries a higher fence by then; sent with the row's own fence
  and another spec it is committed at the next revision with that fence.
\<close>

theorem stale_edit_refused:
  assumes K: "permissive K" and q: "quiet w" and tx: "texts_ok (w_store w)"
    and kind: "map_of (cl_kinds w) n = Some kind" "kn_tenant_scoped kind" and t: "t \<noteq> []"
    and v: "kn_validate kind spec = Inr v" "storable v"
    and led: "\<And>e. fst (append_decision K e None (p_ledger w)) = Inr ()"
    and row: "select_one (kn_name kind, t, name) (w_store w) = Some r" "\<not> is_deleted r"
    and readable: "\<not> missing_table (err_message (SupersededError (kn_name kind) name f))"
  shows "(f < rr_fence r \<longrightarrow>
      write_spec K n name spec \<lparr>wr_tenant = t, wr_actor = a, wr_expected = Some f\<rparr> w =
        (Inl (APIError Aborted (err_message (SupersededError (kn_name kind) name f)) ''SUPERSEDED''), w)) \<and>
    (f = rr_fence r \<and> rr_spec r \<noteq> show_js v \<longrightarrow>
      (let row = admitted_row (kn_name kind, t, name) f (show_js v) (w_now w) (w_store w)
       in write_spec K n name spec \<lparr>wr_tenant = t, wr_actor = a, wr_expected = Some f\<rparr> w =
        (hydrate_row row, finished K row Updated a False
           (w\<lparr>w_store := commit_row row Updated (w_now w) (w_store w)\<rparr>)) \<and>
        rr_fence row = rr_fence r \<and> rr_status row = rr_status r))"
proof -
  let ?o = "\<lparr>ao_tenant = Some t, ao_fence = Some f, ao_actor = a\<rparr>"
  have ten: "tenant_of kind ?o = Inr t" using kind t by (simp add: tenant_of_def given_def)
  note ad = quiet_admit [OF K q tx kind(1) ten v led, of name]
  have call: "write_spec K n name spec \<lparr>wr_tenant = t, wr_actor = a, wr_expected = Some f\<rparr> w =
      guarded (admit K n name spec ?o) w"
    by (simp add: write_spec_def)
  have one: "write_spec K n name spec \<lparr>wr_tenant = t, wr_actor = a, wr_expected = Some f\<rparr> w =
        (Inl (APIError Aborted (err_message (SupersededError (kn_name kind) name f)) ''SUPERSEDED''), w)"
    if "f < rr_fence r"
  proof -
    have "admit K n name spec ?o w = (Inl (SupersededError (kn_name kind) name f), w)"
      using ad row that by (simp add: fence_of_def Let_def)
    from guarded_fails [where m = "admit K n name spec ?o", OF this] readable show ?thesis
      unfolding call by (simp add: to_api_error_def del: err_message.simps)
  qed
  let ?row = "admitted_row (kn_name kind, t, name) f (show_js v) (w_now w) (w_store w)"
  have two: "write_spec K n name spec \<lparr>wr_tenant = t, wr_actor = a, wr_expected = Some f\<rparr> w =
        (hydrate_row ?row, finished K ?row Updated a False
           (w\<lparr>w_store := commit_row ?row Updated (w_now w) (w_store w)\<rparr>))"
    if "f = rr_fence r" "rr_spec r \<noteq> show_js v"
  proof -
    have a: "admit K n name spec ?o w = (hydrate_row ?row, finished K ?row Updated a False
           (w\<lparr>w_store := commit_row ?row Updated (w_now w) (w_store w)\<rparr>))"
      using ad row that by (simp add: fence_of_def Let_def)
    have st: "rr_status ?row = rr_status r" "rr_spec ?row = show_js v" using row by (simp_all add: admitted_row_def)
    have "r \<in> set (s_rows (w_store w))" using select_one_Some [OF row(1)] by blast
    then have "case rr_status ?row of None \<Rightarrow> True | Some t \<Rightarrow> parse_json t \<noteq> None"
      unfolding st using tx by (simp add: texts_ok_def list_all_iff)
    then obtain x where "hydrate_row ?row = Inr x"
      unfolding hydrate_row_def st(2) parse_or_throw_def parse_stringify [OF v(2)]
      by (cases "rr_status ?row") auto
    with a guarded_ok [where m = "admit K n name spec ?o"] show ?thesis unfolding call by simp
  qed
  show ?thesis using one two row by (auto simp: Let_def admitted_row_def)
qed

theorem stale_edit_refused_witness:
  "let w = (demo_app note_store [] [])\<lparr>cl_kinds := [(''note'', note_kind)]\<rparr>
   in write_spec allow_kernel ''note'' ''a'' (note_spec ''x'') \<lparr>wr_tenant = ''t'', wr_actor = None, wr_expected = Some 0\<rparr> w =
     (Inl (APIError Aborted (err_message (SupersededError ''note'' ''a'' 0)) ''SUPERSEDED''), w)"
proof -
  let ?w = "(demo_app note_store [] [])\<lparr>cl_kinds := [(''note'', note_kind)]\<rparr>"
  have q: "quiet ?w" using note_quiet by (simp add: quiet_def demo_app_defs)
  have tx: "texts_ok (w_store ?w)" using note_texts by (simp add: demo_app_defs)
  have kind: "map_of (cl_kinds ?w) ''note'' = Some note_kind" "kn_tenant_scoped note_kind" "kn_name note_kind = ''note''"
    by (simp_all add: note_kind_def)
  have led: "fst (append_decision allow_kernel e None (p_ledger ?w)) = Inr ()" for e
    using open_ledger_appends by (simp add: demo_app_defs)
  have row: "select_one (kn_name note_kind, ''t'', ''a'') (w_store ?w) = Some (note_row 1 ''x'' 1)"
    "\<not> is_deleted (note_row 1 ''x'' 1)"
    by (simp_all add: kind demo_app_defs note_store_def migrated_store_def empty_store_def select_one_def note_row_def
        key_of_def is_deleted_def)
  have "\<not> missing_table (err_message (SupersededError ''note'' ''a'' 0))" by code_simp
  then have readable: "\<not> missing_table (err_message (SupersededError (kn_name note_kind) ''a'' 0))" unfolding kind(3) .
  have fence: "rr_fence (note_row 1 ''x'' 1) = 1" by (simp add: note_row_def)
  have "write_spec allow_kernel ''note'' ''a'' (note_spec ''x'') \<lparr>wr_tenant = ''t'', wr_actor = None, wr_expected = Some 0\<rparr> ?w =
      (Inl (APIError Aborted (err_message (SupersededError ''note'' ''a'' 0)) ''SUPERSEDED''), ?w)"
    using stale_edit_refused [OF allow_permissive q tx kind(1,2) _ note_validates note_storable led row readable, THEN conjunct1]
    by (simp only: fence kind) simp
  then show ?thesis by (simp only: Let_def)
qed

text \<open>
  The missing table is recognised by its words before the error's class is looked at, so a refused
  value that contains them is answered as an unavailable service.
\<close>

lemma refused_value_as_outage:
  "\<exists>e. require_email MEMBER (JObj [(''email'', JStr ''address does not exist'')]) ''email'' = Inl e \<and>
     to_api_error e = APIError Unavailable SCHEMA_ABSENT []"
proof -
  let ?m = "''expected an email address, got '' @ quoted ''address does not exist''"
  have "trim ''address does not exist'' = ''address does not exist''" "\<not> email_shape ''address does not exist''"
    by code_simp+
  then have "require_email MEMBER (JObj [(''email'', JStr ''address does not exist'')]) ''email'' =
      Inl (InvalidSpecError MEMBER ''email'' ?m)"
    unfolding require_email_def require_string_def by simp
  moreover have "missing_table (err_message (InvalidSpecError MEMBER ''email'' ?m))" by code_simp
  ultimately show ?thesis by (simp add: to_api_error_def del: err_message.simps)
qed

end
