(* ===== verification/Settled.thy ===== *)
theory Settled
  imports Mail_Notices_Claims Members_Edge_Claims
begin

text \<open>
  Sequences of writes without interference. \<open>steady\<close> ledgers keep accepting Decisions and
  \<open>settled\<close> worlds keep answering: after any write of a client the world is settled again, so
  the effect of a whole handler is found by going through its calls. Each write is summarised by the
  row it leaves under its key, every other row being what it was.
\<close>

section \<open>A ledger that keeps accepting\<close>

definition steady :: "kernel \<Rightarrow> ledger \<Rightarrow> bool" where
  "steady K l \<longleftrightarrow>
     builds_links K \<and> (\<exists>A. collision_free K A \<and> chain_inv K A l) \<and> list_all (built_row K) (rows_of l) \<and>
     l_env l = [] \<and> l_initialized l \<and> l_queue l = [] \<and> (\<exists>key. signing_key K = Inr key)"

definition alone :: "ledger \<Rightarrow> ledger \<Rightarrow> bool" where
  "alone l m \<longleftrightarrow> (l_env l = [] \<longrightarrow> l_env m = []) \<and> l_initialized m = l_initialized l \<and> l_queue m = l_queue l"

interpretation alone: step_order alone
  by unfold_locales (auto simp: alone_def)

lemma db_call_alone: "along alone (db_call K op)"
  by (rule alongI)
    (auto simp: alone_def db_call_def interfere_def Let_def split: option.split prod.split list.split)

lemma append_alone: "along alone (append_loop K prefix e explicit key k)"
proof -
  have "along alone (append_txn K prefix e explicit key)"
    unfolding append_txn_def db_read_def Let_def by (intro alone.along_bnd db_call_alone)
  then show ?thesis
    by (induction k) (auto intro!: alone.along_catch alone.along_if alone.along_throw)
qed

lemma steady_append:
  assumes "steady K l"
  shows "\<exists>m. append_decision K e None l = (Inr (), m) \<and> steady K m"
proof -
  obtain A key where K: "builds_links K" "collision_free K A" and inv: "chain_inv K A l" and key: "signing_key K = Inr key"
    and built: "\<forall>r \<in> set (rows_of l). built_row K r" and env: "l_env l = []" "l_initialized l" "l_queue l = []"
    using assms by (auto simp: steady_def list_all_iff)
  obtain r m where run: "append_loop K ''decision'' e None key (CAS_ATTEMPTS - 1) l = (r, m)" by fastforce
  have "fst (append_loop K ''decision'' e None key (CAS_ATTEMPTS - 1) l) = Inr ()"
    by (rule append_loop_live [OF K inv built]) (auto simp: env no_fault_def event_at_def quiet_event_def)
  with run have r: "r = Inr ()" by simp
  note res = append_loop_result [OF K(1) inv run [unfolded r]]
  have al: "alone l m" using alongD [OF append_alone run] .
  have "\<forall>x \<in> set (rows_of m). built_row K x"
  proof -
    obtain u n where u: "rivals_only K l u" "rows_of m = rows_of u @
        [let rec = own_record K ''decision'' e None (head_of (l_disk u)) in mk_row rec (own_signature K key rec) n]"
      using res by (auto simp: appended_def)
    have "built_row K (mk_row (own_record K ''decision'' e None h) sg n)" for h sg
      using K(1) by (auto simp: built_row_def mk_row_def own_record_def builds_links_def)
    then show ?thesis using rivals_only_built [OF K(1) u(1) built] u(2) by (auto simp: Let_def)
  qed
  then have st: "steady K m" using K res key al env by (auto simp: steady_def list_all_iff alone_def)
  have q: "run_queue K l = (Inr (), l)" using env by (simp add: run_queue_def bnd_run)
  have i: "init_guarded K l = (Inr (), l)" using env by (simp add: init_guarded_def catch_run init_unlocked_def)
  have "append_decision K e None l = (Inr (), m)"
    using run r by (simp add: append_decision_def append_task_def append_unlocked_def bnd_run q i key)
  with st show ?thesis by blast
qed

lemma open_ledger_steady: "steady allow_kernel open_ledger"
proof -
  have links: "builds_links allow_kernel" "collision_free allow_kernel ''M''"
    using demo_links demo_collision_free by (simp_all add: builds_links_def collision_free_def)
  have "chain_inv allow_kernel ''M'' open_ledger"
    by (auto simp: open_ledger_def boot_ledger_def ready_disk_def chain_inv_def chain_ok_def env_anchored_def)
  moreover have "signing_key allow_kernel = Inr None"
    by (simp add: signing_key_def allow_kernel_def demo_kernel_def)
  ultimately show ?thesis
    using links by (auto simp: steady_def open_ledger_def boot_ledger_def ready_disk_def)
qed

section \<open>A world that keeps answering\<close>

definition settled :: "kernel \<Rightarrow> 'x world_scheme \<Rightarrow> bool" where
  "settled K w \<longleftrightarrow>
     permissive K \<and> quiet w \<and> s_schema (w_replica w) \<and> texts_ok (w_store w) \<and> texts_ok (w_replica w) \<and>
     steady K (p_ledger w)"

text \<open>What a client's write changes of the world, and of the rows.\<close>

definition only_store :: "'x world_scheme \<Rightarrow> 'x world_scheme \<Rightarrow> bool" where
  "only_store w u \<longleftrightarrow> (\<exists>l s b. u = w\<lparr>p_ledger := l, w_store := s, w_bus := b\<rparr>)"

definition row_at :: "row_key \<Rightarrow> 'x world_scheme \<Rightarrow> resource_row option" where
  "row_at k w = select_one k (w_store w)"

definition only_row :: "row_key \<Rightarrow> 'x world_scheme \<Rightarrow> 'x world_scheme \<Rightarrow> bool" where
  "only_row k w u \<longleftrightarrow> only_store w u \<and> (\<forall>j. j \<noteq> k \<longrightarrow> row_at j u = row_at j w)"

lemma only_store_refl [simp]: "only_store w w"
  unfolding only_store_def by (rule exI [of _ "p_ledger w"], rule exI [of _ "w_store w"], rule exI [of _ "w_bus w"]) simp

lemma only_store_trans: "only_store u v \<Longrightarrow> only_store v w \<Longrightarrow> only_store u w"
  unfolding only_store_def by clarsimp blast

lemma only_row_refl [simp]: "only_row k w w"
  by (simp add: only_row_def)

lemma only_storeD:
  assumes "only_store w u"
  shows "w_replica u = w_replica w" "w_now u = w_now w" "w_ready u = w_ready w" "w_env u = w_env w"
    "p_observer u = p_observer w" "world.more u = world.more w"
  using assms by (auto simp: only_store_def)

lemma select_other:
  assumes "committed s r op at s'" and "store_wf s" and "j \<noteq> key_of r"
  shows "select_one j s' = select_one j s"
proof -
  have wf: "store_wf s'" by (rule committed_wf [OF assms(1,2)])
  have set: "set (s_rows s') = insert r {x \<in> set (s_rows s). key_of x \<noteq> key_of r}"
    using assms(1) by (simp add: committed_def set_put_row)
  show ?thesis
  proof (cases "select_one j s")
    case None
    then have "j \<notin> key_of ` set (s_rows s')" using set assms(3) by (auto simp: select_one_None)
    then have "select_one j s' = None" by (simp add: select_one_None)
    with None show ?thesis by simp
  next
    case (Some x)
    then have "x \<in> set (s_rows s')" "key_of x = j" using select_one_Some [OF Some] set assms(3) by auto
    with select_one_unique [OF wf_keys [OF wf]] Some show ?thesis by force
  qed
qed

lemma texts_commit:
  assumes "committed s r op at s'" and "texts_ok s" and "\<exists>x. hydrate_row r = Inr x"
  shows "texts_ok s'"
proof -
  have "set (s_rows s') = insert r {x \<in> set (s_rows s). key_of x \<noteq> key_of r}"
    using assms(1) by (simp add: committed_def set_put_row)
  with assms(2,3) show ?thesis
    by (auto simp: texts_ok_def list_all_iff hydrate_row_def parse_or_throw_def sbind_Inr_iff split: option.splits)
qed

text \<open>One committed row with its Decision and its event.\<close>

lemma settled_commit:
  assumes w: "settled K w" and com: "committed (w_store w) r op at (commit_row r op at (w_store w))"
    and h: "\<exists>x. hydrate_row r = Inr x"
    and u: "u = finished K r op actor b (w\<lparr>w_store := commit_row r op at (w_store w)\<rparr>)"
  shows "settled K u \<and> only_row (key_of r) w u \<and> row_at (key_of r) u = Some r"
proof -
  have q: "quiet w" and wf: "store_wf (w_store w)" using w by (auto simp: settled_def quiet_def)
  obtain m where m: "append_decision K (admission_decision K (key_of r) op (rr_revision r) actor b) None (p_ledger w) = (Inr (), m)"
      "steady K m"
    using steady_append w unfolding settled_def by blast
  have u': "u = w\<lparr>p_ledger := m, w_store := commit_row r op at (w_store w),
      w_bus := w_bus w @ [envelope_of (key_of r) (rr_revision r)]\<rparr>"
    using m by (simp add: u finished_def)
  have "settled K u"
    using w m quiet_commit [OF q com] texts_commit [OF com _ h] unfolding settled_def u' by (simp add: quiet_def)
  moreover have "row_at j u = row_at j w" if "j \<noteq> key_of r" for j
    using select_other [OF com wf that] by (simp add: row_at_def u')
  moreover have "row_at (key_of r) u = Some r" using select_committed [OF com wf] by (simp add: row_at_def u')
  moreover have "only_store w u" unfolding only_store_def using u' by blast
  ultimately show ?thesis by (simp add: only_row_def)
qed

lemma settled_ledger: "settled K w \<Longrightarrow> fst (append_decision K e None (p_ledger w)) = Inr ()"
  using steady_append [of K "p_ledger w" e] by (auto simp: settled_def)

text \<open>An admission that is not superseded leaves the admitted spec under its key, whatever was there.\<close>

lemma settled_admit:
  assumes w: "settled K w" and kind: "map_of (cl_kinds w) n = Some kind" "tenant_of kind opts = Inr t"
    and v: "kn_validate kind spec = Inr v" "storable v" and k: "k = (kn_name kind, t, name)"
    and fence: "\<And>r. row_at k w = Some r \<Longrightarrow> rr_fence r \<le> fence_of opts"
  shows "\<exists>x u r. admit K n name spec opts w = (Inr x, u) \<and> settled K u \<and> only_row k w u \<and> row_at k u = Some r \<and>
    \<not> is_deleted r \<and> rr_spec r = show_js v \<and> rr_fence r = fence_of opts \<and> hydrate_row r = Inr x \<and>
    rr_status r = (case row_at k w of None \<Rightarrow> None | Some r \<Rightarrow> rr_status r)"
proof -
  have q: "permissive K" "quiet w" "texts_ok (w_store w)" and wf: "store_wf (w_store w)"
    using w by (auto simp: settled_def quiet_def)
  let ?row = "admitted_row k (fence_of opts) (show_js v) (w_now w) (w_store w)"
  note ad = quiet_admit [OF q kind v settled_ledger [OF w], of name, folded k]
  have old: "\<exists>x. hydrate_row r = Inr x" if "row_at k w = Some r" for r
    using texts_hydrate [OF q(3)] select_one_Some that by (auto simp: row_at_def)
  have row: "\<not> is_deleted ?row" "rr_spec ?row = show_js v" "rr_fence ?row = fence_of opts" "key_of ?row = k"
    "rr_status ?row = (case row_at k w of None \<Rightarrow> None | Some r \<Rightarrow> rr_status r)"
    by (auto simp: admitted_row_def is_deleted_def row_at_def key_admitted split: option.split)
      (auto simp: key_of_def dest: select_one_Some)
  have h: "\<exists>x. hydrate_row ?row = Inr x"
  proof (cases "row_at k w")
    case None
    with row(2,5) v(2) show ?thesis by (auto simp: hydrate_row_def parse_or_throw_def parse_stringify)
  next
    case (Some r)
    with old [OF Some] row(2,5) v(2) show ?thesis
      by (auto simp: hydrate_row_def parse_or_throw_def parse_stringify sbind_Inr_iff split: option.splits)
  qed
  then obtain x where x: "hydrate_row ?row = Inr x" by blast
  have com: "committed (w_store w) ?row op (w_now w) (commit_row ?row op (w_now w) (w_store w))" for op
    using fence by (intro committed_admitted wf) (auto simp: row_at_def split: option.split)
  have new: ?thesis if "admit K n name spec opts w =
      (hydrate_row ?row, finished K ?row op (ao_actor opts) False (w\<lparr>w_store := commit_row ?row op (w_now w) (w_store w)\<rparr>))" for op
    using that settled_commit [OF w com h refl, of op "ao_actor opts" False] row x
    by (intro exI [of _ x] exI [of _ "finished K ?row op (ao_actor opts) False (w\<lparr>w_store := commit_row ?row op (w_now w) (w_store w)\<rparr>)"]
          exI [of _ ?row]) simp
  show ?thesis
  proof (cases "row_at k w")
    case None
    then show ?thesis using ad new [of Created] by (simp add: row_at_def Let_def)
  next
    case (Some r)
    note f = fence [OF Some]
    show ?thesis
    proof (cases "\<not> is_deleted r \<and> rr_spec r = show_js v \<and> rr_fence r = fence_of opts")
      case True
      then obtain y where y: "hydrate_row r = Inr y" using old [OF Some] by blast
      have "admit K n name spec opts w = (Inr y, w)" using ad Some True f y by (simp add: row_at_def Let_def)
      with True Some w y show ?thesis by auto
    next
      case False
      then show ?thesis
        using ad Some f new [of "if is_deleted r then Created else Updated"] by (auto simp: row_at_def Let_def)
    qed
  qed
qed

text \<open>A status write on a live row that is not superseded.\<close>

lemma settled_status:
  assumes w: "settled K w" and kind: "map_of (cl_kinds w) n = Some kind" "tenant_of kind opts = Inr t"
    and v: "storable v" and k: "k = (kn_name kind, t, name)"
    and r: "row_at k w = Some r" "\<not> is_deleted r" "rr_fence r \<le> fence_of opts"
  shows "\<exists>x u r'. set_status K n name v opts w = (Inr (Some x), u) \<and> settled K u \<and> only_row k w u \<and>
    row_at k u = Some r' \<and> hydrate_row r' = Inr x \<and> rr_status r' = Some (show_js v) \<and> rr_spec r' = rr_spec r \<and>
    \<not> is_deleted r' \<and> (if rr_status r = Some (show_js v) then u = w else rr_fence r' = fence_of opts)"
proof -
  have q: "permissive K" "quiet w" "texts_ok (w_store w)" and wf: "store_wf (w_store w)"
    using w by (auto simp: settled_def quiet_def)
  note st = quiet_set_status [OF q kind v settled_ledger [OF w] k]
  have sel: "select_one k (w_store w) = Some r" using r(1) by (simp add: row_at_def)
  obtain y where y: "hydrate_row r = Inr y" using texts_hydrate [OF q(3)] select_one_Some [OF sel] by blast
  show ?thesis
  proof (cases "rr_status r = Some (show_js v)")
    case True
    then show ?thesis using st sel r y w by auto
  next
    case False
    let ?row = "r\<lparr>rr_status := Some (show_js v), rr_revision := next_revision (w_store w),
                   rr_fence := fence_of opts, rr_updated := w_now w\<rparr>"
    have key: "key_of ?row = k" using select_one_Some [OF sel] by simp
    obtain x where x: "hydrate_row ?row = Inr x"
      using y v by (auto simp: hydrate_row_def parse_or_throw_def parse_stringify sbind_Inr_iff split: option.splits)
    have com: "committed (w_store w) ?row Updated (w_now w) (commit_row ?row Updated (w_now w) (w_store w))"
      using committed_update [OF sel wf, of ?row] r(3) key by simp
    from settled_commit [OF w com _ refl, of "ao_actor opts" True] x st sel r False key
    show ?thesis by (auto simp: Let_def is_deleted_def)
  qed
qed

text \<open>A read answers from the replica and changes nothing.\<close>

lemma settled_get:
  assumes "settled K w" and "map_of (cl_kinds w) n = Some kind" and "tenant_of kind opts = Inr t"
  shows "get_resource K n name opts w =
    (case select_one (kn_name kind, t, name) (w_replica w) of
       None \<Rightarrow> Inr None
     | Some r \<Rightarrow> if is_deleted r then Inr None else map_sum id Some (hydrate_row r), w)"
proof -
  have "permissive K" "quiet w" "s_schema (w_replica w)" using assms(1) by (auto simp: settled_def)
  then have "query K SELECT_ONE [''resource''] (in_schema ''resource'' (select_one (kn_name kind, t, name))) w =
      (Inr (select_one (kn_name kind, t, name) (w_replica w)), w)"
    by (simp add: quiet_query [OF _ _ sql_accepted(1)] in_schema_def)
  then show ?thesis
    by (simp add: get_resource_def bnd_run require_found [OF assms(2)] assms(3) split: option.split sum.split)
qed

text \<open>The replica catching up is the one step of the world the clients of these lemmas do not take.\<close>

definition caught_up :: "'x world_scheme \<Rightarrow> 'x world_scheme" where
  "caught_up w = w\<lparr>w_replica := w_store w\<rparr>"

lemma caught_up_settled: "settled K w \<Longrightarrow> settled K (caught_up w)"
  by (auto simp: settled_def caught_up_def quiet_def)

end
