(* ===== verification/Members_Controller.thy ===== *)
theory Members_Controller
  imports Members_Edge_Claims Mail_Notices_Claims
begin

text \<open>
  The renewal controller (\<open>backend/members/controller.ts\<close>): the reconciling of one
  membership, the notice raised with it, the change-driven and the calendar-driven loop over it,
  and the start of the domain (\<open>backend/members/boot.ts\<close>). The calendar day is a reading of
  the world; the clock is the list of readings of \<open>Controller\<close>.
\<close>

section \<open>Reconciling one membership\<close>

definition RENEWAL_CONTROLLER :: string where "RENEWAL_CONTROLLER = ''renewal''"

definition RENEWAL_LEASE :: string where "RENEWAL_LEASE = ''ctl:'' @ RENEWAL_CONTROLLER"

definition ACTOR :: string where "ACTOR = ''controller:'' @ RENEWAL_CONTROLLER"

definition as_actor :: "string \<Rightarrow> int option \<Rightarrow> admit_options" where
  "as_actor tenant fence = \<lparr>ao_tenant = Some tenant, ao_fence = fence, ao_actor = Some ACTOR\<rparr>"

definition warn :: "string \<Rightarrow> ('x app_scheme, unit) io" where
  "warn m = modify (\<lambda>w. w\<lparr>ap_warnings := ap_warnings w @ [m]\<rparr>)"

text \<open>\<open>(cents / 100).toFixed(2)\<close>, which is exact for amounts below 2 to the 50th power.\<close>

definition money :: "int \<Rightarrow> string" where
  "money cents =
     (if cents < 0 then ''-'' else []) @ show_nat (nat \<bar>cents\<bar> div 100) @ ''.'' @
     pad_zero 2 (show_nat (nat \<bar>cents\<bar> mod 100))"

text \<open>The wording data of a notice, with the keys in the order of the literals.\<close>

definition notice_params ::
  "template \<Rightarrow> string \<Rightarrow> member_spec \<Rightarrow> tier_spec \<Rightarrow> invoice_spec \<Rightarrow> js \<Rightarrow> (string \<times> string) list" where
  "notice_params template org_name member tier invoice status =
     [(''memberName'', me_display member), (''tierLabel'', ti_label tier), (''orgName'', org_name),
      (''amount'', money (in_amount invoice))] @
     (case template of
        DuesReminder \<Rightarrow> [(''periodStart'', in_start invoice), (''dueOn'', in_due invoice)]
      | DuesReceipt \<Rightarrow>
          [(''paidOn'', case opt_text_at status ''paidOn'' of Some d \<Rightarrow> d | None \<Rightarrow> in_start invoice),
           (''renewsOn'', in_end invoice)])"

definition notice_subject :: "template \<Rightarrow> string \<Rightarrow> invoice_spec \<Rightarrow> string" where
  "notice_subject template org_name invoice =
     (case template of
        DuesReminder \<Rightarrow> org_name @ '': your membership dues are due '' @ in_due invoice
      | DuesReceipt \<Rightarrow> org_name @ '': receipt for your membership dues'')"

definition dues_notice ::
  "template \<Rightarrow> string \<Rightarrow> member_spec \<Rightarrow> tier_spec \<Rightarrow> invoice_spec \<Rightarrow> js \<Rightarrow> notice_spec" where
  "dues_notice template org_name member tier invoice status =
     \<lparr>mn_to = me_email member, mn_template = template_text template,
      mn_params = notice_params template org_name member tier invoice status,
      mn_subject = notice_subject template org_name invoice, mn_reply = None\<rparr>"

text \<open>The body of the \<open>try\<close>.\<close>

definition send_dues_notice ::
  "kernel \<Rightarrow> string \<Rightarrow> notice_intent \<Rightarrow> membership_spec \<Rightarrow> tier_spec \<Rightarrow> ('x app_scheme, unit) io" where
  "send_dues_notice K tenant intent membership tier =
     bnd (get_resource K DUES_INVOICE (ni_invoice intent) (tenant_only tenant)) (\<lambda>invoice.
       case invoice of None \<Rightarrow> ret () | Some i \<Rightarrow>
     bnd (get_resource K MEMBER (ms_member membership) (tenant_only tenant)) (\<lambda>member.
       case member of None \<Rightarrow> ret () | Some mem \<Rightarrow>
       if me_email (member_at (re_spec mem)) = [] then ret ()
       else
     bnd (get_resource K TENANT tenant no_admit_options) (\<lambda>org.
       let org_name = (case org of None \<Rightarrow> tenant | Some o' \<Rightarrow> tn_display (tenant_at (re_spec o')));
           notice = dues_notice (ni_template intent) org_name (member_at (re_spec mem)) tier
             (invoice_at (re_spec i)) (re_status i)
       in raise_notice K tenant (template_text (ni_template intent)) (ni_invoice intent) (js_notice notice)
            (Some ACTOR))))"

definition raise_dues_notice ::
  "kernel \<Rightarrow> string \<Rightarrow> notice_intent \<Rightarrow> membership_spec \<Rightarrow> tier_spec \<Rightarrow> ('x app_scheme, unit) io" where
  "raise_dues_notice K tenant intent membership tier =
     catch (send_dues_notice K tenant intent membership tier)
       (\<lambda>_. warn ''renewal: could not raise the dues notice'')"

definition renewal_input_of ::
  "string \<Rightarrow> string \<Rightarrow> resource \<Rightarrow> resource option \<Rightarrow> resource option \<Rightarrow> renewal_input" where
  "renewal_input_of name day membership tier invoice =
     \<lparr>rn_name = name, rn_membership = membership_at (re_spec membership),
      rn_tier = map_option (\<lambda>t. tier_at (re_spec t)) tier,
      rn_invoice = map_option (\<lambda>i. (invoice_at (re_spec i), re_status i)) invoice, rn_today = day\<rparr>"

text \<open>The three writes of a plan, in order, and the status.\<close>

definition apply_plan ::
  "kernel \<Rightarrow> string \<Rightarrow> string \<Rightarrow> int \<Rightarrow> resource \<Rightarrow> resource option \<Rightarrow> renewal_plan \<Rightarrow> ('x app_scheme, unit) io" where
  "apply_plan K tenant name fence membership tier plan =
     seq (case pl_invoice plan of
            None \<Rightarrow> ret ()
          | Some (iname, spec) \<Rightarrow>
              seq (admit K DUES_INVOICE iname (js_invoice spec) (as_actor tenant None)) (ret ()))
    (seq (case pl_renew plan of
            None \<Rightarrow> ret ()
          | Some spec \<Rightarrow>
              seq (admit K MEMBERSHIP name (js_membership spec) (as_actor tenant (Some (re_fence membership))))
                  (ret ()))
    (seq (case pl_notice plan of
            None \<Rightarrow> ret ()
          | Some intent \<Rightarrow>
              (case tier of
                 None \<Rightarrow> throw (TypeErr ''Cannot read properties of null'')
               | Some t \<Rightarrow>
                   raise_dues_notice K tenant intent (membership_at (re_spec membership)) (tier_at (re_spec t))))
         (seq (set_status K MEMBERSHIP name (js_status (pl_status plan)) (as_actor tenant (Some fence)))
              (ret ()))))"

definition reconcile_membership ::
  "kernel \<Rightarrow> string \<Rightarrow> string \<Rightarrow> int \<Rightarrow> string \<Rightarrow> ('x app_scheme, unit) io" where
  "reconcile_membership K tenant name fence day =
     bnd (get_resource K MEMBERSHIP name (tenant_only tenant)) (\<lambda>found.
       case found of None \<Rightarrow> ret () | Some membership \<Rightarrow>
     bnd (get_resource K TIER (ms_tier (membership_at (re_spec membership))) (tenant_only tenant)) (\<lambda>tier.
     bnd (let ends = ms_ends (membership_at (re_spec membership)) in
          if given ends
          then get_resource K DUES_INVOICE (invoice_name_for name (the ends)) (tenant_only tenant)
          else ret None) (\<lambda>invoice.
     bnd (lift (evaluate (renewal_input_of name day membership tier invoice)))
       (apply_plan K tenant name fence membership tier))))"

section \<open>The change-driven loop\<close>

definition subject_of :: "change \<Rightarrow> (string \<times> string) option" where
  "subject_of c =
     (let r = ch_resource c in
      if re_kind r = MEMBERSHIP then (if ch_retracted c then None else Some (re_tenant r, re_name r))
      else if re_kind r = DUES_INVOICE then Some (re_tenant r, in_membership (invoice_at (re_spec r)))
      else None)"

definition renewal_controller_spec :: "kernel \<Rightarrow> ('x app_scheme) controller_spec" where
  "renewal_controller_spec K =
     \<lparr>cs_name = RENEWAL_CONTROLLER, cs_kinds = [MEMBERSHIP, DUES_INVOICE], cs_batch = 100, cs_budget = 7000,
      cs_reconcile = (\<lambda>change fence.
        case subject_of change of
          None \<Rightarrow> ret ()
        | Some (tenant, membership) \<Rightarrow>
            bnd (gets ap_today) (\<lambda>day. reconcile_membership K tenant membership fence day))\<rparr>"

section \<open>The calendar-driven loop\<close>

fun sweep_rows ::
  "kernel \<Rightarrow> string \<Rightarrow> int \<Rightarrow> string \<Rightarrow> nat \<Rightarrow> nat \<Rightarrow> resource list \<Rightarrow> ('x app_scheme, nat) io" where
  "sweep_rows K tenant fence day deadline n [] = ret n"
| "sweep_rows K tenant fence day deadline n (m # ms) =
     bnd read_clock (\<lambda>t.
       if past deadline t then ret n
       else
         bnd (catch (seq (reconcile_membership K tenant (re_name m) fence day) (ret (Suc n)))
                    (\<lambda>_. seq (warn ''renewal sweep: membership did not reconcile'') (ret n))) (\<lambda>n'.
           sweep_rows K tenant fence day deadline n' ms))"

fun sweep_tenants ::
  "kernel \<Rightarrow> int \<Rightarrow> string \<Rightarrow> nat \<Rightarrow> nat \<Rightarrow> resource list \<Rightarrow> ('x app_scheme, nat) io" where
  "sweep_tenants K fence day deadline n [] = ret n"
| "sweep_tenants K fence day deadline n (t # ts) =
     bnd read_clock (\<lambda>c.
       if past deadline c then ret n
       else
         bnd (list_resources K MEMBERSHIP (tenant_only (re_name t))) (\<lambda>ms.
         bnd (sweep_rows K (re_name t) fence day deadline n ms) (\<lambda>n'.
           sweep_tenants K fence day deadline n' ts)))"

definition sweep_once :: "kernel \<Rightarrow> nat \<Rightarrow> ('x app_scheme, nat) io" where
  "sweep_once K budget =
     with_lease K RENEWAL_LEASE (\<lambda>fence.
       bnd read_clock (\<lambda>t.
       let deadline = (case t of None \<Rightarrow> 0 | Some n \<Rightarrow> n + budget) in
       bnd (gets ap_today) (\<lambda>day.
       bnd (list_resources K TENANT no_admit_options) (\<lambda>tenants.
         sweep_tenants K fence day deadline 0 tenants))))"

text \<open>
  The loop, which answers the count of the last sweep that finished; the list says after which
  sweeps \<open>stop()\<close> has been called.
\<close>

fun run_sweeps :: "kernel \<Rightarrow> nat \<Rightarrow> bool list \<Rightarrow> ('x app_scheme, nat) io" where
  "run_sweeps K n [] = ret n"
| "run_sweeps K n (stopped # stops) =
     bnd (catch (sweep_once K 7000)
            (\<lambda>_. seq (warn ''renewal sweep: pass failed'') (ret n))) (\<lambda>n'.
       if stopped then ret n' else run_sweeps K n' stops)"

section \<open>Starting the domain\<close>

text \<open>
  The wait, on the list of what \<open>stopping\<close> is each time the loop tests it; it then sleeps and
  probes, whatever the flag says by then. The answer is \<open>None\<close> while it is still waiting.
\<close>

fun poll_until_schema :: "kernel \<Rightarrow> bool list \<Rightarrow> ('x app_scheme, bool option) io" where
  "poll_until_schema K [] = ret None"
| "poll_until_schema K (stopping # polls) =
     (if stopping then ret (Some False)
      else bnd (schema_present K) (\<lambda>b. if b then ret (Some True) else poll_until_schema K polls))"

definition wait_for_schema :: "kernel \<Rightarrow> bool list \<Rightarrow> ('x app_scheme, bool option) io" where
  "wait_for_schema K polls =
     bnd (schema_present K) (\<lambda>b. if b then ret (Some True) else poll_until_schema K polls)"

definition ensure_org_record :: "kernel \<Rightarrow> ('x app_scheme, unit) io" where
  "ensure_org_record K =
     bnd tenant_id (\<lambda>tenant.
     bnd (get_resource K TENANT tenant no_admit_options) (\<lambda>existing.
       case existing of
         Some _ \<Rightarrow> ret ()
       | None \<Rightarrow>
           seq (admit K TENANT tenant (js_tenant \<lparr>tn_display = tenant, tn_contact = None\<rparr>)
                  \<lparr>ao_tenant = None, ao_fence = None, ao_actor = Some ''boot:members''\<rparr>)
               (ret ())))"

text \<open>
  The start up to the point where the loops are running; the answer says whether they were
  started. The loops themselves are \<open>run_passes\<close> and \<open>run_sweeps\<close>.
\<close>

definition start_membership_runtime :: "kernel \<Rightarrow> bool list \<Rightarrow> ('x app_scheme, bool) io" where
  "start_membership_runtime K polls =
     seq register_membership_kinds
    (seq register_mail_kinds
    (seq state_ready
         (run_as_service ''members''
            (bnd (wait_for_schema K polls) (\<lambda>opened.
               if opened \<noteq> Some True then ret False
               else
                 seq (assert_tenant_consistency K)
                (seq (ensure_org_record K) (ret True)))))))"

definition start_membership_runtime_or_exit :: "kernel \<Rightarrow> bool list \<Rightarrow> ('x app_scheme, bool) io" where
  "start_membership_runtime_or_exit K polls =
     catch (start_membership_runtime K polls) (\<lambda>e.
       case e of
         TenantMismatchError _ _ \<Rightarrow>
           bnd (gets (\<lambda>w. map_of (ap_env w) ''VITEST'')) (\<lambda>v.
             if given v then ret False
             else throw (ProcessExit ''members: refusing to serve a foreign dataset''))
       | _ \<Rightarrow> ret False)"

end
