(* ===== verification/Members_API.thy ===== *)
theory Members_API
  imports Members_Controller
begin

text \<open>
  The membership API (\<open>backend/members/api.ts\<close>) and the role check it gates on
  (\<open>backend/lib/roles.ts\<close>): the views, the operator plane and the member plane. A request is
  a record of the fields its type names; the caller's session and the text of the booted model are
  arguments. The two reads of a \<open>Promise.all\<close> are made one after the other.
\<close>

section \<open>Roles\<close>

record auth_data =
  au_user :: string
  au_email :: string
  au_verified :: bool
  au_roles :: "string list"

definition operator_role :: "string \<Rightarrow> exn + string" where
  "operator_role model_json =
     sbind (parse_or_throw model_json) (\<lambda>model.
       if nullish model then Inl (TypeErr ''Cannot read properties of null'')
       else Inr (case js_get (js_get model ''auth'') ''operatorRole'' of
                   JStr s \<Rightarrow> s
                 | _ \<Rightarrow> ''enrahitu_operator''))"

definition has_role :: "string list \<Rightarrow> string list \<Rightarrow> bool" where
  "has_role roles needed \<longleftrightarrow> needed = [] \<or> list_ex (\<lambda>r. r \<in> set roles) needed"

definition require_role :: "string list \<Rightarrow> string list \<Rightarrow> exn + unit" where
  "require_role roles needed =
     (if has_role roles needed then Inr ()
      else Inl (APIError PermissionDenied ''insufficient role'' ''ROLE_REQUIRED''))"

definition require_operator :: "string \<Rightarrow> auth_data \<Rightarrow> exn + string" where
  "require_operator model_json auth =
     sbind (operator_role model_json) (\<lambda>role.
     sbind (require_role (au_roles auth) [role]) (\<lambda>_. Inr (au_email auth)))"

section \<open>Views\<close>

record member_view =
  mv_name :: string
  mv_display :: string
  mv_email :: string
  mv_sub :: "string option"
  mv_joined :: string
  mv_revision :: nat
  mv_fence :: int

record membership_view =
  sv_name :: string
  sv_member :: string
  sv_tier :: string
  sv_starts :: string
  sv_ends :: "string option"
  sv_renew :: bool
  sv_state :: membership_state
  sv_renews :: "string option"
  sv_lapsed :: "string option"
  sv_invoice :: "string option"
  sv_problem :: "string option"
  sv_revision :: nat
  sv_fence :: int

record tier_view =
  tv_name :: string
  tv_spec :: tier_spec
  tv_revision :: nat
  tv_fence :: int

record invoice_view =
  iv_name :: string
  iv_spec :: invoice_spec
  iv_state :: invoice_state
  iv_paid :: "string option"
  iv_by :: "string option"
  iv_revision :: nat
  iv_fence :: int

text \<open>\<open>if (x) view.k = x\<close>: an empty text is left out.\<close>

definition shown :: "string option \<Rightarrow> string option" where
  "shown t = (if given t then t else None)"

definition state_of :: "string \<Rightarrow> membership_state" where
  "state_of s =
     (if s = ''active'' then Active else if s = ''lapsed'' then Lapsed else if s = ''invalid'' then Invalid else Pending)"

definition invoice_state_of :: "string \<Rightarrow> invoice_state" where
  "invoice_state_of s = (if s = ''paid'' then Paid else if s = ''void'' then Void else Open)"

definition membership_status_at :: "js \<Rightarrow> membership_status" where
  "membership_status_at v =
     (if nullish v then status_of Pending
      else \<lparr>st_state = state_of (text_at v ''state''), st_renews = opt_text_at v ''renewsOn'',
            st_lapsed = opt_text_at v ''lapsedOn'', st_invoice = opt_text_at v ''currentInvoice'',
            st_problem = opt_text_at v ''problem''\<rparr>)"

definition invoice_status_at :: "js \<Rightarrow> invoice_status" where
  "invoice_status_at v =
     (if nullish v then \<lparr>is_state = Open, is_paid = None, is_by = None\<rparr>
      else \<lparr>is_state = invoice_state_of (text_at v ''state''), is_paid = opt_text_at v ''paidOn'',
            is_by = opt_text_at v ''recordedBy''\<rparr>)"

definition member_view_of :: "resource \<Rightarrow> member_view" where
  "member_view_of r =
     (let s = member_at (re_spec r) in
      \<lparr>mv_name = re_name r, mv_display = me_display s, mv_email = me_email s, mv_sub = shown (me_sub s),
       mv_joined = me_joined s, mv_revision = re_revision r, mv_fence = re_fence r\<rparr>)"

definition membership_view_of :: "resource \<Rightarrow> membership_view" where
  "membership_view_of r =
     (let s = membership_at (re_spec r); status = membership_status_at (re_status r) in
      \<lparr>sv_name = re_name r, sv_member = ms_member s, sv_tier = ms_tier s, sv_starts = ms_starts s,
       sv_ends = shown (ms_ends s), sv_renew = ms_renew s, sv_state = st_state status,
       sv_renews = shown (st_renews status), sv_lapsed = shown (st_lapsed status),
       sv_invoice = shown (st_invoice status), sv_problem = shown (st_problem status),
       sv_revision = re_revision r, sv_fence = re_fence r\<rparr>)"

definition tier_view_of :: "resource \<Rightarrow> tier_view" where
  "tier_view_of r =
     \<lparr>tv_name = re_name r, tv_spec = tier_at (re_spec r), tv_revision = re_revision r, tv_fence = re_fence r\<rparr>"

definition invoice_view_of :: "resource \<Rightarrow> invoice_view" where
  "invoice_view_of r =
     (let status = invoice_status_at (re_status r) in
      \<lparr>iv_name = re_name r, iv_spec = invoice_at (re_spec r), iv_state = is_state status,
       iv_paid = shown (is_paid status), iv_by = shown (is_by status),
       iv_revision = re_revision r, iv_fence = re_fence r\<rparr>)"

section \<open>The association record\<close>

record org_response =
  og_tenant :: string
  og_display :: string
  og_contact :: "string option"

definition get_org :: "kernel \<Rightarrow> ('x app_scheme, org_response) io" where
  "get_org K =
     bnd tenant_id (\<lambda>tenant.
     bnd (guarded (get_resource K TENANT tenant no_admit_options)) (\<lambda>found.
       ret (case found of
              None \<Rightarrow> \<lparr>og_tenant = tenant, og_display = tenant, og_contact = None\<rparr>
            | Some r \<Rightarrow>
                (let s = tenant_at (re_spec r) in
                 \<lparr>og_tenant = tenant, og_display = tn_display s, og_contact = shown (tn_contact s)\<rparr>))))"

text \<open>The last argument is the fence the client sent.\<close>

definition put_org ::
  "kernel \<Rightarrow> string \<Rightarrow> auth_data \<Rightarrow> tenant_spec \<Rightarrow> int option \<Rightarrow> ('x app_scheme, org_response) io" where
  "put_org K model_json auth req fence =
     bnd (lift (require_operator model_json auth)) (\<lambda>actor.
     bnd tenant_id (\<lambda>tenant.
     bnd (guarded (get_resource K TENANT tenant no_admit_options)) (\<lambda>existing.
       let expected = (case fence of Some f \<Rightarrow> f
                       | None \<Rightarrow> (case existing of Some x \<Rightarrow> re_fence x | None \<Rightarrow> 0)) in
     bnd (guarded (write_spec K TENANT tenant (js_tenant (req\<lparr>tn_contact := shown (tn_contact req)\<rparr>))
            \<lparr>wr_tenant = [], wr_actor = Some actor, wr_expected = Some expected\<rparr>)) (\<lambda>stored.
       let s = tenant_at (re_spec stored) in
       ret \<lparr>og_tenant = tenant, og_display = tn_display s, og_contact = shown (tn_contact s)\<rparr>))))"

section \<open>Tiers\<close>

definition scope :: "string \<Rightarrow> string \<Rightarrow> admit_options" where
  "scope tenant actor = \<lparr>ao_tenant = Some tenant, ao_fence = None, ao_actor = Some actor\<rparr>"

definition list_views ::
  "kernel \<Rightarrow> string \<Rightarrow> auth_data \<Rightarrow> string \<Rightarrow> (resource \<Rightarrow> 'v) \<Rightarrow> ('x app_scheme, 'v list) io" where
  "list_views K model_json auth kind view =
     bnd (lift (require_operator model_json auth)) (\<lambda>_.
     bnd (guarded (bnd tenant_id (\<lambda>t. list_resources K kind (tenant_only t)))) (\<lambda>rs.
       ret (map view rs)))"

definition list_tiers :: "kernel \<Rightarrow> string \<Rightarrow> auth_data \<Rightarrow> ('x app_scheme, tier_view list) io" where
  "list_tiers K model_json auth = list_views K model_json auth TIER tier_view_of"

text \<open>What the PUT handlers share: the gate, the tenant, the write, the view of what was stored.\<close>

definition put_view ::
  "kernel \<Rightarrow> string \<Rightarrow> auth_data \<Rightarrow> string \<Rightarrow> string \<Rightarrow> js \<Rightarrow> int option \<Rightarrow> (resource \<Rightarrow> 'v) \<Rightarrow>
    ('x app_scheme, 'v) io" where
  "put_view K model_json auth kind name spec fence view =
     bnd (lift (require_operator model_json auth)) (\<lambda>actor.
     bnd tenant_id (\<lambda>tenant.
     bnd (write_spec K kind name spec \<lparr>wr_tenant = tenant, wr_actor = Some actor, wr_expected = fence\<rparr>) (\<lambda>stored.
       ret (view stored))))"

record tier_request =
  tr_label :: string
  tr_dues :: js                       \<comment> \<open>a number\<close>
  tr_period :: string
  tr_voting :: bool
  tr_grace :: "js option"

definition tier_request_js :: "tier_request \<Rightarrow> js" where
  "tier_request_js req =
     JObj ([(''label'', JStr (tr_label req)), (''duesCents'', tr_dues req), (''period'', JStr (tr_period req)),
            (''votingRights'', JBool (tr_voting req))] @
           (case tr_grace req of None \<Rightarrow> [] | Some g \<Rightarrow> [(''graceDays'', g)]))"

definition put_tier ::
  "kernel \<Rightarrow> string \<Rightarrow> auth_data \<Rightarrow> string \<Rightarrow> tier_request \<Rightarrow> int option \<Rightarrow> ('x app_scheme, tier_view) io" where
  "put_tier K model_json auth name req fence =
     put_view K model_json auth TIER name (tier_request_js req) fence tier_view_of"

definition delete_named ::
  "kernel \<Rightarrow> string \<Rightarrow> auth_data \<Rightarrow> string \<Rightarrow> string \<Rightarrow> ('x app_scheme, bool) io" where
  "delete_named K model_json auth kind name =
     bnd (lift (require_operator model_json auth)) (\<lambda>actor.
     bnd (guarded (bnd tenant_id (\<lambda>t. retract K kind name (scope t actor)))) (\<lambda>gone.
       ret (gone \<noteq> None)))"

definition delete_tier :: "kernel \<Rightarrow> string \<Rightarrow> auth_data \<Rightarrow> string \<Rightarrow> ('x app_scheme, bool) io" where
  "delete_tier K model_json auth name = delete_named K model_json auth TIER name"

section \<open>Members\<close>

text \<open>Later memberships of a member replace earlier ones in the map.\<close>

definition memberships_by_member :: "resource list \<Rightarrow> string \<Rightarrow> membership_view option" where
  "memberships_by_member ms =
     map_of (rev (map (\<lambda>m. (ms_member (membership_at (re_spec m)), membership_view_of m)) ms))"

definition list_members ::
  "kernel \<Rightarrow> string \<Rightarrow> auth_data \<Rightarrow> ('x app_scheme, (member_view \<times> membership_view option) list) io" where
  "list_members K model_json auth =
     bnd (lift (require_operator model_json auth)) (\<lambda>_.
     bnd tenant_id (\<lambda>tenant.
       guarded
         (bnd (list_resources K MEMBER (tenant_only tenant)) (\<lambda>members.
          bnd (list_resources K MEMBERSHIP (tenant_only tenant)) (\<lambda>memberships.
            ret (map (\<lambda>m. (member_view_of m, memberships_by_member memberships (re_name m))) members))))))"

record member_detail =
  de_member :: member_view
  de_membership :: "membership_view option"
  de_invoices :: "invoice_view list"

definition detail_of :: "resource \<Rightarrow> resource list \<Rightarrow> resource list \<Rightarrow> member_detail" where
  "detail_of member memberships invoices =
     \<lparr>de_member = member_view_of member,
      de_membership = map_option membership_view_of
        (find (\<lambda>m. ms_member (membership_at (re_spec m)) = re_name member) memberships),
      de_invoices = map invoice_view_of (filter (\<lambda>i. in_member (invoice_at (re_spec i)) = re_name member) invoices)\<rparr>"

definition detail_for :: "kernel \<Rightarrow> string \<Rightarrow> resource \<Rightarrow> ('x app_scheme, member_detail) io" where
  "detail_for K tenant member =
     bnd (list_resources K MEMBERSHIP (tenant_only tenant)) (\<lambda>memberships.
     bnd (list_resources K DUES_INVOICE (tenant_only tenant)) (\<lambda>invoices.
       ret (detail_of member memberships invoices)))"

definition get_member :: "kernel \<Rightarrow> string \<Rightarrow> auth_data \<Rightarrow> string \<Rightarrow> ('x app_scheme, member_detail) io" where
  "get_member K model_json auth name =
     bnd (lift (require_operator model_json auth)) (\<lambda>_.
     bnd tenant_id (\<lambda>tenant.
       guarded
         (bnd (get_resource K MEMBER name (tenant_only tenant)) (\<lambda>found.
            case found of
              None \<Rightarrow> throw (APIError NotFound (''no member '' @ quoted name) [])
            | Some member \<Rightarrow> detail_for K tenant member))))"

record member_request =
  mr_display :: string
  mr_email :: string
  mr_joined :: string
  mr_sub :: "string option"

definition member_request_js :: "member_request \<Rightarrow> js" where
  "member_request_js req =
     JObj ([(''displayName'', JStr (mr_display req)), (''email'', JStr (mr_email req)),
            (''joinedOn'', JStr (mr_joined req))] @ opt_field ''sub'' (shown (mr_sub req)))"

definition put_member ::
  "kernel \<Rightarrow> string \<Rightarrow> auth_data \<Rightarrow> string \<Rightarrow> member_request \<Rightarrow> int option \<Rightarrow> ('x app_scheme, member_view) io" where
  "put_member K model_json auth name req fence =
     put_view K model_json auth MEMBER name (member_request_js req) fence member_view_of"

definition delete_member :: "kernel \<Rightarrow> string \<Rightarrow> auth_data \<Rightarrow> string \<Rightarrow> ('x app_scheme, bool) io" where
  "delete_member K model_json auth name = delete_named K model_json auth MEMBER name"

section \<open>Memberships\<close>

definition list_memberships :: "kernel \<Rightarrow> string \<Rightarrow> auth_data \<Rightarrow> ('x app_scheme, membership_view list) io" where
  "list_memberships K model_json auth = list_views K model_json auth MEMBERSHIP membership_view_of"

definition membership_request_js :: "membership_spec \<Rightarrow> js" where
  "membership_request_js req =
     JObj ([(''member'', JStr (ms_member req)), (''tier'', JStr (ms_tier req)), (''startsOn'', JStr (ms_starts req)),
            (''autoRenew'', JBool (ms_renew req))] @ opt_field ''endsOn'' (shown (ms_ends req)))"

definition put_membership ::
  "kernel \<Rightarrow> string \<Rightarrow> auth_data \<Rightarrow> string \<Rightarrow> membership_spec \<Rightarrow> int option \<Rightarrow> ('x app_scheme, membership_view) io" where
  "put_membership K model_json auth name req fence =
     put_view K model_json auth MEMBERSHIP name (membership_request_js req) fence membership_view_of"

section \<open>Dues\<close>

definition list_dues :: "kernel \<Rightarrow> string \<Rightarrow> auth_data \<Rightarrow> ('x app_scheme, invoice_view list) io" where
  "list_dues K model_json auth = list_views K model_json auth DUES_INVOICE invoice_view_of"

text \<open>The status write on an invoice. The row may be retracted between the read and the write.\<close>

definition write_invoice_status ::
  "kernel \<Rightarrow> string \<Rightarrow> string \<Rightarrow> string \<Rightarrow> invoice_status \<Rightarrow> ('x app_scheme, invoice_view) io" where
  "write_invoice_status K tenant actor name status =
     guarded
       (bnd (get_resource K DUES_INVOICE name (tenant_only tenant)) (\<lambda>found.
          case found of
            None \<Rightarrow> throw (APIError NotFound (''no invoice '' @ quoted name) [])
          | Some invoice \<Rightarrow>
              bnd (set_status K DUES_INVOICE name (js_invoice_status status)
                     \<lparr>ao_tenant = Some tenant, ao_fence = Some (re_fence invoice), ao_actor = Some actor\<rparr>) (\<lambda>stored.
                case stored of
                  None \<Rightarrow> throw (TypeErr ''Cannot read properties of null'')
                | Some r \<Rightarrow> ret (invoice_view_of r))))"

definition record_payment ::
  "kernel \<Rightarrow> string \<Rightarrow> auth_data \<Rightarrow> string \<Rightarrow> string option \<Rightarrow> ('x app_scheme, invoice_view) io" where
  "record_payment K model_json auth name paid =
     bnd (lift (require_operator model_json auth)) (\<lambda>actor.
     bnd tenant_id (\<lambda>tenant.
     bnd (gets ap_today) (\<lambda>now.
       case resolve_paid_on paid now of
         PaidProblem problem \<Rightarrow> throw (APIError InvalidArgument problem [])
       | PaidDay day \<Rightarrow>
           write_invoice_status K tenant actor name \<lparr>is_state = Paid, is_paid = Some day, is_by = Some actor\<rparr>)))"

definition void_invoice :: "kernel \<Rightarrow> string \<Rightarrow> auth_data \<Rightarrow> string \<Rightarrow> ('x app_scheme, invoice_view) io" where
  "void_invoice K model_json auth name =
     bnd (lift (require_operator model_json auth)) (\<lambda>actor.
     bnd tenant_id (\<lambda>tenant.
       write_invoice_status K tenant actor name \<lparr>is_state = Void, is_paid = None, is_by = None\<rparr>))"

section \<open>The member plane\<close>

record my_membership =
  my_member :: member_view
  my_current :: "membership_view option"
  my_outstanding :: "invoice_view list"

definition session_of :: "auth_data \<Rightarrow> session_identity" where
  "session_of auth = \<lparr>se_user = au_user auth, se_email = au_email auth, se_verified = au_verified auth\<rparr>"

definition my_membership_endpoint :: "kernel \<Rightarrow> auth_data \<Rightarrow> ('x app_scheme, my_membership) io" where
  "my_membership_endpoint K auth =
     bnd tenant_id (\<lambda>tenant.
       guarded
         (bnd (list_resources K MEMBER (tenant_only tenant)) (\<lambda>members.
            case find_linked_member (\<lambda>m. member_at (re_spec m)) members (session_of auth) of
              None \<Rightarrow> throw (APIError NotFound ''no membership record is linked to this account; the association's staff can link one'' [])
            | Some mine \<Rightarrow>
                bnd (detail_for K tenant mine) (\<lambda>d.
                  ret \<lparr>my_member = de_member d, my_current = de_membership d,
                       my_outstanding = filter (\<lambda>i. iv_state i = Open) (de_invoices d)\<rparr>))))"

end
