(* ===== verification/Store_Client.thy ===== *)
theory Store_Client
  imports Controller_Claims
begin

text \<open>
  What a client of the control plane may conclude about its own program, once and for all: a
  relation between worlds that every step order can be, kept by what the facade does besides
  transactions and by the transactions \<open>may\<close> allows, is kept by every read and by every write
  whose transactions are allowed, whether it answers or throws and whatever else commits between
  its calls.
\<close>

locale store_client = step_order R
  for R :: "'x cell_scheme \<Rightarrow> 'x cell_scheme \<Rightarrow> bool" +
  fixes may :: "store_op \<Rightarrow> bool"
  assumes plane: "plane_only w w' \<Longrightarrow> R w w'"
    and across: "along R crossing"
    and along_commit: "may p \<Longrightarrow> along R (commit p)"
    and published: "R w (w\<lparr>w_bus := w_bus w @ [e]\<rparr>)"
begin

lemma along_demand: "along R (demand K kind res opts)"
  using demand_plane [of K kind res opts] plane by (auto simp: along_def)

lemma along_record: "along R (record_admission K k op n actor b)"
  unfolding record_admission_def using zoom_ledger_plane plane by (auto simp: along_def)

lemma along_ready: "along R state_ready"
  unfolding state_ready_def by (intro along_bnd along_gets along_lift)

lemma along_gate: "along R (sql_gate K kind tables sqls)"
  unfolding sql_gate_def by (intro along_bnd along_lift along_demand along_ready across)

lemma along_query: "along R (query K sql tables run)"
  unfolding query_def by (intro along_bnd along_gets along_lift along_gate)

lemma along_query_consistent: "along R (query_consistent K sql tables run)"
  unfolding query_consistent_def by (intro along_bnd along_gets along_lift along_gate)

lemma along_txn: "may p \<Longrightarrow> along R (txn K sqls tables p)"
  unfolding txn_def by (intro along_bnd along_gate along_commit)

lemma along_notify: "along R (notify K e)"
  unfolding notify_def by (intro along_bnd along_demand along_ready) (simp add: along_modify published)

lemma along_require_kind: "along R (require_kind n)"
  unfolding require_kind_def
  by (intro along_bnd along_gets) (auto split: option.split intro: along_ret along_throw)

lemma along_finish: "along R (finish_write K k op actor b)"
  unfolding finish_write_def read_back_def
  by (intro along_bnd along_query_consistent along_option along_throw along_lift along_record along_notify along_ret)

lemma along_tenant:
  "(\<And>a. r = Inr a \<Longrightarrow> along R (f a)) \<Longrightarrow> along R (bnd (lift r) f)"
  by (cases r) (auto simp: along_def bnd_run step_refl)

lemma along_get: "along R (get_resource K n name opts)"
  unfolding get_resource_def
  by (intro along_bnd along_require_kind along_lift along_query along_option along_if along_ret)

lemma along_list_resources: "along R (list_resources K n opts)"
  unfolding list_resources_def by (intro along_bnd along_require_kind along_lift along_query)

text \<open>An admission under the kind its name resolves to, with the spec the kind's validator answers.\<close>

lemma bnd_step: "m w = (Inr a, u) \<Longrightarrow> R w u \<Longrightarrow> along R (f a) \<Longrightarrow> R w (snd (bnd m f w))"
  using step_trans by (auto simp: bnd_run along_def)

lemma admit_step:
  assumes kind: "require_kind n w = (Inr kind, w)"
    and may: "\<And>t op fence v now. tenant_of kind opts = Inr t \<Longrightarrow> kn_validate kind spec = Inr v \<Longrightarrow>
      may (OpAdmit (kn_name kind, t, name) op fence (show_js v) now)"
  shows "R w (snd (admit K n name spec opts w))"
  unfolding admit_def Let_def
  by (rule bnd_step [where m = "require_kind n", OF kind], rule step_refl)
    (intro along_tenant along_bnd along_gets along_query_consistent along_option along_if along_throw along_lift
       along_txn may along_finish)

lemma require_kind_same: "snd (require_kind n w) = w"
  by (simp add: require_kind_def bnd_run split: option.split)

lemma along_admit:
  assumes "\<And>kind t op fence body now. tenant_of kind opts = Inr t \<Longrightarrow>
    may (OpAdmit (kn_name kind, t, name) op fence body now)"
  shows "along R (admit K n name spec opts)"
proof (rule alongI)
  fix w :: "'x cell_scheme"
  obtain r where r: "require_kind n w = (r, w)" using require_kind_same [of n w] by (metis prod.collapse)
  show "R w (snd (admit K n name spec opts w))"
  proof (cases r)
    case (Inl e)
    with r step_refl show ?thesis by (simp add: admit_def bnd_run)
  next
    case (Inr kind)
    with r assms admit_step show ?thesis by blast
  qed
qed

lemma along_set_status:
  assumes "\<And>kind t body fence now. tenant_of kind opts = Inr t \<Longrightarrow>
    may (OpStatus (kn_name kind, t, name) body fence now)"
  shows "along R (set_status K n name v opts)"
  unfolding set_status_def Let_def
  by (intro along_bnd [OF along_require_kind] along_tenant along_bnd along_gets along_query_consistent
        along_option along_if along_throw along_lift along_ret along_txn assms along_finish)

lemma along_retract:
  assumes "\<And>kind t fence now. tenant_of kind opts = Inr t \<Longrightarrow>
    may (OpRetract (kn_name kind, t, name) fence now)"
  shows "along R (retract K n name opts)"
  unfolding retract_def Let_def
  by (intro along_bnd [OF along_require_kind] along_tenant along_bnd along_gets along_query_consistent
        along_option along_if along_throw along_lift along_ret along_txn assms along_finish)

lemma along_lease:
  assumes "\<And>f. along R (m f)" and "\<And>w l. R w (w\<lparr>w_leases := l\<rparr>)" and "\<And>w l. R w (w\<lparr>w_locks := l\<rparr>)"
    and "\<And>w l. R w (w\<lparr>w_releases := l\<rparr>)"
  shows "along R (with_lease K key m)"
proof -
  have "R w (w\<lparr>w_releases := l, w_leases := l'\<rparr>)" for w l l' using assms(2,4) step_trans by blast
  then show ?thesis
    unfolding with_lease_def lock_def release_def
    by (intro along_bnd along_gets along_finally along_demand along_ready along_list along_option along_throw along_lift
          along_ret assms(1)) (simp_all add: along_modify assms)
qed

end

section \<open>The relations\<close>

text \<open>The controller's invariant, its marks and its clock.\<close>

lemma commit_keeps:
  assumes "controller_inv name kinds w" and "no_mark name p"
  shows "controller_inv name kinds (snd (commit p w))"
proof (cases "run_op p (w_store w)")
  case (Inl e)
  with assms show ?thesis by (simp add: commit_def bnd_run)
next
  case (Inr s)
  have s: "s = fold apply_op [p] (w_store w)" using Inr by (simp add: apply_op_def)
  obtain ps where "w_store w = fold apply_op ps (w_replica w)" using assms(1) by (auto simp: controller_inv_def)
  then have "s = fold apply_op (ps @ [p]) (w_replica w)" using s by simp
  then have reach: "\<exists>qs. s = fold apply_op qs (w_replica w)" by blast
  note wf = inv_store_wf [OF assms(1)]
  have "map_of (s_marks s) name = map_of (s_marks (w_store w)) name"
    using fold_marks [of name "[p]"] assms(2) s by simp
  then have "good_mark kinds (ct_trace w) (ct_mark w) s" "marks_good name kinds (ct_trace w) s s"
    "marks_good name kinds (ct_trace w) (w_replica w) s"
    using assms(1) good_mark_later [OF wf, of kinds _ _ "[p]"] marks_good_later [OF wf, of name kinds _ _ "[p]"] s
    by (auto simp: controller_inv_def marks_good_def split: option.splits)
  with assms reach Inr show ?thesis by (auto simp: commit_def controller_inv_def)
qed

interpretation inv_client: store_client "keeping (controller_inv name kinds)" "no_mark name"
  for name :: string and kinds :: "string list"
proof
  fix w w' :: "'x ctl_world_scheme"
  show "plane_only w w' \<Longrightarrow> keeping (controller_inv name kinds) w w'"
    by (auto simp: plane_only_def keeping_def controller_inv_def)
  show "keeping (controller_inv name kinds) w (w\<lparr>w_bus := w_bus w @ [e]\<rparr>)" for e
    by (auto simp: keeping_def controller_inv_def)
  show "along (keeping (controller_inv name kinds)) crossing" by (rule crossing_inv)
  show "along (keeping (controller_inv name kinds)) (commit p)" if "no_mark name p" for p
    using that commit_keeps by (auto simp: along_def keeping_def)
qed

interpretation frame_client: store_client "loop_frame :: 'x ctl_world_scheme \<Rightarrow> 'x ctl_world_scheme \<Rightarrow> bool" "\<lambda>p. True"
proof
  fix w w' :: "'x ctl_world_scheme"
  show "plane_only w w' \<Longrightarrow> loop_frame w w'" by (auto simp: plane_only_def loop_frame_def store_steps_frame)
  show "loop_frame w (w\<lparr>w_bus := w_bus w @ [e]\<rparr>)" for e by (simp add: loop_frame_def store_steps_frame)
  show "along loop_frame crossing" by (rule crossing_frame)
  show "along loop_frame (commit p :: ('x ctl_world_scheme, unit) io)" for p
  proof (rule alongI)
    fix w :: "'x ctl_world_scheme"
    have "store_steps w (snd (commit p w))" by (rule commit_steps [unfolded along_def, rule_format])
    moreover have "ct_mark (snd (commit p w)) = ct_mark w" "ct_trace (snd (commit p w)) = ct_trace w"
      by (simp_all add: commit_def bnd_run split: sum.split)
    ultimately show "loop_frame w (snd (commit p w))" by (simp add: loop_frame_def)
  qed
qed

text \<open>The clock and its readings are not the store's.\<close>

definition same_clock :: "'x ctl_world_scheme \<Rightarrow> 'x ctl_world_scheme \<Rightarrow> bool" where
  "same_clock w w' \<longleftrightarrow> ct_clock w' = ct_clock w"

interpretation same_clock: step_order same_clock
  by unfold_locales (auto simp: same_clock_def)

interpretation clock_client: store_client "same_clock :: 'x ctl_world_scheme \<Rightarrow> 'x ctl_world_scheme \<Rightarrow> bool" "\<lambda>p. True"
proof
  fix w w' :: "'x ctl_world_scheme"
  show "plane_only w w' \<Longrightarrow> same_clock w w'" by (auto simp: plane_only_def same_clock_def)
  show "same_clock w (w\<lparr>w_bus := w_bus w @ [e]\<rparr>)" for e by (simp add: same_clock_def)
  show "along same_clock crossing"
    by (rule alongI) (auto simp: same_clock_def crossing_def Let_def split: list.split option.split)
  show "along same_clock (commit p)" for p
    by (rule alongI) (auto simp: same_clock_def commit_def bnd_run split: sum.split)
qed

text \<open>
  Who wrote what: every transaction the store went through is the environment's or is one of
  the program's own, which satisfies \<open>P\<close>.
\<close>

definition wrote :: "(store_op \<Rightarrow> bool) \<Rightarrow> 'x world_scheme \<Rightarrow> 'x world_scheme \<Rightarrow> bool" where
  "wrote P w w' \<longleftrightarrow>
     set (w_env w') \<subseteq> set (w_env w) \<and>
     (\<exists>ps. w_store w' = fold apply_op ps (w_store w) \<and>
        (\<forall>p \<in> set ps. P p \<or> (\<exists>ev \<in> set (w_env w). p \<in> set (y_ops ev))))"

lemma wrote_frame: "w_env w' = w_env w \<Longrightarrow> w_store w' = w_store w \<Longrightarrow> wrote P w w'"
  by (auto simp: wrote_def intro: exI [of _ "[]"])

interpretation wrote: step_order "wrote P" for P :: "store_op \<Rightarrow> bool"
proof
  show "wrote P w w" for w :: "'x world_scheme" by (simp add: wrote_frame)
next
  fix u v w :: "'x world_scheme"
  assume uv: "wrote P u v" and vw: "wrote P v w"
  from uv obtain ps where ps: "set (w_env v) \<subseteq> set (w_env u)" "w_store v = fold apply_op ps (w_store u)"
      "\<forall>p \<in> set ps. P p \<or> (\<exists>ev \<in> set (w_env u). p \<in> set (y_ops ev))" by (auto simp: wrote_def)
  from vw obtain qs where qs: "set (w_env w) \<subseteq> set (w_env v)" "w_store w = fold apply_op qs (w_store v)"
      "\<forall>p \<in> set qs. P p \<or> (\<exists>ev \<in> set (w_env v). p \<in> set (y_ops ev))" by (auto simp: wrote_def)
  have "w_store w = fold apply_op (ps @ qs) (w_store u)" using ps(2) qs(2) by simp
  moreover have "\<forall>p \<in> set (ps @ qs). P p \<or> (\<exists>ev \<in> set (w_env u). p \<in> set (y_ops ev))"
    unfolding set_append using ps(1,3) qs(3) by blast
  ultimately show "wrote P u w" unfolding wrote_def using ps(1) qs(1) by blast
qed

interpretation wrote_client: store_client "wrote P :: 'x cell_scheme \<Rightarrow> 'x cell_scheme \<Rightarrow> bool" P for P :: "store_op \<Rightarrow> bool"
proof
  fix w w' :: "'x cell_scheme"
  show "plane_only w w' \<Longrightarrow> wrote P w w'" by (auto simp: plane_only_def wrote_frame)
  show "wrote P w (w\<lparr>w_bus := w_bus w @ [e]\<rparr>)" for e by (simp add: wrote_frame)
  show "along (wrote P) (crossing :: ('x cell_scheme, unit) io)"
  proof (rule alongI)
    fix w :: "'x cell_scheme"
    show "wrote P w (snd (crossing w))"
    proof (cases "w_env w")
      case Nil
      then show ?thesis by (simp add: crossing_def wrote_frame)
    next
      case (Cons ev evs)
      then show ?thesis
        by (auto simp: crossing_def wrote_def Let_def intro!: exI [of _ "y_ops ev"] split: option.split)
    qed
  qed
  show "along (wrote P) (commit p :: ('x cell_scheme, unit) io)" if "P p" for p
  proof (rule alongI)
    fix w :: "'x cell_scheme"
    have "w_store (snd (commit p w)) = fold apply_op [p] (w_store w)" "w_env (snd (commit p w)) = w_env w"
      by (auto simp: commit_def bnd_run apply_op_def split: sum.split)
    with that show "wrote P w (snd (commit p w))" unfolding wrote_def by (intro conjI exI [of _ "[p]"]) auto
  qed
qed

end
