(* ===== verification/Members_Controller_Claims.thy ===== *)
theory Members_Controller_Claims
  imports Members_Controller Store_Client
begin

text \<open>
  The renewal controller writes only rows of the association it was called for, keeps the contract
  of a reconciler, so its watermark never skips, and its sweep gives every membership its turn.
\<close>

section \<open>Whose rows a reconcile writes\<close>

fun op_tenant :: "store_op \<Rightarrow> string option" where
  "op_tenant (OpAdmit k op fence body now) = Some (fst (snd k))"
| "op_tenant (OpRetract k fence now) = Some (fst (snd k))"
| "op_tenant (OpStatus k body fence now) = Some (fst (snd k))"
| "op_tenant (OpMark c n) = None"
| "op_tenant OpMigrate = None"

lemma tenant_of_given: "tenant_of kind opts = Inr t \<Longrightarrow> ao_tenant opts = Some s \<Longrightarrow> t = s"
  by (auto simp: tenant_of_def given_def split: if_splits)

text \<open>A client of the domain, whose relation also keeps what it logs.\<close>

locale domain_client = store_client R may
  for R :: "'x app_scheme \<Rightarrow> 'x app_scheme \<Rightarrow> bool" and may :: "store_op \<Rightarrow> bool" +
  assumes warned: "R w (w\<lparr>ap_warnings := l\<rparr>)"
begin

lemma along_own_admit:
  assumes "\<And>p. op_tenant p = Some tenant \<Longrightarrow> may p" and "ao_tenant opts = Some tenant"
  shows "along R (admit K n name spec opts)"
  using tenant_of_given [OF _ assms(2)] by (intro along_admit assms(1)) auto

lemma along_own_status:
  assumes "\<And>p. op_tenant p = Some tenant \<Longrightarrow> may p" and "ao_tenant opts = Some tenant"
  shows "along R (set_status K n name v opts)"
  using tenant_of_given [OF _ assms(2)] by (intro along_set_status assms(1)) auto

lemma along_pair: "(\<And>a b. along R (f a b)) \<Longrightarrow> along R (case x of (a, b) \<Rightarrow> f a b)"
  by (cases x) simp

lemma along_warn: "along R (warn m)"
  by (simp add: warn_def along_modify warned)

text \<open>Programs that write rows of one tenant, as long as such admissions and status writes are kept.\<close>

lemma along_raise:
  assumes "\<And>n name spec opts. ao_tenant opts = Some tenant \<Longrightarrow> along R (admit K n name spec opts)"
  shows "along R (raise_dues_notice K tenant intent membership tier)"
  unfolding raise_dues_notice_def send_dues_notice_def raise_notice_def Let_def
  by (intro along_catch along_bnd along_get along_option along_if along_ret along_warn assms) auto

lemma along_plan:
  assumes "\<And>n name spec opts. ao_tenant opts = Some tenant \<Longrightarrow> along R (admit K n name spec opts)"
    and "\<And>n name v opts. ao_tenant opts = Some tenant \<Longrightarrow> along R (set_status K n name v opts)"
  shows "along R (apply_plan K tenant name fence membership tier plan)"
  unfolding apply_plan_def
  by (intro along_bnd along_option along_pair along_ret along_throw along_raise assms) (simp_all add: as_actor_def)

lemma along_reconcile_if:
  assumes "\<And>n name spec opts. ao_tenant opts = Some tenant \<Longrightarrow> along R (admit K n name spec opts)"
    and "\<And>n name v opts. ao_tenant opts = Some tenant \<Longrightarrow> along R (set_status K n name v opts)"
  shows "along R (reconcile_membership K tenant name fence day)"
  unfolding reconcile_membership_def Let_def
  by (intro along_bnd along_get along_option along_if along_ret along_lift along_plan assms)

lemma along_reconcile:
  assumes "\<And>p. op_tenant p = Some tenant \<Longrightarrow> may p"
  shows "along R (reconcile_membership K tenant name fence day)"
  by (intro along_reconcile_if along_own_admit along_own_status assms)

end

interpretation app_wrote: domain_client "wrote P :: 'x app_scheme \<Rightarrow> 'x app_scheme \<Rightarrow> bool" P for P :: "store_op \<Rightarrow> bool"
  by unfold_locales (simp add: wrote_frame)

interpretation app_inv: domain_client "keeping (controller_inv name kinds) :: 'x app_scheme \<Rightarrow> 'x app_scheme \<Rightarrow> bool" "no_mark name"
  for name :: string and kinds :: "string list"
  by unfold_locales (auto simp: keeping_def controller_inv_def)

interpretation app_frame: domain_client "loop_frame :: 'x app_scheme \<Rightarrow> 'x app_scheme \<Rightarrow> bool" "\<lambda>p. True"
  by unfold_locales (simp add: loop_frame_def store_steps_frame)

interpretation app_clock: domain_client "same_clock :: 'x app_scheme \<Rightarrow> 'x app_scheme \<Rightarrow> bool" "\<lambda>p. True"
  by unfold_locales (simp add: same_clock_def)

lemma apply_op_other_rows:
  assumes "op_tenant p = Some t" and "rr_tenant r \<noteq> t"
  shows "r \<in> set (s_rows (apply_op p s)) \<longleftrightarrow> r \<in> set (s_rows s)"
proof -
  have upd: "r \<in> set (s_rows (update_where (\<lambda>r. key_of r = k \<and> rr_fence r \<le> f) g s)) \<longleftrightarrow> r \<in> set (s_rows s)"
    if "fst (snd k) = t" "\<And>r. key_of (g r) = key_of r" for k f g
  proof -
    have ten: "rr_tenant x = t" if "key_of x = k" for x using that \<open>fst (snd k) = t\<close> by (auto simp: key_of_def)
    have "rr_tenant (g x) = t" if "key_of x = k" for x using ten [of "g x"] that \<open>\<And>r. key_of (g r) = key_of r\<close> by simp
    with ten assms(2) show ?thesis by (auto simp: update_where_def image_iff)
  qed
  show ?thesis
  proof (cases p)
    case (OpAdmit k op fence body now)
    then have "fst (snd k) = t" using assms(1) by simp
    then have "r \<in> set (s_rows (upsert k fence body now s)) \<longleftrightarrow> r \<in> set (s_rows s)"
      using assms(2) upd [of k]
      by (cases k) (auto simp: upsert_def split: option.split)
    with OpAdmit show ?thesis
      by (auto simp: apply_op_def outbox_insert_def split: sum.split option.split)
  next
    case (OpRetract k fence now)
    then have "fst (snd k) = t" using assms(1) by simp
    with OpRetract upd [of k] show ?thesis
      by (auto simp: apply_op_def outbox_insert_def tombstone_def split: sum.split option.split)
  next
    case (OpStatus k body fence now)
    then have "fst (snd k) = t" using assms(1) by simp
    with OpStatus upd [of k] show ?thesis
      by (auto simp: apply_op_def outbox_insert_def update_status_def split: sum.split option.split)
  qed (use assms in auto)
qed

lemma fold_other_rows:
  "(\<And>p. p \<in> set ps \<Longrightarrow> op_tenant p = Some t) \<Longrightarrow> rr_tenant r \<noteq> t \<Longrightarrow>
   r \<in> set (s_rows (fold apply_op ps s)) \<longleftrightarrow> r \<in> set (s_rows s)"
  by (induction ps arbitrary: s) (simp_all add: apply_op_other_rows)

text \<open>
  Whatever the reconciling of a membership meets, and wherever it stops,
  every transaction it commits is on a row of the association it was called for; all others come
  from other writers. Without other writers the rows of every other association stay as they are.
\<close>

theorem own_association_only:
  "let u = snd (reconcile_membership K tenant name fence day w) in
    (\<exists>ps. w_store u = fold apply_op ps (w_store w) \<and>
       (\<forall>p \<in> set ps. op_tenant p = Some tenant \<or> (\<exists>ev \<in> set (w_env w). p \<in> set (y_ops ev)))) \<and>
    (w_env w = [] \<longrightarrow> (\<forall>r. rr_tenant r \<noteq> tenant \<longrightarrow>
       (r \<in> set (s_rows (w_store u)) \<longleftrightarrow> r \<in> set (s_rows (w_store w)))))"
proof -
  have "along (wrote (\<lambda>p. op_tenant p = Some tenant)) (reconcile_membership K tenant name fence day)"
    by (rule app_wrote.along_reconcile)
  then obtain ps where ps: "w_store (snd (reconcile_membership K tenant name fence day w)) = fold apply_op ps (w_store w)"
      "\<forall>p \<in> set ps. op_tenant p = Some tenant \<or> (\<exists>ev \<in> set (w_env w). p \<in> set (y_ops ev))"
    unfolding along_def wrote_def by blast
  show ?thesis
    unfolding Let_def
  proof (intro conjI impI allI exI [of _ ps])
    fix r :: resource_row assume "w_env w = []" "rr_tenant r \<noteq> tenant"
    with ps show "r \<in> set (s_rows (w_store (snd (reconcile_membership K tenant name fence day w)))) \<longleftrightarrow>
        r \<in> set (s_rows (w_store w))"
      using fold_other_rows [of ps tenant r "w_store w"] by simp
  qed (use ps in auto)
qed

theorem own_association_only_witness:
  "note_row 1 ''x'' 1 \<in> set (s_rows (w_store
     (snd (reconcile_membership allow_kernel ''other'' ''a'' 3 ''2026-01-05'' (demo_app note_store [] [])))))"
  using own_association_only [of allow_kernel "''other''" "''a''" 3 "''2026-01-05''" "demo_app note_store [] []"]
  by (simp add: Let_def demo_app_defs note_store_def note_row_def migrated_store_def)

section \<open>A reconciler the watermark can rely on\<close>

lemma no_mark_own: "op_tenant p = Some t \<Longrightarrow> no_mark name p"
  by (cases p) (auto simp: no_mark_def)

lemma renewal_spec_simps [simp]:
  "cs_name (renewal_controller_spec K) = RENEWAL_CONTROLLER"
  "cs_kinds (renewal_controller_spec K) = [MEMBERSHIP, DUES_INVOICE]"
  by (simp_all add: renewal_controller_spec_def)

lemma renewal_reconciler_ok:
  fixes K :: kernel
  defines "spec \<equiv> (renewal_controller_spec K :: 'x app_scheme controller_spec)"
  shows "reconciler_ok (cs_name spec) (cs_kinds spec) (cs_reconcile spec)"
proof -
  have "along (keeping (controller_inv (cs_name spec) (cs_kinds spec))) (cs_reconcile spec c f)" for c f
    unfolding spec_def renewal_controller_spec_def controller_spec.simps
    by (intro keep.along_option app_inv.along_pair keep.along_bnd keep.along_gets keep.along_ret
          app_inv.along_reconcile no_mark_own)
  moreover have "along loop_frame (cs_reconcile spec c f)" for c f
    unfolding spec_def renewal_controller_spec_def controller_spec.simps
    by (intro frame.along_option app_frame.along_pair frame.along_bnd frame.along_gets frame.along_ret
          app_frame.along_reconcile) simp
  ultimately show ?thesis unfolding reconciler_ok_def by blast
qed


lemma demo_app_inv: "name \<noteq> [] \<Longrightarrow> controller_inv name kinds (demo_app note_store [] [])"
proof -
  have wf: "store_wf note_store" using note_quiet by (simp add: quiet_def demo_cell_def)
  show ?thesis
    using wf good_mark_zero [OF wf]
    by (auto simp: controller_inv_def demo_app_defs env_clean_def marks_good_def note_store_def
        migrated_store_def empty_store_def intro: exI [of _ "[]"])
qed


section \<open>The sweep gives every membership its turn\<close>

text \<open>One turn, and the turns of a list, each in the world the one before left: whether the membership
  reconciled, and the world. An error that ends the process ends the sweep.\<close>

definition turn ::
  "kernel \<Rightarrow> string \<Rightarrow> int \<Rightarrow> string \<Rightarrow> resource \<Rightarrow> 'x app_scheme \<Rightarrow> (exn + bool) \<times> 'x app_scheme" where
  "turn K tenant fence day m w =
     (case reconcile_membership K tenant (re_name m) fence day (w\<lparr>ct_clock := tl (ct_clock w)\<rparr>) of
        (Inr _, u) \<Rightarrow> (Inr True, u)
      | (Inl e, u) \<Rightarrow>
          (if exits e then (Inl e, u)
           else (Inr False, u\<lparr>ap_warnings := ap_warnings u @ [''renewal sweep: membership did not reconcile'']\<rparr>)))"

fun turns ::
  "kernel \<Rightarrow> string \<Rightarrow> int \<Rightarrow> string \<Rightarrow> resource list \<Rightarrow> ('x app_scheme, bool list) io" where
  "turns K tenant fence day [] = ret []"
| "turns K tenant fence day (m # ms) =
     bnd (turn K tenant fence day m) (\<lambda>b. bnd (turns K tenant fence day ms) (\<lambda>bs. ret (b # bs)))"

lemma turn_exits: "turn K tenant fence day m w = (Inl e, u) \<Longrightarrow> exits e"
  by (auto simp: turn_def split: prod.splits sum.splits if_splits)

lemma turns_shape:
  "case turns K tenant fence day ms w of (Inl e, u) \<Rightarrow> exits e | (Inr bs, u) \<Rightarrow> length bs = length ms"
proof (induction ms arbitrary: w)
  case (Cons m ms)
  obtain r u where tn: "turn K tenant fence day m w = (r, u)" by fastforce
  show ?case
  proof (cases r)
    case (Inl e)
    with tn turn_exits show ?thesis by (simp add: bnd_run)
  next
    case (Inr b)
    with tn Cons.IH [of u] show ?thesis by (auto simp: bnd_run split: prod.splits sum.splits)
  qed
qed simp

lemma turn_clock:
  fixes w :: "'x app_scheme"
  shows "ct_clock (snd (turn K tenant fence day m w)) = tl (ct_clock w)"
proof -
  have "along same_clock (reconcile_membership K tenant (re_name m) fence day :: ('x app_scheme, unit) io)"
    by (rule app_clock.along_reconcile) simp
  from this [unfolded along_def, rule_format, of "w\<lparr>ct_clock := tl (ct_clock w)\<rparr>"] show ?thesis
    by (auto simp: same_clock_def turn_def split: prod.splits sum.splits)
qed

lemma sweep_rows_turns:
  "length ms \<le> length (ct_clock w) \<Longrightarrow> \<forall>t \<in> set (take (length ms) (ct_clock w)). t < deadline \<Longrightarrow>
   sweep_rows K tenant fence day deadline n ms w =
     (case turns K tenant fence day ms w of
        (Inl e, u) \<Rightarrow> (Inl e, u)
      | (Inr bs, u) \<Rightarrow> (Inr (n + length (filter id bs)), u))"
proof (induction ms arbitrary: n w)
  case (Cons m ms)
  then obtain t ts where clk: "ct_clock w = t # ts" by (cases "ct_clock w") auto
  have t: "\<not> past deadline (Some t)" using Cons.prems clk by (simp add: past_def)
  obtain r u where tn: "turn K tenant fence day m w = (r, u)" by fastforce
  have u: "ct_clock u = ts" using turn_clock [of K tenant fence day m w] tn clk by simp
  note IH = Cons.IH [of u]
  have ms: "length ms \<le> length (ct_clock u)" "\<forall>t \<in> set (take (length ms) (ct_clock u)). t < deadline"
    using Cons.prems clk u by auto
  show ?case
    using tn t clk IH [OF ms, of "Suc n"] IH [OF ms, of n]
    by (auto simp: turn_def bnd_run read_clock_def catch_run warn_def split: prod.splits sum.splits if_splits)
qed simp

text \<open>
  C34: as long as the clock stays short of the deadline, a sweep gives every
  membership of the list its turn, whatever happens to the ones before, except an error that
  ends the process; it answers the number of those that reconciled, and logs one warning for each of
  the others.
\<close>

theorem sweep_reaches_all:
  assumes "length ms \<le> length (ct_clock w)" and "\<forall>t \<in> set (take (length ms) (ct_clock w)). t < deadline"
  shows "case turns K tenant fence day ms w of
      (Inl e, u) \<Rightarrow> exits e \<and> sweep_rows K tenant fence day deadline 0 ms w = (Inl e, u)
    | (Inr bs, u) \<Rightarrow> length bs = length ms \<and>
        sweep_rows K tenant fence day deadline 0 ms w = (Inr (length (filter id bs)), u)"
  using turns_shape [where w = w and K = K and tenant = tenant and fence = fence and day = day and ms = ms] sweep_rows_turns [OF assms, where n = 0]
  by (auto split: prod.splits sum.splits)

lemma quiet_get:
  assumes "permissive K" and "quiet w" and "s_schema (w_replica w)" and "map_of (cl_kinds w) n = Some kind"
    and "tenant_of kind opts = Inr t"
  shows "get_resource K n name opts w =
    (case select_one (kn_name kind, t, name) (w_replica w) of
       None \<Rightarrow> Inr None
     | Some r \<Rightarrow> if is_deleted r then Inr None else map_sum id Some (hydrate_row r), w)"
proof -
  have "query K SELECT_ONE [''resource''] (in_schema ''resource'' (select_one (kn_name kind, t, name))) w =
      (Inr (select_one (kn_name kind, t, name) (w_replica w)), w)"
    using assms(3) by (simp add: quiet_query [OF assms(1,2) sql_accepted(1)] in_schema_def)
  then show ?thesis
    by (simp add: get_resource_def bnd_run require_found [OF assms(4)] assms(5) split: option.split sum.split)
qed

lemma demo_kinds [simp]:
  "map_of (cl_kinds (demo_app s evs vars)) TENANT = Some tenant_kind"
  "map_of (cl_kinds (demo_app s evs vars)) TIER = Some tier_kind"
  "map_of (cl_kinds (demo_app s evs vars)) MEMBER = Some member_kind"
  "map_of (cl_kinds (demo_app s evs vars)) MEMBERSHIP = Some membership_kind"
  "map_of (cl_kinds (demo_app s evs vars)) DUES_INVOICE = Some dues_invoice_kind"
  by (simp_all add: demo_app_defs MEMBERSHIP_KINDS_def tenant_kind_def tier_kind_def member_kind_def
      membership_kind_def dues_invoice_kind_def kind_names)

lemma scoped [simp]:
  "t \<noteq> [] \<Longrightarrow> kn_tenant_scoped kind \<Longrightarrow> tenant_of kind (tenant_only t) = Inr t"
  "t \<noteq> [] \<Longrightarrow> kn_tenant_scoped kind \<Longrightarrow> tenant_of kind (as_actor t f) = Inr t"
  by (simp_all add: tenant_of_def tenant_only_def as_actor_def given_def)

lemma kinds_scoped [simp]:
  "kn_tenant_scoped tier_kind" "kn_tenant_scoped member_kind" "kn_tenant_scoped membership_kind"
  "kn_tenant_scoped dues_invoice_kind" "\<not> kn_tenant_scoped tenant_kind"
  "kn_name tier_kind = TIER" "kn_name member_kind = MEMBER" "kn_name membership_kind = MEMBERSHIP"
  "kn_name dues_invoice_kind = DUES_INVOICE" "kn_name tenant_kind = TENANT"
  by (simp_all add: tier_kind_def member_kind_def membership_kind_def dues_invoice_kind_def tenant_kind_def)

definition demo_subject :: resource where
  "demo_subject = \<lparr>re_kind = MEMBERSHIP, re_tenant = ''t'', re_name = ''gone'', re_revision = 1, re_fence = 0,
     re_spec = JObj [], re_status = JNull, re_deleted = None, re_created = ''c'', re_updated = ''c''\<rparr>"

theorem sweep_reaches_all_witness:
  "sweep_rows allow_kernel ''t'' 3 ''2026-01-05'' 10 0 [demo_subject] ((demo_app note_store [] [])\<lparr>ct_clock := [5]\<rparr>) =
     (Inr 1, demo_app note_store [] [])"
proof -
  let ?w = "(demo_app note_store [] [])\<lparr>ct_clock := [5]\<rparr>"
  have q: "quiet (demo_app note_store [] [])"
    using note_quiet by (intro demo_app_quiet) (auto simp: quiet_def demo_cell_def)
  have schema: "s_schema (w_replica (demo_app note_store [] []))"
    and none: "select_one (MEMBERSHIP, ''t'', ''gone'') (w_replica (demo_app note_store [] [])) = None"
    by (simp_all add: demo_app_defs note_store_def migrated_store_def empty_store_def select_one_def note_row_def key_of_def
        MEMBERSHIP_def)
  have get: "get_resource allow_kernel MEMBERSHIP ''gone'' (tenant_only ''t'') (demo_app note_store [] []) =
      (Inr None, demo_app note_store [] [])"
    using none by (simp add: quiet_get [OF allow_permissive q schema demo_kinds(4)])
  have "?w\<lparr>ct_clock := tl (ct_clock ?w)\<rparr> = demo_app note_store [] []" by (simp add: demo_app_defs)
  then have "turns allow_kernel ''t'' 3 ''2026-01-05'' [demo_subject] ?w = (Inr [True], demo_app note_store [] [])"
    by (simp add: turn_def reconcile_membership_def demo_subject_def bnd_run get)
  with sweep_reaches_all [of "[demo_subject]" ?w 10 allow_kernel "''t''" 3 "''2026-01-05''"] show ?thesis by simp
qed

text \<open>
  A reminder is planned by the one reconcile that raises the invoice and by none after it, so one
  that ends between the two writes never sends it.
\<close>

lemma reminder_planned_once:
  "evaluate r = Inr p \<Longrightarrow> rn_invoice r \<noteq> None \<Longrightarrow> pl_notice p \<noteq> Some \<lparr>ni_template = DuesReminder, ni_invoice = n\<rparr>"
proof (cases "\<exists>tier period ends. over r tier period ends")
  case False
  assume e: "evaluate r = Inr p"
  then have "p = only_status (pl_status p)" using evaluate_not_over False by blast
  then have "pl_notice p = None" by (metis only_status_def renewal_plan.select_convs(3))
  then show ?thesis by simp
next
  case True
  then obtain tier period ends where o: "over r tier period ends" by blast
  assume "evaluate r = Inr p" and i: "rn_invoice r \<noteq> None"
  then have "bill r tier period ends = Inr p" using evaluate_over [OF o] by simp
  then show ?thesis by (cases rule: bill_cases) (use i in \<open>auto simp: only_status_def\<close>)
qed

section \<open>The start\<close>

lemma register_kinds_run:
  assumes "cl_kinds w = []"
  shows "register_membership_kinds w = (Inr (), w\<lparr>cl_kinds := map (\<lambda>k. (kn_name k, k)) MEMBERSHIP_KINDS\<rparr>)"
  using assms
  by (simp add: register_membership_kinds_def MEMBERSHIP_KINDS_def register_kind_def bnd_run kind_names tenant_kind_def
      tier_kind_def member_kind_def membership_kind_def dues_invoice_kind_def)

lemma register_mail_run:
  "map_of (cl_kinds w) MAIL_NOTICE = None \<Longrightarrow>
   register_mail_kinds w = (Inr (), w\<lparr>cl_kinds := obj_set MAIL_NOTICE mail_notice_kind (cl_kinds w)\<rparr>)"
  by (simp add: register_mail_kinds_def register_kind_def bnd_run mail_notice_kind_def)

lemma schema_present_run:
  assumes "permissive K" and "quiet w"
  shows "schema_present K w = (Inr (s_schema (w_replica w)), w)"
proof -
  have "check_all [''SELECT name FROM sqlite_master WHERE type = 'table' AND name = $1''] = Inr ()" by code_simp
  then show ?thesis using assms by (simp add: schema_present_def catch_run quiet_query)
qed

text \<open>
  C33: with a row of another association in the store, starting the domain ends
  the process before anything is written: the store is the one found, no event is published and no Decision
  appended.
\<close>

theorem start_refuses_foreign:
  assumes "permissive K" and "quiet w" and "s_schema (w_replica w)" and "ap_tenant w = Some mine" and "cl_kinds w = []"
    and "map_of (ap_env w) ''VITEST'' = None"
    and "r \<in> set (s_rows (w_replica w))" and "rr_tenant r \<noteq> []" and "rr_tenant r \<noteq> mine"
  shows "\<exists>m u. start_membership_runtime_or_exit K polls w = (Inl (ProcessExit m), u) \<and>
    w_store u = w_store w \<and> w_bus u = w_bus w \<and> p_ledger u = p_ledger w"
proof -
  let ?w1 = "w\<lparr>cl_kinds := map (\<lambda>k. (kn_name k, k)) MEMBERSHIP_KINDS\<rparr>"
  let ?w2 = "?w1\<lparr>cl_kinds := obj_set MAIL_NOTICE mail_notice_kind (cl_kinds ?w1)\<rparr>"
  let ?w3 = "?w2\<lparr>p_scope := Some ''members''\<rparr>"
  have q: "quiet ?w3" using assms(2) by (simp add: quiet_def)
  have "map_of (cl_kinds ?w1) MAIL_NOTICE = None"
    by (simp add: MEMBERSHIP_KINDS_def kind_names tenant_kind_def tier_kind_def member_kind_def membership_kind_def
        dues_invoice_kind_def MAIL_NOTICE_def)
  note reg = register_kinds_run [OF assms(5)] register_mail_run [OF this]
  have probe: "schema_present K ?w3 = (Inr True, ?w3)" using schema_present_run [OF assms(1) q] assms(3) by simp
  let ?f = "filter (\<lambda>t. t \<noteq> mine) (stored_tenants (w_replica w))"
  have "?f \<noteq> []" using assms(7-9) stored_tenants_foreign [of mine "w_replica w"] by blast
  moreover have "check_all [TENANTS_SQL] = Inr ()" by code_simp
  ultimately have "assert_tenant_consistency K ?w3 = (Inl (TenantMismatchError mine ?f), ?w3)"
    using assms q by (simp add: assert_tenant_consistency_def tenant_id_def bnd_run quiet_query in_schema_def Let_def)
  with probe have "start_membership_runtime K polls w =
      (Inl (TenantMismatchError mine ?f), ?w3\<lparr>p_scope := p_scope w\<rparr>)"
    using assms(2)
    by (simp add: start_membership_runtime_def bnd_run reg run_as_service_def wait_for_schema_def state_ready_def quiet_def)
  then show ?thesis
    using assms(6) by (simp add: start_membership_runtime_or_exit_def catch_run given_def)
qed

theorem start_refuses_foreign_witness:
  "\<exists>m u. start_membership_runtime_or_exit allow_kernel []
      ((demo_app note_store [] [])\<lparr>cl_kinds := [], ap_tenant := Some ''mine''\<rparr>) = (Inl (ProcessExit m), u) \<and>
    w_store u = note_store"
proof -
  let ?w = "(demo_app note_store [] [])\<lparr>cl_kinds := [], ap_tenant := Some ''mine''\<rparr>"
  have q: "quiet ?w" using note_quiet by (simp add: quiet_def demo_app_defs)
  have r: "note_row 1 ''x'' 1 \<in> set (s_rows (w_replica ?w))" "s_schema (w_replica ?w)" "w_store ?w = note_store"
    by (simp_all add: demo_app_defs note_store_def migrated_store_def empty_store_def)
  show ?thesis
    using start_refuses_foreign [OF allow_permissive q r(2) _ _ _ r(1), of "''mine''" "[]"] r(3)
    by (auto simp: demo_app_defs note_row_def)
qed

end
