(* ===== verification/Members_Loop_Claims.thy ===== *)
theory Members_Loop_Claims
  imports Settled Members_API Members_Controller_Claims
begin

text \<open>
  A membership through one term, without interference: the reconcile that raises the invoice, the
  payment an operator records, and the reconcile that renews, each followed by one that changes
  nothing.
\<close>

section \<open>Rows read and written\<close>

text \<open>A world of the domain: settled, its replica level with the store, its kinds registered.\<close>

definition domain_world :: "kernel \<Rightarrow> string \<Rightarrow> 'x app_scheme \<Rightarrow> bool" where
  "domain_world K tenant w \<longleftrightarrow>
     settled K w \<and> w_replica w = w_store w \<and> tenant \<noteq> [] \<and>
     list_all (\<lambda>k. map_of (cl_kinds w) (kn_name k) = Some k) (mail_notice_kind # MEMBERSHIP_KINDS)"

lemma domain_kinds:
  assumes "domain_world K tenant w"
  shows "map_of (cl_kinds w) TENANT = Some tenant_kind" "map_of (cl_kinds w) TIER = Some tier_kind"
    "map_of (cl_kinds w) MEMBER = Some member_kind" "map_of (cl_kinds w) MEMBERSHIP = Some membership_kind"
    "map_of (cl_kinds w) DUES_INVOICE = Some dues_invoice_kind"
    "map_of (cl_kinds w) MAIL_NOTICE = Some mail_notice_kind"
  using assms by (auto simp: domain_world_def MEMBERSHIP_KINDS_def mail_notice_kind_def)

lemma only_store_app:
  assumes "only_store w u"
  shows "cl_kinds u = cl_kinds w" "ap_today u = ap_today w" "ap_tenant u = ap_tenant w" "ap_warnings u = ap_warnings w"
  using assms by (auto simp: only_store_def)

lemma domain_caught_up: "domain_world K tenant w \<Longrightarrow> settled K u \<Longrightarrow> cl_kinds u = cl_kinds w \<Longrightarrow> domain_world K tenant (caught_up u)"
  using caught_up_settled [of K u] by (auto simp: domain_world_def caught_up_def)

text \<open>A live row that holds a value.\<close>

definition live_spec :: "row_key \<Rightarrow> js \<Rightarrow> resource_row \<Rightarrow> 'x world_scheme \<Rightarrow> bool" where
  "live_spec k v r w \<longleftrightarrow> row_at k w = Some r \<and> \<not> is_deleted r \<and> rr_spec r = show_js v \<and> storable v"

lemma hydrate_fields:
  assumes "hydrate_row r = Inr x" and "rr_spec r = show_js v" and "storable v"
  shows "re_spec x = v" "re_fence x = rr_fence r" "rr_status r = None \<Longrightarrow> re_status x = JNull"
    "rr_status r = Some (show_js s) \<Longrightarrow> storable s \<Longrightarrow> re_status x = s" "re_name x = rr_name r"
  using assms by (auto simp: hydrate_row_def parse_or_throw_def parse_stringify sbind_Inr_iff)

lemma get_live:
  assumes w: "settled K w" "w_replica w = w_store w" and kind: "map_of (cl_kinds w) n = Some kind" "tenant_of kind opts = Inr t"
    and l: "live_spec (kn_name kind, t, name) v r w"
  shows "\<exists>x. get_resource K n name opts w = (Inr (Some x), w) \<and> hydrate_row r = Inr x \<and> re_spec x = v \<and>
    re_fence x = rr_fence r"
proof -
  have sel: "select_one (kn_name kind, t, name) (w_store w) = Some r" using l by (simp add: live_spec_def row_at_def)
  then obtain x where x: "hydrate_row r = Inr x"
    using texts_hydrate [of "w_store w" r] select_one_Some w(1) by (auto simp: settled_def)
  have "get_resource K n name opts w = (Inr (Some x), w)"
    using settled_get [OF w(1) kind] sel l w(2) x by (simp add: live_spec_def)
  with x hydrate_fields(1,2) [OF x] l show ?thesis by (auto simp: live_spec_def)
qed

lemma get_none:
  assumes "settled K w" and "map_of (cl_kinds w) n = Some kind" and "tenant_of kind opts = Inr t"
    and "select_one (kn_name kind, t, name) (w_replica w) = None"
  shows "get_resource K n name opts w = (Inr None, w)"
  using settled_get [OF assms(1-3)] assms(4) by simp

text \<open>A read answers something, and leaves the world.\<close>

lemma get_some:
  assumes "settled K w" and "map_of (cl_kinds w) n = Some kind" and "tenant_of kind opts = Inr t"
  shows "\<exists>x. get_resource K n name opts w = (Inr x, w)"
proof (cases "select_one (kn_name kind, t, name) (w_replica w)")
  case None
  then show ?thesis using settled_get [OF assms] by simp
next
  case (Some r)
  then have "\<exists>y. hydrate_row r = Inr y"
    using texts_hydrate [of "w_replica w" r] select_one_Some [OF Some] assms(1) by (auto simp: settled_def)
  with Some show ?thesis using settled_get [OF assms] by auto
qed

lemma tenant_cluster [simp]: "tenant_of tenant_kind no_admit_options = Inr []"
  by (simp add: tenant_of_def no_admit_options_def given_def)

lemma mail_scoped [simp]:
  "kn_tenant_scoped mail_notice_kind" "kn_name mail_notice_kind = MAIL_NOTICE" "kn_validate mail_notice_kind = validate_notice"
  by (simp_all add: mail_notice_kind_def)

text \<open>Raising the notice touches at most the notice's own row, and never fails.\<close>

lemma settled_notice:
  fixes w :: "'x app_scheme"
  assumes w: "settled K w" and kinds: "map_of (cl_kinds w) TENANT = Some tenant_kind"
    "map_of (cl_kinds w) MEMBER = Some member_kind" "map_of (cl_kinds w) DUES_INVOICE = Some dues_invoice_kind"
    "map_of (cl_kinds w) MAIL_NOTICE = Some mail_notice_kind" and t: "tenant \<noteq> []"
    and k: "k = (MAIL_NOTICE, tenant, notice_name_for (template_text (ni_template n)) (ni_invoice n))"
  shows "\<exists>u. raise_dues_notice K tenant n m tier w = (Inr (), u) \<and> settled K u \<and> cl_kinds u = cl_kinds w \<and>
    w_replica u = w_replica w \<and> ap_today u = ap_today w \<and> ap_tenant u = ap_tenant w \<and>
    (\<forall>j. j \<noteq> k \<longrightarrow> row_at j u = row_at j w)"
proof -
  have sc: "tenant_of kind (tenant_only tenant) = Inr tenant" if "kn_tenant_scoped kind" for kind using t that by simp
  obtain i where i: "get_resource K DUES_INVOICE (ni_invoice n) (tenant_only tenant) w = (Inr i, w)"
    using get_some [OF w kinds(3)] sc by fastforce
  obtain me where me: "get_resource K MEMBER (ms_member m) (tenant_only tenant) w = (Inr me, w)"
    using get_some [OF w kinds(2)] sc by fastforce
  obtain og where og: "get_resource K TENANT tenant no_admit_options w = (Inr og, w)"
    using get_some [OF w kinds(1) tenant_cluster] by blast
  let ?o = "\<lparr>ao_tenant = Some tenant, ao_fence = None, ao_actor = Some ACTOR\<rparr>"
  have ten: "tenant_of mail_notice_kind ?o = Inr tenant" using t by (simp add: tenant_of_def given_def)
  define ok where "ok u \<longleftrightarrow> settled K u \<and> cl_kinds u = cl_kinds w \<and> w_replica u = w_replica w \<and> ap_today u = ap_today w \<and>
    ap_tenant u = ap_tenant w \<and> (\<forall>j. j \<noteq> k \<longrightarrow> row_at j u = row_at j w)" for u :: "'x app_scheme"
  have okw: "ok w" using w by (simp add: ok_def)
  have warned: "ok (w\<lparr>ap_warnings := l\<rparr>)" for l using w by (simp add: ok_def settled_def quiet_def row_at_def)
  have raise: "\<exists>r u. raise_notice K tenant (template_text (ni_template n)) (ni_invoice n) spec (Some ACTOR) w = (r, u) \<and> ok u \<and>
      (\<forall>e. r = Inl e \<longrightarrow> \<not> exits e \<and> u = w)" for spec
  proof (cases "validate_notice spec")
    case (Inl e)
    then have "raise_notice K tenant (template_text (ni_template n)) (ni_invoice n) spec (Some ACTOR) w = (Inl e, w)"
      by (simp add: raise_notice_def admit_def bnd_run require_found [OF kinds(4)] ten)
    moreover have "\<not> exits e" using notice.blames [OF Inl] by auto
    ultimately show ?thesis using okw by blast
  next
    case (Inr v)
    then have v: "kn_validate mail_notice_kind spec = Inr v" by simp
    note st = notice.validated(4) [OF Inr]
    show ?thesis
    proof (cases "\<exists>r. row_at k w = Some r \<and> fence_of ?o < rr_fence r")
      case True
      then obtain r where "row_at k w = Some r" "fence_of ?o < rr_fence r" by blast
      moreover have "permissive K" "quiet w" "texts_ok (w_store w)" using w by (auto simp: settled_def)
      ultimately have "admit K MAIL_NOTICE (notice_name_for (template_text (ni_template n)) (ni_invoice n)) spec ?o w =
          (Inl (SupersededError (kn_name mail_notice_kind) (notice_name_for (template_text (ni_template n)) (ni_invoice n)) (fence_of ?o)), w)"
        using quiet_admit [OF _ _ _ kinds(4) ten v st settled_ledger [OF w]] by (simp add: k row_at_def Let_def)
      then show ?thesis using okw by (auto simp: raise_notice_def bnd_run)
    next
      case False
      then have "\<And>r. row_at k w = Some r \<Longrightarrow> rr_fence r \<le> fence_of ?o" by (meson not_le)
      with settled_admit [OF w kinds(4) ten v st, of k "notice_name_for (template_text (ni_template n)) (ni_invoice n)"] k
      obtain x u where u: "admit K MAIL_NOTICE (notice_name_for (template_text (ni_template n)) (ni_invoice n)) spec ?o w = (Inr x, u)"
          "settled K u" "only_row k w u" by auto
      then have "ok u" using only_store_app [of w u] only_storeD [of w u] by (auto simp: ok_def only_row_def)
      with u(1) show ?thesis by (auto simp: raise_notice_def bnd_run)
    qed
  qed
  have body: "\<exists>r u. send_dues_notice K tenant n m tier w = (r, u) \<and> ok u \<and> (\<forall>e. r = Inl e \<longrightarrow> \<not> exits e \<and> u = w)"
  proof (cases "i = None \<or> me = None \<or> me_email (member_at (re_spec (the me))) = []")
    case True
    then have "send_dues_notice K tenant n m tier w = (Inr (), w)"
      by (cases i; cases me) (auto simp: send_dues_notice_def bnd_run i me)
    with okw show ?thesis by blast
  next
    case False
    then obtain i' me' where im: "i = Some i'" "me = Some me'" "me_email (member_at (re_spec me')) \<noteq> []" by auto
    then show ?thesis
      using raise by (simp add: send_dues_notice_def bnd_run i me og Let_def)
  qed
  then obtain r u where "send_dues_notice K tenant n m tier w = (r, u)" "ok u" "\<forall>e. r = Inl e \<longrightarrow> \<not> exits e \<and> u = w" by blast
  then have "\<exists>u. raise_dues_notice K tenant n m tier w = (Inr (), u) \<and> ok u"
    using warned by (cases r) (auto simp: raise_dues_notice_def catch_run warn_def)
  then show ?thesis by (simp add: ok_def)
qed

section \<open>One reconcile\<close>

abbreviation membership_key :: "string \<Rightarrow> string \<Rightarrow> row_key" where
  "membership_key tenant name \<equiv> (MEMBERSHIP, tenant, name)"

abbreviation invoice_key :: "string \<Rightarrow> string \<Rightarrow> string \<Rightarrow> row_key" where
  "invoice_key tenant name ends \<equiv> (DUES_INVOICE, tenant, invoice_name_for name ends)"

text \<open>The invoice of a term as a reconcile finds it: none, or a live row with its status.\<close>

definition invoice_seen :: "row_key \<Rightarrow> 'x world_scheme \<Rightarrow> (invoice_spec \<times> js) option \<Rightarrow> bool" where
  "invoice_seen k w iv \<longleftrightarrow>
     (case iv of
        None \<Rightarrow> row_at k w = None
      | Some (spec, s) \<Rightarrow> \<exists>i. live_spec k (js_invoice spec) i w \<and>
          (if rr_status i = None then s = JNull else rr_status i = Some (show_js s) \<and> storable s))"

text \<open>The membership and its tier, with a term that has an end.\<close>

definition on_term ::
  "string \<Rightarrow> string \<Rightarrow> membership_spec \<Rightarrow> tier_spec \<Rightarrow> string \<Rightarrow> resource_row \<Rightarrow> 'x world_scheme \<Rightarrow> bool" where
  "on_term tenant name m ti ends r w \<longleftrightarrow>
     live_spec (membership_key tenant name) (js_membership m) r w \<and>
     (\<exists>tr. live_spec (TIER, tenant, ms_tier m) (js_tier ti) tr w) \<and> ms_ends m = Some ends \<and> ends \<noteq> []"

lemma reconcile_run:
  assumes w: "domain_world K tenant w" and m: "on_term tenant name m ti ends r w"
    and i: "invoice_seen (invoice_key tenant name ends) w iv"
  shows "\<exists>x y. re_spec x = js_membership m \<and> re_fence x = rr_fence r \<and> re_spec y = js_tier ti \<and>
    reconcile_membership K tenant name fence day w =
      bnd (lift (evaluate \<lparr>rn_name = name, rn_membership = m, rn_tier = Some ti, rn_invoice = iv, rn_today = day\<rparr>))
        (apply_plan K tenant name fence x (Some y)) w"
proof -
  have st: "settled K w" "w_replica w = w_store w" "tenant \<noteq> []" using w by (auto simp: domain_world_def)
  note kinds = domain_kinds [OF w]
  obtain x where x: "get_resource K MEMBERSHIP name (tenant_only tenant) w = (Inr (Some x), w)"
      "re_spec x = js_membership m" "re_fence x = rr_fence r"
    using get_live [OF st(1,2) kinds(4), of "tenant_only tenant" tenant name] m st(3) by (auto simp: on_term_def)
  obtain y where y: "get_resource K TIER (ms_tier m) (tenant_only tenant) w = (Inr (Some y), w)" "re_spec y = js_tier ti"
    using get_live [OF st(1,2) kinds(2), of "tenant_only tenant" tenant "ms_tier m"] m st(3) by (auto simp: on_term_def)
  have ends: "ms_ends m = Some ends" "given (ms_ends m)" using m by (auto simp: on_term_def given_def)
  obtain z where z: "get_resource K DUES_INVOICE (invoice_name_for name ends) (tenant_only tenant) w = (Inr z, w)"
      "map_option (\<lambda>i. (invoice_at (re_spec i), re_status i)) z = iv"
  proof (cases iv)
    case None
    then show ?thesis
      using that [of None] get_none [OF st(1) kinds(5), of "tenant_only tenant" tenant] i st by (simp add: invoice_seen_def row_at_def)
  next
    case (Some p)
    then obtain spec s l where l: "iv = Some (spec, s)" "live_spec (invoice_key tenant name ends) (js_invoice spec) l w"
        "if rr_status l = None then s = JNull else rr_status l = Some (show_js s) \<and> storable s"
      using i by (cases p) (auto simp: invoice_seen_def)
    obtain z where "get_resource K DUES_INVOICE (invoice_name_for name ends) (tenant_only tenant) w = (Inr (Some z), w)"
        "hydrate_row l = Inr z" "re_spec z = js_invoice spec"
      using get_live [OF st(1,2) kinds(5), of "tenant_only tenant" tenant "invoice_name_for name ends"] l(2) st(3) by auto
    moreover have "re_status z = s"
      using hydrate_fields(3,4) [OF calculation(2), where v = "js_invoice spec"] l(2,3) by (auto simp: live_spec_def split: if_splits)
    ultimately show ?thesis using that [of "Some z"] l(1) by simp
  qed
  have "reconcile_membership K tenant name fence day w =
      bnd (lift (evaluate \<lparr>rn_name = name, rn_membership = m, rn_tier = Some ti, rn_invoice = iv, rn_today = day\<rparr>))
        (apply_plan K tenant name fence x (Some y)) w"
    using x y z ends by (simp add: reconcile_membership_def bnd_run renewal_input_of_def Let_def)
  with x y show ?thesis by blast
qed

lemma fence_of_actor [simp]: "fence_of (as_actor t f) = (case f of None \<Rightarrow> 0 | Some f \<Rightarrow> f)"
  by (simp add: fence_of_def as_actor_def)

lemma js_status_storable [simp]: "storable (js_status s)"
  by (auto simp: js_status_def)

text \<open>A plan that is only a status, already the row's: nothing happens.\<close>

lemma status_settled:
  assumes w: "domain_world K tenant w" and r: "row_at (membership_key tenant name) w = Some r" "\<not> is_deleted r"
    "rr_fence r \<le> fence" "rr_status r = Some (show_js (js_status s))"
  shows "apply_plan K tenant name fence x (Some y) (only_status s) w = (Inr (), w)"
proof -
  have st: "settled K w" "tenant \<noteq> []" using w by (auto simp: domain_world_def)
  have ten: "tenant_of membership_kind (as_actor tenant (Some fence)) = Inr tenant" using st(2) by simp
  have "\<exists>z. set_status K MEMBERSHIP name (js_status s) (as_actor tenant (Some fence)) w = (Inr (Some z), w)"
    using settled_status [OF st(1) domain_kinds(4) [OF w] ten js_status_storable _ r(1,2), of name s] r(3,4) by auto
  then show ?thesis by (auto simp: apply_plan_def only_status_def bnd_run)
qed

text \<open>The status a plan ends with, written over the row that was there.\<close>

lemma status_written:
  assumes st: "settled K w" "map_of (cl_kinds w) MEMBERSHIP = Some membership_kind" "tenant \<noteq> []"
    and r: "live_spec (membership_key tenant name) (js_membership m) r w" "rr_fence r \<le> fence"
  shows "\<exists>u r'. bnd (set_status K MEMBERSHIP name (js_status s) (as_actor tenant (Some fence))) (\<lambda>_. ret ()) w = (Inr (), u) \<and>
    settled K u \<and> only_row (membership_key tenant name) w u \<and> live_spec (membership_key tenant name) (js_membership m) r' u \<and>
    rr_status r' = Some (show_js (js_status s)) \<and> rr_fence r' \<le> fence"
proof -
  have ten: "tenant_of membership_kind (as_actor tenant (Some fence)) = Inr tenant" using st(3) by simp
  have row: "row_at (membership_key tenant name) w = Some r" "\<not> is_deleted r" "rr_spec r = show_js (js_membership m)"
    "storable (js_membership m)"
    using r(1) by (auto simp: live_spec_def)
  have k: "membership_key tenant name = (kn_name membership_kind, tenant, name)" by simp
  have f: "rr_fence r \<le> fence_of (as_actor tenant (Some fence))" using r(2) by simp
  from settled_status [OF st(1,2) ten js_status_storable k row(1,2) f, of s]
  obtain x u r' where u: "set_status K MEMBERSHIP name (js_status s) (as_actor tenant (Some fence)) w = (Inr (Some x), u)"
      "settled K u" "only_row (membership_key tenant name) w u" "row_at (membership_key tenant name) u = Some r'"
      "rr_status r' = Some (show_js (js_status s))" "rr_spec r' = rr_spec r" "\<not> is_deleted r'"
      "if rr_status r = Some (show_js (js_status s)) then u = w else rr_fence r' = fence_of (as_actor tenant (Some fence))"
    by blast
  have "rr_fence r' \<le> fence" using u(4,8) row(1) r(2) by (auto split: if_splits)
  with u row show ?thesis by (auto simp: bnd_run live_spec_def)
qed

text \<open>The first reconcile after a term is over raises the invoice; the next changes nothing.\<close>

lemma invoice_raised:
  fixes w :: "'x app_scheme"
  assumes w: "domain_world K tenant w" and m: "on_term tenant name m ti ends r w" "rr_fence r \<le> fence"
    and none: "row_at (invoice_key tenant name ends) w = None"
    and over: "ti_period ti = Recurring p" "ends \<le> day" "ms_renew m"
    and dates: "add_period ends p = Inr pe" "due_invoice name m ti ends pe = Inr spec" "invoice_ok spec" "day \<le> in_due spec"
  defines "s \<equiv> (status_of Pending)\<lparr>st_invoice := Some (invoice_name_for name ends), st_renews := Some pe\<rparr>"
  shows "\<exists>u i r'. reconcile_membership K tenant name fence day w = (Inr (), u) \<and>
    domain_world K tenant (caught_up u) \<and> ap_today u = ap_today w \<and> ap_tenant u = ap_tenant w \<and>
    live_spec (invoice_key tenant name ends) (js_invoice spec) i u \<and> rr_status i = None \<and> rr_fence i = 0 \<and>
    on_term tenant name m ti ends r' u \<and> rr_fence r' \<le> fence \<and> rr_status r' = Some (show_js (js_status s)) \<and>
    (\<forall>k. k \<notin> {invoice_key tenant name ends, membership_key tenant name,
       (MAIL_NOTICE, tenant, notice_name_for ''dues-reminder'' (invoice_name_for name ends))} \<longrightarrow> row_at k u = row_at k w) \<and>
    reconcile_membership K tenant name fence day (caught_up u) = (Inr (), caught_up u)"
proof -
  let ?iname = "invoice_name_for name ends"
  let ?ki = "invoice_key tenant name ends" and ?km = "membership_key tenant name"
  let ?kn = "(MAIL_NOTICE, tenant, notice_name_for ''dues-reminder'' ?iname)"
  let ?in = "\<lambda>iv. \<lparr>rn_name = name, rn_membership = m, rn_tier = Some ti, rn_invoice = iv, rn_today = day\<rparr>"
  let ?n = "\<lparr>ni_template = DuesReminder, ni_invoice = ?iname\<rparr>"
  have st: "settled K w" "tenant \<noteq> []" using w by (auto simp: domain_world_def)
  note kinds = domain_kinds [OF w]
  have names: "MEMBERSHIP \<noteq> DUES_INVOICE" "TIER \<noteq> DUES_INVOICE" "MEMBERSHIP \<noteq> TIER" "MAIL_NOTICE \<noteq> MEMBERSHIP"
    "MAIL_NOTICE \<noteq> DUES_INVOICE" "MAIL_NOTICE \<noteq> TIER" by (simp_all add: kind_names MAIL_NOTICE_def)
  have ov: "Renewal.over (?in iv) ti p ends" for iv using m(1) over by (simp add: Renewal.over_def on_term_def)
  have plan: "evaluate (?in None) = Inr \<lparr>pl_invoice = Some (?iname, spec), pl_renew = None, pl_notice = Some ?n, pl_status = s\<rparr>"
    using dates(1,2) by (simp add: evaluate_over [OF ov] bill_def Let_def s_def)
  obtain x y where run: "re_spec x = js_membership m" "re_spec y = js_tier ti"
      "reconcile_membership K tenant name fence day w = apply_plan K tenant name fence x (Some y)
         \<lparr>pl_invoice = Some (?iname, spec), pl_renew = None, pl_notice = Some ?n, pl_status = s\<rparr> w"
    using reconcile_run [OF w m(1), of None fence day] none plan by (auto simp: invoice_seen_def bnd_run)
  have ten: "tenant_of dues_invoice_kind (as_actor tenant None) = Inr tenant" using st(2) by simp
  have v: "kn_validate dues_invoice_kind (js_invoice spec) = Inr (js_invoice spec)"
    using invoice.normal [OF dates(3)] by (simp add: dues_invoice_kind_def)
  have ki: "?ki = (kn_name dues_invoice_kind, tenant, ?iname)" by simp
  obtain a u1 i where u1: "admit K DUES_INVOICE ?iname (js_invoice spec) (as_actor tenant None) w = (Inr a, u1)" "settled K u1"
      "only_row ?ki w u1" "row_at ?ki u1 = Some i" "\<not> is_deleted i" "rr_spec i = show_js (js_invoice spec)" "rr_fence i = 0"
      "rr_status i = None"
    using settled_admit [OF st(1) kinds(5) ten v invoice.rows [OF dates(3)] ki] none by auto
  note app1 = only_store_app [of w u1] only_storeD [of w u1]
  have s1: "only_store w u1" using u1(3) by (simp add: only_row_def)
  have kinds1: "cl_kinds u1 = cl_kinds w" using app1(1) s1 by blast
  obtain u2 where u2: "raise_dues_notice K tenant ?n m ti u1 = (Inr (), u2)" "settled K u2" "cl_kinds u2 = cl_kinds w"
      "ap_today u2 = ap_today w" "ap_tenant u2 = ap_tenant w" "\<forall>j. j \<noteq> ?kn \<longrightarrow> row_at j u2 = row_at j u1"
    using settled_notice [OF u1(2), of tenant ?kn ?n m ti] kinds kinds1 st(2) app1(2,3) s1 by auto
  have rm: "live_spec ?km (js_membership m) r u2"
    using m(1) u2(6) u1(3) names by (simp add: live_spec_def on_term_def only_row_def)
  obtain u3 r' where u3: "bnd (set_status K MEMBERSHIP name (js_status s) (as_actor tenant (Some fence))) (\<lambda>_. ret ()) u2 = (Inr (), u3)"
      "settled K u3" "only_row ?km u2 u3" "live_spec ?km (js_membership m) r' u3"
      "rr_status r' = Some (show_js (js_status s))" "rr_fence r' \<le> fence"
    using status_written [OF u2(2) _ st(2) rm m(2), of s] kinds(4) u2(3) by auto
  have s3: "only_store u2 u3" using u3(3) by (simp add: only_row_def)
  note app3 = only_store_app [OF s3]
  have all: "reconcile_membership K tenant name fence day w = (Inr (), u3)"
    unfolding run(3) using u1(1) u2(1) u3(1) run(1,2) by (simp add: apply_plan_def bnd_run)
  have other: "row_at k u3 = row_at k w" if "k \<notin> {?ki, ?km, ?kn}" for k
    using that u1(3) u2(6) u3(3) by (simp add: only_row_def del: split_paired_All)
  have rowi: "row_at ?ki u3 = Some i" using u1(4) u2(6) u3(3) names by (simp add: only_row_def)
  have invoice: "live_spec ?ki (js_invoice spec) i u3" using rowi u1(5,6) invoice.rows [OF dates(3)] by (simp add: live_spec_def)
  have tier: "\<exists>tr. live_spec (TIER, tenant, ms_tier m) (js_tier ti) tr u3"
    using m(1) other [of "(TIER, tenant, ms_tier m)"] names by (auto simp: live_spec_def on_term_def)
  then have termu: "on_term tenant name m ti ends r' u3" using u3(4) m(1) by (simp add: on_term_def)
  have dom: "domain_world K tenant (caught_up u3)" using domain_caught_up [OF w u3(2)] app3(1) u2(3) by simp
  have same: "row_at k (caught_up u3) = row_at k u3" for k by (simp add: row_at_def caught_up_def)
  have termv: "on_term tenant name m ti ends r' (caught_up u3)" using termu by (simp add: on_term_def live_spec_def same)
  have seen: "invoice_seen ?ki (caught_up u3) (Some (spec, JNull))"
    using invoice u1(8) by (auto simp: invoice_seen_def live_spec_def same)
  have again: "evaluate (?in (Some (spec, JNull))) = Inr (only_status s)"
    using dates(1,2,4) due_invoice_fields [OF dates(2)]
    by (simp add: evaluate_over [OF ov] bill_def Let_def recorded_state_def s_def leD)
  have "row_at ?km (caught_up u3) = Some r'" "\<not> is_deleted r'" using u3(4) by (simp_all add: live_spec_def same)
  then have idle: "apply_plan K tenant name fence x (Some y) (only_status s) (caught_up u3) = (Inr (), caught_up u3)" for x y
    using status_settled [OF dom _ _ u3(6,5)] by blast
  have "reconcile_membership K tenant name fence day (caught_up u3) = (Inr (), caught_up u3)"
    using reconcile_run [OF dom termv seen, of fence day] again idle by (auto simp: bnd_run)
  with all dom invoice u1(7,8) termu u3(5,6) other app3(2,3) u2(4,5) show ?thesis by auto
qed

section \<open>The payment\<close>

lemma js_invoice_status_storable [simp]: "storable (js_invoice_status s)"
  by (auto simp: js_invoice_status_def)

lemma invoice_status_at_js [simp]: "invoice_status_at (js_invoice_status s) = s"
proof -
  have "invoice_state_of (invoice_state_text x) = x" for x by (cases x) (simp_all add: invoice_state_of_def)
  then show ?thesis
    by (cases s) (auto simp: invoice_status_at_def js_invoice_status_def at_defs nullish_def)
qed

lemma paid_state: "recorded_state (js_invoice_status \<lparr>is_state = Paid, is_paid = d, is_by = a\<rparr>) = ''paid''"
  by (simp add: recorded_state_def js_invoice_status_def)

lemma status_on_invoice:
  assumes w: "domain_world K tenant w" and i: "live_spec (DUES_INVOICE, tenant, name) (js_invoice spec) i w"
  shows "\<exists>v u i'. write_invoice_status K tenant actor name s w = (Inr v, u) \<and> settled K u \<and>
    only_row (DUES_INVOICE, tenant, name) w u \<and> live_spec (DUES_INVOICE, tenant, name) (js_invoice spec) i' u \<and>
    rr_status i' = Some (show_js (js_invoice_status s)) \<and> rr_fence i' = rr_fence i \<and>
    iv_state v = is_state s \<and> iv_spec v = spec \<and> iv_paid v = shown (is_paid s) \<and> iv_by v = shown (is_by s)"
proof -
  have st: "settled K w" "w_replica w = w_store w" "tenant \<noteq> []" using w by (auto simp: domain_world_def)
  note kinds = domain_kinds [OF w]
  obtain x where x: "get_resource K DUES_INVOICE name (tenant_only tenant) w = (Inr (Some x), w)" "re_fence x = rr_fence i"
    using get_live [OF st(1,2) kinds(5), of "tenant_only tenant" tenant name] i st(3) by auto
  let ?o = "\<lparr>ao_tenant = Some tenant, ao_fence = Some (re_fence x), ao_actor = Some actor\<rparr>"
  have ten: "tenant_of dues_invoice_kind ?o = Inr tenant" using st(3) by (simp add: tenant_of_def given_def)
  have row: "row_at (DUES_INVOICE, tenant, name) w = Some i" "\<not> is_deleted i" "rr_spec i = show_js (js_invoice spec)"
    "storable (js_invoice spec)" using i by (auto simp: live_spec_def)
  have k: "(DUES_INVOICE, tenant, name) = (kn_name dues_invoice_kind, tenant, name)" by simp
  have f: "rr_fence i \<le> fence_of ?o" by (simp add: fence_of_def x(2))
  from settled_status [OF st(1) kinds(5) ten js_invoice_status_storable k row(1,2) f, of s]
  obtain y u i' where u: "set_status K DUES_INVOICE name (js_invoice_status s) ?o w = (Inr (Some y), u)" "settled K u"
      "only_row (DUES_INVOICE, tenant, name) w u" "row_at (DUES_INVOICE, tenant, name) u = Some i'" "hydrate_row i' = Inr y"
      "rr_status i' = Some (show_js (js_invoice_status s))" "rr_spec i' = rr_spec i" "\<not> is_deleted i'"
      "if rr_status i = Some (show_js (js_invoice_status s)) then u = w else rr_fence i' = fence_of ?o"
    by blast
  have fence: "rr_fence i' = rr_fence i" using u(4,9) row(1) x(2) by (auto simp: fence_of_def split: if_splits)
  have spec: "rr_spec i' = show_js (js_invoice spec)" using u(7) row(3) by simp
  note y = hydrate_fields(1) [OF u(5) spec row(4)] hydrate_fields(4) [OF u(5) spec row(4) u(6) js_invoice_status_storable]
  have "write_invoice_status K tenant actor name s w = (Inr (invoice_view_of y), u)"
    using x u(1) by (simp add: write_invoice_status_def guarded_def catch_run bnd_run)
  then show ?thesis using u fence spec row(4) y by (auto simp: live_spec_def invoice_view_of_def Let_def)
qed

section \<open>The renewal\<close>

lemma term_renewed:
  fixes w :: "'x app_scheme"
  assumes w: "domain_world K tenant w" and m: "on_term tenant name m ti ends r w" "rr_fence r \<le> fence"
    and i: "live_spec (invoice_key tenant name ends) (js_invoice spec) i w" "rr_status i = Some (show_js (js_invoice_status s))"
      "is_state s = Paid"
    and next': "row_at (invoice_key tenant name (in_end spec)) w = None"
    and over: "ti_period ti = Recurring p" "ends \<le> day" "ms_renew m" "add_period ends p = Inr pe"
    and ok: "membership_ok (m\<lparr>ms_starts := ends, ms_ends := Some (in_end spec)\<rparr>)" "day < in_end spec"
  shows "\<exists>u r'. reconcile_membership K tenant name fence day w = (Inr (), u) \<and> domain_world K tenant (caught_up u) \<and>
    live_spec (membership_key tenant name) (js_membership (m\<lparr>ms_starts := ends, ms_ends := Some (in_end spec)\<rparr>)) r' u \<and>
    rr_status r' = Some (show_js (js_status ((status_of Active)\<lparr>st_renews := Some (in_end spec)\<rparr>))) \<and>
    reconcile_membership K tenant name fence day (caught_up u) = (Inr (), caught_up u)"
proof -
  define m' where "m' = m\<lparr>ms_starts := ends, ms_ends := Some (in_end spec)\<rparr>"
  define s' where "s' = (status_of Active)\<lparr>st_renews := Some (in_end spec)\<rparr>"
  let ?iname = "invoice_name_for name ends"
  let ?ki = "invoice_key tenant name ends" and ?km = "membership_key tenant name"
  let ?kn = "(MAIL_NOTICE, tenant, notice_name_for ''dues-receipt'' ?iname)"
  let ?n = "\<lparr>ni_template = DuesReceipt, ni_invoice = ?iname\<rparr>"
  have st: "settled K w" "tenant \<noteq> []" using w by (auto simp: domain_world_def)
  note kinds = domain_kinds [OF w]
  have names: "MEMBERSHIP \<noteq> DUES_INVOICE" "TIER \<noteq> DUES_INVOICE" "MEMBERSHIP \<noteq> TIER" "MAIL_NOTICE \<noteq> MEMBERSHIP"
    "MAIL_NOTICE \<noteq> DUES_INVOICE" "MAIL_NOTICE \<noteq> TIER" by (simp_all add: kind_names MAIL_NOTICE_def)
  let ?in = "\<lambda>m iv. \<lparr>rn_name = name, rn_membership = m, rn_tier = Some ti, rn_invoice = iv, rn_today = day\<rparr>"
  have ov: "Renewal.over (?in m iv) ti p ends" for iv using m(1) over by (simp add: Renewal.over_def on_term_def)
  have paid: "recorded_state (js_invoice_status s) = ''paid''" using i(3) paid_state by (metis invoice_status.surjective old.unit.exhaust)
  have plan: "evaluate (?in m (Some (spec, js_invoice_status s))) = Inr
      \<lparr>pl_invoice = None, pl_renew = Some m', pl_notice = Some ?n, pl_status = s'\<rparr>"
    using over(4) paid by (simp add: evaluate_over [OF ov] bill_def Let_def m'_def s'_def)
  have seen: "invoice_seen ?ki w (Some (spec, js_invoice_status s))"
    using i(1,2) by (auto simp: invoice_seen_def)
  obtain x y where run: "re_spec x = js_membership m" "re_fence x = rr_fence r" "re_spec y = js_tier ti"
      "reconcile_membership K tenant name fence day w = apply_plan K tenant name fence x (Some y)
         \<lparr>pl_invoice = None, pl_renew = Some m', pl_notice = Some ?n, pl_status = s'\<rparr> w"
    using reconcile_run [OF w m(1) seen, of fence day] plan by (auto simp: bnd_run)
  have ten: "tenant_of membership_kind (as_actor tenant (Some (re_fence x))) = Inr tenant" using st(2) by simp
  have ok': "membership_ok m'" using ok(1) by (simp add: m'_def)
  have v: "kn_validate membership_kind (js_membership m') = Inr (js_membership m')"
    using membership.normal [OF ok'] by (simp add: membership_kind_def)
  have km: "?km = (kn_name membership_kind, tenant, name)" by simp
  have rw: "row_at ?km w = Some r" using m(1) by (simp add: on_term_def live_spec_def)
  obtain a u1 r1 where u1: "admit K MEMBERSHIP name (js_membership m') (as_actor tenant (Some (re_fence x))) w = (Inr a, u1)"
      "settled K u1" "only_row ?km w u1" "row_at ?km u1 = Some r1" "\<not> is_deleted r1" "rr_spec r1 = show_js (js_membership m')"
      "rr_fence r1 = rr_fence r"
    using settled_admit [OF st(1) kinds(4) ten v membership.rows [OF ok'] km] rw run(2) by auto
  have s1: "only_store w u1" using u1(3) by (simp add: only_row_def)
  note app1 = only_store_app [OF s1] only_storeD [OF s1]
  obtain u2 where u2: "raise_dues_notice K tenant ?n m ti u1 = (Inr (), u2)" "settled K u2" "cl_kinds u2 = cl_kinds w"
      "\<forall>j. j \<noteq> ?kn \<longrightarrow> row_at j u2 = row_at j u1"
    using settled_notice [OF u1(2), of tenant ?kn ?n m ti] kinds app1(1) st(2) by auto
  have rm: "live_spec ?km (js_membership m') r1 u2"
    using u1(4-6) u2(4) names membership.rows [OF ok'] by (simp add: live_spec_def)
  have f1: "rr_fence r1 \<le> fence" using u1(7) m(2) by simp
  obtain u3 r' where u3: "bnd (set_status K MEMBERSHIP name (js_status s') (as_actor tenant (Some fence))) (\<lambda>_. ret ()) u2 = (Inr (), u3)"
      "settled K u3" "only_row ?km u2 u3" "live_spec ?km (js_membership m') r' u3"
      "rr_status r' = Some (show_js (js_status s'))" "rr_fence r' \<le> fence"
    using status_written [OF u2(2) _ st(2) rm f1, of s'] kinds(4) u2(3) by auto
  have s3: "only_store u2 u3" using u3(3) by (simp add: only_row_def)
  have all: "reconcile_membership K tenant name fence day w = (Inr (), u3)"
    unfolding run(4) using u1(1) u2(1) u3(1) run(1,3) by (simp add: apply_plan_def bnd_run)
  have other: "row_at k u3 = row_at k w" if "k \<notin> {?km, ?kn}" for k
    using that u1(3) u2(4) u3(3) by (simp add: only_row_def del: split_paired_All)
  have dom: "domain_world K tenant (caught_up u3)"
    using domain_caught_up [OF w u3(2)] only_store_app(1) [OF s3] u2(3) by simp
  have same: "row_at k (caught_up u3) = row_at k u3" for k by (simp add: row_at_def caught_up_def)
  have tier: "\<exists>tr. live_spec (TIER, tenant, ms_tier m) (js_tier ti) tr (caught_up u3)"
    using m(1) other [of "(TIER, tenant, ms_tier m)"] names by (auto simp: live_spec_def on_term_def same)
  have "in_end spec \<noteq> []" using ok(2) by auto
  then have termv: "on_term tenant name m' ti (in_end spec) r' (caught_up u3)"
    using u3(4) tier by (simp add: on_term_def live_spec_def same m'_def)
  have seen': "invoice_seen (invoice_key tenant name (in_end spec)) (caught_up u3) None"
    using next' other [of "invoice_key tenant name (in_end spec)"] names by (simp add: invoice_seen_def same)
  have again: "evaluate (?in m' None) = Inr (only_status s')"
    using over(1) ok(2) \<open>in_end spec \<noteq> []\<close> by (simp add: evaluate_def Let_def m'_def s'_def given_def)
  have "row_at ?km (caught_up u3) = Some r'" "\<not> is_deleted r'" using u3(4) by (simp_all add: live_spec_def same)
  then have idle: "apply_plan K tenant name fence x (Some y) (only_status s') (caught_up u3) = (Inr (), caught_up u3)" for x y
    using status_settled [OF dom _ _ u3(6,5)] by blast
  have "reconcile_membership K tenant name fence day (caught_up u3) = (Inr (), caught_up u3)"
    using reconcile_run [OF dom termv seen', of fence day] again idle by (auto simp: bnd_run)
  with all dom u3(4,5) show ?thesis unfolding m'_def [symmetric] s'_def [symmetric] by blast
qed

section \<open>The claims\<close>

text \<open>
  C7: the first reconcile after a renewing term is over raises the invoice of the next
  period, live, open and unfenced, and marks the membership pending on it; apart from the notice's
  row nothing else changes, the membership's own spec included. Reconciling again on any replica that has caught
  up changes nothing at all until the dues are paid or overdue.
\<close>

theorem invoice_raised_once:
  assumes "domain_world K tenant w" and "on_term tenant name m ti ends r w" and "rr_fence r \<le> fence"
    and "row_at (invoice_key tenant name ends) w = None"
    and "ti_period ti = Recurring p" and "ends \<le> day" and "ms_renew m"
    and "add_period ends p = Inr pe" and "due_invoice name m ti ends pe = Inr spec" and "invoice_ok spec"
    and "day \<le> in_due spec"
  shows "\<exists>u i r'. reconcile_membership K tenant name fence day w = (Inr (), u) \<and>
    live_spec (invoice_key tenant name ends) (js_invoice spec) i u \<and> rr_status i = None \<and> rr_fence i = 0 \<and>
    on_term tenant name m ti ends r' u \<and>
    rr_status r' = Some (show_js (js_status ((status_of Pending)
      \<lparr>st_invoice := Some (invoice_name_for name ends), st_renews := Some pe\<rparr>))) \<and>
    (\<forall>k. k \<notin> {invoice_key tenant name ends, membership_key tenant name,
       (MAIL_NOTICE, tenant, notice_name_for ''dues-reminder'' (invoice_name_for name ends))} \<longrightarrow> row_at k u = row_at k w) \<and>
    reconcile_membership K tenant name fence day (caught_up u) = (Inr (), caught_up u)"
  using invoice_raised [OF assms] by blast


section \<open>A membership of the example association\<close>

definition spec_row :: "string \<Rightarrow> string \<Rightarrow> nat \<Rightarrow> js \<Rightarrow> resource_row" where
  "spec_row kind name n v =
     \<lparr>rr_kind = kind, rr_tenant = ''t'', rr_name = name, rr_revision = n, rr_fence = 0, rr_spec = show_js v,
      rr_status = None, rr_deleted = None, rr_created = ''c'', rr_updated = ''c''\<rparr>"

definition demo_rows :: "resource_row list" where
  "demo_rows = [spec_row TIER ''full'' 1 (js_tier demo_tier), spec_row MEMBERSHIP ''ada'' 2 (js_membership demo_membership)]"

definition demo_paid_rows :: "resource_row list" where
  "demo_paid_rows = demo_rows @ [spec_row DUES_INVOICE (invoice_name_for ''ada'' ''2025-12-31'') 3 (js_invoice demo_invoice)]"

definition rows_store :: "resource_row list \<Rightarrow> store" where
  "rows_store rs = migrated_store\<lparr>s_rows := rs, s_outbox := map (\<lambda>r. outbox_of r Created ''c'') rs\<rparr>"

definition demo_dues :: "resource_row list \<Rightarrow> app" where
  "demo_dues rs = (demo_app (rows_store rs) [] [])
     \<lparr>cl_kinds := map (\<lambda>k. (kn_name k, k)) (mail_notice_kind # MEMBERSHIP_KINDS)\<rparr>"

lemma demo_days_ok: "day_ok ''2025-12-31''" "day_ok ''2026-12-31''" "day_ok ''2025-01-01''" "day_ok ''2026-01-30''"
proof -
  have "text_ok ''2025-12-31''" "text_ok ''2026-12-31''" "text_ok ''2025-01-01''" "text_ok ''2026-01-30''" by code_simp+
  with demo_real_days show "day_ok ''2025-12-31''" "day_ok ''2026-12-31''" "day_ok ''2025-01-01''" "day_ok ''2026-01-30''"
    by (simp_all add: day_ok_def)
qed

lemma demo_specs_ok: "tier_ok demo_tier" "membership_ok demo_membership" "invoice_ok demo_invoice"
  "membership_ok (demo_membership\<lparr>ms_starts := ''2025-12-31'', ms_ends := Some ''2026-12-31''\<rparr>)"
proof -
  have "text_ok ''ada''" "text_ok ''full''" by code_simp+
  then show "membership_ok demo_membership" "invoice_ok demo_invoice"
    "membership_ok (demo_membership\<lparr>ms_starts := ''2025-12-31'', ms_ends := Some ''2026-12-31''\<rparr>)"
    using demo_days_ok by (simp_all add: membership_ok_def invoice_ok_def demo_membership_def demo_invoice_def)
qed code_simp

lemma demo_storable:
  "storable (js_tier demo_tier)" "storable (js_membership demo_membership)" "storable (js_invoice demo_invoice)"
  using tier.rows [OF demo_specs_ok(1)] membership.rows [OF demo_specs_ok(2)] invoice.rows [OF demo_specs_ok(3)] by auto

lemma demo_texts: "texts_ok (rows_store demo_rows)" "texts_ok (rows_store demo_paid_rows)"
  using demo_storable
  by (simp_all add: texts_ok_def rows_store_def demo_rows_def demo_paid_rows_def spec_row_def parse_stringify)

lemma demo_stores_wf: "store_wf (rows_store demo_rows)" "store_wf (rows_store demo_paid_rows)"
  by (simp_all add: rows_store_def demo_rows_def demo_paid_rows_def spec_row_def store_wf_def migrated_store_def empty_store_def
      outbox_of_def key_of_def max_revision_def kind_names)

lemma demo_domain:
  assumes "texts_ok (rows_store rs)" and "store_wf (rows_store rs)"
  shows "domain_world allow_kernel ''t'' (demo_dues rs)"
proof -
  have "settled allow_kernel (demo_dues rs)"
    using assms open_ledger_steady allow_permissive
    by (simp add: settled_def quiet_def demo_dues_def demo_app_defs rows_store_def migrated_store_def)
  moreover have "list_all (\<lambda>k. map_of (cl_kinds (demo_dues rs)) (kn_name k) = Some k) (mail_notice_kind # MEMBERSHIP_KINDS)"
    by (simp add: demo_dues_def MEMBERSHIP_KINDS_def kind_names MAIL_NOTICE_def)
  ultimately show ?thesis by (simp add: domain_world_def demo_dues_def demo_app_defs)
qed

lemmas demo_rows_defs = demo_dues_def demo_app_defs rows_store_def demo_rows_def demo_paid_rows_def spec_row_def
  select_one_def row_at_def key_of_def kind_names migrated_store_def empty_store_def

lemma demo_on_term:
  assumes "rs = demo_rows \<or> rs = demo_paid_rows"
  shows "on_term ''t'' ''ada'' demo_membership demo_tier ''2025-12-31''
    (spec_row MEMBERSHIP ''ada'' 2 (js_membership demo_membership)) (demo_dues rs)"
proof -
  have "ms_tier demo_membership = ''full''" "ms_ends demo_membership = Some ''2025-12-31''" by (simp_all add: demo_membership_def)
  moreover have "row_at (TIER, ''t'', ''full'') (demo_dues rs) = Some (spec_row TIER ''full'' 1 (js_tier demo_tier))"
    "row_at (MEMBERSHIP, ''t'', ''ada'') (demo_dues rs) = Some (spec_row MEMBERSHIP ''ada'' 2 (js_membership demo_membership))"
    using assms by (auto simp: demo_rows_defs)
  ultimately show ?thesis
    using demo_storable by (simp add: on_term_def live_spec_def spec_row_def is_deleted_def)
qed

theorem invoice_raised_once_witness:
  "\<exists>u i. reconcile_membership allow_kernel ''t'' ''ada'' 3 ''2026-01-05'' (demo_dues demo_rows) = (Inr (), u) \<and>
    live_spec (invoice_key ''t'' ''ada'' ''2025-12-31'') (js_invoice demo_invoice) i u \<and>
    reconcile_membership allow_kernel ''t'' ''ada'' 3 ''2026-01-05'' (caught_up u) = (Inr (), caught_up u)"
proof -
  have none: "row_at (invoice_key ''t'' ''ada'' ''2025-12-31'') (demo_dues demo_rows) = None" by (simp add: demo_rows_defs)
  have due: "due_invoice ''ada'' demo_membership demo_tier ''2025-12-31'' ''2026-12-31'' = Inr demo_invoice"
    using demo_dates(2) by (simp add: due_invoice_def demo_tier_def demo_membership_def demo_invoice_def)
  have "ti_period demo_tier = Recurring Annual" "ms_renew demo_membership" "''2025-12-31'' \<le> ''2026-01-05''"
    "''2026-01-05'' \<le> in_due demo_invoice" "rr_fence (spec_row MEMBERSHIP ''ada'' 2 (js_membership demo_membership)) \<le> 3"
    by (simp_all add: demo_tier_def demo_membership_def demo_invoice_def spec_row_def)
  with invoice_raised_once [OF demo_domain [OF demo_texts(1) demo_stores_wf(1)] demo_on_term _ none _ _ _ demo_dates(1) due
      demo_specs_ok(3)]
  show ?thesis by blast
qed

definition demo_operator :: auth_data where
  "demo_operator = \<lparr>au_user = ''o'', au_email = ''op@x.org'', au_verified = True, au_roles = [''enrahitu_operator'']\<rparr>"


end
