(* ===== verification/Mail_Render.thy ===== *)
theory Mail_Render
  imports Mail_Notices
begin

text \<open>
  Rendering a notice (\<open>backend/mail/render.ts\<close>) and finding its template
  (\<open>templates.ts\<close>). A file read is a function from paths to the contents of those that can be
  read; the parameters are the own properties of the spec's object, which inherits the properties of
  \<open>Object.prototype\<close>.
\<close>

section \<open>Substitution\<close>

definition is_word :: "char \<Rightarrow> bool" where
  "is_word c \<longleftrightarrow> is_lower_alpha c \<or> is_upper_alpha c \<or> is_digit c \<or> c = CHR ''_''"

text \<open>The pattern of a placeholder, at the head of a text: the key and what follows.\<close>

definition placeholder_at :: "string \<Rightarrow> (string \<times> string) option" where
  "placeholder_at s =
     (if starts_with ''{{'' s then
        (let r = dropWhile is_space (drop 2 s); key = takeWhile is_word r; e = dropWhile is_space (dropWhile is_word r) in
         if key \<noteq> [] \<and> starts_with ''}}'' e then Some (key, drop 2 e) else None)
      else None)"

text \<open>What \<open>params[key]\<close> is: an own text, something inherited, with what it prints as, or \<open>undefined\<close>.\<close>

datatype param_value = Own string | Inherited string | Absent

definition native :: "string \<Rightarrow> string" where
  "native f = ''function '' @ f @ ''() { [native code] }''"

definition OBJECT_PROTOTYPE :: "(string \<times> string) list" where
  "OBJECT_PROTOTYPE = (''__proto__'', ''[object Object]'') # (''constructor'', native ''Object'') #
     map (\<lambda>f. (f, native f))
       [''toString'', ''toLocaleString'', ''valueOf'', ''hasOwnProperty'', ''isPrototypeOf'', ''propertyIsEnumerable'',
        ''__defineGetter__'', ''__defineSetter__'', ''__lookupGetter__'', ''__lookupSetter__'']"

definition param_of :: "(string \<times> string) list \<Rightarrow> string \<Rightarrow> param_value" where
  "param_of params key =
     (case map_of params key of
        Some v \<Rightarrow> Own v
      | None \<Rightarrow> (case map_of OBJECT_PROTOTYPE key of Some t \<Rightarrow> Inherited t | None \<Rightarrow> Absent))"

lemma placeholder_shorter: "placeholder_at s = Some (key, r) \<Longrightarrow> length r < length s"
proof -
  assume p: "placeholder_at s = Some (key, r)"
  let ?e = "dropWhile is_space (dropWhile is_word (dropWhile is_space (drop 2 s)))"
  have s: "starts_with ''{{'' s" and r: "r = drop 2 ?e"
    using p by (auto simp: placeholder_at_def Let_def split: if_splits)
  then have "0 < length s" by (cases s) (auto simp: starts_with_def)
  moreover have "length ?e \<le> length (drop 2 s)"
    by (meson length_dropWhile_le order_trans)
  ultimately show ?thesis unfolding r length_drop by linarith
qed

text \<open>\<open>source.replace(PLACEHOLDER, ...)\<close>; a transform is applied to whatever is not \<open>undefined\<close>.\<close>

function substitute ::
  "string \<Rightarrow> (string \<times> string) list \<Rightarrow> (param_value \<Rightarrow> exn + string) \<Rightarrow> string \<Rightarrow> exn + string" where
  "substitute template params transform [] = Inr []"
| "substitute template params transform (c # cs) =
     (case placeholder_at (c # cs) of
        Some (key, rest) \<Rightarrow>
          (case param_of params key of
             Absent \<Rightarrow> Inl (MissingParamError template key)
           | v \<Rightarrow> sbind (transform v) (\<lambda>t. sbind (substitute template params transform rest) (\<lambda>u. Inr (t @ u))))
      | None \<Rightarrow> sbind (substitute template params transform cs) (\<lambda>u. Inr (c # u)))"
  by pat_completeness auto
termination
  by (relation "measure (\<lambda>(t, p, f, s). length s)") (auto dest: placeholder_shorter)

fun plain :: "param_value \<Rightarrow> exn + string" where
  "plain (Own v) = Inr v"
| "plain (Inherited t) = Inr t"
| "plain Absent = Inr ''undefined''"

section \<open>Both parts from one source\<close>

text \<open>\<open>replace(/c/g, t)\<close>\<close>

definition replace_char :: "char \<Rightarrow> string \<Rightarrow> string \<Rightarrow> string" where
  "replace_char c t s = concat (map (\<lambda>x. if x = c then t else [x]) s)"

definition escape_html :: "string \<Rightarrow> string" where
  "escape_html value =
     replace_char (CHR 0x27) ''&#39;'' (replace_char (CHR 0x22) ''&quot;'' (replace_char (CHR ''>'') ''&gt;''
       (replace_char (CHR ''<'') ''&lt;'' (replace_char (CHR ''&'') ''&amp;'' value))))"

text \<open>Something inherited has no \<open>replace\<close>.\<close>

fun escaped :: "param_value \<Rightarrow> exn + string" where
  "escaped (Own v) = Inr (escape_html v)"
| "escaped _ = Inl (TypeErr ''value.replace is not a function'')"

abbreviation newline :: char where "newline \<equiv> CHR 0x0A"

text \<open>\<open>split(/\n{2,}/)\<close>\<close>

function split_paras :: "string \<Rightarrow> string list" where
  "split_paras [] = [[]]"
| "split_paras (c # cs) =
     (if c = newline \<and> starts_with [newline] cs then [] # split_paras (dropWhile (\<lambda>x. x = newline) cs)
      else (case split_paras cs of [] \<Rightarrow> [[c]] | y # ys \<Rightarrow> (c # y) # ys))"
  by pat_completeness auto
termination
  by (relation "measure length") (auto simp: length_dropWhile_le le_imp_less_Suc)

definition paragraphs :: "string \<Rightarrow> string list" where
  "paragraphs body = filter (\<lambda>p. p \<noteq> []) (map trim (split_paras body))"

definition para_html :: "string \<Rightarrow> string" where
  "para_html p = ''<p>'' @ replace_char newline ''<br>'' p @ ''</p>''"

record rendered =
  rd_text :: string
  rd_html :: string

definition render :: "string \<Rightarrow> string \<Rightarrow> (string \<times> string) list \<Rightarrow> exn + rendered" where
  "render template source params =
     sbind (substitute template params plain source) (\<lambda>txt.
     sbind (substitute template params escaped (escape_html source)) (\<lambda>body.
       Inr \<lparr>rd_text = trim txt, rd_html = join [newline] (map para_html (paragraphs body))\<rparr>))"

section \<open>Templates\<close>

definition APP_TEMPLATE_DIR :: string where "APP_TEMPLATE_DIR = ''app/mail/templates''"

definition CHASSIS_TEMPLATE_DIR :: string where "CHASSIS_TEMPLATE_DIR = ''backend/mail/templates''"

text \<open>The path of a template under the working directory.\<close>

definition template_path :: "string \<Rightarrow> string \<Rightarrow> string" where
  "template_path dir template = dir @ ''/'' @ template @ ''.txt''"

definition template_source :: "(string \<Rightarrow> string option) \<Rightarrow> string \<Rightarrow> exn + string" where
  "template_source files template =
     (if \<not> template_name template then Inl (UnknownTemplateError template)
      else (case files (template_path APP_TEMPLATE_DIR template) of
              Some s \<Rightarrow> Inr s
            | None \<Rightarrow>
                (case files (template_path CHASSIS_TEMPLATE_DIR template) of
                   Some s \<Rightarrow> Inr s
                 | None \<Rightarrow> Inl (UnknownTemplateError template))))"

definition render_template ::
  "(string \<Rightarrow> string option) \<Rightarrow> string \<Rightarrow> (string \<times> string) list \<Rightarrow> exn + rendered" where
  "render_template files template params =
     sbind (template_source files template) (\<lambda>source. render template source params)"

end
