(* ===== verification/Mail_Render_Claims.thy ===== *)
theory Mail_Render_Claims
  imports Mail_Render
begin

text \<open>
  The two parts of a rendered notice say the same, and no text of a parameter or of a template is markup in
  the HTML part; a placeholder without a parameter is an error before anything is sent.
\<close>

section \<open>Escaping, one character at a time\<close>

definition entity :: "char \<Rightarrow> string" where
  "entity c =
     (if c = CHR ''&'' then ''&amp;'' else if c = CHR ''<'' then ''&lt;'' else if c = CHR ''>'' then ''&gt;''
      else if c = CHR 0x22 then ''&quot;'' else if c = CHR 0x27 then ''&#39;'' else [c])"

lemma replace_char_append [simp]: "replace_char c t (u @ v) = replace_char c t u @ replace_char c t v"
  by (simp add: replace_char_def)

lemma replace_char_Nil [simp]: "replace_char c t [] = []"
  by (simp add: replace_char_def)

lemma replace_char_Cons: "replace_char c t (x # xs) = (if x = c then t else [x]) @ replace_char c t xs"
  by (simp add: replace_char_def)

text \<open>The five passes are one pass: no pass rewrites what an earlier one put in.\<close>

lemma escape_html_map: "escape_html s = concat (map entity s)"
proof (induction s)
  case Nil
  show ?case by (simp add: escape_html_def)
next
  case (Cons c cs)
  have "escape_html (c # cs) = escape_html [c] @ escape_html cs"
    by (simp add: escape_html_def replace_char_Cons)
  moreover have "escape_html [c] = entity c"
    by (auto simp: escape_html_def replace_char_Cons entity_def)
  ultimately show ?case using Cons.IH by simp
qed

lemma escape_Nil [simp]: "escape_html [] = []"
  and escape_Cons: "escape_html (c # cs) = entity c @ escape_html cs"
  by (simp_all add: escape_html_map)

lemma entity_self: "c \<notin> {CHR ''&'', CHR ''<'', CHR ''>'', CHR 0x22, CHR 0x27} \<Longrightarrow> entity c = [c]"
  by (simp add: entity_def)

lemma entity_ends:
  "entity c \<noteq> []" "hd (entity c) = c \<or> hd (entity c) = CHR ''&''" "last (entity c) = c \<or> last (entity c) = CHR '';''"
  by (auto simp: entity_def)

lemma entity_clean: "set (entity c) \<inter> {CHR ''<'', CHR ''>'', CHR 0x22, CHR 0x27} = {}"
  by (auto simp: entity_def)

lemma escape_clean: "set (escape_html s) \<inter> {CHR ''<'', CHR ''>'', CHR 0x22, CHR 0x27} = {}"
  using entity_clean by (auto simp: escape_html_map)

text \<open>Classes of characters that are their own entities.\<close>

lemma dropWhile_concat:
  assumes "\<And>c. p c \<Longrightarrow> g c = [c]" and "\<And>c. \<not> p c \<Longrightarrow> g c \<noteq> [] \<and> \<not> p (hd (g c))"
  shows "dropWhile p (concat (map g s)) = concat (map g (dropWhile p s))"
proof (induction s)
  case (Cons c cs)
  show ?case
  proof (cases "p c")
    case True
    then show ?thesis using Cons.IH assms(1) by simp
  next
    case False
    then obtain x xs where "g c = x # xs" "\<not> p x" using assms(2) [of c] by (cases "g c") auto
    with False show ?thesis by simp
  qed
qed simp

lemma takeWhile_concat:
  assumes "\<And>c. p c \<Longrightarrow> g c = [c]" and "\<And>c. \<not> p c \<Longrightarrow> g c \<noteq> [] \<and> \<not> p (hd (g c))"
  shows "takeWhile p (concat (map g s)) = takeWhile p s"
proof (induction s)
  case (Cons c cs)
  show ?case
  proof (cases "p c")
    case True
    then show ?thesis using Cons.IH assms(1) by simp
  next
    case False
    then obtain x xs where "g c = x # xs" "\<not> p x" using assms(2) [of c] by (cases "g c") auto
    with False show ?thesis by simp
  qed
qed simp

lemma space_self: "is_space c \<Longrightarrow> entity c = [c]" "is_word c \<Longrightarrow> entity c = [c]"
  by (auto simp: entity_def is_space_def is_word_def is_lower_alpha_def is_upper_alpha_def is_digit_def)

lemma not_class: "\<not> is_space (CHR ''&'')" "\<not> is_space (CHR '';'')" "\<not> is_word (CHR ''&'')" "\<not> is_word (CHR '';'')"
  by code_simp+

lemma class_ends:
  "\<not> is_space c \<Longrightarrow> \<not> is_space (hd (entity c)) \<and> \<not> is_space (last (entity c))" "\<not> is_word c \<Longrightarrow> \<not> is_word (hd (entity c))"
  using entity_ends [of c] not_class by auto

lemma escape_skips:
  "dropWhile is_space (escape_html s) = escape_html (dropWhile is_space s)"
  "dropWhile is_word (escape_html s) = escape_html (dropWhile is_word s)"
  "takeWhile is_word (escape_html s) = takeWhile is_word s"
  unfolding escape_html_map using entity_ends(1) space_self class_ends
  by (intro dropWhile_concat takeWhile_concat; blast)+

lemma escape_trim: "trim (escape_html s) = escape_html (trim s)"
proof -
  have "rev (escape_html t) = concat (map (rev \<circ> entity) (rev t))" for t
    by (induction t) (simp_all add: escape_html_map)
  moreover have "dropWhile is_space (concat (map (rev \<circ> entity) t)) = concat (map (rev \<circ> entity) (dropWhile is_space t))" for t
    using entity_ends(1) class_ends(1) space_self(1) by (intro dropWhile_concat) (auto simp: hd_rev)
  moreover have "rev (concat (map (rev \<circ> entity) t)) = escape_html (rev t)" for t
    by (induction t) (simp_all add: escape_html_map)
  ultimately show ?thesis by (simp add: trim_def escape_skips(1))
qed

section \<open>Placeholders in an escaped text\<close>

lemma escape_brace: "starts_with [c, c] (escape_html s) \<longleftrightarrow> starts_with [c, c] s" and
  escape_drop_brace: "starts_with [c, c] s \<Longrightarrow> drop 2 (escape_html s) = escape_html (drop 2 s)"
  if "c = CHR ''{'' \<or> c = CHR ''}''"
proof -
  have self: "entity c = [c]" using that by (auto simp: entity_def)
  have head: "\<exists>x xs. escape_html s = x # xs \<and> (x = c \<longleftrightarrow> hd s = c) \<and> (x = c \<longrightarrow> xs = escape_html (tl s))" if "s \<noteq> []" for s
  proof -
    obtain d ds where s: "s = d # ds" using \<open>s \<noteq> []\<close> by (cases s) auto
    obtain x xs where e: "entity d = x # xs" using entity_ends(1) [of d] by (cases "entity d") auto
    have "x = c \<longleftrightarrow> d = c" using entity_ends(2) [of d] e self \<open>c = CHR ''{'' \<or> c = CHR ''}''\<close> by auto
    with e self s show ?thesis by (auto simp: escape_Cons)
  qed
  show "starts_with [c, c] (escape_html s) \<longleftrightarrow> starts_with [c, c] s"
  proof (cases s)
    case (Cons d ds)
    show ?thesis
      using head [of s] head [of ds] Cons by (cases ds) (auto simp: starts_with_def)
  qed (simp add: starts_with_def)
  assume "starts_with [c, c] s"
  then obtain r where "s = c # c # r" by (cases s; cases "tl s") (auto simp: starts_with_def)
  then show "drop 2 (escape_html s) = escape_html (drop 2 s)" by (simp add: escape_Cons self)
qed

lemma placeholder_escape:
  "placeholder_at (escape_html s) = map_option (\<lambda>(k, r). (k, escape_html r)) (placeholder_at s)"
proof (cases "starts_with ''{{'' s")
  case True
  then have "starts_with ''{{'' (escape_html s)" "drop 2 (escape_html s) = escape_html (drop 2 s)"
    using escape_brace [of "CHR ''{''"] escape_drop_brace [of "CHR ''{''"] by simp_all
  with True show ?thesis
    using escape_brace [of "CHR ''}''"] escape_drop_brace [of "CHR ''}''"]
    by (simp add: placeholder_at_def Let_def escape_skips)
next
  case False
  then show ?thesis using escape_brace [of "CHR ''{''"] by (simp add: placeholder_at_def)
qed

text \<open>A text without an opening brace is copied.\<close>

lemma substitute_copies:
  "CHR ''{'' \<notin> set u \<Longrightarrow> substitute t ps f (u @ s) = sbind (substitute t ps f s) (\<lambda>r. Inr (u @ r))"
proof (induction u)
  case (Cons c cs)
  then have "placeholder_at (c # cs @ s) = None" by (auto simp: placeholder_at_def starts_with_def)
  with Cons show ?case by (cases "substitute t ps f s") simp_all
qed (cases "substitute t ps f s", simp_all)

lemma substitute_escape:
  "substitute t ps plain s = Inr raw \<Longrightarrow> substitute t ps escaped (escape_html s) = Inr body \<Longrightarrow> body = escape_html raw"
proof (induction s arbitrary: raw body rule: measure_induct_rule [of length])
  case (less s)
  show ?case
  proof (cases s)
    case Nil
    with less.prems show ?thesis by simp
  next
    case (Cons c cs)
    show ?thesis
    proof (cases "placeholder_at (c # cs)")
      case None
      then obtain r where r: "substitute t ps plain cs = Inr r" "raw = c # r"
        using less.prems(1) Cons by (auto simp: sbind_Inr_iff)
      have "substitute t ps escaped (entity c @ escape_html cs) =
          sbind (substitute t ps escaped (escape_html cs)) (\<lambda>u. Inr (entity c @ u))"
      proof (cases "entity c = [c]")
        case True
        then have "placeholder_at (c # escape_html cs) = None"
          using None placeholder_escape [of "c # cs"] by (simp add: escape_Cons)
        with True show ?thesis by simp
      next
        case False
        then have "CHR ''{'' \<notin> set (entity c)" by (auto simp: entity_def split: if_splits)
        then show ?thesis by (rule substitute_copies)
      qed
      then obtain b where b: "substitute t ps escaped (escape_html cs) = Inr b" "body = entity c @ b"
        using less.prems(2) Cons by (auto simp: escape_Cons sbind_Inr_iff)
      with r less.IH [of cs] Cons show ?thesis by (simp add: escape_Cons)
    next
      case (Some kr)
      obtain k rest where kr: "kr = (k, rest)" by (cases kr)
      obtain d ds where esc: "escape_html s = d # ds"
        using entity_ends(1) [of c] Cons by (cases "entity c") (auto simp: escape_Cons)
      have p: "placeholder_at (d # ds) = Some (k, escape_html rest)"
        using placeholder_escape [of s] Some [folded Cons] kr unfolding esc by simp
      obtain v where v: "param_of ps k = Own v"
        using less.prems(2) p by (cases "param_of ps k") (auto simp: esc)
      obtain r where r: "substitute t ps plain rest = Inr r" "raw = v @ r"
        using less.prems(1) Some kr v Cons by (auto simp: sbind_Inr_iff)
      obtain b where b: "substitute t ps escaped (escape_html rest) = Inr b" "body = escape_html v @ b"
        using less.prems(2) p v by (auto simp: esc sbind_Inr_iff)
      have "length rest < length s" using placeholder_shorter [of s k rest] Some kr Cons by simp
      from less.IH [OF this r(1) b(1)] r(2) b(2) show ?thesis by (simp add: escape_html_map)
    qed
  qed
qed

section \<open>Paragraphs\<close>

lemma escape_newlines: "starts_with [newline] (escape_html s) \<longleftrightarrow> starts_with [newline] s"
proof (cases s)
  case (Cons c cs)
  obtain x xs where e: "entity c = x # xs" using entity_ends(1) [of c] by (cases "entity c") auto
  have "x = newline \<longleftrightarrow> c = newline" using entity_ends(2) [of c] e by (auto simp: entity_def)
  with Cons e show ?thesis by (simp add: escape_Cons starts_with_def)
qed (simp add: starts_with_def)

lemma split_copies:
  "newline \<notin> set u \<Longrightarrow> split_paras (u @ s) = (case split_paras s of [] \<Rightarrow> [u] | y # ys \<Rightarrow> (u @ y) # ys)"
proof (induction u)
  case Nil
  have "split_paras s \<noteq> []" by (cases s) (auto split: list.split)
  then show ?case by (simp split: list.split)
qed (auto split: list.split)

lemma split_nonempty: "split_paras s \<noteq> []"
  by (cases s) (auto split: list.split)

lemma split_escape: "split_paras (escape_html s) = map escape_html (split_paras s)"
proof (induction s rule: split_paras.induct)
  case (2 c cs)
  show ?case
  proof (cases "c = newline")
    case True
    have self: "entity newline = [newline]" by (simp add: entity_def)
    have drop: "dropWhile (\<lambda>x. x = newline) (escape_html cs) = escape_html (dropWhile (\<lambda>x. x = newline) cs)"
      unfolding escape_html_map
    proof (rule dropWhile_concat)
      show "entity d \<noteq> [] \<and> hd (entity d) \<noteq> newline" if "d \<noteq> newline" for d
        using entity_ends(1,2) [of d] that by auto
    qed (simp add: entity_def)
    show ?thesis
      using 2 True by (auto simp: escape_Cons self escape_newlines drop split: list.split)
  next
    case False
    then have "newline \<notin> set (entity c)" by (auto simp: entity_def)
    from split_copies [OF this, of "escape_html cs"] False 2 show ?thesis
      by (auto simp: escape_Cons split: list.split)
  qed
qed simp

lemma paragraphs_escape: "paragraphs (escape_html s) = map escape_html (paragraphs s)"
proof -
  have "escape_html p = [] \<longleftrightarrow> p = []" for p using entity_ends(1) by (cases p) (auto simp: escape_Cons)
  then show ?thesis
    by (simp add: paragraphs_def split_escape filter_map comp_def escape_trim)
qed

section \<open>The claim\<close>

lemma render_parts:
  assumes "render t source ps = Inr r"
  shows "\<exists>raw. substitute t ps plain source = Inr raw \<and> rd_text r = trim raw \<and>
    rd_html r = join [newline] (map (\<lambda>p. para_html (escape_html p)) (paragraphs raw))"
proof -
  obtain raw body where raw: "substitute t ps plain source = Inr raw"
    and body: "substitute t ps escaped (escape_html source) = Inr body"
    and r: "rd_text r = trim raw" "rd_html r = join [newline] (map para_html (paragraphs body))"
    using assms by (auto simp: render_def sbind_Inr_iff)
  show ?thesis
    using raw r unfolding substitute_escape [OF raw body] paragraphs_escape by (simp add: comp_def)
qed

text \<open>
  C37: the HTML part of a rendered notice is, paragraph by paragraph, the text part escaped:
  the paragraphs of the one text substituted from the source, each in its own tag, its line breaks as
  tags. The escaped paragraphs contain no character of markup, whatever the template and the parameters hold.
\<close>

theorem html_mirrors_text:
  assumes "render t source ps = Inr r"
  shows "\<exists>raw. substitute t ps plain source = Inr raw \<and> rd_text r = trim raw \<and>
    rd_html r = join [newline] (map (\<lambda>p. ''<p>'' @ replace_char newline ''<br>'' (escape_html p) @ ''</p>'') (paragraphs raw)) \<and>
    list_all (\<lambda>p. set (escape_html p) \<inter> {CHR ''<'', CHR ''>'', CHR 0x22, CHR 0x27} = {}) (paragraphs raw)"
  using render_parts [OF assms] escape_clean by (auto simp: para_html_def list_all_iff)

theorem html_mirrors_text_witness:
  "\<exists>raw. substitute ''x'' [(''n'', ''<b>'')] plain ''Dear {{ n }}'' = Inr raw \<and>
    ''<p>Dear &lt;b&gt;</p>'' =
      join [newline] (map (\<lambda>p. ''<p>'' @ replace_char newline ''<br>'' (escape_html p) @ ''</p>'') (paragraphs raw))"
proof -
  have "render ''x'' ''Dear {{ n }}'' [(''n'', ''<b>'')] =
      Inr \<lparr>rd_text = ''Dear <b>'', rd_html = ''<p>Dear &lt;b&gt;</p>''\<rparr>"
    by code_simp
  from html_mirrors_text [OF this] show ?thesis by auto
qed

end
