(* ===== verification/Mail_Transport.thy ===== *)
theory Mail_Transport
  imports Mail_Render Members_Controller
begin

text \<open>
  The mail transports (\<open>backend/mail/transport.ts\<close>): the message on the wire, the
  conversation with a relay, and the choice of a transport by the environment
  (\<open>backend/lib/env.ts\<close>, \<open>backend/lib/secrets.ts\<close>). What the network does is a script of
  the world: the outcome of each connect and handshake, what arrives while the client does something
  else and while it waits, and the answers to HTTP requests. What the client writes is recorded with
  the protection of the channel.
\<close>

section \<open>The message\<close>

record mail_message =
  mg_to :: string
  mg_subject :: string
  mg_text :: string
  mg_html :: string
  mg_reply :: "string option"

text \<open>The bytes of a text in UTF-8, for code units below 256.\<close>

definition utf8 :: "string \<Rightarrow> nat list" where
  "utf8 s = concat (map (\<lambda>c. let n = code_unit c in if n < 128 then [n] else [192 + n div 64, 128 + n mod 64]) s)"

definition base64_char :: "nat \<Rightarrow> char" where
  "base64_char n =
     (if n < 26 then char_of (65 + n) else if n < 52 then char_of (71 + n) else if n < 62 then char_of (n - 4)
      else if n = 62 then CHR ''+'' else CHR ''/'')"

fun base64 :: "nat list \<Rightarrow> string" where
  "base64 [] = []"
| "base64 [a] = [base64_char (a div 4), base64_char (a mod 4 * 16), CHR ''='', CHR ''='']"
| "base64 [a, b] =
     [base64_char (a div 4), base64_char (a mod 4 * 16 + b div 16), base64_char (b mod 16 * 4), CHR ''='']"
| "base64 (a # b # c # bs) =
     [base64_char (a div 4), base64_char (a mod 4 * 16 + b div 16), base64_char (b mod 16 * 4 + c div 64),
      base64_char (c mod 64)] @ base64 bs"

definition hex_text :: "nat list \<Rightarrow> string" where
  "hex_text bs = concat (map (\<lambda>b. [hex_digit (b div 16), hex_digit (b mod 16)]) bs)"

definition printable_ascii :: "char \<Rightarrow> bool" where
  "printable_ascii c \<longleftrightarrow> 32 \<le> code_unit c \<and> code_unit c \<le> 126"

definition encode_header :: "string \<Rightarrow> string" where
  "encode_header value =
     (if list_all printable_ascii value then value else ''=?UTF-8?B?'' @ base64 (utf8 value) @ ''?='')"

abbreviation cr :: char where "cr \<equiv> CHR 0x0D"
abbreviation crlf :: string where "crlf \<equiv> [cr, newline]"

text \<open>\<open>replace(/\r?\n/g, "\r\n")\<close>\<close>

fun crlf_lines :: "string \<Rightarrow> string" where
  "crlf_lines [] = []"
| "crlf_lines [c] = (if c = newline then crlf else [c])"
| "crlf_lines (c # d # cs) =
     (if c = newline then crlf @ crlf_lines (d # cs)
      else if c = cr \<and> d = newline then crlf @ crlf_lines cs
      else c # crlf_lines (d # cs))"

text \<open>\<open>replace(/^\./gm, "..")\<close>: with the flag \<open>m\<close> a line starts after either terminator. The first argument says whether one just did.\<close>

fun stuff :: "bool \<Rightarrow> string \<Rightarrow> string" where
  "stuff start [] = []"
| "stuff start (c # cs) =
     (if start \<and> c = CHR ''.'' then ''..'' @ stuff False cs else c # stuff (c = newline \<or> c = cr) cs)"

definition dot_stuff :: "string \<Rightarrow> string" where
  "dot_stuff body = stuff True (crlf_lines body)"

definition mime_boundary :: "mail_message \<Rightarrow> string" where
  "mime_boundary m = ''enrahitu-'' @ take 24 (hex_text (utf8 (mg_to m @ mg_subject m)))"

definition message_headers :: "string \<Rightarrow> mail_message \<Rightarrow> string list" where
  "message_headers from m =
     [''From: '' @ encode_header from, ''To: '' @ mg_to m, ''Subject: '' @ encode_header (mg_subject m),
      ''MIME-Version: 1.0'',
      ''Content-Type: multipart/alternative; boundary='' @ [CHR 0x22] @ mime_boundary m @ [CHR 0x22]] @
     (if given (mg_reply m) then [''Reply-To: '' @ the (mg_reply m)] else [])"

definition message_body :: "mail_message \<Rightarrow> string" where
  "message_body m =
     (let b = mime_boundary m in
      join [newline]
        [''--'' @ b, ''Content-Type: text/plain; charset=utf-8'', [], mg_text m, [],
         ''--'' @ b, ''Content-Type: text/html; charset=utf-8'', [], mg_html m, [],
         ''--'' @ b @ ''--'', []])"

definition build_message :: "string \<Rightarrow> mail_message \<Rightarrow> string" where
  "build_message from m = join crlf (message_headers from m) @ crlf @ crlf @ dot_stuff (message_body m)"

section \<open>The network\<close>

datatype sock_event = Chunk string | SockError string

datatype wire_event =
    Opened bool                   \<comment> \<open>connected; whether over TLS from the start\<close>
  | Wrote bool string             \<comment> \<open>whether the channel was encrypted, and the line\<close>
  | Upgraded
  | Closed

record http_request =
  hq_url :: string
  hq_headers :: "(string \<times> string) list"
  hq_body :: string

record http_response =
  hr_ok :: bool
  hr_status :: nat
  hr_text :: string

record mail_world = app +
  nt_connects :: "(exn + unit) list"                            \<comment> \<open>outcomes of connects and handshakes\<close>
  nt_arrivals :: "(sock_event list \<times> sock_event list) list"    \<comment> \<open>before and during each wait\<close>
  nt_wire :: "wire_event list"
  nt_responses :: "(exn + http_response) list"
  nt_requests :: "http_request list"

definition on_wire :: "wire_event \<Rightarrow> ('x mail_world_scheme, unit) io" where
  "on_wire e = modify (\<lambda>w. w\<lparr>nt_wire := nt_wire w @ [e]\<rparr>)"

text \<open>The outcome of a connect or a handshake; one that never comes is the timeout of the socket.\<close>

definition connect_outcome :: "exn \<Rightarrow> ('x mail_world_scheme, unit) io" where
  "connect_outcome timeout =
     (\<lambda>w. case nt_connects w of
            [] \<Rightarrow> (Inl timeout, w)
          | r # rs \<Rightarrow> (r, w\<lparr>nt_connects := rs\<rparr>))"

definition next_arrivals :: "('x mail_world_scheme, sock_event list \<times> sock_event list) io" where
  "next_arrivals =
     (\<lambda>w. case nt_arrivals w of
            [] \<Rightarrow> (Inr ([], []), w)
          | a # as \<Rightarrow> (Inr a, w\<lparr>nt_arrivals := as\<rparr>))"

text \<open>What a wait did not consume arrives before the next one.\<close>

definition leave_arrivals :: "sock_event list \<Rightarrow> ('x mail_world_scheme, unit) io" where
  "leave_arrivals es =
     modify (\<lambda>w. w\<lparr>nt_arrivals :=
       (case nt_arrivals w of [] \<Rightarrow> [(es, [])] | (a, b) # as \<Rightarrow> (es @ a, b) # as)\<rparr>)"

section \<open>A conversation\<close>

record conversation =
  cv_secure :: bool
  cv_buffer :: string
  cv_failure :: "exn option"

definition opened :: "bool \<Rightarrow> conversation" where
  "opened secure = \<lparr>cv_secure = secure, cv_buffer = [], cv_failure = None\<rparr>"

text \<open>Text split at \<open>\r?\n\<close>, without the empty pieces: the lines of a reply.\<close>

fun lines_from :: "string \<Rightarrow> string \<Rightarrow> string list" where
  "lines_from acc [] = [rev acc]"
| "lines_from acc [c] = (if c = newline then [rev acc, []] else [rev (c # acc)])"
| "lines_from acc (c # d # cs) =
     (if c = newline then rev acc # lines_from [] (d # cs)
      else if c = cr \<and> d = newline then rev acc # lines_from [] cs
      else lines_from (c # acc) (d # cs))"

definition reply_lines :: "string \<Rightarrow> string list" where
  "reply_lines s = filter (\<lambda>l. l \<noteq> []) (lines_from [] s)"

text \<open>\<open>^\d{3} \<close>\<close>

definition code_line :: "string \<Rightarrow> bool" where
  "code_line l \<longleftrightarrow> 4 \<le> length l \<and> list_all is_digit (take 3 l) \<and> l ! 3 = CHR '' ''"

definition complete :: "string \<Rightarrow> bool" where
  "complete buffer = (case reply_lines buffer of [] \<Rightarrow> False | ls \<Rightarrow> code_line (last ls))"

text \<open>The pattern with the flag \<open>m\<close>: at the start of any line.\<close>

fun some_code_line :: "bool \<Rightarrow> string \<Rightarrow> bool" where
  "some_code_line start [] = False"
| "some_code_line start (c # cs) =
     ((start \<and> code_line (c # cs)) \<or> some_code_line (c = newline \<or> c = cr) cs)"

text \<open>Events with nobody waiting.\<close>

fun feed :: "conversation \<Rightarrow> sock_event list \<Rightarrow> conversation" where
  "feed c [] = c"
| "feed c (Chunk s # es) = feed (c\<lparr>cv_buffer := cv_buffer c @ s\<rparr>) es"
| "feed c (SockError m # es) = feed (c\<lparr>cv_failure := Some (Failure m)\<rparr>) es"

text \<open>Waiting: a reply, a failure of the socket, or the timeout when nothing more arrives.\<close>

fun await_reply :: "string \<Rightarrow> conversation \<Rightarrow> sock_event list \<Rightarrow> (exn + string) \<times> conversation \<times> sock_event list" where
  "await_reply label c [] = (Inl (Failure (''SMTP timeout waiting for '' @ label)), c, [])"
| "await_reply label c (Chunk s # es) =
     (let b = cv_buffer c @ s in
      if complete b then (Inr b, c\<lparr>cv_buffer := []\<rparr>, es)
      else await_reply label (c\<lparr>cv_buffer := b\<rparr>) es)"
| "await_reply label c (SockError m # es) = (Inl (Failure m), c\<lparr>cv_failure := Some (Failure m)\<rparr>, es)"

text \<open>
  \<open>expect\<close>. Three characters are \<open>Number\<close>-equal to one of the codes only when they are its digits.
\<close>

definition expect :: "nat list \<Rightarrow> string \<Rightarrow> conversation \<Rightarrow> ('x mail_world_scheme, string \<times> conversation) io" where
  "expect codes label c0 =
     bnd next_arrivals (\<lambda>(early, during).
       let c = feed c0 early in
       case cv_failure c of
         Some e \<Rightarrow> throw e
       | None \<Rightarrow>
           (case (if cv_buffer c \<noteq> [] \<and> some_code_line True (cv_buffer c)
                  then (Inr (cv_buffer c), c\<lparr>cv_buffer := []\<rparr>, during)
                  else await_reply label c during) of
              (r, c', rest) \<Rightarrow>
                seq (leave_arrivals rest)
                    (case r of
                       Inl e \<Rightarrow> throw e
                     | Inr reply \<Rightarrow>
                         if take 3 reply \<in> set (map show_nat codes) then ret (reply, c')
                         else throw (Failure (''SMTP '' @ label @ '' refused: '' @ trim reply)))))"

definition say :: "conversation \<Rightarrow> string \<Rightarrow> ('x mail_world_scheme, unit) io" where
  "say c line = on_wire (Wrote (cv_secure c) (line @ crlf))"

text \<open>What came before the handshake was done is dropped with the buffer.\<close>

definition upgrade :: "exn \<Rightarrow> conversation \<Rightarrow> ('x mail_world_scheme, conversation) io" where
  "upgrade timeout c0 =
     bnd next_arrivals (\<lambda>(early, during).
       let c = feed c0 (early @ during) in
       seq (connect_outcome timeout)
      (seq (on_wire Upgraded)
           (ret (c\<lparr>cv_secure := True, cv_buffer := []\<rparr>))))"

section \<open>Sending over SMTP\<close>

record smtp_config =
  sc_host :: string
  sc_port :: int
  sc_user :: "string option"
  sc_password :: string
  sc_insecure :: bool
  sc_from :: string
  sc_resource :: string

definition relay_text :: "smtp_config \<Rightarrow> string" where
  "relay_text cfg = sc_host cfg @ '':'' @ show_int (sc_port cfg)"

definition implicit_tls :: "smtp_config \<Rightarrow> bool" where
  "implicit_tls cfg \<longleftrightarrow> sc_port cfg = 465"

definition connect_timeout :: "smtp_config \<Rightarrow> exn" where
  "connect_timeout cfg = Failure (''SMTP connect timeout to '' @ relay_text cfg)"

text \<open>From the capabilities to a channel the rest may travel on.\<close>

definition secure_channel ::
  "smtp_config \<Rightarrow> string \<Rightarrow> conversation \<Rightarrow> ('x mail_world_scheme, conversation) io" where
  "secure_channel cfg capabilities c =
     (if \<not> implicit_tls cfg \<and> contains_ci ''starttls'' capabilities then
        seq (say c ''STARTTLS'')
       (bnd (expect [220] ''STARTTLS'' c) (\<lambda>(_, c).
        bnd (upgrade (connect_timeout cfg) c) (\<lambda>c.
        seq (say c ''EHLO enrahitu'')
       (bnd (expect [250] ''EHLO after STARTTLS'' c) (\<lambda>(_, c). ret c)))))
      else if \<not> implicit_tls cfg \<and> \<not> sc_insecure cfg then
        throw (MailNotConfiguredError (''relay '' @ relay_text cfg @ '' does not offer STARTTLS. Set ENRAHITU_MAIL_DANGER_INSECURE=true only if the relay is on a private network that never forwards mail.''))
      else ret c)"

definition auth_line :: "smtp_config \<Rightarrow> string" where
  "auth_line cfg =
     ''AUTH PLAIN '' @ base64 (utf8 ([CHR 0x00] @ the (sc_user cfg) @ [CHR 0x00] @ sc_password cfg))"

definition authenticate :: "smtp_config \<Rightarrow> conversation \<Rightarrow> ('x mail_world_scheme, conversation) io" where
  "authenticate cfg c =
     (if given (sc_user cfg) then
        seq (say c (auth_line cfg)) (bnd (expect [235] ''AUTH'' c) (\<lambda>(_, c). ret c))
      else ret c)"

definition submit :: "smtp_config \<Rightarrow> mail_message \<Rightarrow> conversation \<Rightarrow> ('x mail_world_scheme, unit) io" where
  "submit cfg m c =
     seq (say c (''MAIL FROM:<'' @ sc_from cfg @ ''>''))
    (bnd (expect [250] ''MAIL FROM'' c) (\<lambda>(_, c).
     seq (say c (''RCPT TO:<'' @ mg_to m @ ''>''))
    (bnd (expect [250, 251] ''RCPT TO'' c) (\<lambda>(_, c).
     seq (say c ''DATA'')
    (bnd (expect [354] ''DATA'' c) (\<lambda>(_, c).
     seq (say c (build_message (sc_from cfg) m @ crlf @ ''.''))
    (bnd (expect [250] ''message body'' c) (\<lambda>(_, c).
     say c ''QUIT''))))))))"

definition smtp_session :: "smtp_config \<Rightarrow> mail_message \<Rightarrow> conversation \<Rightarrow> ('x mail_world_scheme, unit) io" where
  "smtp_session cfg m c =
     bnd (expect [220] ''greeting'' c) (\<lambda>(_, c).
     seq (say c ''EHLO enrahitu'')
    (bnd (expect [250] ''EHLO'' c) (\<lambda>(capabilities, c).
     bnd (secure_channel cfg capabilities c) (\<lambda>c.
     bnd (authenticate cfg c) (submit cfg m)))))"

definition send_over_smtp :: "kernel \<Rightarrow> smtp_config \<Rightarrow> mail_message \<Rightarrow> ('x mail_world_scheme, unit) io" where
  "send_over_smtp K cfg m =
     seq (demand_smtp_egress K (sc_resource cfg) (sc_host cfg))
    (seq (connect_outcome (connect_timeout cfg))
    (seq (on_wire (Opened (implicit_tls cfg)))
         (finally_do (smtp_session cfg m (opened (implicit_tls cfg))) (on_wire Closed))))"

section \<open>The environment\<close>

definition env_str :: "(string \<times> string) list \<Rightarrow> string \<Rightarrow> string option" where
  "env_str vars name = (case map_of vars name of None \<Rightarrow> None | Some v \<Rightarrow> if v = [] then None else Some v)"

definition env_str_or :: "(string \<times> string) list \<Rightarrow> string \<Rightarrow> string \<Rightarrow> string" where
  "env_str_or vars name fallback = (case env_str vars name of None \<Rightarrow> fallback | Some v \<Rightarrow> v)"

definition env_bool :: "(string \<times> string) list \<Rightarrow> string \<Rightarrow> bool \<Rightarrow> bool" where
  "env_bool vars name fallback =
     (case env_str vars name of None \<Rightarrow> fallback | Some v \<Rightarrow> v = ''true'' \<or> v = ''1'')"

record mail_env =
  ev_transport :: string
  ev_from :: "string option"
  ev_host :: string
  ev_port :: int
  ev_user :: "string option"
  ev_insecure :: bool

text \<open>The mail entries of \<open>env\<close>; the port is the number the text denotes.\<close>

definition mail_env_of :: "(string \<times> string) list \<Rightarrow> int \<Rightarrow> mail_env" where
  "mail_env_of vars port =
     \<lparr>ev_transport = env_str_or vars ''ENRAHITU_MAIL_TRANSPORT'' ''none'', ev_from = env_str vars ''ENRAHITU_MAIL_FROM'',
      ev_host = env_str_or vars ''ENRAHITU_MAIL_HOST'' ''localhost'', ev_port = port,
      ev_user = env_str vars ''ENRAHITU_MAIL_USER'',
      ev_insecure = env_bool vars ''ENRAHITU_MAIL_DANGER_INSECURE'' False\<rparr>"

text \<open>The secret store's value is an argument.\<close>

definition mail_password_value :: "kernel \<Rightarrow> string \<Rightarrow> ('x app_scheme, string) io" where
  "mail_password_value K secret =
     seq (demand K ''secret.read'' ''enrahitu_mail_password'' no_options)
         (gets (\<lambda>w. if secret \<noteq> [] then secret
                    else (case map_of (ap_env w) ''ENRAHITU_MAIL_PASSWORD'' of None \<Rightarrow> [] | Some s \<Rightarrow> s)))"

section \<open>The transports\<close>

record 'w mail_transport =
  tr_name :: string
  tr_send :: "mail_message \<Rightarrow> ('w, unit) io"

definition none_transport :: "'w mail_transport" where
  "none_transport =
     \<lparr>tr_name = ''none'',
      tr_send = (\<lambda>m. throw (MailNotConfiguredError ''no mail transport is configured (ENRAHITU_MAIL_TRANSPORT=none), so this notice is held rather than sent. Configure a transport and it will be delivered on the next pass.''))\<rparr>"

definition require_from :: "mail_env \<Rightarrow> exn + string" where
  "require_from env =
     (case ev_from env of
        Some from \<Rightarrow> Inr from
      | None \<Rightarrow> Inl (MailNotConfiguredError ''ENRAHITU_MAIL_FROM is required when a mail transport is configured: it is the address the association's mail is sent from. There is no default, because a guessed sender is discovered by a bounce rather than by a failed boot.''))"

definition smtp_config_of :: "mail_env \<Rightarrow> string \<Rightarrow> string \<Rightarrow> smtp_config" where
  "smtp_config_of env password from =
     \<lparr>sc_host = ev_host env, sc_port = ev_port env, sc_user = ev_user env, sc_password = password,
      sc_insecure = ev_insecure env, sc_from = from, sc_resource = ''mail-relay''\<rparr>"

definition smtp_transport :: "kernel \<Rightarrow> string \<Rightarrow> mail_env \<Rightarrow> exn + 'x mail_world_scheme mail_transport" where
  "smtp_transport K secret env =
     sbind (require_from env) (\<lambda>from.
       Inr \<lparr>tr_name = ''smtp'',
            tr_send = (\<lambda>m. bnd (if given (ev_user env) then mail_password_value K secret else ret [])
                             (\<lambda>password. send_over_smtp K (smtp_config_of env password from) m))\<rparr>)"

definition http_fetch :: "string \<Rightarrow> (string \<times> string) list \<times> string \<Rightarrow> ('x mail_world_scheme, http_response) io" where
  "http_fetch url init =
     (\<lambda>w. let v = w\<lparr>nt_requests := nt_requests w @ [\<lparr>hq_url = url, hq_headers = fst init, hq_body = snd init\<rparr>]\<rparr> in
          case nt_responses w of
            [] \<Rightarrow> (Inl (TypeErr ''fetch failed''), v)
          | r # rs \<Rightarrow> (r, v\<lparr>nt_responses := rs\<rparr>))"

definition provider_body :: "string \<Rightarrow> mail_message \<Rightarrow> js" where
  "provider_body from m =
     JObj ([(''from'', JStr from), (''to'', JArr [JStr (mg_to m)]), (''subject'', JStr (mg_subject m)),
            (''text'', JStr (mg_text m)), (''html'', JStr (mg_html m))] @
           (if given (mg_reply m) then [(''reply_to'', JStr (the (mg_reply m)))] else []))"

definition provider_transport ::
  "kernel \<Rightarrow> (string \<Rightarrow> exn + string) \<Rightarrow> (string \<times> string) list \<Rightarrow> mail_env \<Rightarrow> exn + 'x mail_world_scheme mail_transport" where
  "provider_transport K hostname vars env =
     sbind (require_from env) (\<lambda>from.
       if \<not> given (map_of vars ''ENRAHITU_MAIL_ENDPOINT'') then
         Inl (MailNotConfiguredError ''ENRAHITU_MAIL_TRANSPORT=provider needs ENRAHITU_MAIL_ENDPOINT, the provider's send URL.'')
       else
         Inr \<lparr>tr_name = ''provider'',
              tr_send = (\<lambda>m.
                bnd (gets (\<lambda>w. map_of (ap_env w) ''ENRAHITU_MAIL_TOKEN'')) (\<lambda>token.
                bnd (governed_fetch K hostname http_fetch ''mail-provider'' (the (map_of vars ''ENRAHITU_MAIL_ENDPOINT''))
                       ((''content-type'', ''application/json'') #
                          (if given token then [(''authorization'', ''Bearer '' @ the token)] else []),
                        show_js (provider_body from m))) (\<lambda>res.
                  if hr_ok res then ret ()
                  else throw (Failure (''mail provider answered '' @ show_nat (hr_status res) @ '': '' @ take 200 (hr_text res))))))\<rparr>)"

definition resolve_transport ::
  "kernel \<Rightarrow> string \<Rightarrow> (string \<Rightarrow> exn + string) \<Rightarrow> (string \<times> string) list \<Rightarrow> mail_env \<Rightarrow>
    exn + 'x mail_world_scheme mail_transport" where
  "resolve_transport K secret hostname vars env =
     (if ev_transport env = ''none'' then Inr none_transport
      else if ev_transport env = ''smtp'' then smtp_transport K secret env
      else if ev_transport env = ''provider'' then provider_transport K hostname vars env
      else Inl (MailNotConfiguredError (''ENRAHITU_MAIL_TRANSPORT '' @ quoted (ev_transport env) @
             '' is not a transport: expected 'none', 'smtp' or 'provider'.'')))"

end
