(* ===== verification/Mail_Controller.thy ===== *)
theory Mail_Controller
  imports Mail_Transport Members_API
begin

text \<open>
  Delivery (\<open>backend/mail/controller.ts\<close>), the list of notices (\<open>backend/mail/api.ts\<close>)
  and the start of mail (\<open>backend/mail/boot.ts\<close>). A transport is an argument, so are the template
  files and the order in which the database answers distinct rows. The instant a delivery starts at is a
  reading of the world, which moves on with every reading.
\<close>

definition MAIL_CONTROLLER :: string where "MAIL_CONTROLLER = ''mail''"

definition MAIL_LEASE :: string where "MAIL_LEASE = ''ctl:'' @ MAIL_CONTROLLER"

definition MAIL_ACTOR :: string where "MAIL_ACTOR = ''controller:'' @ MAIL_CONTROLLER"

section \<open>One notice\<close>

datatype delivery = Sent | Skipped | GaveUp

definition message_of :: "notice_spec \<Rightarrow> rendered \<Rightarrow> mail_message" where
  "message_of s r =
     \<lparr>mg_to = mn_to s, mg_subject = mn_subject s, mg_text = rd_text r, mg_html = rd_html r,
      mg_reply = (if given (mn_reply s) then mn_reply s else None)\<rparr>"

definition record_status ::
  "kernel \<Rightarrow> string \<Rightarrow> string \<Rightarrow> int \<Rightarrow> notice_status \<Rightarrow> ('x app_scheme, unit) io" where
  "record_status K tenant name fence s =
     seq (set_status K MAIL_NOTICE name (js_notice_status s)
            \<lparr>ao_tenant = Some tenant, ao_fence = Some fence, ao_actor = Some MAIL_ACTOR\<rparr>)
         (ret ())"

text \<open>The body of the \<open>try\<close>, the status write of a success included.\<close>

definition attempt ::
  "kernel \<Rightarrow> (string \<Rightarrow> string option) \<Rightarrow> 'x app_scheme mail_transport \<Rightarrow> string \<Rightarrow> string \<Rightarrow> int \<Rightarrow>
    notice_spec \<Rightarrow> notice_status option \<Rightarrow> int \<Rightarrow> ('x app_scheme, delivery) io" where
  "attempt K files T tenant name fence spec status now =
     bnd (lift (render_template files (mn_template spec) (mn_params spec))) (\<lambda>r.
     seq (tr_send T (message_of spec r))
    (seq (record_status K tenant name fence (after_success status now))
         (ret Sent)))"

definition attempt_failed ::
  "kernel \<Rightarrow> string \<Rightarrow> string \<Rightarrow> int \<Rightarrow> notice_status option \<Rightarrow> int \<Rightarrow> exn \<Rightarrow> ('x app_scheme, delivery) io" where
  "attempt_failed K tenant name fence status now e =
     (let next_status = after_failure status (err_message e) now in
      seq (record_status K tenant name fence next_status)
     (seq (warn ''mail: notice not delivered'')
          (ret (if ns_state next_status = NFailed then GaveUp else Skipped))))"

definition deliver_notice ::
  "kernel \<Rightarrow> (string \<Rightarrow> string option) \<Rightarrow> 'x app_scheme mail_transport \<Rightarrow> string \<Rightarrow> string \<Rightarrow> int \<Rightarrow> int \<Rightarrow>
    ('x app_scheme, delivery) io" where
  "deliver_notice K files T tenant name fence now =
     bnd (get_resource K MAIL_NOTICE name (tenant_only tenant)) (\<lambda>found.
       case found of None \<Rightarrow> ret Skipped | Some notice \<Rightarrow>
       let status = notice_status_at (re_status notice) in
       if plan_for status now \<noteq> Attempt then ret Skipped
       else catch (attempt K files T tenant name fence (notice_at (re_spec notice)) status now)
                  (attempt_failed K tenant name fence status now))"

section \<open>The two loops\<close>

record post_world = mail_world +
  po_now :: int
  po_ticks :: "nat list"       \<comment> \<open>how far the clock moves with each reading\<close>

definition instant_now :: "('x post_world_scheme, int) io" where
  "instant_now =
     (\<lambda>w. (Inr (po_now w),
           w\<lparr>po_now := po_now w + (case po_ticks w of [] \<Rightarrow> 0 | t # _ \<Rightarrow> int t), po_ticks := tl (po_ticks w)\<rparr>))"

definition mail_controller_spec ::
  "kernel \<Rightarrow> (string \<Rightarrow> string option) \<Rightarrow> 'x post_world_scheme mail_transport \<Rightarrow> 'x post_world_scheme controller_spec" where
  "mail_controller_spec K files T =
     \<lparr>cs_name = MAIL_CONTROLLER, cs_kinds = [MAIL_NOTICE], cs_batch = 100, cs_budget = 7000,
      cs_reconcile = (\<lambda>change fence.
        if ch_retracted change then ret ()
        else
          bnd instant_now (\<lambda>now.
            seq (deliver_notice K files T (re_tenant (ch_resource change)) (re_name (ch_resource change)) fence now)
                (ret ())))\<rparr>"

definition NOTICE_TENANTS_SQL :: string where
  "NOTICE_TENANTS_SQL = ''SELECT DISTINCT tenant FROM resource WHERE kind = $1 AND deleted_at IS NULL''"

definition notice_tenants :: "store \<Rightarrow> string list" where
  "notice_tenants s = remdups (map rr_tenant (filter (\<lambda>r. rr_kind r = MAIL_NOTICE \<and> \<not> is_deleted r) (s_rows s)))"

definition tenants_with_notices ::
  "kernel \<Rightarrow> (string list \<Rightarrow> string list) \<Rightarrow> ('x app_scheme, string list) io" where
  "tenants_with_notices K arrange =
     query K NOTICE_TENANTS_SQL [''resource''] (in_schema ''resource'' (\<lambda>s. arrange (notice_tenants s)))"

fun mail_sweep_rows ::
  "kernel \<Rightarrow> (string \<Rightarrow> string option) \<Rightarrow> 'x post_world_scheme mail_transport \<Rightarrow> string \<Rightarrow> int \<Rightarrow> nat \<Rightarrow> nat \<Rightarrow>
    resource list \<Rightarrow> ('x post_world_scheme, nat) io" where
  "mail_sweep_rows K files T tenant fence deadline n [] = ret n"
| "mail_sweep_rows K files T tenant fence deadline n (m # ms) =
     bnd read_clock (\<lambda>t.
       if past deadline t then ret n
       else
         bnd (catch (bnd instant_now (\<lambda>now.
                     bnd (deliver_notice K files T tenant (re_name m) fence now) (\<lambda>d.
                       ret (if d = Sent then Suc n else n))))
                    (\<lambda>_. seq (warn ''mail: notice pass failed'') (ret n))) (\<lambda>n'.
           mail_sweep_rows K files T tenant fence deadline n' ms))"

fun mail_sweep_tenants ::
  "kernel \<Rightarrow> (string \<Rightarrow> string option) \<Rightarrow> 'x post_world_scheme mail_transport \<Rightarrow> int \<Rightarrow> nat \<Rightarrow> nat \<Rightarrow>
    string list \<Rightarrow> ('x post_world_scheme, nat) io" where
  "mail_sweep_tenants K files T fence deadline n [] = ret n"
| "mail_sweep_tenants K files T fence deadline n (t # ts) =
     bnd read_clock (\<lambda>c.
       if past deadline c then ret n
       else
         bnd (list_resources K MAIL_NOTICE (tenant_only t)) (\<lambda>ms.
         bnd (mail_sweep_rows K files T t fence deadline n ms) (\<lambda>n'.
           mail_sweep_tenants K files T fence deadline n' ts)))"

definition mail_sweep_once ::
  "kernel \<Rightarrow> (string \<Rightarrow> string option) \<Rightarrow> (string list \<Rightarrow> string list) \<Rightarrow> 'x post_world_scheme mail_transport \<Rightarrow> nat \<Rightarrow>
    ('x post_world_scheme, nat) io" where
  "mail_sweep_once K files arrange T budget =
     with_lease K MAIL_LEASE (\<lambda>fence.
       bnd read_clock (\<lambda>t.
       let deadline = (case t of None \<Rightarrow> 0 | Some n \<Rightarrow> n + budget) in
       bnd (tenants_with_notices K arrange) (\<lambda>tenants.
         mail_sweep_tenants K files T fence deadline 0 tenants)))"

text \<open>
  The loop behind its gate, which answers the count of the last sweep that finished. The lists say
  when \<open>stop()\<close> has been called: by the end of each poll of the gate, and at each test of the loop.
\<close>

fun run_mail_sweeps ::
  "kernel \<Rightarrow> (string \<Rightarrow> string option) \<Rightarrow> (string list \<Rightarrow> string list) \<Rightarrow> 'x post_world_scheme mail_transport \<Rightarrow> nat \<Rightarrow>
    bool list \<Rightarrow> ('x post_world_scheme, nat) io" where
  "run_mail_sweeps K files arrange T n [] = ret n"
| "run_mail_sweeps K files arrange T n (stopped # stops) =
     (if stopped then ret n
      else bnd (catch (mail_sweep_once K files arrange T 7000)
                  (\<lambda>_. seq (warn ''mail sweep: pass failed'') (ret n))) (\<lambda>n'.
             run_mail_sweeps K files arrange T n' stops))"

definition start_mail_sweep ::
  "kernel \<Rightarrow> (string \<Rightarrow> string option) \<Rightarrow> (string list \<Rightarrow> string list) \<Rightarrow> 'x post_world_scheme mail_transport \<Rightarrow>
    bool list \<Rightarrow> bool list \<Rightarrow> ('x post_world_scheme, nat) io" where
  "start_mail_sweep K files arrange T polls stops w =
     (case await_control_schema K False polls w of
        ((found, _, probe_errors), u) \<Rightarrow>
          seq (each (\<lambda>_. warn ''mail sweep: cannot tell whether the schema exists'') probe_errors)
              (if found = Some True then run_mail_sweeps K files arrange T 0 stops else ret 0) u)"

section \<open>The list of notices\<close>

record notice_view =
  nv_name :: string
  nv_to :: string
  nv_subject :: string
  nv_template :: string
  nv_state :: notice_state
  nv_attempts :: int
  nv_error :: "string option"
  nv_sent :: "string option"
  nv_next :: "string option"
  nv_revision :: nat

definition pending_status :: notice_status where
  "pending_status = \<lparr>ns_state = NPending, ns_attempts = 0, ns_error = None, ns_sent = None, ns_next = None\<rparr>"

definition notice_view_of :: "resource \<Rightarrow> notice_view" where
  "notice_view_of r =
     (let spec = notice_at (re_spec r);
          status = (case notice_status_at (re_status r) of None \<Rightarrow> pending_status | Some s \<Rightarrow> s)
      in \<lparr>nv_name = re_name r, nv_to = mn_to spec, nv_subject = mn_subject spec, nv_template = mn_template spec,
          nv_state = ns_state status, nv_attempts = ns_attempts status, nv_error = shown (ns_error status),
          nv_sent = shown (ns_sent status), nv_next = shown (ns_next status), nv_revision = re_revision r\<rparr>)"

definition list_notices ::
  "kernel \<Rightarrow> string \<Rightarrow> auth_data \<Rightarrow> string option \<Rightarrow> ('x app_scheme, notice_view list) io" where
  "list_notices K model_json auth state =
     bnd (lift (require_operator model_json auth)) (\<lambda>_.
     bnd tenant_id (\<lambda>tenant.
       guarded
         (bnd (list_resources K MAIL_NOTICE (tenant_only tenant)) (\<lambda>rows.
            ret (filter (\<lambda>n. given state \<longrightarrow> notice_state_text (nv_state n) = the state)
                   (map notice_view_of rows))))))"

section \<open>Starting mail\<close>

definition transport_or_none ::
  "kernel \<Rightarrow> string \<Rightarrow> (string \<Rightarrow> exn + string) \<Rightarrow> (string \<times> string) list \<Rightarrow> mail_env \<Rightarrow> 'x mail_world_scheme mail_transport" where
  "transport_or_none K secret hostname vars env =
     (case resolve_transport K secret hostname vars env of Inr T \<Rightarrow> T | Inl _ \<Rightarrow> none_transport)"

text \<open>The answer is the transport both loops are started with.\<close>

definition start_mail_runtime ::
  "kernel \<Rightarrow> string \<Rightarrow> (string \<Rightarrow> exn + string) \<Rightarrow> (string \<times> string) list \<Rightarrow> mail_env \<Rightarrow>
    ('x mail_world_scheme, 'x mail_world_scheme mail_transport) io" where
  "start_mail_runtime K secret hostname vars env =
     seq register_mail_kinds
    (seq state_ready
         (run_as_service ''mail'' (ret (transport_or_none K secret hostname vars env))))"

definition start_mail_runtime_or_log ::
  "kernel \<Rightarrow> string \<Rightarrow> (string \<Rightarrow> exn + string) \<Rightarrow> (string \<times> string) list \<Rightarrow> mail_env \<Rightarrow>
    ('x mail_world_scheme, 'x mail_world_scheme mail_transport option) io" where
  "start_mail_runtime_or_log K secret hostname vars env =
     catch (bnd (start_mail_runtime K secret hostname vars env) (\<lambda>T. ret (Some T))) (\<lambda>_. ret None)"

end
