(* ===== verification/Mail_Wire_Claims.thy ===== *)
theory Mail_Wire_Claims
  imports Mail_Transport
begin

text \<open>
  The message on the wire as a relay reads it: the lines between the terminators, the header block up to
  the first empty line, and the leading dots that are doubled on the way and dropped on arrival.
\<close>

section \<open>What the relay reads\<close>

fun split_crlf :: "string \<Rightarrow> string list" where
  "split_crlf [] = [[]]"
| "split_crlf [c] = [[c]]"
| "split_crlf (c # d # cs) =
     (if c = cr \<and> d = newline then [] # split_crlf cs
      else (case split_crlf (d # cs) of [] \<Rightarrow> [[c]] | y # ys \<Rightarrow> (c # y) # ys))"

text \<open>The receiver drops one leading dot of each line.\<close>

definition unstuff :: "string \<Rightarrow> string" where
  "unstuff l = (if starts_with ''.'' l then tl l else l)"

definition stuff_line :: "string \<Rightarrow> string" where
  "stuff_line l = (if starts_with ''.'' l then CHR ''.'' # l else l)"

lemma unstuff_line [simp]: "unstuff (stuff_line l) = l"
  by (cases l) (auto simp: unstuff_def stuff_line_def starts_with_def)

lemma split_crlf_nonempty: "split_crlf s \<noteq> []"
  by (induction s rule: split_crlf.induct) (auto split: list.split)

lemma split_crlf_Cons:
  "c \<noteq> cr \<or> s = [] \<or> hd s \<noteq> newline \<Longrightarrow> split_crlf (c # s) = (c # hd (split_crlf s)) # tl (split_crlf s)"
  using split_crlf_nonempty [of s] by (cases s) (auto split: list.split)

lemma split_crlf_line: "cr \<notin> set u \<Longrightarrow> split_crlf (u @ crlf @ s) = u # split_crlf s"
proof (induction u)
  case (Cons c u)
  then have "c \<noteq> cr" by auto
  with Cons show ?case by (simp add: split_crlf_Cons)
qed simp

section \<open>Line ends and dots\<close>

text \<open>Every line feed follows a carriage return; no dot follows one.\<close>

fun crlf_normal :: "string \<Rightarrow> bool" where
  "crlf_normal [] = True"
| "crlf_normal [c] = (c \<noteq> newline)"
| "crlf_normal (c # d # cs) =
     (if c = cr \<and> d = newline then crlf_normal cs else c \<noteq> newline \<and> crlf_normal (d # cs))"

fun no_cr_dot :: "string \<Rightarrow> bool" where
  "no_cr_dot (c # d # cs) = (\<not> (c = cr \<and> d = CHR ''.'') \<and> no_cr_dot (d # cs))"
| "no_cr_dot _ = True"

lemma crlf_lines_head: "s \<noteq> [] \<Longrightarrow> crlf_lines s \<noteq> [] \<and> (hd (crlf_lines s) = hd s \<or> hd s = newline \<and> hd (crlf_lines s) = cr)"
  by (induction s rule: crlf_lines.induct) auto

lemma crlf_normal_Cons: "c \<noteq> newline \<Longrightarrow> c \<noteq> cr \<or> s = [] \<or> hd s \<noteq> newline \<Longrightarrow> crlf_normal s \<Longrightarrow> crlf_normal (c # s)"
  by (cases s) auto

lemma crlf_lines_normal: "crlf_normal (crlf_lines s)"
proof (induction s rule: crlf_lines.induct)
  case (3 c d cs)
  then show ?case using crlf_lines_head [of "d # cs"] by (auto intro!: crlf_normal_Cons)
qed auto

lemma no_cr_dot_Cons: "no_cr_dot s \<Longrightarrow> c \<noteq> cr \<or> s = [] \<or> hd s \<noteq> CHR ''.'' \<Longrightarrow> no_cr_dot (c # s)"
  by (cases s) auto

lemma no_cr_dot_tl: "no_cr_dot (c # s) \<Longrightarrow> no_cr_dot s"
  by (cases s) auto

lemma crlf_lines_no_cr_dot: "no_cr_dot s \<Longrightarrow> no_cr_dot (crlf_lines s)"
proof (induction s rule: crlf_lines.induct)
  case (3 c d cs)
  have ds: "no_cr_dot (d # cs)" "no_cr_dot cs" "\<not> (c = cr \<and> d = CHR ''.'')"
    using "3.prems" no_cr_dot_tl [of d cs] by simp_all
  consider (nl) "c = newline" | (crlf) "c = cr" "d = newline" | (other) "c \<noteq> newline" "\<not> (c = cr \<and> d = newline)" by blast
  then show ?case
  proof cases
    case nl
    then show ?thesis using "3.IH"(1) ds by (simp add: no_cr_dot_Cons)
  next
    case crlf
    then show ?thesis using "3.IH"(2) ds by (simp add: no_cr_dot_Cons)
  next
    case other
    have "c \<noteq> cr \<or> hd (crlf_lines (d # cs)) \<noteq> CHR ''.''"
    proof -
      have "crlf_lines (d # cs) \<noteq> [] \<and> (hd (crlf_lines (d # cs)) = d \<or> d = newline \<and> hd (crlf_lines (d # cs)) = cr)"
        using crlf_lines_head [of "d # cs"] by (simp only: list.sel list.distinct simp_thms)
      moreover have "cr \<noteq> CHR ''.''" by simp
      ultimately have "hd (crlf_lines (d # cs)) = CHR ''.'' \<longrightarrow> d = CHR ''.''" by argo
      with ds(3) show ?thesis by blast
    qed
    then have "no_cr_dot (c # crlf_lines (d # cs))"
      using "3.IH"(3) [OF other ds(1)] by (intro no_cr_dot_Cons) simp_all
    then show ?thesis unfolding crlf_lines.simps(3) if_not_P [OF other(1)] if_not_P [OF other(2)] .
  qed
qed auto

lemma stuff_head: "s \<noteq> [] \<Longrightarrow> stuff b s \<noteq> [] \<and> hd (stuff b s) = hd s"
  by (cases s) auto

lemma stuff_lines:
  "crlf_normal s \<Longrightarrow> no_cr_dot s \<Longrightarrow>
   split_crlf (stuff b s) =
     (if b then stuff_line (hd (split_crlf s)) else hd (split_crlf s)) # map stuff_line (tl (split_crlf s))"
proof (induction s arbitrary: b rule: split_crlf.induct)
  case 1
  show ?case by (simp add: stuff_line_def starts_with_def)
next
  case (2 c)
  then show ?case by (auto simp: stuff_line_def starts_with_def)
next
  case (3 c d cs)
  show ?case
  proof (cases "c = cr \<and> d = newline")
    case True
    have cs: "crlf_normal cs" "no_cr_dot cs" using "3.prems" True no_cr_dot_tl by (auto dest: no_cr_dot_tl)
    have "split_crlf (stuff True cs) = map stuff_line (split_crlf cs)"
      using "3.IH"(1) [OF True cs, of True] split_crlf_nonempty [of cs] by (cases "split_crlf cs") auto
    with True show ?thesis by (simp add: stuff_line_def starts_with_def)
  next
    case False
    have ds: "crlf_normal (d # cs)" "no_cr_dot (d # cs)" and c: "c \<noteq> newline"
      using "3.prems" False by auto
    note IH = "3.IH"(2) [OF False ds]
    have same: "stuff (c = newline \<or> c = cr) (d # cs) = stuff False (d # cs)"
      using "3.prems"(2) c by auto
    have head: "hd (stuff False (d # cs)) = d" "stuff False (d # cs) \<noteq> []" using stuff_head [of "d # cs" False] by simp_all
    have one: "split_crlf (x # stuff False (d # cs)) = (x # hd (split_crlf (d # cs))) # map stuff_line (tl (split_crlf (d # cs)))"
      if "x \<noteq> cr \<or> d \<noteq> newline" for x
      using that split_crlf_Cons [of x "stuff False (d # cs)"] head IH [of False] by simp
    have whole: "split_crlf (c # d # cs) = (c # hd (split_crlf (d # cs))) # tl (split_crlf (d # cs))"
      using False split_crlf_Cons [of c "d # cs"] by auto
    show ?thesis
    proof (cases "b \<and> c = CHR ''.''")
      case True
      then have "stuff b (c # d # cs) = CHR ''.'' # CHR ''.'' # stuff False (d # cs)" by simp
      moreover have "split_crlf (CHR ''.'' # CHR ''.'' # stuff False (d # cs)) =
          (CHR ''.'' # CHR ''.'' # hd (split_crlf (d # cs))) # map stuff_line (tl (split_crlf (d # cs)))"
        using split_crlf_Cons [of "CHR ''.''" "CHR ''.'' # stuff False (d # cs)"] one [of "CHR ''.''"] by simp
      ultimately show ?thesis using True whole by (simp add: stuff_line_def starts_with_def)
    next
      case no: False
      then have "stuff b (c # d # cs) = c # stuff False (d # cs)" using same by auto
      with one [of c] False no whole show ?thesis by (auto simp: stuff_line_def starts_with_def)
    qed
  qed
qed

text \<open>Even with stray carriage returns no line is a lone dot.\<close>

lemma stuff_no_end:
  "crlf_normal s \<Longrightarrow> (b \<longrightarrow> hd (split_crlf (stuff b s)) \<noteq> ''.'') \<and> ''.'' \<notin> set (tl (split_crlf (stuff b s)))"
proof (induction s arbitrary: b rule: split_crlf.induct)
  case (3 c d cs)
  show ?case
  proof (cases "c = cr \<and> d = newline")
    case True
    have "crlf_normal cs" using "3.prems" True by auto
    from "3.IH"(1) [OF True this, of True] have "''.'' \<notin> set (split_crlf (stuff True cs))"
      using split_crlf_nonempty [of "stuff True cs"] by (cases "split_crlf (stuff True cs)") auto
    with True show ?thesis by simp
  next
    case False
    have ds: "crlf_normal (d # cs)" and c: "c \<noteq> newline" using "3.prems" False by auto
    note IH = "3.IH"(2) [OF False ds]
    have head: "hd (stuff f (d # cs)) = d" "stuff f (d # cs) \<noteq> []" for f using stuff_head [of "d # cs" f] by simp_all
    have one: "split_crlf (x # stuff f (d # cs)) = (x # hd (split_crlf (stuff f (d # cs)))) # tl (split_crlf (stuff f (d # cs)))"
      if "x \<noteq> cr \<or> d \<noteq> newline" for x f
      using that split_crlf_Cons [of x "stuff f (d # cs)"] head by simp
    show ?thesis
    proof (cases "b \<and> c = CHR ''.''")
      case True
      define S where "S = stuff False (d # cs)"
      have "stuff b (c # d # cs) = CHR ''.'' # CHR ''.'' # S" using True by (simp add: S_def)
      moreover have "split_crlf (CHR ''.'' # CHR ''.'' # S) =
          (CHR ''.'' # CHR ''.'' # hd (split_crlf S)) # tl (split_crlf S)"
        by (simp add: split_crlf_Cons)
      moreover have "''.'' \<notin> set (tl (split_crlf S))" using IH [of False] unfolding S_def by blast
      ultimately show ?thesis by (simp only:) simp
    next
      case no: False
      then have "stuff b (c # d # cs) = c # stuff (c = newline \<or> c = cr) (d # cs)" by auto
      moreover have "c # y \<noteq> ''.''" if b for y using no that by auto
      ultimately show ?thesis using one [of c "c = newline \<or> c = cr"] IH [of "c = newline \<or> c = cr"] False by auto
    qed
  qed
qed (auto split: if_splits)

lemma stuffed_lines: "''.'' \<notin> set (split_crlf (dot_stuff body))"
proof -
  let ?t = "stuff True (crlf_lines body)"
  have "split_crlf ?t = hd (split_crlf ?t) # tl (split_crlf ?t)" using split_crlf_nonempty by simp
  then show ?thesis
    using stuff_no_end [OF crlf_lines_normal, of True body] unfolding dot_stuff_def by (metis set_ConsD)
qed

text \<open>
  No line of a stuffed body is a lone dot, so the body never ends the message early; and what a
  relay reads after dropping the doubled dots are the lines of the body, unless a carriage return stands
  directly before a dot.
\<close>

theorem dot_stuffing:
  "''.'' \<notin> set (split_crlf (dot_stuff body)) \<and>
   (no_cr_dot body \<longrightarrow> map unstuff (split_crlf (dot_stuff body)) = split_crlf (crlf_lines body))"
proof (intro conjI impI)
  let ?t = "stuff True (crlf_lines body)"
  show "''.'' \<notin> set (split_crlf (dot_stuff body))" by (rule stuffed_lines)
  assume "no_cr_dot body"
  from stuff_lines [OF crlf_lines_normal crlf_lines_no_cr_dot [OF this], of True]
  have "map unstuff (split_crlf ?t) = hd (split_crlf (crlf_lines body)) # tl (split_crlf (crlf_lines body))"
    by (simp add: comp_def)
  then show "map unstuff (split_crlf (dot_stuff body)) = split_crlf (crlf_lines body)"
    unfolding dot_stuff_def using split_crlf_nonempty by simp
qed

theorem dot_stuffing_witness:
  "let body = ''Hi'' @ [newline] @ ''.'' @ [newline] @ ''.x''
   in map unstuff (split_crlf (dot_stuff body)) = [''Hi'', ''.'', ''.x'']"
proof -
  have "no_cr_dot (''Hi'' @ [newline] @ ''.'' @ [newline] @ ''.x'')"
    "split_crlf (crlf_lines (''Hi'' @ [newline] @ ''.'' @ [newline] @ ''.x'')) = [''Hi'', ''.'', ''.x'']" by code_simp+
  with dot_stuffing [of "''Hi'' @ [newline] @ ''.'' @ [newline] @ ''.x''"] show ?thesis by (simp add: Let_def)
qed

text \<open>A dot after a stray carriage return is doubled and stays doubled.\<close>

lemma stray_return_doubles_a_dot:
  "map unstuff (split_crlf (dot_stuff (''a'' @ [cr] @ ''.b''))) = [''a'' @ [cr] @ ''..b''] \<and>
   split_crlf (crlf_lines (''a'' @ [cr] @ ''.b'')) = [''a'' @ [cr] @ ''.b'']"
  by code_simp

section \<open>The header block\<close>

definition no_breaks :: "string \<Rightarrow> bool" where
  "no_breaks s \<longleftrightarrow> cr \<notin> set s \<and> newline \<notin> set s"

lemma no_breaks_append [simp]: "no_breaks (u @ v) \<longleftrightarrow> no_breaks u \<and> no_breaks v"
  and no_breaks_Nil [simp]: "no_breaks []"
  and no_breaks_Cons [simp]: "no_breaks (c # s) \<longleftrightarrow> c \<noteq> cr \<and> c \<noteq> newline \<and> no_breaks s"
  by (auto simp: no_breaks_def)

lemma no_breaks_codes: "(\<And>c. c \<in> set s \<Longrightarrow> 32 \<le> code_unit c) \<Longrightarrow> no_breaks s"
  by (force simp: no_breaks_def)

lemma no_breaks_email: "email_shape s \<Longrightarrow> no_breaks s"
  by (auto simp: email_shape_def list_ex_iff no_breaks_def is_space_def)

lemma base64_char_code: "32 \<le> code_unit (base64_char n)"
  by (auto simp: base64_char_def)

lemma base64_no_breaks: "no_breaks (base64 bs)"
proof (rule no_breaks_codes)
  show "32 \<le> code_unit c" if "c \<in> set (base64 bs)" for c
    using that by (induction bs rule: base64.induct) (auto simp: base64_char_code)
qed

lemma encode_header_no_breaks: "no_breaks (encode_header v)"
proof (cases "list_all printable_ascii v")
  case True
  then have "no_breaks v" by (intro no_breaks_codes) (auto simp: list_all_iff printable_ascii_def)
  with True show ?thesis by (simp add: encode_header_def)
qed (simp add: encode_header_def base64_no_breaks)

lemma hex_digit_code: "n < 16 \<Longrightarrow> 32 \<le> code_unit (hex_digit n)"
  by (auto simp: hex_digit_def)

lemma utf8_bytes: "b \<in> set (utf8 s) \<Longrightarrow> b < 256"
proof -
  have "code_unit c < 256" for c :: char by simp
  then have "192 + code_unit c div 64 < 256" "128 + code_unit c mod 64 < 256" for c :: char
    using less_mult_imp_div_less [of "code_unit c" 4 64] mod_less_divisor [of 64 "code_unit c"] by fastforce+
  then show "b \<in> set (utf8 s) \<Longrightarrow> b < 256" by (auto simp: utf8_def Let_def split: if_splits)
qed

lemma boundary_no_breaks: "no_breaks (mime_boundary m)"
proof -
  have "32 \<le> code_unit c" if "c \<in> set (hex_text bs)" "\<forall>b \<in> set bs. b < 256" for c bs
    using that hex_digit_code by (auto simp: hex_text_def)
  then have "no_breaks (take 24 (hex_text (utf8 s)))" for s
    using utf8_bytes by (intro no_breaks_codes) (meson in_set_takeD)
  then show ?thesis by (simp add: mime_boundary_def)
qed

lemma headers_no_breaks:
  assumes "email_shape (mg_to m)" and "mg_reply m = None \<or> email_shape (the (mg_reply m))"
  shows "list_all (\<lambda>h. h \<noteq> [] \<and> no_breaks h) (message_headers from m)"
proof -
  have "no_breaks (the (mg_reply m))" if "given (mg_reply m)"
    using assms(2) that no_breaks_email by (auto simp: given_def split: option.splits)
  with assms(1) show ?thesis
    by (auto simp: message_headers_def encode_header_no_breaks boundary_no_breaks no_breaks_email)
qed

lemma split_crlf_join:
  "hs \<noteq> [] \<Longrightarrow> list_all no_breaks hs \<Longrightarrow> split_crlf (join crlf hs @ crlf @ s) = hs @ split_crlf s"
proof (induction hs)
  case (Cons h hs)
  have h: "cr \<notin> set h" using Cons.prems by (simp add: no_breaks_def)
  show ?case
  proof (cases hs)
    case Nil
    with split_crlf_line [OF h] show ?thesis by simp
  next
    case (Cons x xs)
    with Cons.IH Cons.prems split_crlf_line [OF h, of "join crlf hs @ crlf @ s"] show ?thesis by simp
  qed
qed simp

text \<open>
  C36: whatever the sender, the subject and the texts hold, a message to an accepted address
  reads as exactly the five header lines the code writes, and a sixth for a reply address, then the empty line,
  then the stuffed body; no header breaks a line, and nothing before the terminator ends the message.
\<close>

theorem headers_not_injectable:
  assumes "email_shape (mg_to m)" and "mg_reply m = None \<or> email_shape (the (mg_reply m))"
  shows "split_crlf (build_message sender m) = message_headers sender m @ [] # split_crlf (dot_stuff (message_body m)) \<and>
    list_all (\<lambda>h. h \<noteq> [] \<and> cr \<notin> set h \<and> newline \<notin> set h) (message_headers sender m) \<and>
    length (message_headers sender m) = (if given (mg_reply m) then 6 else 5) \<and>
    ''.'' \<notin> set (split_crlf (build_message sender m))"
proof -
  note ok = headers_no_breaks [OF assms, of sender]
  have lines: "split_crlf (build_message sender m) = message_headers sender m @ [] # split_crlf (dot_stuff (message_body m))"
  proof -
    have "message_headers sender m \<noteq> []" by (simp add: message_headers_def)
    moreover have "list_all no_breaks (message_headers sender m)" using ok by (auto simp: list_all_iff)
    ultimately have "split_crlf (build_message sender m) = message_headers sender m @ split_crlf (crlf @ dot_stuff (message_body m))"
      unfolding build_message_def by (rule split_crlf_join)
    then show ?thesis by simp
  qed
  moreover have "''.'' \<notin> set (message_headers sender m)" by (simp add: message_headers_def)
  moreover have "''.'' \<notin> set (split_crlf (dot_stuff (message_body m)))" by (rule stuffed_lines)
  moreover have "list_all (\<lambda>h. h \<noteq> [] \<and> cr \<notin> set h \<and> newline \<notin> set h) (message_headers sender m)"
    using ok by (auto simp: list_all_iff no_breaks_def)
  ultimately show ?thesis by (simp add: message_headers_def)
qed

definition demo_message :: mail_message where
  "demo_message = \<lparr>mg_to = ''ada@x.org'', mg_subject = ''Hi'' @ crlf @ ''Bcc: eve@x.org'', mg_text = ''.'', mg_html = [], mg_reply = None\<rparr>"

theorem headers_not_injectable_witness:
  "length (message_headers ''club@x.org'' demo_message) = 5 \<and>
   ''.'' \<notin> set (split_crlf (build_message ''club@x.org'' demo_message))"
proof -
  have "email_shape (mg_to demo_message)" "mg_reply demo_message = None" by code_simp+
  with headers_not_injectable [of demo_message "''club@x.org''"] show ?thesis by (simp only: given_def option.case if_False) blast
qed

text \<open>
  The boundary is made of the address and the subject alone, so a text can hold it: its line then ends
  the part it stands in.
\<close>

lemma boundary_in_text:
  "mime_boundary (m\<lparr>mg_text := t\<rparr>) = mime_boundary m"
  "message_body (m\<lparr>mg_text := ''x'' @ [newline] @ ''--'' @ mime_boundary m @ [newline] @ ''y''\<rparr>) =
     ''--'' @ mime_boundary m @ [newline] @ ''Content-Type: text/plain; charset=utf-8'' @ [newline, newline] @ ''x'' @ [newline] @
     ''--'' @ mime_boundary m @ [newline] @ ''y'' @
     drop (length (''--'' @ mime_boundary m @ [newline] @ ''Content-Type: text/plain; charset=utf-8'' @ [newline, newline]))
       (message_body (m\<lparr>mg_text := []\<rparr>))"
  by (simp_all add: mime_boundary_def message_body_def Let_def)

end
