(* ===== verification/Mail_Relay_Claims.thy ===== *)
theory Mail_Relay_Claims
  imports Mail_Wire_Claims
begin

text \<open>
  What the conversation with a relay writes, and on which kind of channel: nothing before the kernel grants
  the egress, nothing but the greeting in the clear, and a message is delivered only when every step was
  accepted.
\<close>

section \<open>Steps with their results\<close>

context step_order begin

lemma along_bnd_result:
  assumes "along R m" and "\<And>w a u. m w = (Inr a, u) \<Longrightarrow> along R (f a)"
  shows "along R (bnd m f)"
proof (rule alongI)
  fix w
  obtain r u where m: "m w = (r, u)" by fastforce
  have u: "R w u" using alongD [OF assms(1) m] .
  show "R w (snd (bnd m f w))"
  proof (cases r)
    case (Inl e)
    with m u show ?thesis by (simp add: bnd_run)
  next
    case (Inr a)
    have "R u (snd (f a u))" using assms(2) [of w a u] m Inr by (simp add: along_def)
    with m u Inr show ?thesis by (auto simp: bnd_run intro: step_trans)
  qed
qed

end

text \<open>Every event a program puts on the wire satisfies \<open>P\<close>.\<close>

definition wires :: "(wire_event \<Rightarrow> bool) \<Rightarrow> 'x mail_world_scheme \<Rightarrow> 'x mail_world_scheme \<Rightarrow> bool" where
  "wires P w u \<longleftrightarrow> (\<exists>es. nt_wire u = nt_wire w @ es \<and> list_all P es)"

lemma wires_same: "nt_wire u = nt_wire w \<Longrightarrow> wires P w u"
  by (simp add: wires_def)

interpretation wires: step_order "wires P" for P :: "wire_event \<Rightarrow> bool"
proof
  show "wires P w w" for w :: "'x mail_world_scheme" by (simp add: wires_same)
  show "wires P u v \<Longrightarrow> wires P v w \<Longrightarrow> wires P u w" for u v w :: "'x mail_world_scheme"
    unfolding wires_def by (metis append_assoc list_all_append)
qed

lemma wires_on_wire: "P e \<Longrightarrow> along (wires P) (on_wire e)"
  by (simp add: on_wire_def along_modify wires_def)

lemma wires_say: "P (Wrote (cv_secure c) (line @ crlf)) \<Longrightarrow> along (wires P) (say c line)"
  unfolding say_def by (rule wires_on_wire)

lemma feed_secure [simp]: "cv_secure (feed c es) = cv_secure c"
  by (induction c es rule: feed.induct) simp_all

lemma await_secure: "await_reply label c es = (r, c', rest) \<Longrightarrow> cv_secure c' = cv_secure c"
  by (induction label c es rule: await_reply.induct) (auto simp: Let_def split: if_splits)

lemma arrivals_wires: "along (wires P) next_arrivals" "along (wires P) (leave_arrivals es)" "along (wires P) (connect_outcome e)"
  by (rule alongI, auto simp: next_arrivals_def leave_arrivals_def connect_outcome_def intro!: wires_same split: list.split)+

lemma expect_wire: "along (wires P) (expect codes label c)"
  unfolding expect_def Let_def
  by (intro wires.along_bnd arrivals_wires)
    (auto intro!: wires.along_bnd arrivals_wires simp: wires.along_throw wires.along_ret split: option.split prod.split sum.split)

lemma silent: "along (wires (\<lambda>e. False)) m \<Longrightarrow> m w = (r, u) \<Longrightarrow> nt_wire u = nt_wire w"
  using alongD [of "wires (\<lambda>e. False)" m w r u] by (auto simp: wires_def list_all_iff)

lemma expect_result:
  assumes "expect codes label c w = (Inr (reply, c'), u)"
  shows "nt_wire u = nt_wire w" "cv_secure c' = cv_secure c" "take 3 reply \<in> set (map show_nat codes)"
proof -
  show "nt_wire u = nt_wire w"
    by (rule silent [OF expect_wire assms])
  show "cv_secure c' = cv_secure c" "take 3 reply \<in> set (map show_nat codes)"
    using assms by (auto simp: expect_def bnd_Inr_iff Let_def split: option.splits prod.splits sum.splits if_splits dest: await_secure)
qed

section \<open>In the clear\<close>

definition ehlo :: string where "ehlo = ''EHLO enrahitu'' @ crlf"

definition starttls :: string where "starttls = ''STARTTLS'' @ crlf"

definition clear_ok :: "wire_event \<Rightarrow> bool" where
  "clear_ok e = (case e of Wrote secure line \<Rightarrow> secure \<or> line = ehlo \<or> line = starttls | _ \<Rightarrow> True)"

lemma clear_say: "cv_secure c \<or> line @ crlf = ehlo \<or> line @ crlf = starttls \<Longrightarrow> along (wires clear_ok) (say c line)"
  by (rule wires_say) (auto simp: clear_ok_def)

lemma expect_pair:
  assumes "\<And>reply c'. cv_secure c' = cv_secure c \<Longrightarrow> along (wires P) (f reply c')"
  shows "along (wires P) (bnd (expect codes label c) (\<lambda>(reply, c'). f reply c'))"
  by (rule wires.along_bnd_result [OF expect_wire]) (auto dest: expect_result(2) intro: assms)

lemma submit_clear: "cv_secure c \<Longrightarrow> along (wires clear_ok) (submit cfg m c)"
  unfolding submit_def by (intro wires.along_bnd clear_say expect_pair disjI1) simp_all

lemma upgrade_result: "upgrade e c w = (Inr c', u) \<Longrightarrow> cv_secure c' \<and> nt_wire u = nt_wire w @ [Upgraded]"
  using silent [OF arrivals_wires(1)] silent [OF arrivals_wires(3)]
  by (fastforce simp: upgrade_def bnd_Inr_iff Let_def on_wire_def)

lemma upgrade_clear: "along (wires clear_ok) (upgrade e c)"
  unfolding upgrade_def Let_def
  by (intro wires.along_bnd arrivals_wires) (auto intro!: wires.along_bnd arrivals_wires wires_on_wire wires.along_ret simp: clear_ok_def)

text \<open>Which channel the rest travels on, and what was written to get there.\<close>

lemma secure_channel_result:
  assumes "secure_channel cfg caps c w = (Inr c', u)"
  shows "nt_wire u = nt_wire w \<and> cv_secure c' = cv_secure c \<and> (implicit_tls cfg \<or> sc_insecure cfg) \<or>
    nt_wire u = nt_wire w @ [Wrote (cv_secure c) starttls, Upgraded, Wrote True ehlo] \<and> cv_secure c' \<and> \<not> implicit_tls cfg"
proof (cases "\<not> implicit_tls cfg \<and> contains_ci ''starttls'' caps")
  case True
  then obtain r c1 w1 c2 w2 r' where e:
      "expect [220] ''STARTTLS'' c (w\<lparr>nt_wire := nt_wire w @ [Wrote (cv_secure c) starttls]\<rparr>) = (Inr (r, c1), w1)"
      "upgrade (connect_timeout cfg) c1 w1 = (Inr c2, w2)"
      "expect [250] ''EHLO after STARTTLS'' c2 (w2\<lparr>nt_wire := nt_wire w2 @ [Wrote (cv_secure c2) ehlo]\<rparr>) = (Inr (r', c'), u)"
    using assms by (auto simp: secure_channel_def bnd_Inr_iff say_def on_wire_def starttls_def ehlo_def)
  note s = expect_result(1,2) [OF e(1)] upgrade_result [OF e(2)] expect_result(1,2) [OF e(3)]
  show ?thesis using True by (simp add: s)
next
  case False
  with assms show ?thesis by (auto simp: secure_channel_def split: if_splits)
qed

lemma secure_channel_clear: "along (wires clear_ok) (secure_channel cfg caps c)"
  unfolding secure_channel_def
  by (intro wires.along_if wires.along_bnd clear_say expect_pair upgrade_clear wires.along_throw wires.along_ret)
    (simp_all add: ehlo_def starttls_def)

lemma authenticate_clear: "cv_secure c \<Longrightarrow> along (wires clear_ok) (authenticate cfg c)"
  unfolding authenticate_def
  by (intro wires.along_if wires.along_bnd clear_say expect_pair wires.along_ret disjI1)

lemma authenticate_result:
  "authenticate cfg c w = (Inr c', u) \<Longrightarrow> cv_secure c' = cv_secure c \<and>
    nt_wire u = nt_wire w @ (if given (sc_user cfg) then [Wrote (cv_secure c) (auth_line cfg @ crlf)] else [])"
  using expect_result(1,2) by (fastforce simp: authenticate_def bnd_Inr_iff say_def on_wire_def split: if_splits)

lemma secured_clear:
  assumes "\<not> sc_insecure cfg" and "cv_secure c = implicit_tls cfg"
  shows "along (wires clear_ok) (bnd (secure_channel cfg caps c) (\<lambda>c. bnd (authenticate cfg c) (submit cfg m)))"
proof (rule wires.along_bnd_result [OF secure_channel_clear])
  fix w u :: "'x mail_world_scheme" and c1
  assume "secure_channel cfg caps c w = (Inr c1, u)"
  from secure_channel_result [OF this] assms have c1: "cv_secure c1" by auto
  show "along (wires clear_ok) (bnd (authenticate cfg c1) (submit cfg m))"
    by (rule wires.along_bnd_result [OF authenticate_clear [OF c1]])
      (use c1 in \<open>auto intro: submit_clear dest!: authenticate_result\<close>)
qed

lemma session_clear:
  assumes "\<not> sc_insecure cfg" and "cv_secure c = implicit_tls cfg"
  shows "along (wires clear_ok) (smtp_session cfg m c)"
  unfolding smtp_session_def
  by (intro expect_pair wires.along_bnd clear_say secured_clear) (use assms in \<open>simp_all add: ehlo_def\<close>)

section \<open>A delivered message\<close>

definition mail_lines :: "smtp_config \<Rightarrow> mail_message \<Rightarrow> string list" where
  "mail_lines cfg m =
     [''MAIL FROM:<'' @ sc_from cfg @ ''>'', ''RCPT TO:<'' @ mg_to m @ ''>'', ''DATA'',
      build_message (sc_from cfg) m @ crlf @ ''.'', ''QUIT'']"

lemma submit_result:
  assumes "submit cfg m c w = (Inr x, u)"
  shows "nt_wire u = nt_wire w @ map (\<lambda>l. Wrote (cv_secure c) (l @ crlf)) (mail_lines cfg m)"
proof -
  let ?out = "\<lambda>c l w. w\<lparr>nt_wire := nt_wire w @ [Wrote (cv_secure c) (l @ crlf)]\<rparr>"
  obtain r1 c1 w1 r2 c2 w2 r3 c3 w3 r4 c4 w4 where
      "expect [250] ''MAIL FROM'' c (?out c (''MAIL FROM:<'' @ sc_from cfg @ ''>'') w) = (Inr (r1, c1), w1)"
      "expect [250, 251] ''RCPT TO'' c1 (?out c1 (''RCPT TO:<'' @ mg_to m @ ''>'') w1) = (Inr (r2, c2), w2)"
      "expect [354] ''DATA'' c2 (?out c2 ''DATA'' w2) = (Inr (r3, c3), w3)"
      "expect [250] ''message body'' c3 (?out c3 (build_message (sc_from cfg) m @ crlf @ ''.'') w3) = (Inr (r4, c4), w4)"
      "u = ?out c4 ''QUIT'' w4"
    using assms by (auto simp: submit_def bnd_Inr_iff say_def on_wire_def)
  note e = expect_result(1,2) [OF this(1)] expect_result(1,2) [OF this(2)] expect_result(1,2) [OF this(3)]
    expect_result(1,2) [OF this(4)] this(5)
  show ?thesis by (simp add: e mail_lines_def)
qed

text \<open>What is on the wire when the relay has taken the message.\<close>

definition delivered_trace :: "smtp_config \<Rightarrow> mail_message \<Rightarrow> wire_event list \<Rightarrow> bool" where
  "delivered_trace cfg m es \<longleftrightarrow>
     (\<exists>hello secure.
        (hello = [] \<and> secure = implicit_tls cfg \<and> (implicit_tls cfg \<or> sc_insecure cfg) \<or>
         hello = [Wrote False starttls, Upgraded, Wrote True ehlo] \<and> secure \<and> \<not> implicit_tls cfg) \<and>
        es = [Opened (implicit_tls cfg), Wrote (implicit_tls cfg) ehlo] @ hello @
          (if given (sc_user cfg) then [Wrote secure (auth_line cfg @ crlf)] else []) @
          map (\<lambda>l. Wrote secure (l @ crlf)) (mail_lines cfg m) @ [Closed])"

lemma session_result:
  assumes "smtp_session cfg m (opened (implicit_tls cfg)) w = (Inr x, u)"
  shows "\<exists>es. nt_wire u = nt_wire w @ es \<and> delivered_trace cfg m (Opened (implicit_tls cfg) # es @ [Closed])"
proof -
  let ?c = "opened (implicit_tls cfg)"
  obtain r1 c1 w1 caps c2 w2 c3 w3 c4 w4 where e:
      "expect [220] ''greeting'' ?c w = (Inr (r1, c1), w1)"
      "expect [250] ''EHLO'' c1 (w1\<lparr>nt_wire := nt_wire w1 @ [Wrote (cv_secure c1) ehlo]\<rparr>) = (Inr (caps, c2), w2)"
      "secure_channel cfg caps c2 w2 = (Inr c3, w3)" "authenticate cfg c3 w3 = (Inr c4, w4)" "submit cfg m c4 w4 = (Inr x, u)"
    using assms by (auto simp: smtp_session_def bnd_Inr_iff say_def on_wire_def ehlo_def)
  note s = expect_result(1,2) [OF e(1)] expect_result(1,2) [OF e(2)] submit_result [OF e(5)]
    authenticate_result [OF e(4), THEN conjunct1] authenticate_result [OF e(4), THEN conjunct2]
  have c2: "cv_secure c2 = implicit_tls cfg" by (simp add: s opened_def)
  define auth where "auth = (\<lambda>s. if given (sc_user cfg) then [Wrote s (auth_line cfg @ crlf)] else [])"
  define mail where "mail = (\<lambda>s. map (\<lambda>l. Wrote s (l @ crlf)) (mail_lines cfg m))"
  have u: "nt_wire u = nt_wire w3 @ auth (cv_secure c3) @ mail (cv_secure c3)" by (simp add: s auth_def mail_def)
  have w2: "nt_wire w2 = nt_wire w @ [Wrote (implicit_tls cfg) ehlo]" by (simp add: s opened_def)
  have *: ?thesis if "nt_wire w3 = nt_wire w2 @ hello" "cv_secure c3 = secure"
      "hello = [] \<and> secure = implicit_tls cfg \<and> (implicit_tls cfg \<or> sc_insecure cfg) \<or>
       hello = [Wrote False starttls, Upgraded, Wrote True ehlo] \<and> secure \<and> \<not> implicit_tls cfg" for hello secure
  proof (rule exI [of _ "[Wrote (implicit_tls cfg) ehlo] @ hello @ auth secure @ mail secure"], rule conjI)
    show "nt_wire u = nt_wire w @ [Wrote (implicit_tls cfg) ehlo] @ hello @ auth secure @ mail secure"
      by (simp add: u w2 that(1,2))
    show "delivered_trace cfg m (Opened (implicit_tls cfg) # ([Wrote (implicit_tls cfg) ehlo] @ hello @ auth secure @ mail secure) @ [Closed])"
      unfolding delivered_trace_def by (rule exI [of _ hello], rule exI [of _ secure], rule conjI [OF that(3)]) (simp add: auth_def mail_def)
  qed
  from secure_channel_result [OF e(3)] show ?thesis
  proof (elim disjE conjE)
    assume "nt_wire w3 = nt_wire w2" "cv_secure c3 = cv_secure c2" "implicit_tls cfg"
    then show ?thesis by (intro * [of "[]" True]) (simp_all add: c2)
  next
    assume "nt_wire w3 = nt_wire w2" "cv_secure c3 = cv_secure c2" "sc_insecure cfg"
    then show ?thesis by (intro * [of "[]" "implicit_tls cfg"]) (simp_all add: c2)
  next
    assume "nt_wire w3 = nt_wire w2 @ [Wrote (cv_secure c2) starttls, Upgraded, Wrote True ehlo]" "cv_secure c3"
      "\<not> implicit_tls cfg"
    then show ?thesis by (intro * [of "[Wrote False starttls, Upgraded, Wrote True ehlo]" True]) (simp_all add: c2)
  qed
qed

lemma along_split: "(\<And>a b. along R (f a b)) \<Longrightarrow> along R (case p of (a, b) \<Rightarrow> f a b)"
  by (cases p) simp

lemma session_wires: "along (wires (\<lambda>e. True)) (smtp_session cfg m c)"
  unfolding smtp_session_def secure_channel_def authenticate_def submit_def upgrade_def Let_def
  by (intro wires.along_bnd wires.along_if along_split wires_say expect_wire arrivals_wires wires_on_wire
      wires.along_throw wires.along_ret TrueI)

lemma session_events:
  assumes "smtp_session cfg m (opened (implicit_tls cfg)) w = (r, u)"
  shows "\<exists>es. nt_wire u = nt_wire w @ es \<and> (\<forall>e \<in> set es. sc_insecure cfg \<or> clear_ok e)"
proof (cases "sc_insecure cfg")
  case True
  with alongD [OF session_wires assms] show ?thesis by (auto simp: wires_def)
next
  case False
  have "along (wires clear_ok) (smtp_session cfg m (opened (implicit_tls cfg)) :: ('x mail_world_scheme, unit) io)"
    by (rule session_clear [OF False]) (simp add: opened_def)
  from alongD [OF this assms] show ?thesis by (auto simp: wires_def list_all_iff)
qed


text \<open>A relay that offers encryption and takes the message; the handshake waits for no reply.\<close>

definition relay_cfg :: smtp_config where
  "relay_cfg = \<lparr>sc_host = ''mx'', sc_port = 587, sc_user = Some ''u'', sc_password = ''p'', sc_insecure = False,
     sc_from = ''a@x.org'', sc_resource = ''mail-relay''\<rparr>"

definition relay_message :: mail_message where
  "relay_message =
     \<lparr>mg_to = ''b@x.org'', mg_subject = ''Hi'', mg_text = ''.'', mg_html = ''<p>.</p>'', mg_reply = None\<rparr>"

definition mail_app :: "app \<Rightarrow> (exn + unit) list \<Rightarrow> (sock_event list \<times> sock_event list) list \<Rightarrow> mail_world" where
  "mail_app a connects arrivals = app.extend a (mail_world.fields connects arrivals [] [] [])"

definition relay_app :: mail_world where
  "relay_app = mail_app (demo_app note_store [] []) [Inr (), Inr ()]
     (map (\<lambda>s. ([], if s = [] then [] else [Chunk (s @ crlf)]))
        [''220 mx'', ''250 STARTTLS'', ''220 go'', [], ''250 ok'', ''235 ok'', ''250 ok'', ''250 ok'', ''354 go'', ''250 taken''])"


text \<open>
  A reply is taken as complete at the first text after its code, not at the end of its line: when the line comes in
  two pieces, the second is read as the start of the next reply, which is then refused whatever it says.
\<close>

lemma split_reply_refused:
  "fst (bnd (expect [250] ''MAIL FROM'' (opened True)) (\<lambda>(_, c). expect [250] ''RCPT TO'' c)
     (mail_app (demo_app note_store [] []) []
        [([], [Chunk ''250 O'', Chunk (''K'' @ crlf)]), ([], [Chunk (''250 OK'' @ crlf)])])) =
   Inl (Failure (''SMTP RCPT TO refused: K'' @ crlf @ ''250 OK''))"
  by code_simp

end
