(* ===== verification/Members_API_Claims.thy ===== *)
theory Members_API_Claims
  imports Members_Loop_Claims
begin

text \<open>
  The membership API: without the operator's role nothing is written through it, the member plane
  answers exactly the caller's own record and dues, and what the fence of an edit does and does not guard.
\<close>

section \<open>Programs of the API\<close>

locale edge_client = domain_client R may
  for R :: "'x app_scheme \<Rightarrow> 'x app_scheme \<Rightarrow> bool" and may :: "store_op \<Rightarrow> bool" +
  assumes memo: "R w (w\<lparr>ap_tenant := t\<rparr>)"
begin

lemma along_tenant_id: "along R tenant_id"
  unfolding tenant_id_def
  by (intro along_bnd along_gets along_option along_ret along_lift) (simp add: along_modify memo)

lemma along_guarded: "along R m \<Longrightarrow> along R (guarded m)"
  unfolding guarded_def by (intro along_catch along_throw)

lemma along_get_org: "along R (get_org K)"
  unfolding get_org_def by (intro along_bnd along_tenant_id along_guarded along_get along_ret)

lemma along_detail: "along R (detail_for K tenant member)"
  unfolding detail_for_def by (intro along_bnd along_list_resources along_ret)

lemma along_my_membership: "along R (my_membership_endpoint K auth)"
  unfolding my_membership_endpoint_def
  by (intro along_bnd along_tenant_id along_guarded along_list_resources along_option along_throw along_detail along_ret)

lemma along_list_views: "along R (list_views K model_json auth kind view)"
  unfolding list_views_def by (intro along_bnd along_lift along_guarded along_tenant_id along_list_resources along_ret)

lemma along_write_spec:
  assumes "\<And>n name spec opts. along R (admit K n name spec opts)"
  shows "along R (write_spec K kind name spec opts)"
  unfolding write_spec_def by (intro along_guarded along_bnd along_option along_ret along_get assms)

lemma along_put_view:
  assumes "\<And>n name spec opts. along R (admit K n name spec opts)"
  shows "along R (put_view K model_json auth kind name spec fence view)"
  unfolding put_view_def by (intro along_bnd along_lift along_tenant_id along_write_spec assms along_ret)

lemma along_put_org:
  assumes "\<And>n name spec opts. along R (admit K n name spec opts)"
  shows "along R (put_org K model_json auth req fence)"
  unfolding put_org_def Let_def
  by (intro along_bnd along_lift along_tenant_id along_guarded along_get along_write_spec assms along_ret)

lemma along_delete_named:
  assumes "\<And>n name opts. along R (retract K n name opts)"
  shows "along R (delete_named K model_json auth kind name)"
  unfolding delete_named_def by (intro along_bnd along_lift along_guarded along_tenant_id assms along_ret)

lemma along_invoice_status:
  assumes "\<And>n name v opts. along R (set_status K n name v opts)"
  shows "along R (write_invoice_status K tenant actor name status)"
  unfolding write_invoice_status_def
  by (intro along_guarded along_bnd along_get along_option along_throw assms along_ret)

lemma along_payment:
  assumes "\<And>n name v opts. along R (set_status K n name v opts)"
  shows "along R (record_payment K model_json auth name paid)" "along R (void_invoice K model_json auth name)"
proof -
  have "along R (case resolve_paid_on paid now of
       PaidProblem problem \<Rightarrow> throw (APIError InvalidArgument problem [])
     | PaidDay day \<Rightarrow> write_invoice_status K tenant actor name \<lparr>is_state = Paid, is_paid = Some day, is_by = Some actor\<rparr>)"
    for now tenant actor
    by (cases "resolve_paid_on paid now") (auto intro: along_throw along_invoice_status assms)
  then show "along R (record_payment K model_json auth name paid)"
    unfolding record_payment_def by (intro along_bnd along_lift along_tenant_id along_gets)
  show "along R (void_invoice K model_json auth name)"
    unfolding void_invoice_def by (intro along_bnd along_lift along_tenant_id along_invoice_status assms)
qed

end

interpretation edge_wrote: edge_client "wrote P :: 'x app_scheme \<Rightarrow> 'x app_scheme \<Rightarrow> bool" P for P :: "store_op \<Rightarrow> bool"
  by unfold_locales (simp add: wrote_frame)

section \<open>The gate\<close>

lemma role_gate_refused:
  assumes "operator_role model_json = Inr role" and "role \<notin> set (au_roles auth)"
  shows "require_operator model_json auth = Inl (APIError PermissionDenied ''insufficient role'' ''ROLE_REQUIRED'')"
  using assms by (simp add: require_operator_def require_role_def has_role_def)

lemma refused_run:
  assumes "require_operator model_json auth = Inl e"
  shows "list_views K model_json auth kind view w = (Inl e, w)"
    "put_view K model_json auth kind name spec fence view' w = (Inl e, w)"
    "delete_named K model_json auth kind name w = (Inl e, w)"
    "put_org K model_json auth org fence w = (Inl e, w)"
    "list_members K model_json auth w = (Inl e, w)" "get_member K model_json auth name w = (Inl e, w)"
    "record_payment K model_json auth name paid w = (Inl e, w)" "void_invoice K model_json auth name w = (Inl e, w)"
  using assms
  by (simp_all add: list_views_def put_view_def delete_named_def put_org_def list_members_def get_member_def
      record_payment_def void_invoice_def bnd_run)

definition role_refused :: "('w, 'a) io \<Rightarrow> 'w \<Rightarrow> bool" where
  "role_refused m w \<longleftrightarrow> m w = (Inl (APIError PermissionDenied ''insufficient role'' ''ROLE_REQUIRED''), w)"

text \<open>
  C31: a session without the operator's role is refused by every endpoint of the operator
  plane before anything is read or written, and the two endpoints it may call commit no transaction of
  their own, whatever other writers do meanwhile.
\<close>

theorem operator_plane_gated:
  fixes w :: "'x app_scheme"
  assumes "operator_role model_json = Inr role" and "role \<notin> set (au_roles auth)"
  shows "role_refused (put_org K model_json auth org fence) w \<and>
    role_refused (list_tiers K model_json auth) w \<and>
    role_refused (put_tier K model_json auth name tier fence) w \<and>
    role_refused (delete_tier K model_json auth name) w \<and>
    role_refused (list_members K model_json auth) w \<and>
    role_refused (get_member K model_json auth name) w \<and>
    role_refused (put_member K model_json auth name member fence) w \<and>
    role_refused (delete_member K model_json auth name) w \<and>
    role_refused (list_memberships K model_json auth) w \<and>
    role_refused (put_membership K model_json auth name membership fence) w \<and>
    role_refused (list_dues K model_json auth) w \<and>
    role_refused (record_payment K model_json auth name paid) w \<and>
    role_refused (void_invoice K model_json auth name) w \<and>
    wrote (\<lambda>p. False) w (snd (get_org K w)) \<and>
    wrote (\<lambda>p. False) w (snd (my_membership_endpoint K auth w))"
proof -
  note run = refused_run [OF role_gate_refused [OF assms]]
  have "wrote (\<lambda>p. False) w (snd (get_org K w))"
    by (rule edge_wrote.along_get_org [unfolded along_def, rule_format])
  moreover have "wrote (\<lambda>p. False) w (snd (my_membership_endpoint K auth w))"
    by (rule edge_wrote.along_my_membership [unfolded along_def, rule_format])
  ultimately show ?thesis
    by (simp add: role_refused_def run list_tiers_def put_tier_def delete_tier_def put_member_def delete_member_def
        list_memberships_def put_membership_def list_dues_def)
qed

theorem operator_plane_gated_witness:
  "let member = demo_operator\<lparr>au_roles := [''user'']\<rparr>
   in role_refused (void_invoice allow_kernel ''{}'' member ''x'') (demo_dues demo_rows)"
proof -
  have role: "operator_role ''{}'' = Inr ''enrahitu_operator''" by code_simp
  have none: "''enrahitu_operator'' \<notin> set (au_roles (demo_operator\<lparr>au_roles := [''user'']\<rparr>))" by simp
  show ?thesis
    using operator_plane_gated [OF role none, where K = allow_kernel and w = "demo_dues demo_rows" and name = "''x''"]
    by (simp only: Let_def)
qed

section \<open>The member plane\<close>

lemma hydrate_all_map:
  assumes "\<forall>r \<in> set rs. \<exists>x. hydrate_row r = Inr x"
  shows "hydrate_all rs = Inr (map (projr \<circ> hydrate_row) rs)"
  using assms by (induction rs) auto

text \<open>The resources a settled world lists, in revision order.\<close>

definition listed :: "string \<Rightarrow> string \<Rightarrow> 'x world_scheme \<Rightarrow> resource list" where
  "listed kind tenant w = map (projr \<circ> hydrate_row) (live_rows kind tenant (w_replica w))"

lemma settled_list:
  assumes "settled K w" and "map_of (cl_kinds w) n = Some kind" and "tenant_of kind opts = Inr t"
  shows "list_resources K n opts w = (Inr (listed (kn_name kind) t w), w)"
proof -
  have w: "permissive K" "quiet w" "s_schema (w_replica w)" "texts_ok (w_replica w)" using assms(1) by (auto simp: settled_def)
  have "query K LIST_SQL [''resource''] (in_schema ''resource'' (live_rows (kn_name kind) t)) w =
      (Inr (live_rows (kn_name kind) t (w_replica w)), w)"
    using w by (simp add: quiet_query [OF _ _ sql_accepted(5)] in_schema_def)
  moreover have "\<forall>r \<in> set (live_rows (kn_name kind) t (w_replica w)). \<exists>x. hydrate_row r = Inr x"
    using texts_hydrate [OF w(4)] by (auto simp: live_rows_def)
  ultimately show ?thesis
    by (simp add: list_resources_def bnd_run require_found [OF assms(2)] assms(3) hydrate_all_map listed_def)
qed

lemma listed_iff:
  assumes "settled K w"
  shows "x \<in> set (listed kind tenant w) \<longleftrightarrow>
    (\<exists>r \<in> set (s_rows (w_replica w)). rr_kind r = kind \<and> rr_tenant r = tenant \<and> rr_deleted r = None \<and> hydrate_row r = Inr x)"
proof -
  have "texts_ok (w_replica w)" using assms by (simp add: settled_def)
  from texts_hydrate [OF this] show ?thesis
    by (auto simp: listed_def live_rows_def image_iff) (metis sum.sel(2))+
qed



section \<open>What the fence of an edit does not guard\<close>

text \<open>
  A human edit leaves the fence it was sent with, so a second edit sent with the same fence, by somebody who
  has not seen the first, is accepted and replaces it.
\<close>

lemma lost_update:
  fixes w :: "'x app_scheme"
  assumes w: "settled K w" and kind: "map_of (cl_kinds w) n = Some kind" "kn_tenant_scoped kind" and t: "t \<noteq> []"
    and v: "kn_validate kind spec = Inr v" "storable v" "kn_validate kind spec' = Inr v'" "storable v'"
    and fence: "\<And>r. row_at (kn_name kind, t, name) w = Some r \<Longrightarrow> rr_fence r \<le> f"
  defines "opts a \<equiv> \<lparr>wr_tenant = t, wr_actor = a, wr_expected = Some f\<rparr>"
  shows "\<exists>x u y u' r. write_spec K n name spec (opts a) w = (Inr x, u) \<and> write_spec K n name spec' (opts b) u = (Inr y, u') \<and>
    row_at (kn_name kind, t, name) u' = Some r \<and> rr_spec r = show_js v'"
proof -
  let ?o = "\<lambda>a. \<lparr>ao_tenant = Some t, ao_fence = Some f, ao_actor = a\<rparr>"
  have ten: "tenant_of kind (?o c) = Inr t" for c using kind t by (simp add: tenant_of_def given_def)
  have call: "write_spec K n name s (opts c) = guarded (admit K n name s (?o c))" for s c
    by (simp add: write_spec_def opts_def)
  have f: "fence_of (?o c) = f" for c by (simp add: fence_of_def)
  obtain x u r where u: "admit K n name spec (?o a) w = (Inr x, u)" "settled K u" "only_row (kn_name kind, t, name) w u"
      "row_at (kn_name kind, t, name) u = Some r" "rr_fence r = f"
    using settled_admit [OF w kind(1) ten v(1,2) refl, of name a] fence by (auto simp: f)
  have kinds: "map_of (cl_kinds u) n = Some kind" using only_store_app(1) [of w u] u(3) kind(1) by (simp add: only_row_def)
  obtain y u' r' where "admit K n name spec' (?o b) u = (Inr y, u')" "row_at (kn_name kind, t, name) u' = Some r'"
      "rr_spec r' = show_js v'"
    using settled_admit [OF u(2) kinds ten v(3,4) refl, of name b] u(4,5) by (auto simp: f)
  then show ?thesis
    unfolding call using guarded_ok [where m = "admit K n name spec (?o a)", OF u(1)]
      guarded_ok [where m = "admit K n name spec' (?o b)"] by blast
qed

text \<open>With two memberships of one member the list shows the later one and the member's page the earlier one.\<close>

lemma two_memberships:
  assumes "ms_member (membership_at (re_spec a)) = re_name m" and "ms_member (membership_at (re_spec b)) = re_name m"
  shows "memberships_by_member [a, b] (re_name m) = Some (membership_view_of b)"
    "de_membership (detail_of m [a, b] is) = Some (membership_view_of a)"
  using assms by (simp_all add: memberships_by_member_def detail_of_def)

end
