(* ===== verification/Typed_Store.thy ===== *)
theory Typed_Store
  imports Members_API_Claims
begin

text \<open>
  The type of the store: every row of a kind of the domain holds the text of a value the kind's
  validator accepts unchanged. Every program of the membership domain and every write of the control plane
  keeps it, so whatever the views read has the fields they name.
\<close>

section \<open>Well-typed stores\<close>

definition DOMAIN_KINDS :: "kind_def list" where
  "DOMAIN_KINDS = mail_notice_kind # MEMBERSHIP_KINDS"

definition valid_text :: "kind_def \<Rightarrow> string \<Rightarrow> bool" where
  "valid_text k body =
     (case parse_json body of None \<Rightarrow> False | Some v \<Rightarrow> kn_validate k v = Inr v \<and> show_js v = body)"

definition typed_text :: "string \<Rightarrow> string \<Rightarrow> bool" where
  "typed_text kind body = list_all (\<lambda>k. kn_name k = kind \<longrightarrow> valid_text k body) DOMAIN_KINDS"

definition typed_store :: "store \<Rightarrow> bool" where
  "typed_store s = list_all (\<lambda>r. typed_text (rr_kind r) (rr_spec r)) (s_rows s)"

fun typed_op :: "store_op \<Rightarrow> bool" where
  "typed_op (OpAdmit k op fence body now) = typed_text (fst k) body"
| "typed_op _ = True"

text \<open>The registry, the store, the replica and what other writers still are to commit.\<close>

definition typed :: "'x cell_scheme \<Rightarrow> bool" where
  "typed w \<longleftrightarrow>
     list_all (\<lambda>(n, k). n = kn_name k \<and> k \<in> set DOMAIN_KINDS) (cl_kinds w) \<and>
     typed_store (w_store w) \<and> typed_store (w_replica w) \<and>
     list_all (\<lambda>ev. list_all typed_op (y_ops ev)) (w_env w)"

lemma domain_kind_normal:
  assumes "k \<in> set DOMAIN_KINDS" and "kn_validate k v = Inr w"
  shows "storable w \<and> parse_json (show_js w) = Some w \<and> kn_validate k w = Inr w"
proof -
  have "k = mail_notice_kind \<or> k = tenant_kind \<or> k = tier_kind \<or> k = member_kind \<or> k = membership_kind \<or> k = dues_invoice_kind"
    using assms(1) by (simp add: DOMAIN_KINDS_def MEMBERSHIP_KINDS_def)
  then show ?thesis
    using assms(2) notice.normalizes [of v w] tenant.normalizes [of v w] tier.normalizes [of v w] member.normalizes [of v w]
      membership.normalizes [of v w] invoice.normalizes [of v w]
    by (elim disjE) (simp_all add: tenant_kind_def tier_kind_def member_kind_def membership_kind_def dues_invoice_kind_def)
qed

lemma names_distinct: "distinct (map kn_name DOMAIN_KINDS)"
  by (simp add: DOMAIN_KINDS_def MEMBERSHIP_KINDS_def kind_names MAIL_NOTICE_def)

lemma typed_text_valid:
  assumes "k \<in> set DOMAIN_KINDS" and "kn_validate k v = Inr w"
  shows "typed_text (kn_name k) (show_js w)"
proof -
  have "x = k" if "x \<in> set DOMAIN_KINDS" "kn_name x = kn_name k" for x
    using names_distinct assms(1) that by (auto simp: distinct_map dest: inj_onD)
  then show ?thesis
    using domain_kind_normal [OF assms] by (auto simp: typed_text_def valid_text_def list_all_iff)
qed

lemma typed_update:
  assumes "typed_store s"
    and "\<And>r. p r \<Longrightarrow> typed_text (rr_kind r) (rr_spec r) \<Longrightarrow> typed_text (rr_kind (f r)) (rr_spec (f r))"
  shows "typed_store (update_where p f s)"
  using assms by (auto simp: typed_store_def list_all_iff update_where_def)

lemma typed_outbox: "typed_store s \<Longrightarrow> outbox_insert k op now s = Inr s' \<Longrightarrow> typed_store s'"
  by (auto simp: outbox_insert_def typed_store_def split: option.splits if_splits)

lemma typed_upsert: "typed_store s \<Longrightarrow> typed_text (fst k) body \<Longrightarrow> typed_store (upsert k fence body now s)"
proof (cases "select_one k s")
  case None
  assume "typed_store s" "typed_text (fst k) body"
  with None show ?thesis by (auto simp: upsert_def typed_store_def split: prod.splits)
next
  case (Some r)
  assume "typed_store s" "typed_text (fst k) body"
  with Some show ?thesis
    by (auto simp: upsert_def key_of_def intro: typed_update)
qed

lemma typed_apply: "typed_store s \<Longrightarrow> typed_op p \<Longrightarrow> typed_store (apply_op p s)"
proof (cases p)
  case (OpAdmit k op fence body now)
  assume "typed_store s" "typed_op p"
  then have "typed_store (upsert k fence body now s)" using OpAdmit by (auto intro: typed_upsert)
  with OpAdmit typed_outbox \<open>typed_store s\<close> show ?thesis by (auto simp: apply_op_def split: sum.split)
next
  case (OpRetract k fence now)
  assume "typed_store s"
  then have "typed_store (tombstone k fence now s)" by (auto simp: tombstone_def intro: typed_update)
  with OpRetract typed_outbox \<open>typed_store s\<close> show ?thesis by (auto simp: apply_op_def split: sum.split)
next
  case (OpStatus k body fence now)
  assume "typed_store s"
  then have "typed_store (update_status k body fence now s)" by (auto simp: update_status_def intro: typed_update)
  with OpStatus typed_outbox \<open>typed_store s\<close> show ?thesis by (auto simp: apply_op_def split: sum.split)
qed (auto simp: apply_op_def mark_upsert_def typed_store_def split: option.splits)

lemma typed_fold: "typed_store s \<Longrightarrow> list_all typed_op ps \<Longrightarrow> typed_store (fold apply_op ps s)"
  by (induction ps arbitrary: s) (simp_all add: typed_apply)

interpretation typed_client: store_client "keeping typed :: 'x cell_scheme \<Rightarrow> 'x cell_scheme \<Rightarrow> bool" typed_op
proof
  fix w w' :: "'x cell_scheme"
  show "plane_only w w' \<Longrightarrow> keeping typed w w'" by (auto simp: plane_only_def keeping_def typed_def)
  show "keeping typed w (w\<lparr>w_bus := w_bus w @ [e]\<rparr>)" for e by (simp add: keeping_def typed_def)
  show "along (keeping typed) (crossing :: ('x cell_scheme, unit) io)"
    by (rule alongI) (auto simp: crossing_def keeping_def typed_def Let_def typed_fold split: list.split option.split)
  show "along (keeping typed) (commit p :: ('x cell_scheme, unit) io)" if "typed_op p" for p
  proof (rule alongI)
    fix w :: "'x cell_scheme"
    have "run_op p (w_store w) = Inr s \<Longrightarrow> typed_store (w_store w) \<Longrightarrow> typed_store s" for s
      using typed_apply [of "w_store w" p] that by (simp add: apply_op_def)
    then show "keeping typed w (snd (commit p w))"
      by (auto simp: commit_def bnd_run keeping_def typed_def split: sum.split)
  qed
qed

interpretation typed_edge: edge_client "keeping typed :: 'x app_scheme \<Rightarrow> 'x app_scheme \<Rightarrow> bool" typed_op
  by unfold_locales (simp_all add: keeping_def typed_def)

text \<open>Whatever is admitted, under whatever name, the validator has normalised.\<close>

lemma typed_admit: "along (keeping typed) (admit K n name spec opts)"
proof (rule alongI)
  fix w :: "'x cell_scheme"
  show "keeping typed w (snd (admit K n name spec opts w))"
  proof (cases "map_of (cl_kinds w) n")
    case None
    then have "snd (admit K n name spec opts w) = w" by (simp add: admit_def bnd_run require_kind_def)
    then show ?thesis by (simp add: keeping_def)
  next
    case (Some kind)
    show ?thesis
    proof (cases "typed w")
      case True
      then have "kind \<in> set DOMAIN_KINDS" using map_of_SomeD [OF Some] by (auto simp: typed_def list_all_iff)
      from typed_text_valid [OF this] show ?thesis
        by (intro typed_client.admit_step [OF require_found [OF Some]]) simp
    qed (simp add: keeping_def)
  qed
qed

lemma typed_set_status: "along (keeping typed) (set_status K n name v opts)"
  by (rule typed_client.along_set_status) simp

lemma typed_retract: "along (keeping typed) (retract K n name opts)"
  by (rule typed_client.along_retract) simp

section \<open>What a read finds\<close>

lemma typed_query:
  assumes "typed w" and "query K sql tables (in_schema t f) w = (Inr a, u)"
  shows "\<exists>s. typed_store s \<and> a = f s"
proof -
  obtain v where g: "sql_gate K ''db.read'' tables [sql] w = (Inr (), v)" and a: "in_schema t f (w_replica v) = Inr a"
    using assms(2) by (auto simp: query_def bnd_Inr_iff)
  have "typed v" using alongD [OF typed_client.along_gate g] assms(1) by (simp add: keeping_def)
  with a show ?thesis by (auto simp: in_schema_def typed_def split: if_splits)
qed

lemma typed_hydrate:
  assumes "typed_text (rr_kind r) (rr_spec r)" and "k \<in> set DOMAIN_KINDS" and "rr_kind r = kn_name k" and "hydrate_row r = Inr x"
  shows "kn_validate k (re_spec x) = Inr (re_spec x)"
  using assms by (auto simp: typed_text_def list_all_iff valid_text_def hydrate_row_def parse_or_throw_def sbind_Inr_iff
      split: option.splits)

lemma typed_get:
  assumes "typed w" and "get_resource K n name opts w = (Inr (Some x), u)" and "map_of (cl_kinds w) n = Some k"
  shows "kn_validate k (re_spec x) = Inr (re_spec x)"
proof -
  obtain t v row where t: "tenant_of k opts = Inr t"
    and q: "query K SELECT_ONE [''resource''] (in_schema ''resource'' (select_one (kn_name k, t, name))) w = (Inr row, v)"
    and row: "(case row of None \<Rightarrow> ret None | Some r \<Rightarrow> if is_deleted r then ret None
      else bnd (lift (hydrate_row r)) (\<lambda>x. ret (Some x))) v = (Inr (Some x), u)"
    using assms(2) by (auto simp: get_resource_def bnd_Inr_iff require_found [OF assms(3)])
  obtain s where s: "typed_store s" "row = select_one (kn_name k, t, name) s" using typed_query [OF assms(1) q] by blast
  obtain r where r: "row = Some r" "hydrate_row r = Inr x"
    using row by (auto simp: bnd_run split: option.splits if_splits sum.splits)
  have "r \<in> set (s_rows s)" "key_of r = (kn_name k, t, name)" using s(2) r(1) select_one_Some by metis+
  moreover have "k \<in> set DOMAIN_KINDS" using assms(1,3) by (auto simp: typed_def list_all_iff dest: map_of_SomeD)
  ultimately show ?thesis using typed_hydrate [OF _ _ _ r(2), of k] s(1) by (auto simp: typed_store_def list_all_iff key_of_def)
qed

lemma hydrate_all_set: "hydrate_all rs = Inr xs \<Longrightarrow> x \<in> set xs \<Longrightarrow> \<exists>r \<in> set rs. hydrate_row r = Inr x"
  by (induction rs arbitrary: xs) (auto simp: sbind_Inr_iff)

lemma typed_list:
  assumes "typed w" and "list_resources K n opts w = (Inr xs, u)" and "map_of (cl_kinds w) n = Some k" and "x \<in> set xs"
  shows "kn_validate k (re_spec x) = Inr (re_spec x)"
proof -
  obtain t v rows where t: "tenant_of k opts = Inr t"
    and q: "query K LIST_SQL [''resource''] (in_schema ''resource'' (live_rows (kn_name k) t)) w = (Inr rows, v)"
    and rows: "hydrate_all rows = Inr xs"
    using assms(2) by (auto simp: list_resources_def bnd_Inr_iff require_found [OF assms(3)])
  obtain s where s: "typed_store s" "rows = live_rows (kn_name k) t s" using typed_query [OF assms(1) q] by blast
  obtain r where r: "r \<in> set rows" "hydrate_row r = Inr x" using hydrate_all_set [OF rows assms(4)] by blast
  have "r \<in> set (s_rows s)" "rr_kind r = kn_name k" using r(1) s(2) by (auto simp: live_rows_def)
  moreover have "k \<in> set DOMAIN_KINDS" using assms(1,3) by (auto simp: typed_def list_all_iff dest: map_of_SomeD)
  ultimately show ?thesis using typed_hydrate [OF _ _ _ r(2), of k] s(1) by (auto simp: typed_store_def list_all_iff)
qed

section \<open>The programs\<close>

lemma typed_sweep_rows: "along (keeping typed) (sweep_rows K tenant fence day deadline n ms :: ('x app_scheme, nat) io)"
proof (induction ms arbitrary: n)
  case (Cons m ms)
  have clock: "along (keeping typed) (read_clock :: ('x app_scheme, nat option) io)"
    by (rule alongI) (auto simp: read_clock_def keeping_def typed_def split: list.split)
  have "along (keeping typed) (reconcile_membership K tenant (re_name m) fence day :: ('x app_scheme, unit) io)"
    by (intro typed_edge.along_reconcile_if typed_admit typed_set_status)
  then show ?case
    unfolding sweep_rows.simps
    by (intro keep.along_bnd keep.along_if keep.along_catch keep.along_ret typed_edge.along_warn clock Cons.IH)
qed (simp add: keep.along_ret)



end
