(* ===== verification/Mail_Delivery_Claims.thy ===== *)
theory Mail_Delivery_Claims
  imports Mail_Controller Mail_Relay_Claims Typed_Store
begin

text \<open>
  What delivery records: a transport touches the network and the plane and nothing else, so what a
  delivery leaves in the store is its own status write; a notice recorded as sent is never sent again.
\<close>

section \<open>What a transport may touch\<close>

definition net_only :: "'x mail_world_scheme \<Rightarrow> 'x mail_world_scheme \<Rightarrow> bool" where
  "net_only w u \<longleftrightarrow>
     (\<exists>c a es rs qs. u = w\<lparr>nt_connects := c, nt_arrivals := a, nt_wire := es, nt_responses := rs, nt_requests := qs\<rparr>)"

lemma net_onlyI:
  "u = w\<lparr>nt_connects := nt_connects u, nt_arrivals := nt_arrivals u, nt_wire := nt_wire u, nt_responses := nt_responses u,
         nt_requests := nt_requests u\<rparr> \<Longrightarrow> net_only w u"
  unfolding net_only_def by blast

interpretation net: step_order net_only
proof
  show "net_only w w" for w :: "'x mail_world_scheme" by (rule net_onlyI) simp
  show "net_only u v \<Longrightarrow> net_only v w \<Longrightarrow> net_only u w" for u v w :: "'x mail_world_scheme"
    unfolding net_only_def by clarsimp blast
qed

text \<open>A program that sends: the relation is kept by enforcement calls and by what the network does.\<close>

locale sender = step_order R for R :: "'x mail_world_scheme \<Rightarrow> 'x mail_world_scheme \<Rightarrow> bool" +
  fixes K :: kernel
  assumes demanded: "along R (demand K kind res opts)"
    and network: "net_only w u \<Longrightarrow> R w u"
begin

lemma along_pair: "(\<And>a b. along R (f a b)) \<Longrightarrow> along R (case p of (a, b) \<Rightarrow> f a b)"
  by (cases p) simp

lemma along_on_wire: "along R (on_wire e)"
  by (simp add: on_wire_def along_modify network net_onlyI)

lemma along_next: "along R next_arrivals"
  by (rule alongI, rule network, rule net_onlyI) (simp add: next_arrivals_def split: list.split)

lemma along_leave: "along R (leave_arrivals es)"
  by (simp add: leave_arrivals_def along_modify network net_onlyI)

lemma along_connect: "along R (connect_outcome e)"
  by (rule alongI, rule network, rule net_onlyI) (simp add: connect_outcome_def split: list.split)

lemma along_fetch: "along R (http_fetch url init)"
  by (rule alongI, rule network, rule net_onlyI) (simp add: http_fetch_def Let_def split: list.split)

lemma along_expect: "along R (expect codes label c)"
  unfolding expect_def Let_def
  by (intro along_bnd along_next along_pair along_option along_throw along_leave along_sum along_if along_ret)

lemma along_session: "along R (smtp_session cfg m c)"
  unfolding smtp_session_def secure_channel_def authenticate_def submit_def upgrade_def say_def Let_def
  by (intro along_bnd along_if along_pair along_expect along_next along_connect along_on_wire along_throw along_ret)

lemma along_relay: "along R (send_over_smtp K cfg m)"
  unfolding send_over_smtp_def demand_smtp_egress_def
  by (intro along_bnd demanded along_connect along_on_wire along_finally along_session)

lemma along_provider:
  "provider_transport K hostname vars env = Inr T \<Longrightarrow> along R (tr_send T m)"
  by (auto simp: provider_transport_def sbind_Inr_iff governed_fetch_def split: if_splits
      intro!: along_bnd along_gets along_lift demanded along_fetch along_if along_ret along_throw)

lemma along_smtp: "smtp_transport K secret env = Inr T \<Longrightarrow> along R (tr_send T m)"
  by (auto simp: smtp_transport_def sbind_Inr_iff mail_password_value_def
      intro!: along_bnd along_if demanded along_gets along_ret along_relay)

lemma along_transport: "along R (tr_send (transport_or_none K secret hostname vars env) m)"
proof (cases "resolve_transport K secret hostname vars env :: exn + 'x mail_world_scheme mail_transport")
  case (Inl e)
  then show ?thesis by (simp add: transport_or_none_def none_transport_def along_throw)
next
  case (Inr T)
  then have "along R (tr_send T m)"
    by (auto simp: resolve_transport_def none_transport_def along_throw along_smtp along_provider split: if_splits)
  with Inr show ?thesis by (simp add: transport_or_none_def)
qed

end

text \<open>When everything is granted, a send changes the network only.\<close>

interpretation calm_sender: sender "\<lambda>w u :: 'x mail_world_scheme. permissive K \<longrightarrow> net_only w u" K for K :: kernel
  by unfold_locales (auto simp: along_def net.step_refl intro: net.step_trans)

text \<open>A client of the control plane that sends.\<close>

locale mail_client = domain_client R may
  for R :: "'x mail_world_scheme \<Rightarrow> 'x mail_world_scheme \<Rightarrow> bool" and may :: "store_op \<Rightarrow> bool" +
  assumes networked: "net_only w u \<Longrightarrow> R w u"

sublocale mail_client \<subseteq> sending: sender R K for K
  by unfold_locales (rule along_demand networked)+

context mail_client begin

lemma along_own_record:
  assumes "\<And>n body f now. may (OpStatus (n, tenant, name) body f now)"
  shows "along R (record_status K tenant name fence s)"
  unfolding record_status_def
proof (intro along_bnd along_set_status along_ret)
  show "may (OpStatus (kn_name kind, t, name) body f now)"
    if "tenant_of kind \<lparr>ao_tenant = Some tenant, ao_fence = Some fence, ao_actor = Some MAIL_ACTOR\<rparr> = Inr t" for kind t body f now
    using assms tenant_of_given [OF that] by simp
qed

lemma along_deliver:
  assumes "\<And>m. along R (tr_send T m)" and "\<And>n body f now. may (OpStatus (n, tenant, name) body f now)"
  shows "along R (deliver_notice K files T tenant name fence now)"
  unfolding deliver_notice_def attempt_def attempt_failed_def Let_def
  by (intro along_bnd along_get along_option along_if along_catch along_lift along_ret along_warn along_own_record assms)

end

text \<open>The sweep reads its clocks besides.\<close>

locale post_client = mail_client R may
  for R :: "'x post_world_scheme \<Rightarrow> 'x post_world_scheme \<Rightarrow> bool" and may :: "store_op \<Rightarrow> bool" +
  assumes clocked: "R w (w\<lparr>ct_clock := c\<rparr>)" and moved: "R w (w\<lparr>po_now := i, po_ticks := ts\<rparr>)"
    and leased: "R w (w\<lparr>w_leases := l\<rparr>)" "R w (w\<lparr>w_locks := k\<rparr>)" "R w (w\<lparr>w_releases := r\<rparr>)"
begin

lemma along_clock: "along R read_clock"
  by (rule alongI) (simp add: read_clock_def step_refl clocked split: list.split)

lemma along_instant: "along R instant_now"
  by (rule alongI) (simp add: instant_now_def moved)

lemma along_mail_rows:
  assumes "\<And>m. along R (tr_send T m)" and "\<And>k body f now. may (OpStatus k body f now)"
  shows "along R (mail_sweep_rows K files T tenant fence deadline n ms)"
proof (induction ms arbitrary: n)
  case (Cons m ms)
  then show ?case
    unfolding mail_sweep_rows.simps
    by (intro along_bnd along_if along_catch along_ret along_warn along_clock along_instant along_deliver assms)
qed (simp add: along_ret)

lemma along_mail_tenants:
  assumes "\<And>m. along R (tr_send T m)" and "\<And>k body f now. may (OpStatus k body f now)"
  shows "along R (mail_sweep_tenants K files T fence deadline n ts)"
proof (induction ts arbitrary: n)
  case (Cons t ts)
  then show ?case
    unfolding mail_sweep_tenants.simps
    by (intro along_bnd along_if along_ret along_clock along_list_resources along_mail_rows assms)
qed (simp add: along_ret)

lemma along_mail_sweep:
  assumes "\<And>m. along R (tr_send T m)" and "\<And>k body f now. may (OpStatus k body f now)"
  shows "along R (mail_sweep_once K files arrange T budget)"
  unfolding mail_sweep_once_def tenants_with_notices_def Let_def
  by (intro along_lease along_bnd along_clock along_query along_mail_tenants assms leased)

end

interpretation post_wrote: post_client "wrote P :: 'x post_world_scheme \<Rightarrow> 'x post_world_scheme \<Rightarrow> bool" P for P :: "store_op \<Rightarrow> bool"
  by unfold_locales (auto simp: net_only_def intro: wrote_frame)

interpretation post_typed: post_client "keeping typed :: 'x post_world_scheme \<Rightarrow> 'x post_world_scheme \<Rightarrow> bool" typed_op
  by unfold_locales (auto simp: net_only_def keeping_def typed_def)

interpretation mail_wrote: mail_client "wrote P :: 'x mail_world_scheme \<Rightarrow> 'x mail_world_scheme \<Rightarrow> bool" P for P :: "store_op \<Rightarrow> bool"
  by unfold_locales (auto simp: net_only_def intro: wrote_frame)

text \<open>
  With the transport the environment names, a delivery writes nothing but the status of its own notice,
  and a sweep nothing but statuses: no spec, no new row, no tombstone. That holds whatever the kernel grants, whatever the relay
  answers and whatever others commit meanwhile; and a store of valid specs stays one.
\<close>

theorem mail_writes_statuses:
  fixes w :: "'x post_world_scheme"
  shows "let T = transport_or_none K secret hostname vars env in
    wrote (\<lambda>p. \<exists>n body f at. p = OpStatus (n, tenant, name) body f at) w
      (snd (deliver_notice K files T tenant name fence now w)) \<and>
    wrote (\<lambda>p. \<exists>k body f at. p = OpStatus k body f at) w (snd (mail_sweep_once K files arrange T budget w)) \<and>
    keeping typed w (snd (mail_sweep_once K files arrange T budget w))"
proof -
  define T :: "'x post_world_scheme mail_transport" where "T = transport_or_none K secret hostname vars env"
  have "along (wrote (\<lambda>p. \<exists>n body f at. p = OpStatus (n, tenant, name) body f at)) (deliver_notice K files T tenant name fence now)"
    unfolding T_def by (rule post_wrote.along_deliver [OF post_wrote.sending.along_transport]) blast
  moreover have "along (wrote (\<lambda>p. \<exists>k body f at. p = OpStatus k body f at)) (mail_sweep_once K files arrange T budget)"
    unfolding T_def by (rule post_wrote.along_mail_sweep [OF post_wrote.sending.along_transport]) blast
  moreover have "along (keeping typed) (mail_sweep_once K files arrange T budget)"
    unfolding T_def by (rule post_typed.along_mail_sweep [OF post_typed.sending.along_transport]) simp
  ultimately show ?thesis unfolding Let_def T_def by (simp add: along_def)
qed

section \<open>What a delivery leaves\<close>

text \<open>The live row of a notice: its spec and its status.\<close>

definition holds_notice :: "row_key \<Rightarrow> js \<Rightarrow> notice_status option \<Rightarrow> 'x world_scheme \<Rightarrow> bool" where
  "holds_notice k spec status w \<longleftrightarrow>
     (\<exists>r x. row_at k w = Some r \<and> \<not> is_deleted r \<and> hydrate_row r = Inr x \<and> re_spec x = spec \<and>
        notice_status_at (re_status x) = status)"

definition recorded :: "kernel \<Rightarrow> row_key \<Rightarrow> js \<Rightarrow> notice_status \<Rightarrow> 'x world_scheme \<Rightarrow> 'x world_scheme \<Rightarrow> bool" where
  "recorded K k spec s w u \<longleftrightarrow>
     settled K u \<and> holds_notice k spec (Some s) u \<and> (\<forall>j. j \<noteq> k \<longrightarrow> row_at j u = row_at j w)"

text \<open>Rendering and sending, before anything is recorded.\<close>

definition posting ::
  "(string \<Rightarrow> string option) \<Rightarrow> 'w mail_transport \<Rightarrow> notice_spec \<Rightarrow> ('w, unit) io" where
  "posting files T spec =
     bnd (lift (render_template files (mn_template spec) (mn_params spec))) (\<lambda>r. tr_send T (message_of spec r))"

lemma notice_status_back [simp]: "notice_status_at (js_notice_status s) = Some s"
  by (cases "ns_state s")
    (simp_all add: notice_status_at_def js_notice_status_def at_defs notice_state_of_def nullish_def)

lemma notice_status_storable: "storable (js_notice_status s)"
  by (simp add: js_notice_status_def opt_field_def split: option.split)

lemma attempt_posts:
  "attempt K files T tenant name fence spec status now =
     bnd (posting files T spec) (\<lambda>_. seq (record_status K tenant name fence (after_success status now)) (ret Sent))"
  by (simp add: attempt_def posting_def bnd_bnd)

lemma net_settled:
  assumes "net_only w v"
  shows "settled K v \<longleftrightarrow> settled K w" "row_at j v = row_at j w" "cl_kinds v = cl_kinds w"
  using assms by (auto simp: net_only_def settled_def quiet_def row_at_def)

lemma posting_net:
  fixes w :: "'x mail_world_scheme"
  assumes "permissive K" and "posting files (transport_or_none K secret hostname vars env) spec w = (r, v)"
  shows "net_only w v"
proof (cases "render_template files (mn_template spec) (mn_params spec)")
  case (Inl e)
  with assms(2) show ?thesis by (simp add: posting_def bnd_run net.step_refl)
next
  case (Inr x)
  with assms(2) have "tr_send (transport_or_none K secret hostname vars env) (message_of spec x) w = (r, v)"
    by (simp add: posting_def bnd_run)
  from alongD [OF calm_sender.along_transport this] assms(1) show ?thesis by simp
qed

lemma mail_tenant:
  "tenant \<noteq> [] \<Longrightarrow> tenant_of mail_notice_kind \<lparr>ao_tenant = Some tenant, ao_fence = f, ao_actor = a\<rparr> = Inr tenant"
  by (simp add: tenant_of_def mail_notice_kind_def given_def)

lemma record_run:
  fixes w :: "'x app_scheme"
  assumes w: "settled K w" and kind: "map_of (cl_kinds w) MAIL_NOTICE = Some mail_notice_kind" "tenant \<noteq> []"
    and k: "k = (MAIL_NOTICE, tenant, name)"
    and row: "holds_notice k spec status w" and fence: "\<And>r. row_at k w = Some r \<Longrightarrow> rr_fence r \<le> fence"
  shows "\<exists>u. record_status K tenant name fence s w = (Inr (), u) \<and> recorded K k spec s w u \<and> only_store w u"
proof -
  obtain r x where r: "row_at k w = Some r" "\<not> is_deleted r" "hydrate_row r = Inr x" "re_spec x = spec"
    using row by (auto simp: holds_notice_def)
  have k': "k = (kn_name mail_notice_kind, tenant, name)" by (simp add: k mail_notice_kind_def)
  from settled_status [OF w kind(1) mail_tenant [OF kind(2), of "Some fence" "Some MAIL_ACTOR"] notice_status_storable [of s] k' r(1,2)]
  obtain y u r' where u: "set_status K MAIL_NOTICE name (js_notice_status s)
        \<lparr>ao_tenant = Some tenant, ao_fence = Some fence, ao_actor = Some MAIL_ACTOR\<rparr> w = (Inr (Some y), u)"
      "settled K u" "only_row k w u" "row_at k u = Some r'" "hydrate_row r' = Inr y" "rr_status r' = Some (show_js (js_notice_status s))"
      "rr_spec r' = rr_spec r" "\<not> is_deleted r'"
    using fence [OF r(1)] by (auto simp: fence_of_def)
  have "re_spec y = spec" "re_status y = js_notice_status s"
    using u(5-7) r(3,4) parse_stringify [OF notice_status_storable [of s]]
    by (auto simp: hydrate_row_def parse_or_throw_def sbind_Inr_iff split: option.splits)
  then have "holds_notice k spec (Some s) u" using u by (auto simp: holds_notice_def)
  with u show ?thesis by (auto simp: record_status_def bnd_run recorded_def only_row_def)
qed

lemma deliver_read:
  fixes w :: "'x app_scheme"
  assumes w: "settled K w" and now: "w_replica w = w_store w"
    and kind: "map_of (cl_kinds w) MAIL_NOTICE = Some mail_notice_kind" "tenant \<noteq> []"
    and row: "holds_notice (MAIL_NOTICE, tenant, name) spec status w"
  shows "deliver_notice K files T tenant name fence at w =
    (if plan_for status at \<noteq> Attempt then (Inr Skipped, w)
     else catch (attempt K files T tenant name fence (notice_at spec) status at) (attempt_failed K tenant name fence status at) w)"
proof -
  obtain r x where r: "row_at (MAIL_NOTICE, tenant, name) w = Some r" "\<not> is_deleted r" "hydrate_row r = Inr x" "re_spec x = spec"
    "notice_status_at (re_status x) = status"
    using row by (auto simp: holds_notice_def)
  have "select_one (kn_name mail_notice_kind, tenant, name) (w_replica w) = Some r"
    using r(1) by (simp add: row_at_def now mail_notice_kind_def)
  then have "get_resource K MAIL_NOTICE name (tenant_only tenant) w = (Inr (Some x), w)"
    using settled_get [OF w kind(1), of "tenant_only tenant" tenant name] kind(2) r(2,3)
    by (simp add: mail_notice_kind_def)
  then show ?thesis by (simp add: deliver_notice_def bnd_run r(4,5) Let_def)
qed

text \<open>The next look at the row, when the replica has it.\<close>

lemma next_delivery:
  fixes w :: "'x app_scheme"
  assumes "recorded K (MAIL_NOTICE, tenant, name) spec s w u" and "map_of (cl_kinds u) MAIL_NOTICE = Some mail_notice_kind"
    and "tenant \<noteq> []" and "plan_for (Some s) at \<noteq> Attempt"
  shows "deliver_notice K files T tenant name fence at (caught_up u) = (Inr Skipped, caught_up u)"
proof -
  have "settled K (caught_up u)" using assms(1) caught_up_settled by (auto simp: recorded_def)
  moreover have "holds_notice (MAIL_NOTICE, tenant, name) spec (Some s) (caught_up u)"
    using assms(1) by (auto simp: recorded_def holds_notice_def caught_up_def row_at_def)
  ultimately show ?thesis
    using deliver_read [of K "caught_up u" tenant name spec "Some s" files T fence at] assms(2-4)
    by (simp add: caught_up_def)
qed

lemma recorded_warn [simp]:
  fixes u :: "'x app_scheme"
  shows "recorded K k spec s w (u\<lparr>ap_warnings := l\<rparr>) \<longleftrightarrow> recorded K k spec s w u"
  by (simp add: recorded_def settled_def quiet_def holds_notice_def row_at_def)

lemma recorded_net: "net_only w v \<Longrightarrow> recorded K k spec s v u \<longleftrightarrow> recorded K k spec s w u"
  by (simp add: recorded_def net_settled)


text \<open>A dues reminder and a relay that takes it.\<close>

definition relay_env :: mail_env where
  "relay_env = \<lparr>ev_transport = ''smtp'', ev_from = Some ''a@x.org'', ev_host = ''mx'', ev_port = 465, ev_user = None,
     ev_insecure = False\<rparr>"

definition demo_files :: "string \<Rightarrow> string option" where
  "demo_files p = (if p = ''backend/mail/templates/dues-reminder.txt'' then Some ''Dear {{memberName}}'' else None)"

definition notice_rows :: "resource_row list" where
  "notice_rows = [spec_row MAIL_NOTICE ''n'' 1 (js_notice demo_notice)]"

definition notice_app :: mail_world where
  "notice_app = mail_app (demo_dues notice_rows) [Inr ()]
     (map (\<lambda>s. ([], [Chunk (s @ crlf)])) [''220 mx'', ''250 mx'', ''250 ok'', ''250 ok'', ''354 go'', ''250 taken''])"

lemma notice_stored: "storable (js_notice demo_notice)"
  by (rule notice.rows [OF demo_notice_ok])

lemma notice_settled: "settled allow_kernel notice_app" "w_replica notice_app = w_store notice_app"
  "map_of (cl_kinds notice_app) MAIL_NOTICE = Some mail_notice_kind"
  "holds_notice (MAIL_NOTICE, ''t'', ''n'') (js_notice demo_notice) None notice_app"
  "\<And>r. row_at (MAIL_NOTICE, ''t'', ''n'') notice_app = Some r \<Longrightarrow> rr_fence r \<le> 3"
proof -
  have tx: "texts_ok (rows_store notice_rows)"
    using notice_stored by (simp add: texts_ok_def rows_store_def notice_rows_def spec_row_def parse_stringify)
  have wf: "store_wf (rows_store notice_rows)"
    by (simp add: rows_store_def notice_rows_def spec_row_def store_wf_def migrated_store_def empty_store_def
        outbox_of_def key_of_def max_revision_def)
  note defs = notice_app_def mail_app_def mail_world.defs app.defs
  note more = defs demo_rows_defs notice_rows_def
  have "settled allow_kernel (demo_dues notice_rows)"
    using demo_domain [OF tx wf] by (simp add: domain_world_def)
  then show "settled allow_kernel notice_app" by (simp add: settled_def quiet_def defs)
  show "w_replica notice_app = w_store notice_app" "map_of (cl_kinds notice_app) MAIL_NOTICE = Some mail_notice_kind"
    by (simp_all add: more mail_notice_kind_def)
  have row: "row_at (MAIL_NOTICE, ''t'', ''n'') notice_app = Some (spec_row MAIL_NOTICE ''n'' 1 (js_notice demo_notice))"
    by (simp add: more)
  then show "rr_fence r \<le> 3" if "row_at (MAIL_NOTICE, ''t'', ''n'') notice_app = Some r" for r
    using that by (simp add: spec_row_def)
  show "holds_notice (MAIL_NOTICE, ''t'', ''n'') (js_notice demo_notice) None notice_app"
    using row notice_stored
    by (simp add: holds_notice_def spec_row_def is_deleted_def hydrate_row_def parse_or_throw_def parse_stringify
        notice_status_at_def nullish_def)
qed


section \<open>What happens without a transport, and when the plane fails\<close>

text \<open>
  Without a transport a due notice is failed like any other, and with the last attempt given up for good:
  no transport configured later delivers it.
\<close>

lemma unconfigured_gives_up:
  fixes w :: "'x mail_world_scheme"
  assumes w: "settled K w" "w_replica w = w_store w" and kind: "map_of (cl_kinds w) MAIL_NOTICE = Some mail_notice_kind" "tenant \<noteq> []"
    and row: "holds_notice (MAIL_NOTICE, tenant, name) spec (Some s) w"
    and fence: "\<And>r. row_at (MAIL_NOTICE, tenant, name) w = Some r \<Longrightarrow> rr_fence r \<le> fence"
    and due: "plan_for (Some s) now = Attempt" "MAX_ATTEMPTS \<le> ns_attempts s + 1"
    and good: "render_template files (mn_template (notice_at spec)) (mn_params (notice_at spec)) = Inr x"
  shows "\<exists>u. deliver_notice K files none_transport tenant name fence now w = (Inr GaveUp, u) \<and>
    (\<forall>T files' fence' at. deliver_notice K files' T tenant name fence' at (caught_up u) = (Inr Skipped, caught_up u))"
proof -
  obtain m where post: "posting files none_transport (notice_at spec) w = (Inl (MailNotConfiguredError m), w)"
    using good by (auto simp: posting_def none_transport_def bnd_run)
  define s' where "s' = after_failure (Some s) m now"
  have failed: "ns_state s' = NFailed"
    using due(2) by (simp add: s'_def after_failure_def attempts_of_def Let_def)
  obtain u where u: "record_status K tenant name fence s' w = (Inr (), u)" "recorded K (MAIL_NOTICE, tenant, name) spec s' w u" "only_store w u"
    using record_run [OF w(1) kind refl row fence] by blast
  let ?u = "u\<lparr>ap_warnings := ap_warnings u @ [''mail: notice not delivered'']\<rparr>"
  have "deliver_notice K files none_transport tenant name fence now w = (Inr GaveUp, ?u)"
    using deliver_read [OF w kind row, of files none_transport fence now] due(1) post u(1) failed
    by (simp add: attempt_posts catch_run bnd_run attempt_failed_def Let_def s'_def [symmetric] warn_def)
  moreover have "plan_for (Some s') at \<noteq> Attempt" for at using failed by (simp add: plan_for_def)
  moreover have "map_of (cl_kinds ?u) MAIL_NOTICE = Some mail_notice_kind" using u(3) kind by (auto simp: only_store_def)
  ultimately show ?thesis
    using next_delivery [of K tenant name spec s' w ?u] u(2) kind(2) by auto
qed

text \<open>
  The status write of a success is inside the \<open>try\<close>: when it commits and then fails, as it does where the
  event may not be published, the notice the relay has taken is recorded as pending and is sent again.
\<close>

definition mute_kernel :: kernel where
  "mute_kernel = allow_kernel\<lparr>k_adjudicate := (\<lambda>req.
     if js_get (js_get req ''capability'') ''kind'' = JStr ''notify.publish''
     then \<lparr>a_outcome = ''deny'', a_reason = ''no'', a_checks = [], a_config = [], a_model = []\<rparr>
     else k_adjudicate allow_kernel req)\<rparr>"

lemma taken_but_pending:
  "let u = snd (deliver_notice mute_kernel demo_files (transport_or_none mute_kernel [] Inr [] relay_env) ''t'' ''n'' 3 0 notice_app) in
   nt_arrivals u = [([], [])] \<and> Wrote True (''QUIT'' @ crlf) \<in> set (nt_wire u) \<and>
   list_ex (\<lambda>r. case map_option (map_option (map_option ns_state \<circ> notice_status_at) \<circ> parse_json) (rr_status r) of
       Some (Some (Some st)) \<Rightarrow> st = NPending | _ \<Rightarrow> False) (s_rows (w_store u))"
  by code_simp

end
