(* ===== verification/Migrations.thy ===== *)
theory Migrations
  imports Members_API
begin

text \<open>
  The two migration runners: the state layer's (\<open>backend/state/migrate.ts\<close>) and the ledger's
  (\<open>backend/core/ledger/migrations.ts\<close> behind \<open>Ledger.migrate\<close> of \<open>ledger.ts\<close>), with the plan
  and the endpoints of the operator plane over them (\<open>backend/admin/schema-plan.ts\<close>, \<open>schema.ts\<close>,
  \<open>ledger-schema.ts\<close>, \<open>gate.ts\<close>). A database is its data and the table of what has been applied; what a
  statement does to the data is an argument. Other runners commit whole transactions between the calls.
\<close>

section \<open>The database\<close>

record 'd migration_db =
  db_data :: 'd
  db_applied :: "(int \<times> string \<times> string) list option"     \<comment> \<open>the table, once it exists\<close>

definition versions_of :: "'d migration_db \<Rightarrow> int list" where
  "versions_of db = (case db_applied db of None \<Rightarrow> [] | Some rs \<Rightarrow> map fst rs)"

definition create_table :: "'d migration_db \<Rightarrow> 'd migration_db" where
  "create_table db = db\<lparr>db_applied := Some (case db_applied db of None \<Rightarrow> [] | Some rs \<Rightarrow> rs)\<rparr>"

text \<open>One transaction: the change, and the row that records it under the primary key.\<close>

definition apply_step :: "string \<Rightarrow> int \<Rightarrow> string \<Rightarrow> string \<Rightarrow> ('d \<Rightarrow> exn + 'd) \<Rightarrow> 'd migration_db \<Rightarrow> exn + 'd migration_db" where
  "apply_step table v n at up db =
     sbind (up (db_data db)) (\<lambda>d.
       case db_applied db of
         None \<Rightarrow> Inl (NoSuchTable table)
       | Some rs \<Rightarrow>
           if v \<in> fst ` set rs then Inl UniqueViolation
           else Inr (db\<lparr>db_data := d, db_applied := Some (rs @ [(v, n, at)])\<rparr>))"

definition read_versions :: "string \<Rightarrow> 'd migration_db \<Rightarrow> exn + int list" where
  "read_versions table db = (if db_applied db = None then Inl (NoSuchTable table) else Inr (versions_of db))"

text \<open>\<open>MAX(version)\<close>, read as 0 when there is none.\<close>

fun max_version :: "int list \<Rightarrow> int" where
  "max_version [] = 0"
| "max_version (v # vs) = fold max vs v"

datatype 'd rival = RivalCreates | RivalApplies int string string "'d \<Rightarrow> exn + 'd"

fun rival_run :: "string \<Rightarrow> 'd rival \<Rightarrow> 'd migration_db \<Rightarrow> 'd migration_db" where
  "rival_run table RivalCreates db = create_table db"
| "rival_run table (RivalApplies v n at up) db =
     (case apply_step table v n at up db of Inl _ \<Rightarrow> db | Inr db' \<Rightarrow> db')"

text \<open>
  Before a call other runners commit; then it fails, or it is carried out and its answer arrives or is lost.
\<close>

record 'd schema_event =
  sv_rivals :: "'d rival list"
  sv_sync :: bool                       \<comment> \<open>the replica catches up\<close>
  sv_fault :: "exn option"
  sv_lost :: "exn option"

record 'd schema_world = plane +
  sw_ready :: "exn + unit"
  sw_table :: string
  sw_db :: "'d migration_db"
  sw_replica :: "'d migration_db"
  sw_env :: "'d schema_event list"
  sw_now :: string

definition call_db :: "('d migration_db \<Rightarrow> exn + 'd migration_db \<times> 'a) \<Rightarrow> (('d, 'x) schema_world_scheme, 'a) io" where
  "call_db f w =
     (let ev = (case sw_env w of [] \<Rightarrow> \<lparr>sv_rivals = [], sv_sync = False, sv_fault = None, sv_lost = None\<rparr> | e # _ \<Rightarrow> e);
          db = fold (rival_run (sw_table w)) (sv_rivals ev) (sw_db w);
          u = w\<lparr>sw_db := db, sw_replica := (if sv_sync ev then db else sw_replica w), sw_env := tl (sw_env w)\<rparr>
      in case sv_fault ev of
           Some e \<Rightarrow> (Inl e, u)
         | None \<Rightarrow>
             (case f db of
                Inl e \<Rightarrow> (Inl e, u)
              | Inr (db', a) \<Rightarrow>
                  (case sv_lost ev of Some e \<Rightarrow> Inl e | None \<Rightarrow> Inr a, u\<lparr>sw_db := db'\<rparr>)))"

text \<open>A local read: it crosses as every call does and looks at the replica.\<close>

definition call_replica :: "('d migration_db \<Rightarrow> exn + 'a) \<Rightarrow> (('d, 'x) schema_world_scheme, 'a) io" where
  "call_replica f =
     seq (call_db (\<lambda>db. Inr (db, ()))) (bnd (gets (\<lambda>w. f (sw_replica w))) lift)"

definition schema_ready :: "(('d, 'x) schema_world_scheme, unit) io" where
  "schema_ready = bnd (gets sw_ready) lift"

section \<open>The state layer's runner\<close>

definition STATE_MIGRATIONS :: string where "STATE_MIGRATIONS = ''_state_migrations''"

record state_migration =
  mg_version :: js
  mg_name :: string
  mg_statements :: "string list"

fun int_version :: "js \<Rightarrow> int" where
  "int_version (JInt v) = v"
| "int_version _ = 0"

text \<open>The arguments are the version before, and the versions seen.\<close>

fun validate_from :: "int option \<Rightarrow> int list \<Rightarrow> state_migration list \<Rightarrow> exn + unit" where
  "validate_from prev seen [] = Inr ()"
| "validate_from prev seen (m # ms) =
     (case mg_version m of
        JInt v \<Rightarrow>
          if v \<in> set seen then
            Inl (Failure (''duplicate migration version '' @ show_int v @ '' ('' @ quoted (mg_name m) @ '')''))
          else if (case prev of None \<Rightarrow> False | Some p \<Rightarrow> v \<le> p) then
            Inl (Failure (''migration versions must ascend: '' @ show_int v @ '' ('' @ quoted (mg_name m) @ '') follows '' @
              show_int (the prev)))
          else if mg_statements m = [] then
            Inl (Failure (''migration '' @ show_int v @ '' ('' @ quoted (mg_name m) @ '') has no statements''))
          else validate_from (Some v) (v # seen) ms
      | x \<Rightarrow> Inl (Failure (''migration '' @ quoted (mg_name m) @ '' has a non-integer version '' @ show_js x)))"

definition validate_migrations :: "state_migration list \<Rightarrow> exn + unit" where
  "validate_migrations ms = validate_from None [] ms"

fun run_statements :: "(string \<Rightarrow> 'd \<Rightarrow> exn + 'd) \<Rightarrow> string list \<Rightarrow> 'd \<Rightarrow> exn + 'd" where
  "run_statements exec [] d = Inr d"
| "run_statements exec (s # ss) d = sbind (exec s d) (run_statements exec ss)"

definition call_apply :: "int \<Rightarrow> string \<Rightarrow> ('d \<Rightarrow> exn + 'd) \<Rightarrow> (('d, 'x) schema_world_scheme, unit) io" where
  "call_apply v n up =
     bnd (gets sw_now) (\<lambda>now. bnd (gets sw_table) (\<lambda>table.
       call_db (\<lambda>db. sbind (apply_step table v n now up db) (\<lambda>db'. Inr (db', ())))))"

fun apply_pending ::
  "(string \<Rightarrow> 'd \<Rightarrow> exn + 'd) \<Rightarrow> int list \<Rightarrow> state_migration list \<Rightarrow>
    (('d, 'x) schema_world_scheme, (int \<times> string) list) io" where
  "apply_pending exec applied [] = ret []"
| "apply_pending exec applied (m # ms) =
     (let v = int_version (mg_version m) in
      if v \<in> set applied then apply_pending exec applied ms
      else seq (call_apply v (mg_name m) (run_statements exec (mg_statements m)))
               (bnd (apply_pending exec applied ms) (\<lambda>rest. ret ((v, mg_name m) # rest))))"

definition state_migrate ::
  "kernel \<Rightarrow> (string \<Rightarrow> 'd \<Rightarrow> exn + 'd) \<Rightarrow> state_migration list \<Rightarrow> (('d, 'x) schema_world_scheme, (int \<times> string) list) io" where
  "state_migrate K exec ms =
     seq (demand K ''db.migrate'' SQL_RESOURCE no_options)
    (seq (lift (validate_migrations ms))
    (seq schema_ready
    (seq (call_db (\<lambda>db. Inr (create_table db, ())))
    (bnd (bnd (gets sw_table) (\<lambda>table. call_db (\<lambda>db. sbind (read_versions table db) (\<lambda>vs. Inr (db, vs))))) (\<lambda>applied.
       apply_pending exec applied ms)))))"

definition schema_version :: "kernel \<Rightarrow> (('d, 'x) schema_world_scheme, int) io" where
  "schema_version K =
     seq (demand K ''db.read'' SQL_RESOURCE (with_attributes [(''tables'', JArr [JStr STATE_MIGRATIONS])]))
    (seq schema_ready
    (bnd (call_replica (\<lambda>db. Inr (db_applied db \<noteq> None))) (\<lambda>there.
       if \<not> there then ret 0
       else bnd (gets sw_table) (\<lambda>table. bnd (call_replica (read_versions table)) (\<lambda>vs. ret (max_version vs))))))"

section \<open>The ledger's runner\<close>

definition LEDGER_MIGRATIONS :: string where "LEDGER_MIGRATIONS = ''_coreledger_migrations''"

text \<open>\<open>up\<close> is what the migration does to the data, in the dialect of the driver.\<close>

record 'd ledger_migration =
  lm_version :: int
  lm_name :: string
  lm_up :: "bool \<Rightarrow> 'd \<Rightarrow> exn + 'd"

definition applied_versions :: "(('d, 'x) schema_world_scheme, int list) io" where
  "applied_versions =
     seq (call_db (\<lambda>db. Inr (create_table db, ())))
    (bnd (gets sw_table) (\<lambda>table.
       call_db (\<lambda>db. sbind (read_versions table db) (\<lambda>vs. Inr (db, sort vs)))))"

fun duplicate_version :: "int list \<Rightarrow> int option" where
  "duplicate_version (a # b # vs) = (if b = a then Some b else duplicate_version (b # vs))"
| "duplicate_version _ = None"

fun apply_forward ::
  "bool \<Rightarrow> int list \<Rightarrow> int \<Rightarrow> 'd ledger_migration list \<Rightarrow> (('d, 'x) schema_world_scheme, int list) io" where
  "apply_forward pg already highest [] = ret []"
| "apply_forward pg already highest (m # ms) =
     (if lm_version m \<in> set already then apply_forward pg already highest ms
      else if lm_version m \<le> highest then
        throw (Failure (''CoreLedger: migration '' @ show_int (lm_version m) @ '' ('' @ [CHR 0x22] @ lm_name m @ [CHR 0x22] @
          '') is out of order; version '' @ show_int highest @ '' is already applied and migrations are forward-only''))
      else seq (call_apply (lm_version m) (lm_name m) (lm_up m pg))
               (bnd (apply_forward pg already highest ms) (\<lambda>rest. ret (lm_version m # rest))))"

definition run_migrations :: "bool \<Rightarrow> 'd ledger_migration list \<Rightarrow> (('d, 'x) schema_world_scheme, int list) io" where
  "run_migrations pg ms =
     (let ordered = sort_key lm_version ms in
      case duplicate_version (map lm_version ordered) of
        Some v \<Rightarrow> throw (Failure (''CoreLedger: duplicate migration version '' @ show_int v))
      | None \<Rightarrow> bnd applied_versions (\<lambda>already. apply_forward pg already (max_version already) ordered))"

text \<open>The two dialects' words for a missing table, \<open>.\<close> staying on its line.\<close>

definition is_missing_table :: "exn \<Rightarrow> bool" where
  "is_missing_table e =
     (let m = err_message e in
      contains_ci ''no such table'' m \<or>
      list_ex (\<lambda>i. map lower_char (take 9 (drop i m)) = ''relation '' \<and>
          contains_ci '' does not exist'' (takeWhile (\<lambda>c. c \<noteq> CHR 0x0A \<and> c \<noteq> CHR 0x0D) (drop (i + 9) m)))
        [0..<length m])"

definition select_max :: "(('d, 'x) schema_world_scheme, int) io" where
  "select_max =
     bnd (gets sw_table) (\<lambda>table.
       call_db (\<lambda>db. sbind (read_versions table db) (\<lambda>vs. Inr (db, max_version vs))))"

definition read_schema_version :: "(('d, 'x) schema_world_scheme, int) io \<Rightarrow> (('d, 'x) schema_world_scheme, int) io" where
  "read_schema_version ask = catch ask (\<lambda>e. if is_missing_table e then ret 0 else throw e)"

record ledger_migrate_result =
  lr_applied :: "int list"
  lr_version :: int
  lr_concurrent :: "string option"

definition concurrent_text :: "int \<Rightarrow> string" where
  "concurrent_text version =
     ''another runner applied a migration while this one was running; every declared version is recorded, the ledger is at version '' @
     show_int version @ '', and nothing was left half-applied.''"

definition ledger_migrate ::
  "kernel \<Rightarrow> bool \<Rightarrow> 'd ledger_migration list \<Rightarrow> (('d, 'x) schema_world_scheme, ledger_migrate_result) io" where
  "ledger_migrate K pg ms =
     seq (demand K ''db.migrate'' ''app'' no_options)
    (bnd applied_versions (\<lambda>before.
       catch
         (bnd (run_migrations pg ms) (\<lambda>applied.
          bnd (read_schema_version select_max) (\<lambda>v.
            ret \<lparr>lr_applied = applied, lr_version = v, lr_concurrent = None\<rparr>)))
         (\<lambda>e.
            bnd applied_versions (\<lambda>now.
              if \<not> list_all (\<lambda>m. lm_version m \<in> set now) ms then throw e
              else
                bnd (read_schema_version select_max) (\<lambda>v.
                  ret \<lparr>lr_applied = sort (filter (\<lambda>x. x \<notin> set before) now), lr_version = v,
                       lr_concurrent = Some (concurrent_text v)\<rparr>)))))"

text \<open>Through the governed driver; the refusal of a read is not a missing table.\<close>

definition ledger_schema_version :: "kernel \<Rightarrow> (('d, 'x) schema_world_scheme, int) io" where
  "ledger_schema_version K = read_schema_version (seq (demand K ''db.read'' ''app'' no_options) select_max)"

section \<open>The operator plane\<close>

definition pending_migrations :: "int \<Rightarrow> (int \<times> string) list \<Rightarrow> (int \<times> string) list" where
  "pending_migrations version all = filter (\<lambda>m. fst m > version) all"

definition admin_gate :: "bool \<Rightarrow> string \<Rightarrow> auth_data \<Rightarrow> exn + unit" where
  "admin_gate enabled model_json auth =
     (if \<not> enabled then Inl (APIError NotFound ''not found'' [])
      else sbind (operator_role model_json) (\<lambda>role. require_role (au_roles auth) [role]))"

definition summary_of :: "state_migration \<Rightarrow> int \<times> string" where
  "summary_of m = (int_version (mg_version m), mg_name m)"

definition schema_endpoint ::
  "kernel \<Rightarrow> bool \<Rightarrow> string \<Rightarrow> auth_data \<Rightarrow> state_migration list \<Rightarrow>
    (('d, 'x) schema_world_scheme, int \<times> (int \<times> string) list) io" where
  "schema_endpoint K enabled model_json auth ms =
     bnd (lift (admin_gate enabled model_json auth)) (\<lambda>_.
     bnd (schema_version K) (\<lambda>v. ret (v, pending_migrations v (map summary_of ms))))"

definition apply_schema ::
  "kernel \<Rightarrow> (string \<Rightarrow> 'd \<Rightarrow> exn + 'd) \<Rightarrow> bool \<Rightarrow> string \<Rightarrow> auth_data \<Rightarrow> state_migration list \<Rightarrow>
    (('d, 'x) schema_world_scheme, int \<times> (int \<times> string) list) io" where
  "apply_schema K exec enabled model_json auth ms =
     bnd (lift (admin_gate enabled model_json auth)) (\<lambda>_.
     bnd (state_migrate K exec ms) (\<lambda>applied.
     bnd (schema_version K) (\<lambda>v. ret (v, applied))))"

definition ledger_schema ::
  "kernel \<Rightarrow> bool \<Rightarrow> string \<Rightarrow> auth_data \<Rightarrow> 'd ledger_migration list \<Rightarrow>
    (('d, 'x) schema_world_scheme, int \<times> (int \<times> string) list) io" where
  "ledger_schema K enabled model_json auth ms =
     bnd (lift (admin_gate enabled model_json auth)) (\<lambda>_.
     bnd (ledger_schema_version K) (\<lambda>v.
       ret (v, pending_migrations v (map (\<lambda>m. (lm_version m, lm_name m)) ms))))"

definition apply_ledger_schema ::
  "kernel \<Rightarrow> bool \<Rightarrow> bool \<Rightarrow> string \<Rightarrow> auth_data \<Rightarrow> 'd ledger_migration list \<Rightarrow>
    (('d, 'x) schema_world_scheme, ledger_migrate_result) io" where
  "apply_ledger_schema K pg enabled model_json auth ms =
     bnd (lift (admin_gate enabled model_json auth)) (\<lambda>_. ledger_migrate K pg ms)"

end
