(* ===== verification/Migration_Claims.thy ===== *)
theory Migration_Claims
  imports Migrations Admission_Claims
begin

text \<open>
  What the runners promise, whatever other runners of the same list commit in between and whichever
  calls fail or lose their answer: every recorded version was applied exactly once and whole, in the order of the
  table; a runner that answers leaves every declared version recorded; and the ledger's runner reports a lost race
  only when nothing is missing.
\<close>

section \<open>Exactly once\<close>

type_synonym 'd change_step = "int \<times> string \<times> ('d \<Rightarrow> exn + 'd)"

fun run_steps :: "'d change_step list \<Rightarrow> 'd \<Rightarrow> exn + 'd" where
  "run_steps [] d = Inr d"
| "run_steps ((v, n, up) # ps) d = sbind (up d) (run_steps ps)"

definition labels :: "(int \<times> string \<times> 'a) list \<Rightarrow> (int \<times> string) list" where
  "labels = map (\<lambda>(v, n, _). (v, n))"

text \<open>
  The data are the original ones changed by the declared migrations the table lists, each once, in its order.
\<close>

definition exact :: "'d change_step list \<Rightarrow> 'd \<Rightarrow> 'd migration_db \<Rightarrow> bool" where
  "exact D d0 db \<longleftrightarrow>
     (let rows = (case db_applied db of None \<Rightarrow> [] | Some rs \<Rightarrow> rs) in
      distinct (map fst rows) \<and>
      (\<exists>ps. set ps \<subseteq> set D \<and> labels ps = labels rows \<and> run_steps ps d0 = Inr (db_data db)))"

fun declared_rival :: "'d change_step list \<Rightarrow> 'd rival \<Rightarrow> bool" where
  "declared_rival D RivalCreates = True"
| "declared_rival D (RivalApplies v n at up) = ((v, n, up) \<in> set D)"

definition sound :: "'d change_step list \<Rightarrow> 'd \<Rightarrow> ('d, 'x) schema_world_scheme \<Rightarrow> bool" where
  "sound D d0 w \<longleftrightarrow>
     exact D d0 (sw_db w) \<and> exact D d0 (sw_replica w) \<and>
     (\<forall>ev \<in> set (sw_env w). \<forall>r \<in> set (sv_rivals ev). declared_rival D r)"

lemma run_steps_append: "run_steps (ps @ qs) d = sbind (run_steps ps d) (run_steps qs)"
  by (induction ps d rule: run_steps.induct) (auto simp: sbind_def split: sum.split)

lemma labels_append [simp]: "labels (xs @ ys) = labels xs @ labels ys"
  by (simp add: labels_def)

lemma exact_create: "exact D d0 db \<Longrightarrow> exact D d0 (create_table db)"
  by (auto simp: exact_def create_table_def Let_def split: option.splits)

lemma apply_stepD:
  "apply_step t v n at up db = Inr db' \<Longrightarrow>
   \<exists>d rs. up (db_data db) = Inr d \<and> db_applied db = Some rs \<and> v \<notin> fst ` set rs \<and>
     db' = db\<lparr>db_data := d, db_applied := Some (rs @ [(v, n, at)])\<rparr>"
  by (auto simp: apply_step_def sbind_Inr_iff split: option.splits if_splits)

lemma exact_apply:
  assumes "exact D d0 db" and "(v, n, up) \<in> set D" and "apply_step t v n at up db = Inr db'"
  shows "exact D d0 db'"
proof -
  obtain d rs where d: "up (db_data db) = Inr d" "db_applied db = Some rs" "v \<notin> fst ` set rs"
    and db': "db' = db\<lparr>db_data := d, db_applied := Some (rs @ [(v, n, at)])\<rparr>"
    using apply_stepD [OF assms(3)] by blast
  obtain ps where ps: "set ps \<subseteq> set D" "labels ps = labels rs" "run_steps ps d0 = Inr (db_data db)" and dis: "distinct (map fst rs)"
    using assms(1) d(2) by (auto simp: exact_def)
  have "run_steps (ps @ [(v, n, up)]) d0 = Inr d" using ps(3) d(1) by (simp add: run_steps_append)
  moreover have "set (ps @ [(v, n, up)]) \<subseteq> set D" using ps(1) assms(2) by simp
  moreover have "labels (ps @ [(v, n, up)]) = labels (rs @ [(v, n, at)])" using ps(2) by (simp add: labels_def)
  moreover have "distinct (map fst (rs @ [(v, n, at)]))" using dis d(3) by auto
  ultimately show ?thesis unfolding exact_def db' Let_def by (auto intro!: exI [of _ "ps @ [(v, n, up)]"])
qed

lemma exact_rival: "exact D d0 db \<Longrightarrow> declared_rival D r \<Longrightarrow> exact D d0 (rival_run t r db)"
  by (cases r) (auto simp: exact_create split: sum.split intro: exact_apply)

lemma exact_rivals: "exact D d0 db \<Longrightarrow> \<forall>r \<in> set rs. declared_rival D r \<Longrightarrow> exact D d0 (fold (rival_run t) rs db)"
  by (induction rs arbitrary: db) (auto simp: exact_rival)

section \<open>Nothing recorded is forgotten\<close>

definition grown :: "'d migration_db \<Rightarrow> 'd migration_db \<Rightarrow> bool" where
  "grown db db' \<longleftrightarrow>
     set (versions_of db) \<subseteq> set (versions_of db') \<and> (db_applied db \<noteq> None \<longrightarrow> db_applied db' \<noteq> None)"

definition remembers :: "('d, 'x) schema_world_scheme \<Rightarrow> ('d, 'x) schema_world_scheme \<Rightarrow> bool" where
  "remembers w u \<longleftrightarrow> grown (sw_db w) (sw_db u)"

lemma grown_trans: "grown a b \<Longrightarrow> grown b c \<Longrightarrow> grown a c"
  by (auto simp: grown_def)

interpretation remembers: step_order remembers
  by unfold_locales (auto simp: remembers_def grown_def)

lemma versions_create [simp]: "versions_of (create_table db) = versions_of db" "\<exists>rs. db_applied (create_table db) = Some rs"
  by (simp_all add: versions_of_def create_table_def split: option.split)

lemma versions_apply:
  "apply_step t v n at up db = Inr db' \<Longrightarrow> versions_of db' = versions_of db @ [v] \<and> db_applied db' \<noteq> None"
  by (auto simp: versions_of_def dest!: apply_stepD)

lemma grown_rival: "grown db (rival_run t r db)"
  by (cases r) (auto simp: grown_def split: sum.split dest: versions_apply)

lemma grown_rivals: "grown db (fold (rival_run t) rs db)"
proof (induction rs arbitrary: db)
  case (Cons r rs)
  show ?case using grown_trans [OF grown_rival Cons.IH] by simp
qed (simp add: grown_def)

section \<open>Calls\<close>

text \<open>A call, after what the event before it did.\<close>

lemma call_shape:
  "\<exists>rs db u. (rs = [] \<or> (\<exists>ev \<in> set (sw_env w). rs = sv_rivals ev)) \<and> db = fold (rival_run (sw_table w)) rs (sw_db w) \<and>
     sw_db u = db \<and> (sw_replica u = db \<or> sw_replica u = sw_replica w) \<and> sw_env u = tl (sw_env w) \<and>
     (snd (call_db f w) = u \<or> (\<exists>db' a. f db = Inr (db', a) \<and> snd (call_db f w) = u\<lparr>sw_db := db'\<rparr>))"
proof -
  let ?ev = "case sw_env w of [] \<Rightarrow> \<lparr>sv_rivals = [], sv_sync = False, sv_fault = None, sv_lost = None\<rparr> | e # _ \<Rightarrow> e"
  let ?db = "fold (rival_run (sw_table w)) (sv_rivals ?ev) (sw_db w)"
  let ?u = "w\<lparr>sw_db := ?db, sw_replica := (if sv_sync ?ev then ?db else sw_replica w), sw_env := tl (sw_env w)\<rparr>"
  have "sv_rivals ?ev = [] \<or> (\<exists>ev \<in> set (sw_env w). sv_rivals ?ev = sv_rivals ev)" by (cases "sw_env w") auto
  moreover have "snd (call_db f w) = ?u \<or> (\<exists>db' a. f ?db = Inr (db', a) \<and> snd (call_db f w) = ?u\<lparr>sw_db := db'\<rparr>)"
    by (auto simp: call_db_def Let_def split: option.split sum.split prod.split)
  ultimately show ?thesis
    by (intro exI [of _ "sv_rivals ?ev"] exI [of _ ?db] exI [of _ ?u]) simp
qed

lemma call_sound:
  assumes "\<And>db db' a. exact D d0 db \<Longrightarrow> f db = Inr (db', a) \<Longrightarrow> exact D d0 db'"
  shows "along (keeping (sound D d0)) (call_db f)"
proof (rule alongI)
  fix w
  from call_shape [of w f] obtain rs db u where s: "rs = [] \<or> (\<exists>ev \<in> set (sw_env w). rs = sv_rivals ev)" "db = fold (rival_run (sw_table w)) rs (sw_db w)"
      "sw_db u = db" "sw_replica u = db \<or> sw_replica u = sw_replica w" "sw_env u = tl (sw_env w)"
      "snd (call_db f w) = u \<or> (\<exists>db' a. f db = Inr (db', a) \<and> snd (call_db f w) = u\<lparr>sw_db := db'\<rparr>)"
    by (elim exE conjE) (rule that)
  show "keeping (sound D d0) w (snd (call_db f w))"
    unfolding keeping_def
  proof
    assume w: "sound D d0 w"
    then have "exact D d0 db" using exact_rivals [of D d0 "sw_db w" rs] s(1,2) by (auto simp: sound_def)
    moreover have "set (tl (sw_env w)) \<subseteq> set (sw_env w)" by (cases "sw_env w") auto
    ultimately show "sound D d0 (snd (call_db f w))" using w s(3-6) assms by (auto simp: sound_def)
  qed
qed

lemma call_remembers:
  assumes "\<And>db db' a. f db = Inr (db', a) \<Longrightarrow> grown db db'"
  shows "along remembers (call_db f)"
proof (rule alongI)
  fix w
  show "remembers w (snd (call_db f w))"
  proof -
    from call_shape [of w f] obtain rs db u where s: "db = fold (rival_run (sw_table w)) rs (sw_db w)" "sw_db u = db"
        "snd (call_db f w) = u \<or> (\<exists>db' a. f db = Inr (db', a) \<and> snd (call_db f w) = u\<lparr>sw_db := db'\<rparr>)"
      by (elim exE conjE) (rule that)
    from s(3) show ?thesis
      using grown_rivals [of "sw_db w" "sw_table w" rs] assms [of db] s(1,2) grown_trans [of "sw_db w" db]
      unfolding remembers_def by auto
  qed
qed

lemma call_quiet: "sw_env w = [] \<Longrightarrow> call_db f w =
  (case f (sw_db w) of Inl e \<Rightarrow> (Inl e, w) | Inr (db', a) \<Rightarrow> (Inr a, w\<lparr>sw_db := db'\<rparr>))"
  by (simp add: call_db_def Let_def split: sum.split prod.split)

text \<open>What a call does to the world does not depend on what it answers.\<close>

lemma call_unit: "snd (call_db (\<lambda>db. map_sum id (\<lambda>p. (fst p, ())) (f db)) w) = snd (call_db f w)"
  by (auto simp: call_db_def Let_def map_sum_def split: option.split sum.split prod.split)

lemma call_Inr:
  assumes "call_db f w = (Inr a, u)"
  shows "\<exists>db. f db = Inr (sw_db u, a)"
  using assms by (auto simp: call_db_def Let_def split: option.splits sum.splits prod.splits)


section \<open>The programs\<close>

lemma plane_sound: "plane_only w u \<Longrightarrow> keeping (sound D d0) w u"
  by (auto simp: plane_only_def keeping_def sound_def)

lemma plane_remembers: "plane_only w u \<Longrightarrow> remembers w u"
  by (auto simp: plane_only_def remembers_def grown_def)

text \<open>A relation kept by enforcement calls, by making the table, by reading and by applying a declared migration.\<close>

locale runner = step_order R
  for R :: "('d, 'x) schema_world_scheme \<Rightarrow> ('d, 'x) schema_world_scheme \<Rightarrow> bool" +
  fixes may :: "int \<Rightarrow> string \<Rightarrow> ('d \<Rightarrow> exn + 'd) \<Rightarrow> bool"
  assumes gated: "plane_only w u \<Longrightarrow> R w u"
    and created: "along R (call_db (\<lambda>db. Inr (create_table db, ())))"
    and looked: "along R (call_db (\<lambda>db. map_sum id (Pair db) (g db :: exn + unit)))"
    and applied: "may v n up \<Longrightarrow> along R (call_apply v n up)"
begin

lemma along_demand: "along R (demand K kind res opts)"
  using demand_plane [of K kind res opts] gated by (auto simp: along_def)

lemma along_read: "along R (call_db (\<lambda>db. sbind (h db) (\<lambda>vs. Inr (db, k vs))))"
proof (rule alongI)
  fix w :: "('d, 'x) schema_world_scheme"
  have "(\<lambda>db. map_sum id (\<lambda>p. (fst p, ())) (sbind (h db) (\<lambda>vs. Inr (db, k vs)))) =
      (\<lambda>db. map_sum id (Pair db) (map_sum id (\<lambda>_. ()) (h db)))"
    by (auto simp: fun_eq_iff sbind_def split: sum.split)
  then have e: "snd (call_db (\<lambda>db. sbind (h db) (\<lambda>vs. Inr (db, k vs))) w) =
      snd (call_db (\<lambda>db. map_sum id (Pair db) (map_sum id (\<lambda>_. ()) (h db))) w)"
    using call_unit [of "\<lambda>db. sbind (h db) (\<lambda>vs. Inr (db, k vs))" w] by (simp only:)
  show "R w (snd (call_db (\<lambda>db. sbind (h db) (\<lambda>vs. Inr (db, k vs))) w))"
    unfolding e using looked unfolding along_def by (rule spec)
qed

lemma along_ready: "along R schema_ready"
  unfolding schema_ready_def by (intro along_bnd along_gets along_lift)

lemma along_pending:
  assumes "\<And>m. m \<in> set ms \<Longrightarrow> may (int_version (mg_version m)) (mg_name m) (run_statements exec (mg_statements m))"
  shows "along R (apply_pending exec vs ms)"
  using assms by (induction ms) (auto simp: Let_def intro!: along_bnd along_ret applied)

lemma along_migrate:
  assumes "\<And>m. m \<in> set ms \<Longrightarrow> may (int_version (mg_version m)) (mg_name m) (run_statements exec (mg_statements m))"
  shows "along R (state_migrate K exec ms)"
  unfolding state_migrate_def
  by (intro along_bnd along_demand along_lift along_ready created along_gets along_read along_pending assms)

lemma along_versions: "along R applied_versions"
  unfolding applied_versions_def by (intro along_bnd created along_gets along_read)

lemma along_forward:
  "(\<And>m. m \<in> set ms \<Longrightarrow> may (lm_version m) (lm_name m) (lm_up m pg)) \<Longrightarrow> along R (apply_forward pg vs h ms)"
  by (induction ms) (auto intro!: along_bnd along_ret along_throw applied)

lemma along_max: "along R select_max"
  unfolding select_max_def by (intro along_bnd along_gets along_read)

lemma along_run:
  assumes "\<And>m. m \<in> set ms \<Longrightarrow> may (lm_version m) (lm_name m) (lm_up m pg)"
  shows "along R (run_migrations pg ms)"
  unfolding run_migrations_def Let_def
  by (intro along_bnd along_versions along_option along_throw along_forward) (use assms in auto)

lemma along_version: "along R (read_schema_version select_max)"
  unfolding read_schema_version_def by (intro along_catch along_max along_if along_ret along_throw)

lemma along_ledger:
  assumes "\<And>m. m \<in> set ms \<Longrightarrow> may (lm_version m) (lm_name m) (lm_up m pg)"
  shows "along R (ledger_migrate K pg ms)"
  unfolding ledger_migrate_def
  by (intro along_bnd along_demand along_catch along_versions along_run along_version along_throw along_if along_ret assms)

end

interpretation sound_runner: runner "keeping (sound D d0) :: ('d, 'x) schema_world_scheme \<Rightarrow> ('d, 'x) schema_world_scheme \<Rightarrow> bool"
    "\<lambda>v n up. (v, n, up) \<in> set D" for D :: "'d change_step list" and d0
proof
  fix w u :: "('d, 'x) schema_world_scheme"
  show "plane_only w u \<Longrightarrow> keeping (sound D d0) w u" by (rule plane_sound)
  show "along (keeping (sound D d0)) (call_db (\<lambda>db. Inr (create_table db, ())))"
    by (rule call_sound) (auto intro: exact_create)
  show "along (keeping (sound D d0)) (call_db (\<lambda>db. map_sum id (Pair db) (g db)))" for g :: "'d migration_db \<Rightarrow> exn + unit"
    by (rule call_sound) (auto simp: map_sum_def split: sum.splits)
  show "along (keeping (sound D d0)) (call_apply v n up)" if "(v, n, up) \<in> set D" for v n and up :: "'d \<Rightarrow> exn + 'd"
    unfolding call_apply_def
    by (intro keep.along_bnd keep.along_gets call_sound) (use that in \<open>auto simp: sbind_Inr_iff intro: exact_apply\<close>)
qed

interpretation remembering: runner "remembers :: ('d, 'x) schema_world_scheme \<Rightarrow> ('d, 'x) schema_world_scheme \<Rightarrow> bool" "\<lambda>v n up. True"
proof
  fix w u :: "('d, 'x) schema_world_scheme"
  show "plane_only w u \<Longrightarrow> remembers w u" by (rule plane_remembers)
  show "along remembers (call_db (\<lambda>db. Inr (create_table db, ())))" by (rule call_remembers) (auto simp: grown_def)
  show "along remembers (call_db (\<lambda>db. map_sum id (Pair db) (g db)))" for g :: "'d migration_db \<Rightarrow> exn + unit"
    by (rule call_remembers) (auto simp: grown_def map_sum_def split: sum.splits)
  show "along remembers (call_apply v n up)" for v n and up :: "'d \<Rightarrow> exn + 'd"
    unfolding call_apply_def
    by (intro remembers.along_bnd remembers.along_gets call_remembers) (auto simp: grown_def sbind_Inr_iff dest: versions_apply)
qed

section \<open>What the runners answer\<close>

lemma apply_result: "call_apply v n up w = (Inr (), u) \<Longrightarrow> v \<in> set (versions_of (sw_db u))"
  by (auto simp: call_apply_def bnd_run sbind_Inr_iff dest!: call_Inr versions_apply)

lemma read_result:
  "call_db (\<lambda>db. sbind (read_versions t db) (\<lambda>vs. Inr (db, k vs))) w = (Inr a, u) \<Longrightarrow> a = k (versions_of (sw_db u))"
  by (auto simp: sbind_Inr_iff read_versions_def split: if_splits dest!: call_Inr)

lemma recorded_on: "along remembers m \<Longrightarrow> m w = (r, u) \<Longrightarrow> v \<in> set (versions_of (sw_db w)) \<Longrightarrow> v \<in> set (versions_of (sw_db u))"
  using alongD [of remembers m w r u] by (auto simp: remembers_def grown_def)

text \<open>The pending ones, in the order of the list, are what was applied.\<close>

lemma pending_result:
  assumes "apply_pending exec vs ms w = (Inr rest, u)" and "set vs \<subseteq> set (versions_of (sw_db w))"
  shows "rest = map summary_of (filter (\<lambda>m. int_version (mg_version m) \<notin> set vs) ms) \<and>
    (\<forall>m \<in> set ms. int_version (mg_version m) \<in> set (versions_of (sw_db u)))"
  using assms
proof (induction ms arbitrary: rest w)
  case (Cons m ms)
  let ?v = "int_version (mg_version m)"
  have kept: "along remembers (apply_pending exec vs ms :: (('a, 'b) schema_world_scheme, (int \<times> string) list) io)"
    by (rule remembering.along_pending) simp
  show ?case
  proof (cases "?v \<in> set vs")
    case True
    then have run: "apply_pending exec vs ms w = (Inr rest, u)" using Cons.prems(1) by simp
    with Cons.IH [OF run Cons.prems(2)] True recorded_on [OF kept run, of ?v] Cons.prems(2) show ?thesis by auto
  next
    case False
    then obtain v1 rest1 where a: "call_apply ?v (mg_name m) (run_statements exec (mg_statements m)) w = (Inr (), v1)"
      and b: "apply_pending exec vs ms v1 = (Inr rest1, u)" and r: "rest = summary_of m # rest1"
      using Cons.prems(1) by (auto simp: bnd_Inr_iff summary_of_def Let_def)
    have v1: "?v \<in> set (versions_of (sw_db v1))" by (rule apply_result [OF a])
    have "set vs \<subseteq> set (versions_of (sw_db v1))"
      using Cons.prems(2) recorded_on [OF remembering.applied [OF TrueI] a] by auto
    from Cons.IH [OF b this] recorded_on [OF kept b v1] False r show ?thesis by simp
  qed
qed simp

lemma forward_result:
  assumes "apply_forward pg vs h ms w = (Inr rest, u)" and "set vs \<subseteq> set (versions_of (sw_db w))"
  shows "rest = filter (\<lambda>v. v \<notin> set vs) (map lm_version ms) \<and> (\<forall>m \<in> set ms. lm_version m \<in> set (versions_of (sw_db u)))"
  using assms
proof (induction ms arbitrary: rest w)
  case (Cons m ms)
  have kept: "along remembers (apply_forward pg vs h ms :: (('a, 'b) schema_world_scheme, int list) io)"
    by (rule remembering.along_forward) simp
  show ?case
  proof (cases "lm_version m \<in> set vs")
    case True
    then have run: "apply_forward pg vs h ms w = (Inr rest, u)" using Cons.prems(1) by simp
    with Cons.IH [OF run Cons.prems(2)] True recorded_on [OF kept run, of "lm_version m"] Cons.prems(2) show ?thesis by auto
  next
    case False
    then obtain v1 rest1 where a: "call_apply (lm_version m) (lm_name m) (lm_up m pg) w = (Inr (), v1)"
      and b: "apply_forward pg vs h ms v1 = (Inr rest1, u)" and r: "rest = lm_version m # rest1"
      using Cons.prems(1) by (auto simp: bnd_Inr_iff split: if_splits)
    have v1: "lm_version m \<in> set (versions_of (sw_db v1))" by (rule apply_result [OF a])
    have "set vs \<subseteq> set (versions_of (sw_db v1))"
      using Cons.prems(2) recorded_on [OF remembering.applied [OF TrueI] a] by auto
    from Cons.IH [OF b this] recorded_on [OF kept b v1] False r show ?thesis by simp
  qed
qed simp

lemma migrate_result:
  assumes "state_migrate K exec ms w = (Inr done, u)"
  shows "validate_migrations ms = Inr () \<and> (\<forall>m \<in> set ms. int_version (mg_version m) \<in> set (versions_of (sw_db u))) \<and>
    (\<exists>vs. set (versions_of (sw_db w)) \<subseteq> set vs \<and> done = map summary_of (filter (\<lambda>m. int_version (mg_version m) \<notin> set vs) ms))"
proof -
  obtain w1 w2 w3 w4 vs where s: "demand K ''db.migrate'' SQL_RESOURCE no_options w = (Inr (), w1)"
      "validate_migrations ms = Inr ()" "schema_ready w1 = (Inr (), w2)"
      "call_db (\<lambda>db. Inr (create_table db, ())) w2 = (Inr (), w3)"
      "call_db (\<lambda>db. sbind (read_versions (sw_table w3) db) (\<lambda>vs. Inr (db, vs))) w3 = (Inr vs, w4)"
      "apply_pending exec vs ms w4 = (Inr done, u)"
    using assms by (auto simp: state_migrate_def bnd_Inr_iff)
  have vs: "vs = versions_of (sw_db w4)" by (rule read_result [OF s(5)])
  have "remembers w w4"
    using alongD [OF remembering.along_demand s(1)] alongD [OF remembering.along_ready s(3)] alongD [OF remembering.created s(4)]
      alongD [OF remembering.along_read s(5)] by (auto intro: remembers.step_trans)
  with pending_result [OF s(6)] s(2) show ?thesis by (intro conjI exI [of _ vs]) (auto simp: vs remembers_def grown_def)
qed

lemma pending_none: "\<forall>m \<in> set ms. int_version (mg_version m) \<in> set vs \<Longrightarrow> apply_pending exec vs ms = ret []"
  by (induction ms) simp_all

text \<open>
  C14: whatever other runners of the same list commit in between, whichever calls fail and whichever
  answers are lost, the data are the old ones changed by each recorded migration once and whole, and nothing recorded is forgotten;
  an answer means that the list was in order and every version of it is recorded, and names only migrations that were not
  recorded before; and running again then applies nothing.
\<close>

theorem migrations_exactly_once:
  fixes w :: "('d, 'x) schema_world_scheme"
  assumes "sound D d0 w" and "\<forall>m \<in> set ms. (int_version (mg_version m), mg_name m, run_statements exec (mg_statements m)) \<in> set D"
  shows "case state_migrate K exec ms w of (r, u) \<Rightarrow>
    sound D d0 u \<and> remembers w u \<and>
    (\<forall>done. r = Inr done \<longrightarrow>
       validate_migrations ms = Inr () \<and>
       (\<forall>m \<in> set ms. int_version (mg_version m) \<in> set (versions_of (sw_db u))) \<and>
       (\<forall>p \<in> set done. p \<in> summary_of ` set ms \<and> fst p \<notin> set (versions_of (sw_db w))) \<and>
       (permissive K \<and> sw_ready u = Inr () \<and> sw_env u = [] \<longrightarrow>
          state_migrate K exec ms u = (Inr [], u\<lparr>sw_db := create_table (sw_db u)\<rparr>)))"
proof -
  obtain r u where run: "state_migrate K exec ms w = (r, u)" by fastforce
  have "sound D d0 u"
    using alongD [OF sound_runner.along_migrate run] assms by (auto simp: keeping_def)
  moreover have "remembers w u" by (rule alongD [OF remembering.along_migrate run]) simp
  moreover have "\<forall>p \<in> set done. p \<in> summary_of ` set ms \<and> fst p \<notin> set (versions_of (sw_db w))" if "r = Inr done" for "done"
    using migrate_result [OF run [unfolded that]] by (auto simp: summary_of_def)
  moreover have "state_migrate K exec ms u = (Inr [], u\<lparr>sw_db := create_table (sw_db u)\<rparr>)"
    if "r = Inr done" "permissive K" "sw_ready u = Inr ()" "sw_env u = []" for "done"
  proof -
    have "db_applied (create_table (sw_db u)) \<noteq> None" by auto
    with migrate_result [OF run [unfolded that(1)]] that(2-4) show ?thesis
      by (simp add: state_migrate_def bnd_run schema_ready_def call_quiet read_versions_def pending_none del: not_None_eq)
  qed
  ultimately show ?thesis using migrate_result [of K exec ms w] run by auto
qed

section \<open>The ledger's runner and its races\<close>

text \<open>Other runners may commit, but no call fails on its own.\<close>

definition faultless :: "('d, 'x) schema_world_scheme \<Rightarrow> bool" where
  "faultless w \<longleftrightarrow> (\<forall>ev \<in> set (sw_env w). sv_fault ev = None \<and> sv_lost ev = None)"

lemma faultless_call:
  assumes "faultless w" and "call_db f w = (r, u)"
  shows "faultless u \<and> sw_table u = sw_table w \<and>
    (\<exists>db. grown (sw_db w) db \<and> (case f db of Inl e \<Rightarrow> r = Inl e \<and> sw_db u = db | Inr (db', a) \<Rightarrow> r = Inr a \<and> sw_db u = db'))"
proof -
  let ?rs = "case sw_env w of [] \<Rightarrow> [] | e # _ \<Rightarrow> sv_rivals e"
  have "set (tl (sw_env w)) \<subseteq> set (sw_env w)" by (cases "sw_env w") auto
  with assms show ?thesis
    using grown_rivals [of "sw_db w" "sw_table w" ?rs]
    by (intro conjI exI [of _ "fold (rival_run (sw_table w)) ?rs (sw_db w)"])
      (cases "sw_env w"; auto simp: faultless_def call_db_def Let_def split: sum.splits prod.splits)+
qed

lemma faultless_create:
  assumes "faultless w"
  shows "\<exists>u. call_db (\<lambda>db. Inr (create_table db, ())) w = (Inr (), u) \<and> faultless u \<and> (\<exists>rs. db_applied (sw_db u) = Some rs)"
proof -
  obtain r u where run: "call_db (\<lambda>db. Inr (create_table db, ())) w = (r, u)" by fastforce
  from faultless_call [OF assms run] run show ?thesis by auto
qed

lemma faultless_read:
  assumes "faultless w" and "db_applied (sw_db w) = Some rs"
  shows "\<exists>u. call_db (\<lambda>db. sbind (read_versions t db) (\<lambda>vs. Inr (db, k vs))) w = (Inr (k (versions_of (sw_db u))), u) \<and>
    faultless u \<and> (\<exists>rs. db_applied (sw_db u) = Some rs)"
proof -
  obtain r u where run: "call_db (\<lambda>db. sbind (read_versions t db) (\<lambda>vs. Inr (db, k vs))) w = (r, u)" by fastforce
  from faultless_call [OF assms(1) run] run assms(2) show ?thesis
    by (auto simp: read_versions_def grown_def sbind_def split: if_splits)
qed

lemma faultless_versions:
  assumes "faultless w"
  shows "\<exists>u. applied_versions w = (Inr (sort (versions_of (sw_db u))), u) \<and> faultless u \<and> (\<exists>rs. db_applied (sw_db u) = Some rs)"
proof -
  obtain v rs where v: "call_db (\<lambda>db. Inr (create_table db, ())) w = (Inr (), v)" "faultless v" "db_applied (sw_db v) = Some rs"
    using faultless_create [OF assms] by blast
  show ?thesis using faultless_read [OF v(2,3), of "sw_table v" sort] v(1) by (auto simp: applied_versions_def bnd_run)
qed

lemma faultless_max:
  assumes "faultless w" and "db_applied (sw_db w) = Some rs"
  shows "\<exists>u. read_schema_version select_max w = (Inr (max_version (versions_of (sw_db u))), u)"
  using faultless_read [OF assms, of "sw_table w" max_version] by (auto simp: read_schema_version_def select_max_def catch_run)

interpretation faultless_runner: runner
  "keeping faultless :: ('d, 'x) schema_world_scheme \<Rightarrow> ('d, 'x) schema_world_scheme \<Rightarrow> bool" "\<lambda>v n up. True"
proof
  have calls: "along (keeping faultless) (call_db f :: (('d, 'x) schema_world_scheme, 'a) io)" for f :: "'d migration_db \<Rightarrow> exn + 'd migration_db \<times> 'a"
    using faultless_call unfolding along_def keeping_def by (metis prod.collapse)
  fix w u :: "('d, 'x) schema_world_scheme"
  show "plane_only w u \<Longrightarrow> keeping faultless w u" by (auto simp: plane_only_def keeping_def faultless_def)
  show "along (keeping faultless) (call_db (\<lambda>db. Inr (create_table db, ())) :: (('d, 'x) schema_world_scheme, unit) io)" by (rule calls)
  show "along (keeping faultless) (call_db (\<lambda>db. map_sum id (Pair db) (g db)) :: (('d, 'x) schema_world_scheme, unit) io)"
    for g :: "'d migration_db \<Rightarrow> exn + unit" by (rule calls)
  show "along (keeping faultless) (call_apply v n up :: (('d, 'x) schema_world_scheme, unit) io)" for v n and up :: "'d \<Rightarrow> exn + 'd"
    unfolding call_apply_def by (intro keep.along_bnd keep.along_gets calls)
qed

lemma versions_read:
  assumes "applied_versions w = (Inr vs, u)"
  shows "set vs = set (versions_of (sw_db u)) \<and> (\<exists>rs. db_applied (sw_db u) = Some rs)"
  using assms by (auto simp: applied_versions_def bnd_Inr_iff sbind_Inr_iff read_versions_def split: if_splits dest!: call_Inr)

lemma run_result:
  assumes "run_migrations pg ms w = (Inr done, u)"
  shows "(\<forall>m \<in> set ms. lm_version m \<in> set (versions_of (sw_db u))) \<and> (\<exists>rs. db_applied (sw_db u) = Some rs)"
proof -
  obtain vs v where v: "applied_versions w = (Inr vs, v)"
      "apply_forward pg vs (max_version vs) (sort_key lm_version ms) v = (Inr done, u)"
    using assms by (auto simp: run_migrations_def bnd_Inr_iff Let_def split: option.splits)
  have "remembers v u" by (rule alongD [OF remembering.along_forward v(2)]) simp
  then have "db_applied (sw_db u) \<noteq> None" using versions_read [OF v(1)] by (auto simp: remembers_def grown_def)
  with forward_result [OF v(2)] versions_read [OF v(1)] show ?thesis by auto
qed

text \<open>The two ends of the run: what it answers, and what is found when it fails.\<close>

lemma race_won:
  assumes "bnd (run_migrations pg ms) (\<lambda>xs. bnd (read_schema_version select_max) (\<lambda>v. ret (f xs v))) w = (Inr res, u)"
  shows "(\<forall>m \<in> set ms. lm_version m \<in> set (versions_of (sw_db u))) \<and>
    (faultless w \<longrightarrow> (\<exists>xs. res = f xs (max_version (versions_of (sw_db u)))))"
proof -
  obtain xs v n where a: "run_migrations pg ms w = (Inr xs, v)" and b: "read_schema_version select_max v = (Inr n, u)" "res = f xs n"
    using assms by (auto simp: bnd_Inr_iff)
  note res = run_result [OF a]
  have "\<forall>m \<in> set ms. lm_version m \<in> set (versions_of (sw_db u))"
    using res recorded_on [OF remembering.along_version b(1)] by auto
  moreover have "n = max_version (versions_of (sw_db u))" if "faultless w"
  proof -
    have "faultless v" using alongD [OF faultless_runner.along_run a] that by (simp add: keeping_def)
    with res faultless_max b(1) show ?thesis by fastforce
  qed
  ultimately show ?thesis using b(2) by blast
qed

lemma race_lost:
  assumes "bnd applied_versions (\<lambda>now. if \<not> list_all (\<lambda>m. lm_version m \<in> set now) ms then throw e
      else bnd (read_schema_version select_max) (\<lambda>v. ret (g now v))) w = (r, u)"
  shows "(\<forall>res. r = Inr res \<longrightarrow> (\<forall>m \<in> set ms. lm_version m \<in> set (versions_of (sw_db u)))) \<and>
    (faultless w \<longrightarrow>
      (case r of Inl e' \<Rightarrow> \<exists>m \<in> set ms. lm_version m \<notin> set (versions_of (sw_db u))
       | Inr res \<Rightarrow> \<exists>xs. res = g xs (max_version (versions_of (sw_db u)))))"
proof (intro conjI allI impI)
  fix res assume "r = Inr res"
  with assms obtain now v n where a: "applied_versions w = (Inr now, v)" "list_all (\<lambda>m. lm_version m \<in> set now) ms"
      "read_schema_version select_max v = (Inr n, u)"
    by (auto simp: bnd_Inr_iff split: if_splits)
  then show "\<forall>m \<in> set ms. lm_version m \<in> set (versions_of (sw_db u))"
    using versions_read [OF a(1)] recorded_on [OF remembering.along_version a(3)] by (auto simp: list_all_iff)
next
  assume "faultless w"
  then obtain v rs where v: "applied_versions w = (Inr (sort (versions_of (sw_db v))), v)" "faultless v" "db_applied (sw_db v) = Some rs"
    using faultless_versions by blast
  obtain n where n: "read_schema_version select_max v = (Inr (max_version (versions_of (sw_db n))), n)"
    using faultless_max [OF v(2,3)] by blast
  show "case r of Inl e' \<Rightarrow> \<exists>m \<in> set ms. lm_version m \<notin> set (versions_of (sw_db u))
       | Inr res \<Rightarrow> \<exists>xs. res = g xs (max_version (versions_of (sw_db u)))"
    using assms v(1) n by (auto simp: bnd_run list_all_iff split: if_splits)
qed

text \<open>
  C15: an answer of the ledger's runner means that every declared version is recorded, whoever recorded it;
  and where calls do not fail on their own, it answers an error only when some declared version is still missing, and else the
  version the ledger is at; exactly once and whole in every case.
\<close>

theorem lost_race_is_no_error:
  fixes w :: "('d, 'x) schema_world_scheme"
  assumes "sound D d0 w" and "\<forall>m \<in> set ms. (lm_version m, lm_name m, lm_up m pg) \<in> set D"
  shows "case ledger_migrate K pg ms w of (r, u) \<Rightarrow>
    sound D d0 u \<and> remembers w u \<and>
    (\<forall>res. r = Inr res \<longrightarrow> (\<forall>m \<in> set ms. lm_version m \<in> set (versions_of (sw_db u)))) \<and>
    (permissive K \<and> faultless w \<longrightarrow>
      (case r of
         Inl e \<Rightarrow> exits e \<or> (\<exists>m \<in> set ms. lm_version m \<notin> set (versions_of (sw_db u)))
       | Inr res \<Rightarrow> lr_version res = max_version (versions_of (sw_db u))))"
proof -
  obtain r u where run: "ledger_migrate K pg ms w = (r, u)" by fastforce
  have "sound D d0 u" using alongD [OF sound_runner.along_ledger run] assms by (auto simp: keeping_def)
  moreover have "remembers w u" by (rule alongD [OF remembering.along_ledger run]) simp
  moreover have "(\<forall>res. r = Inr res \<longrightarrow> (\<forall>m \<in> set ms. lm_version m \<in> set (versions_of (sw_db u)))) \<and>
    (permissive K \<and> faultless w \<longrightarrow>
      (case r of Inl e \<Rightarrow> exits e \<or> (\<exists>m \<in> set ms. lm_version m \<notin> set (versions_of (sw_db u)))
       | Inr res \<Rightarrow> lr_version res = max_version (versions_of (sw_db u))))" (is "?recorded \<and> ?answer")
  proof -
    obtain d w1 where d: "demand K ''db.migrate'' ''app'' no_options w = (d, w1)" by fastforce
    obtain b w2 where b: "applied_versions w1 = (b, w2)" by fastforce
    have f: "w1 = w \<and> d = Inr ()" if "permissive K" using d that by simp
    show ?thesis
    proof (cases "\<exists>before. d = Inr () \<and> b = Inr before")
      case False
      then have "\<exists>e. r = Inl e" using run d b by (auto simp: ledger_migrate_def bnd_run split: sum.splits)
      moreover have "\<exists>xs. d = Inr () \<and> b = Inr xs" if "permissive K" "faultless w"
        using f that b faultless_versions [of w] by auto
      ultimately show ?thesis using False by auto
    next
      case True
      then obtain before where before: "d = Inr ()" "b = Inr before" by blast
      let ?f = "\<lambda>xs v. \<lparr>lr_applied = xs, lr_version = v, lr_concurrent = None\<rparr>"
      let ?g = "\<lambda>now v. \<lparr>lr_applied = sort (filter (\<lambda>x. x \<notin> set before) now), lr_version = v, lr_concurrent = Some (concurrent_text v)\<rparr>"
      let ?body = "bnd (run_migrations pg ms) (\<lambda>xs. bnd (read_schema_version select_max) (\<lambda>v. ret (?f xs v)))"
      obtain c w3 where c: "?body w2 = (c, w3)" by fastforce
      have f2: "faultless w2" if "permissive K" "faultless w"
        using alongD [OF faultless_runner.along_versions b] f that by (simp add: keeping_def)
      have body: "along (keeping faultless) ?body"
        by (intro keep.along_bnd faultless_runner.along_run faultless_runner.along_version keep.along_ret) simp
      have f3: "faultless w3" if "permissive K" "faultless w"
        using alongD [OF body c] f2 [OF that] by (simp add: keeping_def)
      show ?thesis
      proof (cases c)
        case (Inr res)
        then have ru: "r = Inr res" "u = w3" using run d b c before by (simp_all add: ledger_migrate_def bnd_run catch_run)
        from race_won [of pg ms ?f w2 res w3] c Inr f2 show ?thesis unfolding ru by auto
      next
        case (Inl e)
        show ?thesis
        proof (cases "exits e")
          case True
          then have "r = Inl e" using run d b c before Inl by (simp add: ledger_migrate_def bnd_run catch_run)
          with True show ?thesis by simp
        next
          case False
          then have "bnd applied_versions (\<lambda>now. if \<not> list_all (\<lambda>m. lm_version m \<in> set now) ms then throw e
              else bnd (read_schema_version select_max) (\<lambda>v. ret (?g now v))) w3 = (r, u)"
            using run d b c before Inl by (simp add: ledger_migrate_def bnd_run catch_run)
          from race_lost [OF this] f3 show ?thesis by (auto split: sum.splits)
        qed
      qed
    qed
  qed
  ultimately show ?thesis using run by simp
qed

section \<open>Instances\<close>

text \<open>Data are the statements run; a migration of the ledger appends its name.\<close>

definition log_statement :: "string \<Rightarrow> string list \<Rightarrow> exn + string list" where
  "log_statement s d = Inr (d @ [s])"

definition demo_state_list :: "int list \<Rightarrow> state_migration list" where
  "demo_state_list vs = map (\<lambda>v. \<lparr>mg_version = JInt v, mg_name = show_int v, mg_statements = [show_int v]\<rparr>) vs"

definition demo_ledger_list :: "int list \<Rightarrow> string list ledger_migration list" where
  "demo_ledger_list vs = map (\<lambda>v. \<lparr>lm_version = v, lm_name = show_int v, lm_up = (\<lambda>_. log_statement (show_int v))\<rparr>) vs"

definition demo_steps :: "int list \<Rightarrow> string list change_step list" where
  "demo_steps vs = map (\<lambda>v. (v, show_int v, run_statements log_statement [show_int v])) vs"

definition demo_admin :: auth_data where
  "demo_admin = \<lparr>au_user = ''o'', au_email = ''op@x.org'', au_verified = True, au_roles = [''enrahitu_operator'']\<rparr>"

definition nothing_else :: "string list schema_event" where
  "nothing_else = \<lparr>sv_rivals = [], sv_sync = True, sv_fault = None, sv_lost = None\<rparr>"

definition rival_first :: "int \<Rightarrow> string list schema_event" where
  "rival_first v = nothing_else\<lparr>sv_rivals := [RivalApplies v (show_int v) ''r'' (run_statements log_statement [show_int v])]\<rparr>"

definition demo_schema :: "(int \<times> string \<times> string) list option \<Rightarrow> string list \<Rightarrow> string list schema_event list \<Rightarrow> string list schema_world" where
  "demo_schema rows d evs = plane.extend (plane.truncate (demo_cell empty_store []))
     \<lparr>sw_ready = Inr (), sw_table = STATE_MIGRATIONS, sw_db = \<lparr>db_data = d, db_applied = rows\<rparr>,
      sw_replica = \<lparr>db_data = d, db_applied = rows\<rparr>, sw_env = evs, sw_now = ''n''\<rparr>"

lemma log_run [simp]: "run_statements log_statement [s] = log_statement s"
  by (auto simp: fun_eq_iff log_statement_def)

lemma demo_sound: "set vs' \<subseteq> set vs \<Longrightarrow> sound (demo_steps vs) [] (demo_schema None [] (replicate n nothing_else @ map rival_first vs'))"
  by (auto simp: sound_def demo_schema_def plane.defs exact_def labels_def nothing_else_def rival_first_def demo_steps_def)

theorem migrations_exactly_once_witness:
  "fst (state_migrate allow_kernel log_statement (demo_state_list [1, 2]) (demo_schema None [] [nothing_else, rival_first 1])) = Inr [(2, ''2'')] \<and>
   sound (demo_steps [1, 2]) [] (snd (state_migrate allow_kernel log_statement (demo_state_list [1, 2]) (demo_schema None [] [nothing_else, rival_first 1])))"
proof
  have D: "\<forall>m \<in> set (demo_state_list [1, 2]). (int_version (mg_version m), mg_name m, run_statements log_statement (mg_statements m)) \<in> set (demo_steps [1, 2])"
    by (simp add: demo_state_list_def demo_steps_def)
  show "sound (demo_steps [1, 2]) [] (snd (state_migrate allow_kernel log_statement (demo_state_list [1, 2]) (demo_schema None [] [nothing_else, rival_first 1])))"
    using migrations_exactly_once [OF demo_sound [of "[1]" "[1, 2]" 1] D, of allow_kernel] by (simp split: prod.splits)
  show "fst (state_migrate allow_kernel log_statement (demo_state_list [1, 2]) (demo_schema None [] [nothing_else, rival_first 1])) = Inr [(2, ''2'')]"
    by code_simp
qed

theorem lost_race_is_no_error_witness:
  "let w = demo_schema None [] [nothing_else, nothing_else, nothing_else, nothing_else, rival_first 1] in
   \<exists>u. ledger_migrate allow_kernel False (demo_ledger_list [1]) w =
       (Inr \<lparr>lr_applied = [1], lr_version = 1, lr_concurrent = Some (concurrent_text 1)\<rparr>, u) \<and>
     db_data (sw_db u) = [''1''] \<and> sound (demo_steps [1]) [] u \<and> 1 \<in> set (versions_of (sw_db u))"
proof -
  let ?w = "demo_schema None [] [nothing_else, nothing_else, nothing_else, nothing_else, rival_first 1]"
  have w: "sound (demo_steps [1]) [] ?w" using demo_sound [of "[1]" "[1]" 4] by (simp add: numeral_eq_Suc)
  have D: "\<forall>m \<in> set (demo_ledger_list [1]). (lm_version m, lm_name m, lm_up m False) \<in> set (demo_steps [1])"
    by (simp add: demo_ledger_list_def demo_steps_def)
  have run: "fst (ledger_migrate allow_kernel False (demo_ledger_list [1]) ?w) =
      Inr \<lparr>lr_applied = [1], lr_version = 1, lr_concurrent = Some (concurrent_text 1)\<rparr>" by code_simp
  moreover have "db_data (sw_db (snd (ledger_migrate allow_kernel False (demo_ledger_list [1]) ?w))) = [''1'']" by code_simp
  ultimately show ?thesis
    using lost_race_is_no_error [OF w D, of allow_kernel]
    by (auto simp: Let_def demo_ledger_list_def split: prod.splits)
qed

section \<open>Where the reports are off\<close>

text \<open>
  The plan looks above the highest applied version only. The runner also applies a declared version below it, so an apply can
  do what the plan did not show.
\<close>

lemma below_the_mark:
  "let w = demo_schema (Some [(1, ''1'', ''a''), (3, ''3'', ''a'')]) [''1'', ''3''] []; ms = demo_state_list [1, 2, 3] in
   fst (schema_endpoint allow_kernel True ''{}'' demo_admin ms w) = Inr (3, []) \<and>
   fst (apply_schema allow_kernel log_statement True ''{}'' demo_admin ms w) = Inr (3, [(2, ''2'')])"
  by code_simp

text \<open>
  When nothing was missing, every failure of the run is reported as the work of another runner, also with none there.
\<close>

lemma failure_blamed_on_a_rival:
  "let w = demo_schema (Some [(1, ''1'', ''a'')]) [''1''] [nothing_else, nothing_else, nothing_else\<lparr>sv_fault := Some (Failure ''disk'')\<rparr>] in
   fst (ledger_migrate allow_kernel False (demo_ledger_list [1]) w) =
     Inr \<lparr>lr_applied = [], lr_version = 1, lr_concurrent = Some (concurrent_text 1)\<rparr>"
  by code_simp

end
