(* ===== verification/Request_Guard.thy ===== *)
theory Request_Guard
  imports Mail_Transport
begin

text \<open>
  What stands between a request and an endpoint: who is calling (\<open>backend/lib/client-identity.ts\<close>), cookies
  (\<open>cookies.ts\<close>, \<open>cookie-config.ts\<close>), the double-submit check (\<open>csrf.ts\<close>, \<open>auth/csrf-token.ts\<close>), the limiter
  (\<open>rate-limit.ts\<close>, \<open>rate-limit-window.ts\<close>), the bearer check of the metrics (\<open>obs/metrics-auth.ts\<close>) and the logger
  that redacts (\<open>logger.ts\<close>). A header value is a text or a list of texts; a decoded cookie is a list of UTF-16 code
  units, since an escape can name any character.
\<close>

section \<open>Requests and responses\<close>

datatype header = One string | Many "string list"

type_synonym headers = "(string \<times> header) list"
type_synonym wide = "nat list"

definition wide_of :: "string \<Rightarrow> wide" where
  "wide_of s = map of_char s"

record response =
  rs_status :: int
  rs_headers :: headers
  rs_body :: "string option"

record guard_world = plane +
  g_now :: int                                   \<comment> \<open>\<open>Date.now()\<close>\<close>
  g_vars :: "(string \<times> string) list"            \<comment> \<open>\<open>process.env\<close>\<close>
  g_log :: "(string \<times> (string \<times> string) list) list"
  g_res :: response

section \<open>The language: numbers, URI escapes, UTF-8\<close>

fun radix_value :: "nat \<Rightarrow> nat \<Rightarrow> string \<Rightarrow> nat option" where
  "radix_value b acc [] = Some acc"
| "radix_value b acc (c # cs) =
     (case hex_val c of Some d \<Rightarrow> if d < b then radix_value b (acc * b + d) cs else None | None \<Rightarrow> None)"

text \<open>An exponent with its sign, the whole rest of the text.\<close>

definition exponent_value :: "string \<Rightarrow> int option" where
  "exponent_value s =
     (case s of
        [] \<Rightarrow> Some 0
      | e # t \<Rightarrow>
          if e \<noteq> CHR ''e'' \<and> e \<noteq> CHR ''E'' then None
          else (let signed = t \<noteq> [] \<and> hd t \<in> {CHR ''+'', CHR ''-''}; ds = (if signed then tl t else t) in
                if ds = [] \<or> \<not> list_all is_digit ds then None
                else Some ((if signed \<and> hd t = CHR ''-'' then -1 else 1) * int (digits_value 0 ds))))"

definition decimal_integer :: "string \<Rightarrow> int option" where
  "decimal_integer s =
     (let signed = s \<noteq> [] \<and> hd s \<in> {CHR ''+'', CHR ''-''};
          b = (if signed then tl s else s);
          ip = digits_of b;
          r = drop (length ip) b;
          fp = (if r \<noteq> [] \<and> hd r = CHR ''.'' then digits_of (tl r) else []);
          r2 = (if r \<noteq> [] \<and> hd r = CHR ''.'' then drop (length fp) (tl r) else r)
      in if ip = [] \<and> fp = [] then None
         else (case exponent_value r2 of
                 None \<Rightarrow> None
               | Some x \<Rightarrow>
                   let m = int (digits_value 0 (ip @ fp)); k = x - int (length fp);
                       v = (if 0 \<le> k then Some (m * 10 ^ nat k)
                            else if m mod 10 ^ nat (- k) = 0 then Some (m div 10 ^ nat (- k)) else None)
                   in (case v of
                         None \<Rightarrow> None
                       | Some n \<Rightarrow> if n \<ge> 2 ^ 1024 then None
                                   else Some (if signed \<and> hd s = CHR ''-'' then - n else n))))"

text \<open>\<open>Number(s)\<close> where \<open>Number.isInteger\<close> accepts it, up to the rounding of doubles.\<close>

definition js_integer :: "string \<Rightarrow> int option" where
  "js_integer raw =
     (let s = trim raw; p = map lower_char (take 2 s) in
      if s = [] then Some 0
      else if p \<in> {''0x'', ''0o'', ''0b''} then
        (if drop 2 s = [] then None
         else map_option int (radix_value (if p = ''0x'' then 16 else if p = ''0o'' then 8 else 2) 0 (drop 2 s)))
      else decimal_integer s)"

definition upper_hex :: "nat \<Rightarrow> char" where
  "upper_hex n = (if n < 10 then char_of (48 + n) else char_of (55 + n))"

definition uri_plain :: "char \<Rightarrow> bool" where
  "uri_plain c \<longleftrightarrow> is_digit c \<or> is_lower_alpha c \<or> is_upper_alpha c \<or> c \<in> set ''-_.!~*()'' \<or> c = CHR 0x27"

definition uri_escape :: "nat \<Rightarrow> string" where
  "uri_escape b = [CHR ''%'', upper_hex (b div 16), upper_hex (b mod 16)]"

definition encode_uri :: "string \<Rightarrow> string" where
  "encode_uri s = concat (map (\<lambda>c. if uri_plain c then [c] else concat (map uri_escape (utf8 [c]))) s)"

text \<open>The code units of a code point, and the code point of a sequence of UTF-8 bytes.\<close>

definition code_units :: "nat \<Rightarrow> wide" where
  "code_units p = (if p < 65536 then [p] else [55296 + (p - 65536) div 1024, 56320 + (p - 65536) mod 1024])"

definition sequence_length :: "nat \<Rightarrow> nat" where
  "sequence_length b =
     (if 192 \<le> b \<and> b < 224 then 2 else if 224 \<le> b \<and> b < 240 then 3 else if 240 \<le> b \<and> b < 248 then 4 else 0)"

fun code_point :: "nat list \<Rightarrow> nat option" where
  "code_point [a, b] = (let p = (a - 192) * 64 + (b - 128) in if 128 \<le> p then Some p else None)"
| "code_point [a, b, c] =
     (let p = (a - 224) * 4096 + (b - 128) * 64 + (c - 128) in
      if 2048 \<le> p \<and> \<not> (55296 \<le> p \<and> p < 57344) then Some p else None)"
| "code_point [a, b, c, d] =
     (let p = (a - 240) * 262144 + (b - 128) * 4096 + (c - 128) * 64 + (d - 128) in
      if 65536 \<le> p \<and> p < 1114112 then Some p else None)"
| "code_point _ = None"

definition hex_byte :: "char \<Rightarrow> char \<Rightarrow> nat option" where
  "hex_byte h l = (case (hex_val h, hex_val l) of (Some a, Some b) \<Rightarrow> Some (16 * a + b) | _ \<Rightarrow> None)"

text \<open>Escapes of continuation bytes.\<close>

fun continuation :: "nat \<Rightarrow> string \<Rightarrow> (nat list \<times> string) option" where
  "continuation 0 s = Some ([], s)"
| "continuation (Suc n) (c # h # l # s) =
     (if c \<noteq> CHR ''%'' then None
      else (case hex_byte h l of
              None \<Rightarrow> None
            | Some b \<Rightarrow>
                if b div 64 \<noteq> 2 then None
                else (case continuation n s of None \<Rightarrow> None | Some (bs, r) \<Rightarrow> Some (b # bs, r))))"
| "continuation (Suc n) _ = None"

lemma continuation_shorter: "continuation n s = Some (bs, r) \<Longrightarrow> length r \<le> length s"
proof (induction n s arbitrary: bs rule: continuation.induct)
  case (2 n c h l s)
  then show ?case by (fastforce split: if_splits option.splits prod.splits)
qed simp_all

text \<open>\<open>decodeURIComponent\<close>, \<open>None\<close> where it throws.\<close>

function decode_uri :: "string \<Rightarrow> wide option" where
  "decode_uri [] = Some []"
| "decode_uri (c # cs) =
     (if c \<noteq> CHR ''%'' then map_option (Cons (of_char c)) (decode_uri cs)
      else (case cs of
              h # l # s \<Rightarrow>
                (case hex_byte h l of
                   None \<Rightarrow> None
                 | Some b \<Rightarrow>
                     if b < 128 then map_option (Cons b) (decode_uri s)
                     else if sequence_length b = 0 then None
                     else (case continuation (sequence_length b - 1) s of
                             None \<Rightarrow> None
                           | Some (bs, r) \<Rightarrow>
                               (case code_point (b # bs) of
                                  None \<Rightarrow> None
                                | Some p \<Rightarrow> map_option ((@) (code_units p)) (decode_uri r))))
            | _ \<Rightarrow> None))"
  by pat_completeness auto
termination
  by (relation "measure length") (auto dest!: continuation_shorter)

text \<open>\<open>Buffer.from\<close>: pairs of surrogates are joined, a lone one becomes U+FFFD.\<close>

fun utf8_units :: "wide \<Rightarrow> nat list" where
  "utf8_units [] = []"
| "utf8_units (u # us) =
     (if u < 128 then u # utf8_units us
      else if u < 2048 then [192 + u div 64, 128 + u mod 64] @ utf8_units us
      else if 55296 \<le> u \<and> u < 57344 then
        (case us of
           v # vs \<Rightarrow>
             if u < 56320 \<and> 56320 \<le> v \<and> v < 57344 then
               (let p = 65536 + (u - 55296) * 1024 + (v - 56320) in
                [240 + p div 262144, 128 + p div 4096 mod 64, 128 + p div 64 mod 64, 128 + p mod 64] @ utf8_units vs)
             else [239, 191, 189] @ utf8_units us
         | [] \<Rightarrow> [239, 191, 189])
      else [224 + u div 4096, 128 + u div 64 mod 64, 128 + u mod 64] @ utf8_units us)"

section \<open>The logger\<close>

definition PII_KEYS :: "string list" where
  "PII_KEYS = [''email'', ''name'', ''password'', ''token'', ''accesstoken'', ''refreshtoken'', ''authorization'', ''cookie'',
     ''setcookie'', ''ip'', ''ipaddress'', ''useragent'', ''attributes'', ''assertion'', ''code'']"

definition normalize_key :: "string \<Rightarrow> string" where
  "normalize_key key = filter (\<lambda>c. c \<noteq> CHR ''-'' \<and> c \<noteq> CHR ''_'') (to_lower key)"

definition redact :: "bool \<Rightarrow> (string \<times> string) list \<Rightarrow> (string \<times> string) list" where
  "redact log_pii fs =
     (if log_pii then fs
      else map (\<lambda>(k, v). (k, if normalize_key k \<in> set PII_KEYS then ''[redacted]'' else v)) fs)"

definition log_event :: "string \<Rightarrow> (string \<times> string) list \<Rightarrow> (('x guard_world_scheme), unit) io" where
  "log_event name fs =
     modify (\<lambda>w. w\<lparr>g_log := g_log w @ [(name, redact (env_bool (g_vars w) ''LOG_PII'' False) fs)]\<rparr>)"

definition log_security_event :: "string \<Rightarrow> (string \<times> string) list \<Rightarrow> (('x guard_world_scheme), unit) io" where
  "log_security_event event fs = log_event (''security.'' @ event) fs"

section \<open>Who is calling\<close>

datatype client_identity = Trusted string | Untrusted

definition trusted_proxy_hops :: "(string \<times> string) list \<Rightarrow> nat" where
  "trusted_proxy_hops vars =
     (case env_str vars ''ENRAHITU_TRUSTED_PROXY_HOPS'' of
        None \<Rightarrow> 0
      | Some raw \<Rightarrow> (case js_integer raw of Some n \<Rightarrow> if 0 \<le> n then nat n else 0 | None \<Rightarrow> 0))"

definition forwarded_chain :: "headers \<Rightarrow> string list" where
  "forwarded_chain hs =
     (case (case map_of hs ''x-forwarded-for'' of Some v \<Rightarrow> Some v | None \<Rightarrow> map_of hs ''X-Forwarded-For'') of
        None \<Rightarrow> []
      | Some v \<Rightarrow>
          filter (\<lambda>e. 0 < length e)
            (map trim (concat (map (split_on (CHR '','')) (case v of One s \<Rightarrow> [s] | Many ss \<Rightarrow> ss)))))"

definition resolve_client :: "(string \<times> string) list \<Rightarrow> headers \<Rightarrow> string option \<Rightarrow> client_identity" where
  "resolve_client vars hs peer =
     (let hops = trusted_proxy_hops vars in
      if hops = 0 then (case peer of Some p \<Rightarrow> if p \<noteq> [] then Trusted p else Untrusted | None \<Rightarrow> Untrusted)
      else let chain = forwarded_chain hs in
           if length chain < hops then Untrusted else Trusted (chain ! (length chain - hops)))"

definition client_address :: "(string \<times> string) list \<Rightarrow> headers \<Rightarrow> string option \<Rightarrow> string option" where
  "client_address vars hs peer = (case resolve_client vars hs peer of Trusted c \<Rightarrow> Some c | Untrusted \<Rightarrow> peer)"

definition vouched_forwarded_for :: "(string \<times> string) list \<Rightarrow> headers \<Rightarrow> string option \<Rightarrow> string" where
  "vouched_forwarded_for vars hs peer =
     (let hop = (case peer of Some p \<Rightarrow> p | None \<Rightarrow> []) in
      case client_address vars hs peer of
        Some c \<Rightarrow> if c \<noteq> [] \<and> hop \<noteq> [] \<and> c \<noteq> hop then c @ '', '' @ hop else c
      | None \<Rightarrow> hop)"

section \<open>Cookies\<close>

definition ACCESS_COOKIE :: string where "ACCESS_COOKIE = ''access_token''"
definition REFRESH_COOKIE :: string where "REFRESH_COOKIE = ''refresh_token''"
definition CSRF_COOKIE :: string where "CSRF_COOKIE = ''csrf_token''"
definition OIDC_ID_HINT_COOKIE :: string where "OIDC_ID_HINT_COOKIE = ''oidc_id_hint''"
definition ACCESS_TOKEN_MAX_AGE :: int where "ACCESS_TOKEN_MAX_AGE = 900"
definition REFRESH_TOKEN_MAX_AGE :: int where "REFRESH_TOKEN_MAX_AGE = 604800"

record cookie_options =
  co_http_only :: bool
  co_secure :: bool
  co_same_site :: string
  co_path :: string
  co_max_age :: "int option"

definition auth_cookie_options :: "(string \<times> string) list \<Rightarrow> int option \<Rightarrow> cookie_options" where
  "auth_cookie_options vars age =
     \<lparr>co_http_only = True, co_secure = starts_with ''https://'' (env_str_or vars ''FRONTEND_URL'' ''http://localhost:5173''),
      co_same_site = ''Lax'', co_path = ''/'', co_max_age = age\<rparr>"

definition id_hint_cookie_options :: "(string \<times> string) list \<Rightarrow> int option \<Rightarrow> cookie_options" where
  "id_hint_cookie_options vars age = (auth_cookie_options vars age)\<lparr>co_path := ''/api/v1/auth''\<rparr>"

text \<open>\<open>out[key] = value\<close> on a plain object: a text assigned to \<open>__proto__\<close> is dropped.\<close>

definition read_part :: "string \<Rightarrow> (string \<times> wide) list \<Rightarrow> (string \<times> wide) list" where
  "read_part part out =
     (if CHR ''='' \<notin> set part then out
      else let k = trim (takeWhile (\<lambda>c. c \<noteq> CHR ''='') part);
               v = trim (tl (dropWhile (\<lambda>c. c \<noteq> CHR ''='') part))
           in if k = [] \<or> k = ''__proto__'' then out
              else obj_set k (case decode_uri v of Some u \<Rightarrow> u | None \<Rightarrow> wide_of v) out)"

definition parse_cookies :: "string option \<Rightarrow> (string \<times> wide) list" where
  "parse_cookies hdr =
     (case hdr of
        None \<Rightarrow> []
      | Some h \<Rightarrow> if h = [] then [] else fold read_part (split_on (CHR '';'') h) [])"

definition utc_text :: "int \<Rightarrow> string" where
  "utc_text ms =
     (let day = ms div DAY_MS; t = ms mod DAY_MS; c = civil_of (day + EPOCH)
      in [''Sun'', ''Mon'', ''Tue'', ''Wed'', ''Thu'', ''Fri'', ''Sat''] ! nat ((day + 4) mod 7) @ '', '' @ pad_int 2 (c_day c) @ '' '' @
         [''Jan'', ''Feb'', ''Mar'', ''Apr'', ''May'', ''Jun'', ''Jul'', ''Aug'', ''Sep'', ''Oct'', ''Nov'', ''Dec''] ! nat (c_month c - 1) @ '' '' @
         pad_int 4 (c_year c) @ '' '' @ pad_int 2 (t div 3600000) @ '':'' @ pad_int 2 (t div 60000 mod 60) @ '':'' @
         pad_int 2 (t div 1000 mod 60) @ '' GMT'')"

definition serialize_cookie :: "int \<Rightarrow> string \<Rightarrow> string \<Rightarrow> cookie_options \<Rightarrow> string" where
  "serialize_cookie now name v opts =
     join ''; ''
       ([name @ ''='' @ encode_uri v, ''Path='' @ co_path opts] @
        (case co_max_age opts of
           None \<Rightarrow> []
         | Some age \<Rightarrow> [''Max-Age='' @ show_int age, ''Expires='' @ utc_text (now + age * 1000)]) @
        [''SameSite='' @ co_same_site opts] @
        (if co_http_only opts then [''HttpOnly''] else []) @
        (if co_secure opts then [''Secure''] else []))"

definition set_header :: "string \<Rightarrow> header \<Rightarrow> ('x guard_world_scheme, unit) io" where
  "set_header name v = modify (\<lambda>w. w\<lparr>g_res := (g_res w)\<lparr>rs_headers := obj_set name v (rs_headers (g_res w))\<rparr>\<rparr>)"

definition append_set_cookie :: "string \<Rightarrow> ('x guard_world_scheme, unit) io" where
  "append_set_cookie cookie =
     bnd (gets (\<lambda>w. map_of (rs_headers (g_res w)) ''Set-Cookie'')) (\<lambda>prev.
       set_header ''Set-Cookie''
         (Many ((case prev of None \<Rightarrow> [] | Some (One s) \<Rightarrow> [s] | Some (Many ss) \<Rightarrow> ss) @ [cookie])))"

definition put_cookie ::
  "((string \<times> string) list \<Rightarrow> int option \<Rightarrow> cookie_options) \<Rightarrow> string \<Rightarrow> string \<Rightarrow> int \<Rightarrow> ('x guard_world_scheme, unit) io" where
  "put_cookie options name v age =
     bnd (gets (\<lambda>w. serialize_cookie (g_now w) name v (options (g_vars w) (Some age)))) append_set_cookie"

definition set_auth_cookies :: "string \<Rightarrow> string \<Rightarrow> ('x guard_world_scheme, unit) io" where
  "set_auth_cookies access refresh =
     seq (put_cookie auth_cookie_options ACCESS_COOKIE access ACCESS_TOKEN_MAX_AGE)
         (put_cookie auth_cookie_options REFRESH_COOKIE refresh REFRESH_TOKEN_MAX_AGE)"

definition set_csrf_cookie :: "string \<Rightarrow> ('x guard_world_scheme, unit) io" where
  "set_csrf_cookie token = put_cookie auth_cookie_options CSRF_COOKIE token ACCESS_TOKEN_MAX_AGE"

definition set_id_hint_cookie :: "string \<Rightarrow> ('x guard_world_scheme, unit) io" where
  "set_id_hint_cookie token = put_cookie id_hint_cookie_options OIDC_ID_HINT_COOKIE token REFRESH_TOKEN_MAX_AGE"

definition clear_auth_cookies :: "('x guard_world_scheme, unit) io" where
  "clear_auth_cookies =
     seq (each (\<lambda>name. put_cookie auth_cookie_options name [] 0) [ACCESS_COOKIE, REFRESH_COOKIE, CSRF_COOKIE])
         (put_cookie id_hint_cookie_options OIDC_ID_HINT_COOKIE [] 0)"

definition write_json :: "int \<Rightarrow> js \<Rightarrow> ('x guard_world_scheme, unit) io" where
  "write_json status body =
     seq (modify (\<lambda>w. w\<lparr>g_res := (g_res w)\<lparr>rs_status := status\<rparr>\<rparr>))
    (seq (set_header ''Content-Type'' (One ''application/json''))
         (modify (\<lambda>w. w\<lparr>g_res := (g_res w)\<lparr>rs_body := Some (show_js body)\<rparr>\<rparr>)))"

section \<open>The double-submit check\<close>

definition CSRF_HEADER :: string where "CSRF_HEADER = ''x-csrf-token''"
definition SAFE_METHODS :: "string list" where "SAFE_METHODS = [''GET'', ''HEAD'', ''OPTIONS'', ''TRACE'']"

text \<open>\<open>toUpperCase\<close> as far as membership in the safe methods sees it: no letter above \<open>z\<close> becomes one of theirs.\<close>

definition upper_ascii :: "char \<Rightarrow> char" where
  "upper_ascii c = (if is_lower_alpha c then char_of (code_unit c - 32) else c)"

definition ends_with :: "string \<Rightarrow> string \<Rightarrow> bool" where
  "ends_with suffix s \<longleftrightarrow> length suffix \<le> length s \<and> drop (length s - length suffix) s = suffix"

definition is_csrf_exempt :: "string \<Rightarrow> string \<Rightarrow> bool" where
  "is_csrf_exempt method path \<longleftrightarrow>
     map upper_ascii method \<in> set SAFE_METHODS \<or> ends_with ''/callback'' path \<or> ends_with ''/auth/refresh'' path"

definition generate_csrf_token :: "nat list \<Rightarrow> string" where
  "generate_csrf_token bytes = hex_text bytes"

definition constant_time_equal :: "wide \<Rightarrow> wide \<Rightarrow> bool" where
  "constant_time_equal a b =
     (let ab = utf8_units a; bb = utf8_units b in if length ab \<noteq> length bb then False else ab = bb)"

definition header_value :: "headers \<Rightarrow> string \<Rightarrow> string option" where
  "header_value hs key =
     (case (case map_of hs key of Some v \<Rightarrow> Some v | None \<Rightarrow> map_of hs (to_lower key)) of
        None \<Rightarrow> None
      | Some (One s) \<Rightarrow> Some s
      | Some (Many []) \<Rightarrow> None
      | Some (Many (s # _)) \<Rightarrow> Some s)"

text \<open>The request metadata of an inbound call; \<open>None\<close> stands for any other kind of request.\<close>

record api_call =
  ac_method :: string
  ac_path :: string
  ac_headers :: headers
  ac_service :: string
  ac_endpoint :: string

definition csrf_middleware :: "api_call option \<Rightarrow> ('x guard_world_scheme, 'a) io \<Rightarrow> ('x guard_world_scheme, 'a) io" where
  "csrf_middleware meta nxt =
     (case meta of
        None \<Rightarrow> nxt
      | Some m \<Rightarrow>
          if is_csrf_exempt (ac_method m) (ac_path m) then nxt
          else
            let sent = header_value (ac_headers m) CSRF_HEADER;
                expected = map_of (parse_cookies (header_value (ac_headers m) ''cookie'')) CSRF_COOKIE;
                fs = [(''path'', ac_path m), (''method'', ac_method m)]
            in if sent = None \<or> sent = Some [] \<or> expected = None \<or> expected = Some [] then
                 seq (log_security_event ''csrf.missing'' fs)
                     (throw (APIError InvalidArgument ''missing CSRF token'' ''CSRF_MISSING''))
               else if \<not> constant_time_equal (wide_of (the sent)) (the expected) then
                 seq (log_security_event ''csrf.mismatch'' fs)
                     (throw (APIError InvalidArgument ''CSRF token mismatch'' ''CSRF_MISMATCH''))
               else nxt)"

text \<open>The endpoint that issues a token, from 32 random bytes.\<close>

definition csrf_token_endpoint :: "nat list \<Rightarrow> ('x guard_world_scheme, unit) io" where
  "csrf_token_endpoint bytes =
     (let token = generate_csrf_token bytes in
      seq (set_csrf_cookie token) (write_json 200 (JObj [(''token'', JStr token)])))"

section \<open>The limiter\<close>

definition WINDOW_SECONDS :: int where "WINDOW_SECONDS = 60"

definition window_ordinal :: "int \<Rightarrow> int" where
  "window_ordinal now = now div (WINDOW_SECONDS * 1000)"

definition bucket_key :: "string \<Rightarrow> string \<Rightarrow> int \<Rightarrow> string" where
  "bucket_key tier client window = ''rl:'' @ tier @ '':'' @ client @ '':'' @ show_int window"

definition API_LIMIT :: int where "API_LIMIT = 100"
definition AUTH_LIMIT :: int where "AUTH_LIMIT = 10"

definition global_api_limit :: "(string \<times> string) list \<Rightarrow> int" where
  "global_api_limit vars =
     (case env_str vars ''ENRAHITU_API_GLOBAL_LIMIT'' of
        None \<Rightarrow> 2000
      | Some raw \<Rightarrow> (case js_integer raw of Some n \<Rightarrow> if 0 < n then n else 2000 | None \<Rightarrow> 2000))"

text \<open>
  The deletion of the bucket before is started and not awaited; it is taken to happen at once, no call between looking at
  that bucket.
\<close>

definition increment ::
  "kernel \<Rightarrow> 'x guard_world_scheme addon \<Rightarrow> string \<Rightarrow> string \<Rightarrow> ('x guard_world_scheme, int option) io" where
  "increment K H tier key =
     catch
       (bnd (gets (\<lambda>w. window_ordinal (g_now w))) (\<lambda>window.
        bnd (counter_add K H (bucket_key tier key window) 1) (\<lambda>n.
        seq (if n = 1 then catch (counter_del K H (bucket_key tier key (window - 1))) (\<lambda>_. ret ()) else ret ())
            (ret (Some n)))))
       (\<lambda>_. ret None)"

definition within_limit ::
  "kernel \<Rightarrow> 'x guard_world_scheme addon \<Rightarrow> string \<Rightarrow> string \<Rightarrow> int \<Rightarrow> ('x guard_world_scheme, bool) io" where
  "within_limit K H tier key limit =
     bnd (increment K H tier key) (\<lambda>n.
       case n of
         None \<Rightarrow> seq (log_security_event ''ratelimit.backend_error'' [(''tier'', tier)]) (ret True)
       | Some c \<Rightarrow>
           if c > limit then seq (log_security_event ''ratelimit.exceeded'' [(''tier'', tier)]) (ret False)
           else ret True)"

definition rate_limited :: exn where
  "rate_limited = APIError ResourceExhausted ''rate limit exceeded'' ''RATE_LIMITED''"

definition api_rate_limit ::
  "kernel \<Rightarrow> 'x guard_world_scheme addon \<Rightarrow> api_call option \<Rightarrow> ('x guard_world_scheme, 'a) io \<Rightarrow> ('x guard_world_scheme, 'a) io" where
  "api_rate_limit K H meta nxt =
     (case meta of
        None \<Rightarrow>
          bnd (within_limit K H ''api'' ''internal'' API_LIMIT) (\<lambda>ok. if ok then nxt else throw rate_limited)
      | Some m \<Rightarrow>
          bnd (gets g_vars) (\<lambda>vars.
          bnd (case resolve_client vars (ac_headers m) None of
                 Trusted c \<Rightarrow> within_limit K H ''api'' c API_LIMIT
               | Untrusted \<Rightarrow>
                   within_limit K H ''api-global'' (ac_service m @ ''.'' @ ac_endpoint m) (global_api_limit vars)) (\<lambda>ok.
          if ok then nxt else throw rate_limited)))"

definition within_auth_rate_limit ::
  "kernel \<Rightarrow> 'x guard_world_scheme addon \<Rightarrow> string option \<Rightarrow> ('x guard_world_scheme, bool) io" where
  "within_auth_rate_limit K H ip =
     within_limit K H ''auth'' (case ip of Some a \<Rightarrow> a | None \<Rightarrow> ''anonymous'') AUTH_LIMIT"

section \<open>The bearer check of the metrics\<close>

unbundle bit_operations_syntax

definition token_matches :: "string \<Rightarrow> string \<Rightarrow> bool" where
  "token_matches presented expected =
     (if length presented \<noteq> length expected then False
      else fold (\<lambda>i diff. diff OR (code_unit (presented ! i) XOR code_unit (expected ! i))) [0..<length presented] 0 = (0::nat))"

definition bearer_token :: "header option \<Rightarrow> string option" where
  "bearer_token hdr =
     (case (case hdr of None \<Rightarrow> None | Some (One s) \<Rightarrow> Some s | Some (Many []) \<Rightarrow> None | Some (Many (s # _)) \<Rightarrow> Some s) of
        None \<Rightarrow> None
      | Some v \<Rightarrow>
          let s = trim v; r = drop 6 s; rest = dropWhile (\<lambda>c. c = CHR '' '') r in
          if map lower_char (take 6 s) = ''bearer'' \<and> r \<noteq> [] \<and> hd r = CHR '' '' \<and> rest \<noteq> [] \<and>
             newline \<notin> set rest \<and> cr \<notin> set rest
          then Some (trim rest) else None)"

definition metrics_authorized :: "header option \<Rightarrow> string option \<Rightarrow> bool" where
  "metrics_authorized hdr expected =
     (case expected of
        None \<Rightarrow> True
      | Some e \<Rightarrow> e = [] \<or> (case bearer_token hdr of Some p \<Rightarrow> token_matches p e | None \<Rightarrow> False))"

definition metrics_endpoint :: "headers \<Rightarrow> string \<Rightarrow> (exn + string) \<Rightarrow> ('x guard_world_scheme, unit) io" where
  "metrics_endpoint hs content_type rendered =
     bnd (gets (\<lambda>w. map_of (g_vars w) ''ENRAHITU_METRICS_TOKEN'')) (\<lambda>expected.
       if \<not> metrics_authorized (map_of hs ''authorization'') expected then
         seq (modify (\<lambda>w. w\<lparr>g_res := (g_res w)\<lparr>rs_status := 401\<rparr>\<rparr>))
        (seq (set_header ''WWW-Authenticate'' (One ''Bearer''))
        (seq (set_header ''Content-Type'' (One ''application/json''))
             (modify (\<lambda>w. w\<lparr>g_res := (g_res w)\<lparr>rs_body :=
                Some (show_js (JObj [(''code'', JStr ''unauthenticated''), (''message'', JStr ''metrics token required'')]))\<rparr>\<rparr>))))
       else
         seq (set_header ''Content-Type'' (One content_type))
        (bnd (lift rendered) (\<lambda>body. modify (\<lambda>w. w\<lparr>g_res := (g_res w)\<lparr>rs_body := Some body\<rparr>\<rparr>))))"

end
