(* ===== verification/Sessions.thy ===== *)
theory Sessions
  imports Request_Guard Members_API
begin

text \<open>
  Sessions: the keys (\<open>backend/lib/secrets.ts\<close>), the two tokens (\<open>jwt.ts\<close>, \<open>jwt-verify.ts\<close>), the audit trail
  (\<open>audit.ts\<close>), and the \<open>auth\<close> service: login (\<open>mock.ts\<close>, \<open>rauthy.ts\<close>, \<open>service.ts\<close>), renewal (\<open>refresh.ts\<close>),
  \<open>logout.ts\<close>, \<open>drivers.ts\<close>, \<open>me.ts\<close> and the handler every authenticated endpoint goes through (\<open>handler.ts\<close>). The token
  library, the OpenID client, URLs, the secret store and the audit table are arguments, gathered in \<open>session_lib\<close>.
\<close>

section \<open>What the code is given\<close>

record sign_options =
  so_subject :: "string option"
  so_issuer :: string
  so_audience :: string
  so_expires_in :: int

text \<open>The answer of a grant; the client library passes on only claims whose \<open>sub\<close> is a text.\<close>

record token_set =
  tk_claims :: "js option"
  tk_access :: string
  tk_refresh :: "string option"
  tk_id :: "string option"
  tk_expires_in :: "int option"

record login_tx =
  tx_state :: string
  tx_verifier :: string
  tx_nonce :: string

record audit_entry =
  ae_action :: string
  ae_table :: "string option"
  ae_record :: "string option"
  ae_old_data :: "js option"
  ae_new_data :: "js option"
  ae_actor :: "string option"
  ae_actor_email :: "string option"
  ae_ip :: "string option"
  ae_user_agent :: "string option"

record 'w session_lib =
  sl_addon :: "'w addon"
  sl_secret :: "string \<Rightarrow> string"
  sl_file :: "string \<Rightarrow> string option"
  sl_sign :: "js \<Rightarrow> sign_options \<Rightarrow> string \<Rightarrow> int \<Rightarrow> exn + string"
  sl_verify :: "wide \<Rightarrow> string \<Rightarrow> string \<Rightarrow> string \<Rightarrow> int \<Rightarrow> exn + js"    \<comment> \<open>token, key, issuer, audience, now\<close>
  sl_hostname :: "string \<Rightarrow> exn + string"
  sl_url :: "string \<Rightarrow> string \<Rightarrow> exn + string"                            \<comment> \<open>a relative URL and its base\<close>
  sl_with_query :: "string \<Rightarrow> (string \<times> wide) list \<Rightarrow> string"
  sl_discover :: "string \<Rightarrow> ('w, unit) io"                              \<comment> \<open>with the client secret\<close>
  sl_authorize_url :: "string \<Rightarrow> string \<Rightarrow> login_tx \<Rightarrow> string"          \<comment> \<open>redirect URI, scopes\<close>
  sl_code_grant :: "string \<Rightarrow> js \<Rightarrow> js \<Rightarrow> js \<Rightarrow> ('w, token_set) io"     \<comment> \<open>the query, the expected state, verifier, nonce\<close>
  sl_refresh_grant :: "string \<Rightarrow> ('w, token_set) io"
  sl_userinfo :: "string \<Rightarrow> string \<Rightarrow> ('w, js) io"                      \<comment> \<open>access token, expected subject\<close>
  sl_insert_audit :: "audit_entry \<Rightarrow> ('w, unit) io"

text \<open>An incoming request of a raw endpoint.\<close>

record raw_request =
  rr_headers :: headers
  rr_peer :: "string option"
  rr_query :: "(string \<times> string) list"
  rr_search :: string

definition client_ip :: "(string \<times> string) list \<Rightarrow> raw_request \<Rightarrow> string option" where
  "client_ip vars req = client_address vars (rr_headers req) (rr_peer req)"

definition user_agent :: "raw_request \<Rightarrow> string option" where
  "user_agent req =
     (case map_of (rr_headers req) ''user-agent'' of
        None \<Rightarrow> None | Some (One s) \<Rightarrow> Some s | Some (Many []) \<Rightarrow> None | Some (Many (s # _)) \<Rightarrow> Some s)"

definition cookie_header :: "raw_request \<Rightarrow> string option" where
  "cookie_header req = (case map_of (rr_headers req) ''cookie'' of Some (One s) \<Rightarrow> Some s | _ \<Rightarrow> None)"

definition set_status_code :: "int \<Rightarrow> ('x guard_world_scheme, unit) io" where
  "set_status_code n = modify (\<lambda>w. w\<lparr>g_res := (g_res w)\<lparr>rs_status := n\<rparr>\<rparr>)"

definition end_with :: "string option \<Rightarrow> ('x guard_world_scheme, unit) io" where
  "end_with body = modify (\<lambda>w. w\<lparr>g_res := (g_res w)\<lparr>rs_body := Some (case body of Some s \<Rightarrow> s | None \<Rightarrow> [])\<rparr>\<rparr>)"

definition redirect :: "string \<Rightarrow> ('x guard_world_scheme, unit) io" where
  "redirect location = seq (set_status_code 302) (seq (set_header ''Location'' (One location)) (end_with None))"

definition too_many :: "('x guard_world_scheme, unit) io" where
  "too_many =
     seq (set_status_code 429) (seq (set_header ''Retry-After'' (One ''60'')) (end_with (Some ''rate limit exceeded'')))"

section \<open>Keys and tokens\<close>

definition with_dev_file_fallback :: "'w session_lib \<Rightarrow> string \<Rightarrow> string \<Rightarrow> string" where
  "with_dev_file_fallback L v file =
     (if v \<noteq> [] \<and> trim v \<noteq> [] then v else (case sl_file L file of Some s \<Rightarrow> s | None \<Rightarrow> []))"

definition secret_value ::
  "kernel \<Rightarrow> 'x guard_world_scheme session_lib \<Rightarrow> string \<Rightarrow> string \<Rightarrow> string \<Rightarrow> ('x guard_world_scheme, string) io" where
  "secret_value K L resource name file =
     seq (demand K ''secret.read'' resource no_options) (ret (with_dev_file_fallback L (sl_secret L name) file))"

definition access_private_key where
  "access_private_key K L = secret_value K L ''jwt_private_key'' ''JWT_PRIVATE_KEY'' ''access-private.pem''"
definition access_public_key where
  "access_public_key K L = secret_value K L ''jwt_public_key'' ''JWT_PUBLIC_KEY'' ''access-public.pem''"
definition refresh_private_key where
  "refresh_private_key K L = secret_value K L ''jwt_refresh_private_key'' ''JWT_REFRESH_PRIVATE_KEY'' ''refresh-private.pem''"
definition refresh_public_key where
  "refresh_public_key K L = secret_value K L ''jwt_refresh_public_key'' ''JWT_REFRESH_PUBLIC_KEY'' ''refresh-public.pem''"
definition rauthy_client_secret_value where
  "rauthy_client_secret_value K L = secret_value K L ''rauthy_client_secret'' ''RAUTHY_CLIENT_SECRET'' ''rauthy-client-secret''"

definition ISSUER :: string where "ISSUER = ''enrahitu''"
definition AUDIENCE :: string where "AUDIENCE = ''enrahitu-spa''"
definition DEFAULT_ACCESS_TTL_SECONDS :: int where "DEFAULT_ACCESS_TTL_SECONDS = 900"
definition SESSION_TTL_SECONDS :: int where "SESSION_TTL_SECONDS = 604800"

text \<open>\<open>AccessTokenClaims\<close>, which is also what the handler answers and what \<open>me\<close> shows.\<close>

record session_claims =
  sc_user :: string
  sc_email :: string
  sc_verified :: bool
  sc_name :: string
  sc_roles :: "string list"
  sc_provider :: string

definition claims_js :: "session_claims \<Rightarrow> js" where
  "claims_js c = JObj
     [(''email'', JStr (sc_email c)), (''emailVerified'', JBool (sc_verified c)), (''name'', JStr (sc_name c)),
      (''roles'', JArr (map JStr (sc_roles c))), (''ssoProvider'', JStr (sc_provider c))]"

definition access_options :: "string \<Rightarrow> int \<Rightarrow> sign_options" where
  "access_options subject ttl =
     \<lparr>so_subject = Some subject, so_issuer = ISSUER, so_audience = AUDIENCE, so_expires_in = ttl\<rparr>"

definition sign_access_token ::
  "kernel \<Rightarrow> 'x guard_world_scheme session_lib \<Rightarrow> session_claims \<Rightarrow> int option \<Rightarrow> ('x guard_world_scheme, string) io" where
  "sign_access_token K L c ttl =
     bnd (access_private_key K L) (\<lambda>key. bnd (gets g_now) (\<lambda>now.
       lift (sl_sign L (claims_js c)
         (access_options (sc_user c) (case ttl of Some t \<Rightarrow> t | None \<Rightarrow> DEFAULT_ACCESS_TTL_SECONDS)) key now)))"

fun text_or_empty :: "js \<Rightarrow> string" where
  "text_or_empty (JStr s) = s"
| "text_or_empty _ = []"

text \<open>Elements of \<open>roles\<close> that are not texts match no role and are left out.\<close>

fun role_texts :: "js \<Rightarrow> string list" where
  "role_texts (JArr xs) = concat (map (\<lambda>x. case x of JStr s \<Rightarrow> [s] | _ \<Rightarrow> []) xs)"
| "role_texts _ = []"

definition claims_of :: "js \<Rightarrow> session_claims" where
  "claims_of payload =
     \<lparr>sc_user = text_or_empty (js_get payload ''sub''), sc_email = text_or_empty (js_get payload ''email''),
      sc_verified = (js_get payload ''emailVerified'' = JBool True), sc_name = text_or_empty (js_get payload ''name''),
      sc_roles = role_texts (js_get payload ''roles''), sc_provider = text_or_empty (js_get payload ''ssoProvider'')\<rparr>"

definition verify_access_token ::
  "kernel \<Rightarrow> 'x guard_world_scheme session_lib \<Rightarrow> wide \<Rightarrow> ('x guard_world_scheme, session_claims) io" where
  "verify_access_token K L token =
     bnd (access_public_key K L) (\<lambda>key. bnd (gets g_now) (\<lambda>now.
     bnd (lift (sl_verify L token key ISSUER AUDIENCE now)) (\<lambda>payload. ret (claims_of payload))))"

datatype session_envelope = RauthySession string string | MockSession int    \<comment> \<open>refresh token and subject; profile index\<close>

fun envelope_js :: "session_envelope \<Rightarrow> js" where
  "envelope_js (RauthySession token subject) =
     JObj [(''driver'', JStr ''rauthy''), (''refreshToken'', JStr token), (''subject'', JStr subject)]"
| "envelope_js (MockSession i) = JObj [(''driver'', JStr ''mock''), (''profileIndex'', JInt i)]"

definition sign_session ::
  "kernel \<Rightarrow> 'x guard_world_scheme session_lib \<Rightarrow> session_envelope \<Rightarrow> ('x guard_world_scheme, string) io" where
  "sign_session K L env =
     bnd (refresh_private_key K L) (\<lambda>key. bnd (gets g_now) (\<lambda>now.
       lift (sl_sign L (JObj [(''env'', envelope_js env)])
         \<lparr>so_subject = None, so_issuer = ISSUER, so_audience = AUDIENCE, so_expires_in = SESSION_TTL_SECONDS\<rparr> key now)))"

definition envelope_of :: "js \<Rightarrow> exn + session_envelope" where
  "envelope_of payload =
     (let env = js_get payload ''env'' in
      case (js_get env ''driver'', js_get env ''refreshToken'', js_get env ''subject'', js_get env ''profileIndex'') of
        (JStr d, JStr t, JStr s, p) \<Rightarrow>
          if d = ''rauthy'' then Inr (RauthySession t s)
          else (case p of
                  JInt i \<Rightarrow> if d = ''mock'' then Inr (MockSession i) else Inl (Failure ''session envelope is not a shape this app issues'')
                | _ \<Rightarrow> Inl (Failure ''session envelope is not a shape this app issues''))
      | (JStr d, _, _, JInt i) \<Rightarrow>
          if d = ''mock'' then Inr (MockSession i) else Inl (Failure ''session envelope is not a shape this app issues'')
      | _ \<Rightarrow> Inl (Failure ''session envelope is not a shape this app issues''))"

definition verify_session ::
  "kernel \<Rightarrow> 'x guard_world_scheme session_lib \<Rightarrow> wide \<Rightarrow> ('x guard_world_scheme, session_envelope) io" where
  "verify_session K L token =
     bnd (refresh_public_key K L) (\<lambda>key. bnd (gets g_now) (\<lambda>now.
     bnd (lift (sl_verify L token key ISSUER AUDIENCE now)) (\<lambda>payload. lift (envelope_of payload))))"

fun is_token_expired_error :: "exn \<Rightarrow> bool" where
  "is_token_expired_error (TokenExpiredError _) = True"
| "is_token_expired_error _ = False"

section \<open>Finishing a login\<close>

record sso_profile =
  pf_provider :: string
  pf_subject :: string
  pf_email :: string
  pf_verified :: bool
  pf_name :: string
  pf_roles :: "string list"

definition claims_of_profile :: "sso_profile \<Rightarrow> session_claims" where
  "claims_of_profile p =
     \<lparr>sc_user = pf_subject p, sc_email = pf_email p, sc_verified = pf_verified p, sc_name = pf_name p,
      sc_roles = pf_roles p, sc_provider = pf_provider p\<rparr>"

definition issue_access_token where
  "issue_access_token K L p ttl = sign_access_token K L (claims_of_profile p) ttl"

definition issue_token_pair ::
  "kernel \<Rightarrow> 'x guard_world_scheme session_lib \<Rightarrow> sso_profile \<Rightarrow> session_envelope \<Rightarrow> int option \<Rightarrow>
    ('x guard_world_scheme, string \<times> string) io" where
  "issue_token_pair K L p env ttl =
     bnd (issue_access_token K L p ttl) (\<lambda>access. bnd (sign_session K L env) (\<lambda>session. ret (access, session)))"

text \<open>Best effort: an error of the table is logged and swallowed.\<close>

definition write_audit ::
  "'x guard_world_scheme session_lib \<Rightarrow> audit_entry \<Rightarrow> ('x guard_world_scheme, unit) io" where
  "write_audit L entry =
     catch (sl_insert_audit L entry) (\<lambda>_. log_security_event ''audit.write_failed'' [(''action'', ae_action entry)])"

definition finalize_login ::
  "kernel \<Rightarrow> 'x guard_world_scheme session_lib \<Rightarrow> sso_profile \<Rightarrow> session_envelope \<Rightarrow> string option \<Rightarrow> string option \<Rightarrow> int option \<Rightarrow>
    ('x guard_world_scheme, unit) io" where
  "finalize_login K L p env ip agent ttl =
     bnd (issue_token_pair K L p env ttl) (\<lambda>(access, session).
     seq (set_auth_cookies access session)
         (write_audit L
            \<lparr>ae_action = ''auth.login'', ae_table = None, ae_record = Some (pf_subject p),
             ae_old_data = None, ae_new_data = Some (JObj [(''ssoProvider'', JStr (pf_provider p))]), ae_actor = Some (pf_subject p),
             ae_actor_email = Some (pf_email p), ae_ip = ip, ae_user_agent = agent\<rparr>))"

definition frontend_url :: "'x guard_world_scheme session_lib \<Rightarrow> string \<Rightarrow> ('x guard_world_scheme, string) io" where
  "frontend_url L path =
     bnd (gets (\<lambda>w. env_str_or (g_vars w) ''FRONTEND_URL'' ''http://localhost:5173'')) (\<lambda>base. lift (sl_url L path base))"

section \<open>The development driver\<close>

definition is_mock_enabled :: "(string \<times> string) list \<Rightarrow> bool" where
  "is_mock_enabled vars \<longleftrightarrow> map_of vars ''NODE_ENV'' \<noteq> Some ''production''"

text \<open>The argument is the operator role of the model.\<close>

definition MOCK_USERS :: "string \<Rightarrow> sso_profile list" where
  "MOCK_USERS role =
     [\<lparr>pf_provider = ''mock'', pf_subject = ''mock-user'', pf_email = ''user@example.com'', pf_verified = True,
       pf_name = ''Casey User'', pf_roles = [''user'']\<rparr>,
      \<lparr>pf_provider = ''mock'', pf_subject = ''mock-admin'', pf_email = ''admin@example.com'', pf_verified = True,
       pf_name = ''Avery Admin'', pf_roles = [''user'', ''admin'']\<rparr>,
      \<lparr>pf_provider = ''mock'', pf_subject = ''mock-developer'', pf_email = ''dev@example.com'', pf_verified = True,
       pf_name = ''Devon Developer'', pf_roles = [''user'', ''developer'']\<rparr>,
      \<lparr>pf_provider = ''mock'', pf_subject = ''mock-operator'', pf_email = ''operator@example.com'', pf_verified = True,
       pf_name = ''Ollie Operator'', pf_roles = [''user'', role]\<rparr>]"

definition mock_at :: "string \<Rightarrow> int \<Rightarrow> sso_profile option" where
  "mock_at role i = (if 0 \<le> i \<and> i < int (length (MOCK_USERS role)) then Some (MOCK_USERS role ! nat i) else None)"

definition mock_login ::
  "kernel \<Rightarrow> 'x guard_world_scheme session_lib \<Rightarrow> string \<Rightarrow> raw_request \<Rightarrow> ('x guard_world_scheme, unit) io" where
  "mock_login K L role req =
     bnd (gets g_vars) (\<lambda>vars.
       if \<not> is_mock_enabled vars then seq (set_status_code 404) (end_with None)
       else bnd (within_auth_rate_limit K (sl_addon L) (client_ip vars req)) (\<lambda>ok.
         if \<not> ok then too_many
         else
           let asked = (case map_of (rr_query req) ''user'' of
                          None \<Rightarrow> 0 | Some raw \<Rightarrow> (case js_integer raw of Some n \<Rightarrow> n | None \<Rightarrow> 0));
               (i, p) = (case mock_at role asked of Some p \<Rightarrow> (asked, p) | None \<Rightarrow> (0, hd (MOCK_USERS role)))
           in seq (finalize_login K L p (MockSession i) (client_ip vars req) (user_agent req) None)
                  (bnd (frontend_url L ''/'') redirect)))"

section \<open>The rauthy driver\<close>

definition OIDC_TX_COOKIE :: string where "OIDC_TX_COOKIE = ''oidc_tx''"

definition is_rauthy_configured ::
  "kernel \<Rightarrow> 'x guard_world_scheme session_lib \<Rightarrow> ('x guard_world_scheme, bool) io" where
  "is_rauthy_configured K L =
     bnd (gets g_vars) (\<lambda>vars.
       if env_str vars ''RAUTHY_ISSUER'' = None \<or> env_str vars ''RAUTHY_CLIENT_ID'' = None then ret False
       else bnd (rauthy_client_secret_value K L) (\<lambda>s. ret (s \<noteq> [])))"

definition rauthy_issuer :: "(string \<times> string) list \<Rightarrow> string" where
  "rauthy_issuer vars = env_str_or vars ''RAUTHY_ISSUER'' []"

definition rauthy_end_session_url ::
  "'x guard_world_scheme session_lib \<Rightarrow> wide \<Rightarrow> ('x guard_world_scheme, string) io" where
  "rauthy_end_session_url L hint =
     bnd (gets (\<lambda>w. rauthy_issuer (g_vars w))) (\<lambda>issuer.
     bnd (lift (sl_url L ''oidc/logout'' (if ends_with ''/'' issuer then issuer else issuer @ ''/''))) (\<lambda>url.
     bnd (frontend_url L ''/'') (\<lambda>landing.
       ret (sl_with_query L url [(''id_token_hint'', hint), (''post_logout_redirect_uri'', wide_of landing)]))))"

text \<open>The round trip is adjudicated before it leaves.\<close>

definition issuer_egress :: "kernel \<Rightarrow> 'x guard_world_scheme session_lib \<Rightarrow> ('x guard_world_scheme, unit) io" where
  "issuer_egress K L =
     bnd (gets (\<lambda>w. rauthy_issuer (g_vars w))) (\<lambda>issuer.
     bnd (lift (sl_hostname L issuer)) (\<lambda>host.
       demand K ''http.egress'' ''rauthy-issuer'' (with_attributes [(''domain'', JStr host)])))"

definition rauthy_config :: "kernel \<Rightarrow> 'x guard_world_scheme session_lib \<Rightarrow> ('x guard_world_scheme, unit) io" where
  "rauthy_config K L =
     seq (issuer_egress K L) (bnd (rauthy_client_secret_value K L) (\<lambda>secret. sl_discover L secret))"

text \<open>\<open>String(x)\<close>\<close>

fun js_string :: "js \<Rightarrow> string" where
  "js_string JUndef = ''undefined''"
| "js_string JNull = ''null''"
| "js_string (JBool b) = (if b then ''true'' else ''false'')"
| "js_string (JInt i) = show_int i"
| "js_string (JFrac t) = t"
| "js_string (JStr s) = s"
| "js_string (JArr xs) = join '','' (map (\<lambda>x. if nullish x then [] else js_string x) xs)"
| "js_string (JObj kvs) = ''[object Object]''"

definition profile_from_claims :: "(string \<times> string) list \<Rightarrow> js \<Rightarrow> sso_profile" where
  "profile_from_claims vars claims =
     (let roles_claim = (if nullish (js_get claims ''roles'') then js_get claims ''groups'' else js_get claims ''roles'');
          default = env_str_or vars ''RAUTHY_DEFAULT_ROLE'' ''user'';
          roles = (case roles_claim of JArr xs \<Rightarrow> map js_string xs | _ \<Rightarrow> [default]);
          email = text_or_empty (js_get claims ''email'');
          own = text_or_empty (js_get claims ''name'');
          preferred = text_or_empty (js_get claims ''preferred_username'')
      in \<lparr>pf_provider = ''rauthy'', pf_subject = text_or_empty (js_get claims ''sub''), pf_email = email,
          pf_verified = (email \<noteq> [] \<and> js_get claims ''email_verified'' = JBool True),
          pf_name = (if own \<noteq> [] then own else if preferred \<noteq> [] then preferred else email),
          pf_roles = (if roles \<noteq> [] then roles else [default])\<rparr>)"

text \<open>\<open>base64url\<close>, without padding.\<close>

definition base64url :: "nat list \<Rightarrow> string" where
  "base64url bs = map (\<lambda>c. if c = CHR ''+'' then CHR ''-'' else if c = CHR ''/'' then CHR ''_'' else c) (filter (\<lambda>c. c \<noteq> CHR ''='') (base64 bs))"

definition base64_val :: "nat \<Rightarrow> nat option" where
  "base64_val n =
     (if 65 \<le> n \<and> n \<le> 90 then Some (n - 65) else if 97 \<le> n \<and> n \<le> 122 then Some (n - 71)
      else if 48 \<le> n \<and> n \<le> 57 then Some (n + 4) else if n = 43 \<or> n = 45 then Some 62
      else if n = 47 \<or> n = 95 then Some 63 else None)"

fun sextets_bytes :: "nat list \<Rightarrow> nat list" where
  "sextets_bytes (a # b # c # d # r) =
     [a * 4 + b div 16, b mod 16 * 16 + c div 4, c mod 4 * 64 + d] @ sextets_bytes r"
| "sextets_bytes [a, b, c] = [a * 4 + b div 16, b mod 16 * 16 + c div 4]"
| "sextets_bytes [a, b] = [a * 4 + b div 16]"
| "sextets_bytes _ = []"

text \<open>
  \<open>Buffer.from(s, "base64url")\<close>: it stops at the padding and skips what is not a digit. A byte that does not belong to a character
  below 256 ends in an error here, as it does for every transaction the endpoint did not write itself.
\<close>

definition base64_bytes :: "wide \<Rightarrow> nat list" where
  "base64_bytes s = sextets_bytes (concat (map (\<lambda>u. case base64_val u of Some v \<Rightarrow> [v] | None \<Rightarrow> []) (takeWhile (\<lambda>u. u \<noteq> 61) s)))"

fun utf8_text :: "nat list \<Rightarrow> string option" where
  "utf8_text [] = Some []"
| "utf8_text (a # bs) =
     (if a < 128 then map_option (Cons (char_of a)) (utf8_text bs)
      else (case bs of
              b # r \<Rightarrow> if (a = 194 \<or> a = 195) \<and> b div 64 = 2 then map_option (Cons (char_of ((a - 192) * 64 + (b - 128)))) (utf8_text r) else None
            | [] \<Rightarrow> None))"

definition tx_js :: "login_tx \<Rightarrow> js" where
  "tx_js tx = JObj [(''state'', JStr (tx_state tx)), (''verifier'', JStr (tx_verifier tx)), (''nonce'', JStr (tx_nonce tx))]"

definition encode_tx :: "login_tx \<Rightarrow> string" where
  "encode_tx tx = base64url (utf8 (show_js (tx_js tx)))"

definition decode_tx :: "wide \<Rightarrow> exn + js" where
  "decode_tx raw =
     (case utf8_text (base64_bytes raw) of
        None \<Rightarrow> Inl (Failure ''Unexpected token in JSON'')
      | Some s \<Rightarrow> sbind (parse_or_throw s) (\<lambda>j.
          if nullish j then Inl (TypeErr ''Cannot destructure property'') else Inr j))"

text \<open>The argument \<open>tx\<close> holds the random texts drawn.\<close>

definition rauthy_login ::
  "kernel \<Rightarrow> 'x guard_world_scheme session_lib \<Rightarrow> login_tx \<Rightarrow> raw_request \<Rightarrow> ('x guard_world_scheme, unit) io" where
  "rauthy_login K L tx req =
     bnd (is_rauthy_configured K L) (\<lambda>configured.
       if \<not> configured then seq (set_status_code 404) (end_with None)
       else bnd (gets g_vars) (\<lambda>vars. bnd (within_auth_rate_limit K (sl_addon L) (client_ip vars req)) (\<lambda>ok.
         if \<not> ok then too_many
         else seq (rauthy_config K L)
             (bnd (gets (\<lambda>w. serialize_cookie (g_now w) OIDC_TX_COOKIE (encode_tx tx) (auth_cookie_options (g_vars w) (Some 600)))) (\<lambda>c.
              seq (set_header ''Set-Cookie'' (One c))
                  (redirect (sl_authorize_url L
                     (env_str_or vars ''RAUTHY_REDIRECT_URI'' ''http://localhost:4000/api/v1/auth/rauthy/callback'')
                     (env_str_or vars ''RAUTHY_SCOPES'' ''openid profile email groups'') tx)))))))"

definition accept_grant ::
  "kernel \<Rightarrow> 'x guard_world_scheme session_lib \<Rightarrow> raw_request \<Rightarrow> token_set \<Rightarrow> js \<Rightarrow> ('x guard_world_scheme, unit) io" where
  "accept_grant K L req tokens claims =
     bnd (gets g_vars) (\<lambda>vars.
     bnd (gets (\<lambda>w. serialize_cookie (g_now w) OIDC_TX_COOKIE [] (auth_cookie_options (g_vars w) (Some 0)))) (\<lambda>c.
     seq (set_header ''Set-Cookie'' (One c))
    (seq (case tk_id tokens of None \<Rightarrow> ret () | Some t \<Rightarrow> if t = [] then ret () else set_id_hint_cookie t)
    (let p = profile_from_claims vars claims in
     seq (finalize_login K L p (RauthySession (case tk_refresh tokens of Some t \<Rightarrow> t | None \<Rightarrow> []) (pf_subject p))
            (client_ip vars req) (user_agent req) (tk_expires_in tokens))
         (bnd (frontend_url L ''/'') redirect)))))"

definition rauthy_callback ::
  "kernel \<Rightarrow> 'x guard_world_scheme session_lib \<Rightarrow> raw_request \<Rightarrow> ('x guard_world_scheme, unit) io" where
  "rauthy_callback K L req =
     bnd (is_rauthy_configured K L) (\<lambda>configured.
       if \<not> configured then seq (set_status_code 404) (end_with None)
       else bnd (gets g_vars) (\<lambda>vars. bnd (within_auth_rate_limit K (sl_addon L) (client_ip vars req)) (\<lambda>ok.
         if \<not> ok then too_many
         else
           case map_of (parse_cookies (cookie_header req)) OIDC_TX_COOKIE of
             None \<Rightarrow> seq (set_status_code 400) (end_with (Some ''missing login transaction''))
           | Some raw \<Rightarrow>
               if raw = [] then seq (set_status_code 400) (end_with (Some ''missing login transaction''))
               else
                 bnd (lift (decode_tx raw)) (\<lambda>tx.
                 seq (rauthy_config K L)
                (seq (issuer_egress K L)
                (bnd (sl_code_grant L (rr_search req) (js_get tx ''state'') (js_get tx ''verifier'') (js_get tx ''nonce'')) (\<lambda>tokens.
                 case tk_claims tokens of
                   None \<Rightarrow> seq (set_status_code 401) (end_with (Some ''no id token''))
                 | Some claims \<Rightarrow> accept_grant K L req tokens claims)))))))"

section \<open>Renewal\<close>

definition deny :: "string \<Rightarrow> ('x guard_world_scheme, unit) io" where
  "deny message =
     seq clear_auth_cookies
         (write_json 401 (JObj [(''code'', JStr ''unauthenticated''), (''message'', JStr message)]))"

text \<open>\<open>tokens.claims() ?? fetchUserInfo(...)\<close>\<close>

definition renewed_claims ::
  "'x guard_world_scheme session_lib \<Rightarrow> string \<Rightarrow> token_set \<Rightarrow> ('x guard_world_scheme, js) io" where
  "renewed_claims L subject tokens =
     (case tk_claims tokens of Some c \<Rightarrow> ret c | None \<Rightarrow> sl_userinfo L (tk_access tokens) subject)"

definition refresh_from_rauthy ::
  "kernel \<Rightarrow> 'x guard_world_scheme session_lib \<Rightarrow> string \<Rightarrow> string \<Rightarrow>
    ('x guard_world_scheme, (sso_profile \<times> string \<times> int option) option) io" where
  "refresh_from_rauthy K L token subject =
     bnd (is_rauthy_configured K L) (\<lambda>configured.
       if \<not> configured then
         seq (log_event ''auth: a rauthy session cannot be renewed because the driver is not configured'' []) (ret None)
       else if token = [] then
         seq (log_event ''auth: the session carries no IdP refresh token; renewal is impossible''
                [(''detail'', ''rauthy must have the refresh_token flow enabled for this client and the login must request the offline_access scope (RAUTHY_SCOPES).'')])
             (ret None)
       else
         catch
           (seq (rauthy_config K L)
           (bnd (sl_refresh_grant L token) (\<lambda>tokens.
            bnd (renewed_claims L subject tokens) (\<lambda>claims.
            bnd (gets g_vars) (\<lambda>vars.
              ret (Some (profile_from_claims vars claims,
                         case tk_refresh tokens of Some t \<Rightarrow> t | None \<Rightarrow> token, tk_expires_in tokens)))))))
           (\<lambda>e. seq (log_event ''auth: the identity provider refused to renew this session'' [(''error'', err_message e)])
                    (ret None)))"

definition renew ::
  "kernel \<Rightarrow> 'x guard_world_scheme session_lib \<Rightarrow> raw_request \<Rightarrow> sso_profile \<Rightarrow> session_envelope \<Rightarrow> int option \<Rightarrow>
    ('x guard_world_scheme, unit) io" where
  "renew K L req p nxt ttl =
     bnd (gets g_vars) (\<lambda>vars.
     bnd (issue_token_pair K L p nxt ttl) (\<lambda>(access, session).
     seq (set_auth_cookies access session)
    (seq (write_audit L
            \<lparr>ae_action = ''auth.refresh'', ae_table = None, ae_record = None, ae_old_data = None, ae_new_data = None, ae_actor = Some (pf_subject p),
             ae_actor_email = Some (pf_email p), ae_ip = client_ip vars req, ae_user_agent = user_agent req\<rparr>)
         (write_json 200 (JObj [(''status'', JStr ''ok'')])))))"

definition renew_envelope ::
  "kernel \<Rightarrow> 'x guard_world_scheme session_lib \<Rightarrow> string \<Rightarrow> raw_request \<Rightarrow> session_envelope \<Rightarrow> ('x guard_world_scheme, unit) io" where
  "renew_envelope K L role req env =
     (case env of
        RauthySession token subject \<Rightarrow>
          bnd (refresh_from_rauthy K L token subject) (\<lambda>refreshed.
            case refreshed of
              None \<Rightarrow> deny ''the identity provider did not renew this session''
            | Some (p, token', ttl) \<Rightarrow> renew K L req p (RauthySession token' subject) ttl)
      | MockSession i \<Rightarrow>
          bnd (gets g_vars) (\<lambda>vars.
            if \<not> is_mock_enabled vars then deny ''the mock driver is disabled''
            else case mock_at role i of
                   None \<Rightarrow> deny ''unknown mock profile''
                 | Some p \<Rightarrow> renew K L req p env None))"

definition refresh ::
  "kernel \<Rightarrow> 'x guard_world_scheme session_lib \<Rightarrow> string \<Rightarrow> raw_request \<Rightarrow> ('x guard_world_scheme, unit) io" where
  "refresh K L role req =
     (case map_of (parse_cookies (cookie_header req)) REFRESH_COOKIE of
        None \<Rightarrow> deny ''no session''
      | Some presented \<Rightarrow>
          if presented = [] then deny ''no session''
          else
            bnd (catch (bnd (verify_session K L presented) (\<lambda>env. ret (Some env))) (\<lambda>_. ret None)) (\<lambda>env.
              case env of
                None \<Rightarrow> deny ''invalid session''
              | Some e \<Rightarrow> renew_envelope K L role req e))"

section \<open>The other endpoints and the handler\<close>

definition logout ::
  "kernel \<Rightarrow> 'x guard_world_scheme session_lib \<Rightarrow> session_claims option \<Rightarrow> raw_request \<Rightarrow> ('x guard_world_scheme, unit) io" where
  "logout K L auth req =
     bnd (gets g_vars) (\<lambda>vars.
     seq (case auth of
            None \<Rightarrow> ret ()
          | Some c \<Rightarrow> write_audit L
              \<lparr>ae_action = ''auth.logout'', ae_table = None, ae_record = None, ae_old_data = None, ae_new_data = None, ae_actor = Some (sc_user c),
               ae_actor_email = Some (sc_email c), ae_ip = client_ip vars req, ae_user_agent = user_agent req\<rparr>)
    (let hint = map_of (parse_cookies (cookie_header req)) OIDC_ID_HINT_COOKIE in
     bnd (if hint = None \<or> hint = Some [] then ret False else is_rauthy_configured K L) (\<lambda>at_idp.
     bnd (if at_idp then rauthy_end_session_url L (the hint) else frontend_url L ''/'') (\<lambda>url.
     seq clear_auth_cookies
         (write_json 200 (JObj [(''redirectUrl'', JStr url)]))))))"

definition configured_drivers ::
  "kernel \<Rightarrow> 'x guard_world_scheme session_lib \<Rightarrow> ('x guard_world_scheme, string list) io" where
  "configured_drivers K L =
     bnd (gets g_vars) (\<lambda>vars. bnd (is_rauthy_configured K L) (\<lambda>rauthy.
       ret ((if is_mock_enabled vars then [''mock''] else []) @ (if rauthy then [''rauthy''] else []))))"

definition status_endpoint ::
  "kernel \<Rightarrow> 'x guard_world_scheme session_lib \<Rightarrow> raw_request \<Rightarrow> ('x guard_world_scheme, unit) io" where
  "status_endpoint K L req =
     (let token = map_of (parse_cookies (cookie_header req)) ACCESS_COOKIE in
      bnd (if token = None \<or> token = Some [] then ret False
           else catch (seq (verify_access_token K L (the token)) (ret True)) (\<lambda>_. ret False)) (\<lambda>authenticated.
      bnd (configured_drivers K L) (\<lambda>drivers.
        write_json 200 (JObj [(''authenticated'', JBool authenticated), (''drivers'', JArr (map JStr drivers))]))))"

definition login_endpoint :: "('x guard_world_scheme, unit) io" where
  "login_endpoint =
     bnd (gets (\<lambda>w. env_str_or (g_vars w) ''AUTH_DRIVER'' ''mock'')) (\<lambda>driver.
       redirect (''/api/v1/auth/'' @ driver @ ''/login''))"

text \<open>The parameters are the authorization header and the access cookie.\<close>

definition extract_token :: "string option \<Rightarrow> wide option \<Rightarrow> wide option" where
  "extract_token bearer session =
     (case bearer of
        Some b \<Rightarrow> if b \<noteq> [] \<and> starts_with ''bearer '' (to_lower b) then Some (wide_of (trim (drop 7 b))) else session
      | None \<Rightarrow> session)"

definition auth_handler ::
  "kernel \<Rightarrow> 'x guard_world_scheme session_lib \<Rightarrow> string option \<Rightarrow> wide option \<Rightarrow> ('x guard_world_scheme, session_claims) io" where
  "auth_handler K L bearer session =
     run_as_service ''auth''
       (let token = extract_token bearer session in
        if token = None \<or> token = Some [] then
          throw (APIError Unauthenticated ''missing authentication credentials'' [])
        else
          catch (verify_access_token K L (the token))
            (\<lambda>e. if is_token_expired_error e then
                   throw (APIError Unauthenticated ''access token expired'' ''TOKEN_EXPIRED'')
                 else throw (APIError Unauthenticated ''invalid access token'' [])))"

text \<open>What the endpoints of the domain read of it (\<open>Members_API\<close>).\<close>

definition auth_data_of :: "session_claims \<Rightarrow> auth_data" where
  "auth_data_of c = \<lparr>au_user = sc_user c, au_email = sc_email c, au_verified = sc_verified c, au_roles = sc_roles c\<rparr>"

definition me_response :: "session_claims \<Rightarrow> js" where
  "me_response c = JObj
     [(''id'', JStr (sc_user c)), (''email'', JStr (sc_email c)), (''emailVerified'', JBool (sc_verified c)),
      (''name'', JStr (sc_name c)), (''roles'', JArr (map JStr (sc_roles c))), (''ssoProvider'', JStr (sc_provider c))]"

end
