(* ===== verification/Request_Guard_Claims.thy ===== *)
theory Request_Guard_Claims
  imports Request_Guard Mail_Wire_Claims
begin

text \<open>
  What the request guard promises: a caller cannot choose the address it is counted under, the double-submit check passes
  exactly the requests that repeat their cookie, every value survives a cookie, and the limiter admits what its window
  allows, no more and no less, except for what it logs.
\<close>

section \<open>Escapes and cookies\<close>

lemma hex_val_upper: "n < 16 \<Longrightarrow> hex_val (upper_hex n) = Some n"
  by (auto simp: hex_val_def upper_hex_def Let_def)

lemma hex_byte_escape: "b < 256 \<Longrightarrow> hex_byte (upper_hex (b div 16)) (upper_hex (b mod 16)) = Some b"
  by (simp add: hex_byte_def hex_val_upper)

lemma uri_plain_percent [simp]: "\<not> uri_plain (CHR ''%'')"
  by (simp add: uri_plain_def is_digit_def is_lower_alpha_def is_upper_alpha_def)

lemma utf8_single: "utf8 [c] = (if code_unit c < 128 then [code_unit c] else [192 + code_unit c div 64, 128 + code_unit c mod 64])"
  by (simp add: utf8_def Let_def)

definition encode_char :: "char \<Rightarrow> string" where
  "encode_char c = (if uri_plain c then [c] else concat (map uri_escape (utf8 [c])))"

lemma encode_uri_Nil [simp]: "encode_uri [] = []"
  by (simp add: encode_uri_def)

lemma encode_uri_Cons: "encode_uri (c # s) = encode_char c @ encode_uri s"
  by (simp add: encode_uri_def encode_char_def)

lemma decode_encoded_char: "decode_uri (encode_char c @ s) = map_option (Cons (of_char c)) (decode_uri s)"
proof (cases "uri_plain c")
  case True
  then have "c \<noteq> CHR ''%''" by auto
  with True show ?thesis by (simp add: encode_char_def)
next
  case False
  have small: "code_unit c < 256" by simp
  show ?thesis
  proof (cases "code_unit c < 128")
    case True
    then show ?thesis using False small by (simp add: encode_char_def utf8_single uri_escape_def hex_byte_escape)
  next
    case big: False
    let ?a = "192 + code_unit c div 64" and ?b = "128 + code_unit c mod 64"
    have a: "hex_byte (upper_hex (?a div 16)) (upper_hex (?a mod 16)) = Some ?a" "hex_byte (upper_hex (?b div 16)) (upper_hex (?b mod 16)) = Some ?b"
      using small by (intro hex_byte_escape; linarith)+
    have q: "code_unit c div 64 < 4" "2 \<le> code_unit c div 64" using small big by linarith+
    have "sequence_length ?a = 2" using q by (simp add: sequence_length_def)
    moreover have "continuation 1 (CHR ''%'' # upper_hex (?b div 16) # upper_hex (?b mod 16) # s) = Some ([?b], s)"
      using a(2) by (simp add: One_nat_def)
    moreover have "code_point [?a, ?b] = Some (code_unit c)" using big by (simp add: Let_def)
    moreover have "code_unit c < 65536" using small by linarith
    then have "code_units (code_unit c) = [code_unit c]" by (simp add: code_units_def)
    moreover have "(@) [code_unit c] = (#) (code_unit c)" by (simp add: fun_eq_iff)
    ultimately show ?thesis
      using False big a(1) q by (simp add: encode_char_def utf8_single uri_escape_def)
  qed
qed

lemma decode_encode: "decode_uri (encode_uri v) = Some (wide_of v)"
  by (induction v) (simp_all add: encode_uri_Cons decode_encoded_char wide_of_def)

definition cookie_safe :: "char \<Rightarrow> bool" where
  "cookie_safe c \<longleftrightarrow> c \<noteq> CHR '';'' \<and> \<not> is_space c"

lemma upper_hex_safe: "n < 16 \<Longrightarrow> cookie_safe (upper_hex n)"
proof -
  assume "n < 16"
  then have "code_unit (upper_hex n) = (if n < 10 then 48 + n else 55 + n)" by (simp add: upper_hex_def)
  then have "code_unit (upper_hex n) \<notin> {9, 10, 11, 12, 13, 32, 160, 59}" using \<open>n < 16\<close> by (auto split: if_splits)
  then show ?thesis by (auto simp: cookie_safe_def is_space_def)
qed

lemma uri_plain_safe: "uri_plain c \<Longrightarrow> cookie_safe c"
  by (auto simp: uri_plain_def cookie_safe_def is_space_def is_digit_def is_lower_alpha_def is_upper_alpha_def)

lemma encode_uri_safe: "list_all cookie_safe (encode_uri v)"
proof -
  have "list_all cookie_safe (uri_escape b)" if "b < 256" for b
    using that upper_hex_safe [of "b div 16"] upper_hex_safe [of "b mod 16"]
    by (auto simp: uri_escape_def cookie_safe_def is_space_def)
  moreover have "\<forall>b \<in> set (utf8 [c]). b < 256" for c by (auto dest: utf8_bytes)
  ultimately have "list_all cookie_safe (encode_char c)" for c
    by (auto simp: encode_char_def uri_plain_safe list_all_iff)
  then show ?thesis by (induction v) (simp_all add: encode_uri_Cons)
qed

definition cookie_name :: "string \<Rightarrow> bool" where
  "cookie_name n \<longleftrightarrow> n \<noteq> [] \<and> n \<noteq> ''__proto__'' \<and> list_all (\<lambda>c. cookie_safe c \<and> c \<noteq> CHR ''='') n"

text \<open>What a browser keeps of a \<open>Set-Cookie\<close> header and sends back.\<close>

definition cookie_pair :: "string \<Rightarrow> string" where
  "cookie_pair set_cookie = takeWhile (\<lambda>c. c \<noteq> CHR '';'') set_cookie"

definition jar :: "(string \<times> string) list \<Rightarrow> string" where
  "jar kvs = join ''; '' (map (\<lambda>(n, v). n @ ''='' @ encode_uri v) kvs)"

lemma trim_safe: "list_all cookie_safe s \<Longrightarrow> trim s = s"
proof -
  assume s: "list_all cookie_safe s"
  have "dropWhile is_space t = t" if "list_all cookie_safe t" for t
    using that by (cases t) (simp_all add: cookie_safe_def)
  from this [OF s] this [of "rev s"] s show ?thesis by (simp add: trim_def)
qed

lemma serialized_pair:
  assumes "cookie_name n"
  shows "cookie_pair (serialize_cookie now n v opts) = n @ ''='' @ encode_uri v"
proof -
  have safe: "list_all (\<lambda>c. c \<noteq> CHR '';'') (n @ ''='' @ encode_uri v)"
    using assms encode_uri_safe [of v] by (auto simp: cookie_name_def cookie_safe_def list_all_iff)
  have "takeWhile (\<lambda>c. c \<noteq> CHR '';'') (p @ CHR '';'' # r) = p" if "list_all (\<lambda>c. c \<noteq> CHR '';'') p" for p r
    using that by (simp add: takeWhile_append list_all_iff)
  from this [OF safe] show ?thesis by (simp add: cookie_pair_def serialize_cookie_def)
qed

text \<open>Splitting what was joined.\<close>

lemma split_on_clean: "CHR '';'' \<notin> set p \<Longrightarrow> split_on (CHR '';'') (p @ CHR '';'' # s) = p # split_on (CHR '';'') s"
  by (induction p) auto

lemma split_on_none: "CHR '';'' \<notin> set p \<Longrightarrow> split_on (CHR '';'') p = [p]"
  by (induction p) auto

lemma split_on_space: "split_on (CHR '';'') (CHR '' '' # s) = (CHR '' '' # hd (split_on (CHR '';'') s)) # tl (split_on (CHR '';'') s)"
  by (cases "split_on (CHR '';'') s") simp_all

lemma split_joined:
  "p \<noteq> [] \<Longrightarrow> \<forall>x \<in> set p. CHR '';'' \<notin> set x \<Longrightarrow>
   split_on (CHR '';'') (join ''; '' p) = hd p # map ((#) (CHR '' '')) (tl p)"
proof (induction "''; ''" p rule: join.induct)
  case (3 x y ys)
  then show ?case by (simp add: split_on_clean split_on_space)
qed (simp_all add: split_on_none)

lemma trim_space: "trim (CHR '' '' # s) = trim s"
proof -
  have "is_space (CHR '' '')" by (simp add: is_space_def)
  then show ?thesis by (simp add: trim_def)
qed

lemma read_pair:
  assumes "cookie_name n" and "sp = [] \<or> sp = '' ''"
  shows "read_part (sp @ n @ ''='' @ encode_uri v) out = obj_set n (wide_of v) out"
proof -
  have n: "\<forall>c \<in> set n. c \<noteq> CHR ''=''" and safe: "list_all cookie_safe n"
    using assms(1) by (simp_all add: cookie_name_def list_all_iff)
  have part: "takeWhile (\<lambda>c. c \<noteq> CHR ''='') (m @ CHR ''='' # t) = m" "dropWhile (\<lambda>c. c \<noteq> CHR ''='') (m @ CHR ''='' # t) = CHR ''='' # t"
    if "\<forall>c \<in> set m. c \<noteq> CHR ''=''" for m t
    using that by (induction m) simp_all
  have "\<forall>c \<in> set (sp @ n). c \<noteq> CHR ''=''" using assms(2) n by (elim disjE) simp_all
  from part [OF this, of "encode_uri v"]
  have "takeWhile (\<lambda>c. c \<noteq> CHR ''='') (sp @ n @ ''='' @ encode_uri v) = sp @ n"
    and "dropWhile (\<lambda>c. c \<noteq> CHR ''='') (sp @ n @ ''='' @ encode_uri v) = ''='' @ encode_uri v"
    by simp_all
  moreover have "trim (sp @ n) = n" using assms(2) trim_safe [OF safe] trim_space [of n] by (elim disjE) simp_all
  moreover have "trim (encode_uri v) = encode_uri v" by (rule trim_safe [OF encode_uri_safe])
  moreover have "CHR ''='' \<in> set (sp @ n @ ''='' @ encode_uri v)" by simp
  moreover have "n \<noteq> []" "n \<noteq> ''__proto__''" using assms(1) unfolding cookie_name_def by blast+
  ultimately show ?thesis unfolding read_part_def by (simp only: if_False not_True_eq_False Let_def list.sel decode_encode option.case append_Cons append_Nil simp_thms)
qed

lemma read_pairs:
  assumes "\<forall>(n, v) \<in> set kvs. cookie_name n" and "distinct (map fst kvs)" and "fst ` set kvs \<inter> fst ` set out = {}"
  shows "fold read_part (map (\<lambda>(n, v). CHR '' '' # n @ ''='' @ encode_uri v) kvs) out = out @ map (\<lambda>(n, v). (n, wide_of v)) kvs"
  using assms
proof (induction kvs arbitrary: out)
  case (Cons p kvs)
  obtain n v where p: "p = (n, v)" by fastforce
  have "read_part (CHR '' '' # n @ ''='' @ encode_uri v) out = out @ [(n, wide_of v)]"
    using read_pair [of n "'' ''" v out] Cons.prems p by (simp add: obj_set_fresh)
  moreover have "fst ` set kvs \<inter> fst ` set (out @ [(n, wide_of v)]) = {}" using Cons.prems p by auto
  ultimately show ?case using Cons.IH [of "out @ [(n, wide_of v)]"] Cons.prems p by simp
qed simp

lemma jar_read:
  assumes "\<forall>(n, v) \<in> set kvs. cookie_name n" and "distinct (map fst kvs)" and "kvs \<noteq> []"
  shows "parse_cookies (Some (jar kvs)) = map (\<lambda>(n, v). (n, wide_of v)) kvs"
proof -
  obtain n v rest where kvs: "kvs = (n, v) # rest" using assms(3) by (cases kvs) auto
  let ?p = "map (\<lambda>(n, v). n @ ''='' @ encode_uri v) kvs"
  have clean: "CHR '';'' \<notin> set x" if "x \<in> set ?p" for x
  proof -
    obtain m u where "x = m @ ''='' @ encode_uri u" "cookie_name m" using \<open>x \<in> set ?p\<close> assms(1) by auto
    then show ?thesis using encode_uri_safe [of u] by (auto simp: cookie_name_def cookie_safe_def list_all_iff)
  qed
  have "split_on (CHR '';'') (jar kvs) = (n @ ''='' @ encode_uri v) # map (\<lambda>(n, v). CHR '' '' # n @ ''='' @ encode_uri v) rest"
    using split_joined [of ?p] clean by (simp add: jar_def kvs case_prod_unfold comp_def)
  moreover have "jar kvs \<noteq> []" using assms(1) by (cases rest) (auto simp: jar_def kvs)
  moreover have "read_part (n @ ''='' @ encode_uri v) [] = [(n, wide_of v)]"
    using read_pair [of n "[]" v "[]"] assms(1) kvs by simp
  ultimately show ?thesis
    using read_pairs [of rest "[(n, wide_of v)]"] assms(1,2) kvs by (simp add: parse_cookies_def)
qed

text \<open>
  C27: whatever value is put into a cookie, under whatever options and beside whatever other cookies, the
  value parsed from what the browser sends back is that value.
\<close>

theorem cookies_round_trip:
  assumes "\<forall>(n, v) \<in> set kvs. cookie_name n" and "distinct (map fst kvs)" and "kvs \<noteq> []"
  shows "parse_cookies (Some (join ''; '' (map (\<lambda>(n, v). cookie_pair (serialize_cookie (now n) n v (opts n))) kvs))) =
    map (\<lambda>(n, v). (n, wide_of v)) kvs"
proof -
  have "map (\<lambda>(n, v). cookie_pair (serialize_cookie (now n) n v (opts n))) kvs = map (\<lambda>(n, v). n @ ''='' @ encode_uri v) kvs"
    using assms(1) serialized_pair by (auto simp: map_eq_conv)
  then show ?thesis using jar_read [OF assms] by (simp only: jar_def)
qed

theorem cookies_round_trip_witness:
  "parse_cookies (Some (join ''; '' (map (\<lambda>(n, v). cookie_pair (serialize_cookie 0 n v (auth_cookie_options [] (Some 900))))
     [(''access_token'', ''a.b=c; d''), (''refresh_token'', [CHR 0xE9, CHR ''%''])]))) =
   [(''access_token'', wide_of ''a.b=c; d''), (''refresh_token'', [233, 37])]"
  using cookies_round_trip [of "[(''access_token'', ''a.b=c; d''), (''refresh_token'', [CHR 0xE9, CHR ''%''])]" "\<lambda>_. 0"
      "\<lambda>_. auth_cookie_options [] (Some 900)"]
  by (simp add: cookie_name_def cookie_safe_def is_space_def wide_of_def)

section \<open>The double-submit check\<close>

lemma utf8_first: "utf8_units (u # us) \<noteq> []"
  by (auto simp: Let_def split: list.split)

lemma utf8_narrow: "utf8_units (wide_of s) = utf8 s"
proof -
  have "code_unit c < 2048" for c
  proof -
    have "code_unit c < 256" by simp
    then show ?thesis by linarith
  qed
  then show ?thesis by (induction s) (auto simp: wide_of_def utf8_def Let_def)
qed

text \<open>A text of small code units shares its bytes with no other text.\<close>

lemma utf8_units_narrow: "utf8_units (wide_of s) = utf8_units ws \<longleftrightarrow> ws = wide_of s"
proof (induction s arbitrary: ws)
  case Nil
  show ?case
  proof (cases ws)
    case (Cons u us)
    then show ?thesis using utf8_first [of u us] by (simp add: wide_of_def del: utf8_units.simps(2))
  qed (simp add: wide_of_def)
next
  case (Cons c s)
  let ?n = "code_unit c"
  have n: "?n < 256" by simp
  have head: "utf8_units (wide_of (c # s)) = (if ?n < 128 then [?n] else [192 + ?n div 64, 128 + ?n mod 64]) @ utf8_units (wide_of s)"
  proof -
    have "?n < 2048" using n by linarith
    then show ?thesis by (simp add: wide_of_def)
  qed
  have "?n div 64 < 4" using n by linarith
  then have first: "hd (utf8_units (wide_of (c # s))) < 196" unfolding head by simp
  show ?case
  proof (cases ws)
    case Nil
    then show ?thesis using head by (simp add: wide_of_def)
  next
    case ws: (Cons u us)
    consider "u < 128" | "\<not> u < 128" "u < 2048" | "\<not> u < 2048" "\<exists>b bs. utf8_units ws = b # bs \<and> 224 \<le> b"
      unfolding ws by (cases "u < 2048") (auto simp: Let_def split: list.split)
    then show ?thesis
    proof cases
      case 1
      then have "utf8_units ws = u # utf8_units us" by (simp add: ws)
      then show ?thesis using head n 1 Cons.IH [of us] by (auto simp: ws wide_of_def)
    next
      case 2
      then have e: "utf8_units ws = [192 + u div 64, 128 + u mod 64] @ utf8_units us" by (simp add: ws)
      have "?n = u \<longleftrightarrow> ?n div 64 = u div 64 \<and> ?n mod 64 = u mod 64" by (metis div_mult_mod_eq)
      then show ?thesis using head e n 2 Cons.IH [of us] by (auto simp: ws wide_of_def)
    next
      case 3
      then obtain b bs where "utf8_units ws = b # bs" "224 \<le> b" by blast
      then have "hd (utf8_units ws) \<noteq> hd (utf8_units (wide_of (c # s)))" using first by simp
      then have "utf8_units (wide_of (c # s)) \<noteq> utf8_units ws" "ws \<noteq> wide_of (c # s)" by (metis, metis)
      then show ?thesis by blast
    qed
  qed
qed

lemma wide_of_empty [simp]: "wide_of s = [] \<longleftrightarrow> s = []" "[] = wide_of s \<longleftrightarrow> s = []"
  by (auto simp: wide_of_def)

lemma constant_time_exact: "constant_time_equal (wide_of s) ws \<longleftrightarrow> ws = wide_of s"
  using utf8_units_narrow [of s ws] by (auto simp: constant_time_equal_def Let_def)

text \<open>A request repeats its cookie.\<close>

definition repeats_cookie :: "headers \<Rightarrow> bool" where
  "repeats_cookie hs \<longleftrightarrow>
     (case header_value hs ''x-csrf-token'' of
        None \<Rightarrow> False
      | Some s \<Rightarrow> s \<noteq> [] \<and> map_of (parse_cookies (header_value hs ''cookie'')) ''csrf_token'' = Some (wide_of s))"

lemma csrf_guarded:
  assumes "\<not> is_csrf_exempt (ac_method m) (ac_path m)"
  shows "csrf_middleware (Some m) nxt w =
    (if repeats_cookie (ac_headers m) then nxt w
     else let missing = header_value (ac_headers m) ''x-csrf-token'' \<in> {None, Some []} \<or>
              map_of (parse_cookies (header_value (ac_headers m) ''cookie'')) ''csrf_token'' \<in> {None, Some []}
          in seq (log_security_event (if missing then ''csrf.missing'' else ''csrf.mismatch'') [(''path'', ac_path m), (''method'', ac_method m)])
               (throw (if missing then APIError InvalidArgument ''missing CSRF token'' ''CSRF_MISSING''
                       else APIError InvalidArgument ''CSRF token mismatch'' ''CSRF_MISMATCH'')) w)"
  using assms
  by (auto simp: csrf_middleware_def repeats_cookie_def constant_time_exact CSRF_HEADER_def CSRF_COOKIE_def Let_def
      split: option.splits)

text \<open>What a browser does with the answer of the token endpoint: it keeps the pair of each cookie and repeats the body's token.\<close>

definition replay :: "(string \<times> string) list \<Rightarrow> response \<Rightarrow> string \<Rightarrow> headers" where
  "replay kvs res token =
     [(''cookie'', One (join ''; '' (map (\<lambda>(n, v). n @ ''='' @ encode_uri v) kvs @
        (case map_of (rs_headers res) ''Set-Cookie'' of Some (Many cs) \<Rightarrow> map cookie_pair cs | _ \<Rightarrow> [])))),
      (''x-csrf-token'', One token)]"

lemma issued_token_passes:
  assumes "\<forall>(n, v) \<in> set kvs. cookie_name n" and "distinct (map fst kvs)" and "''csrf_token'' \<notin> fst ` set kvs"
    and "rs_headers (g_res w) = []" and "bytes \<noteq> []"
  shows "let u = snd (csrf_token_endpoint bytes w); token = generate_csrf_token bytes in
    rs_body (g_res u) = Some (show_js (JObj [(''token'', JStr token)])) \<and> repeats_cookie (replay kvs (g_res u) token)"
proof -
  let ?u = "snd (csrf_token_endpoint bytes w)" and ?t = "generate_csrf_token bytes"
  let ?c = "serialize_cookie (g_now w) CSRF_COOKIE ?t (auth_cookie_options (g_vars w) (Some ACCESS_TOKEN_MAX_AGE))"
  have name: "cookie_name ''csrf_token''" by (simp add: cookie_name_def cookie_safe_def is_space_def)
  have u: "g_res ?u = \<lparr>rs_status = 200, rs_headers = [(''Set-Cookie'', Many [?c]), (''Content-Type'', One ''application/json'')],
      rs_body = Some (show_js (JObj [(''token'', JStr ?t)]))\<rparr>"
    using assms(4)
    by (cases "g_res w") (simp add: csrf_token_endpoint_def Let_def bnd_run set_csrf_cookie_def put_cookie_def append_set_cookie_def
        set_header_def write_json_def)
  have "cookie_pair ?c = ''csrf_token'' @ ''='' @ encode_uri ?t"
    using serialized_pair [OF name] by (simp add: CSRF_COOKIE_def)
  then have "header_value (replay kvs (g_res ?u) ?t) ''cookie'' = Some (jar (kvs @ [(''csrf_token'', ?t)]))"
    by (simp add: replay_def u header_value_def jar_def)
  moreover have "parse_cookies (Some (jar (kvs @ [(''csrf_token'', ?t)]))) = map (\<lambda>(n, v). (n, wide_of v)) (kvs @ [(''csrf_token'', ?t)])"
    using assms(1-3) name by (intro jar_read) auto
  moreover have "map_of (map (\<lambda>(n, v). (n, wide_of v)) (kvs @ [(''csrf_token'', ?t)])) ''csrf_token'' = Some (wide_of ?t)"
  proof -
    have "map_of (map (\<lambda>(n, v). (n, wide_of v)) kvs) ''csrf_token'' = None"
      using assms(3) by (force simp: map_of_eq_None_iff)
    then show ?thesis by (simp add: map_add_def)
  qed
  moreover have "?t \<noteq> []" using assms(5) by (cases bytes) (simp_all add: generate_csrf_token_def hex_text_def)
  moreover have "header_value (replay kvs (g_res ?u) ?t) ''x-csrf-token'' = Some ?t" by (simp add: replay_def header_value_def)
  ultimately show ?thesis using u by (simp add: Let_def repeats_cookie_def)
qed


definition demo_call :: "string \<Rightarrow> string \<Rightarrow> headers \<Rightarrow> api_call" where
  "demo_call method path hs = \<lparr>ac_method = method, ac_path = path, ac_headers = hs, ac_service = ''auth'', ac_endpoint = ''logout''\<rparr>"

definition demo_jar :: "string \<Rightarrow> string" where
  "demo_jar token = jar [(''a'', ''1''), (''csrf_token'', token)]"

lemma demo_jar_read: "parse_cookies (Some (demo_jar token)) = [(''a'', wide_of ''1''), (''csrf_token'', wide_of token)]"
  using jar_read [of "[(''a'', ''1''), (''csrf_token'', token)]"]
  by (simp add: demo_jar_def cookie_name_def cookie_safe_def is_space_def)

definition demo_post :: "string \<Rightarrow> string \<Rightarrow> api_call" where
  "demo_post cookie sent = demo_call ''POST'' ''/api/v1/auth/logout'' [(''cookie'', One (demo_jar cookie)), (''x-csrf-token'', One sent)]"

lemma demo_post_repeats: "repeats_cookie (ac_headers (demo_post cookie sent)) \<longleftrightarrow> sent \<noteq> [] \<and> wide_of cookie = wide_of sent"
  by (simp add: demo_post_def demo_call_def repeats_cookie_def header_value_def demo_jar_read)

lemma demo_post_guarded: "\<not> is_csrf_exempt (ac_method (demo_post cookie sent)) (ac_path (demo_post cookie sent))"
  by (simp add: demo_post_def demo_call_def is_csrf_exempt_def SAFE_METHODS_def ends_with_def upper_ascii_def is_lower_alpha_def)


section \<open>Who is calling\<close>

definition plain_address :: "string \<Rightarrow> bool" where
  "plain_address a \<longleftrightarrow> a \<noteq> [] \<and> CHR '','' \<notin> set a \<and> trim a = a"

text \<open>
  What a proxy does to the lines of \<open>X-Forwarded-For\<close>: it adds the address it was called from, to the last line or on a line
  of its own.
\<close>

definition add_hop :: "bool \<times> string \<Rightarrow> string list \<Rightarrow> string list" where
  "add_hop hop ls = (if fst hop \<and> ls \<noteq> [] then butlast ls @ [last ls @ '', '' @ snd hop] else ls @ [snd hop])"

definition forwarded_header :: "string list \<Rightarrow> (bool \<times> string) list \<Rightarrow> header" where
  "forwarded_header client path = (let ls = fold add_hop path client in if length ls = 1 then One (hd ls) else Many ls)"

definition chain_of :: "string list \<Rightarrow> string list" where
  "chain_of ls = filter (\<lambda>e. 0 < length e) (map trim (concat (map (split_on (CHR '','')) ls)))"

lemma split_on_two: "split_on c (a @ c # b) = split_on c a @ split_on c b"
proof (induction a)
  case (Cons x a)
  then show ?case by (cases "split_on c a") (simp_all split: list.split)
qed simp

lemma split_on_plain: "c \<notin> set a \<Longrightarrow> split_on c a = [a]"
  by (induction a) auto

lemma chain_of_append: "chain_of (xs @ ys) = chain_of xs @ chain_of ys"
  by (simp add: chain_of_def)

lemma chain_of_line: "plain_address a \<Longrightarrow> chain_of [a] = [a]"
  by (simp add: chain_of_def plain_address_def split_on_plain)

lemma chain_of_joined:
  assumes "plain_address a"
  shows "chain_of [l @ '', '' @ a] = chain_of [l] @ [a]"
proof -
  have "CHR '','' \<notin> set (CHR '' '' # a)" using assms by (simp add: plain_address_def)
  then have "split_on (CHR '','') (l @ '', '' @ a) = split_on (CHR '','') l @ [CHR '' '' # a]"
    using split_on_two [of "CHR '',''" l "CHR '' '' # a"] split_on_plain by simp
  then show ?thesis using assms by (simp add: chain_of_def plain_address_def trim_space)
qed

lemma chain_of_hop:
  assumes "plain_address (snd hop)"
  shows "chain_of (add_hop hop ls) = chain_of ls @ [snd hop]"
proof (cases "fst hop \<and> ls \<noteq> []")
  case True
  then have "chain_of ls = chain_of (butlast ls) @ chain_of [last ls]"
    using chain_of_append [of "butlast ls" "[last ls]"] by simp
  then show ?thesis using True chain_of_joined [OF assms] by (simp add: add_hop_def chain_of_append)
next
  case False
  then have "add_hop hop ls = ls @ [snd hop]" unfolding add_hop_def by simp
  then show ?thesis using chain_of_line [OF assms] by (simp add: chain_of_append)
qed

lemma chain_of_path: "\<forall>h \<in> set path. plain_address (snd h) \<Longrightarrow> chain_of (fold add_hop path ls) = chain_of ls @ map snd path"
  by (induction path arbitrary: ls) (simp_all add: chain_of_hop)

lemma forwarded_chain_path:
  assumes "\<forall>h \<in> set path. plain_address (snd h)"
  shows "forwarded_chain ((''x-forwarded-for'', forwarded_header client path) # rest) = chain_of client @ map snd path"
proof -
  let ?ls = "fold add_hop path client"
  have "forwarded_chain ((''x-forwarded-for'', forwarded_header client path) # rest) = chain_of ?ls"
    by (cases ?ls) (simp_all add: forwarded_chain_def forwarded_header_def chain_of_def Let_def)
  then show ?thesis using chain_of_path [OF assms] by simp
qed

lemma resolved_path:
  assumes "\<forall>h \<in> set path. plain_address (snd h)" and "trusted_proxy_hops vars = length path" and "path \<noteq> []"
  shows "resolve_client vars ((''x-forwarded-for'', forwarded_header client path) # rest) peer = Trusted (snd (hd path))"
proof -
  have "(chain_of client @ map snd path) ! (length (chain_of client @ map snd path) - length path) = snd (hd path)"
    using assms(3) by (simp add: nth_append hd_conv_nth)
  then show ?thesis
    unfolding resolve_client_def forwarded_chain_path [OF assms(1)] assms(2) using assms(3) by (simp add: Let_def)
qed

text \<open>
  C16: behind the declared number of proxies a caller is known by the address the outermost of them was
  called from, whatever lines the caller wrote into the header itself: that address is what the limiter counts, and it and the
  socket's address are all that is passed on. With no declared proxy the header is not looked at.
\<close>

theorem identity_not_forgeable:
  assumes "\<forall>h \<in> set path. plain_address (snd h)" and "trusted_proxy_hops vars = length path"
  shows "let hs = (''x-forwarded-for'', forwarded_header client path) # rest; a = snd (hd path) in
    if path = [] then resolve_client vars hs peer = (if peer = None \<or> peer = Some [] then Untrusted else Trusted (the peer))
    else resolve_client vars hs peer = Trusted a \<and>
      vouched_forwarded_for vars hs peer \<in> {a, a @ '', '' @ the peer} \<and>
      (g_vars w = vars \<longrightarrow>
        api_rate_limit K H (Some (m\<lparr>ac_headers := hs\<rparr>)) nxt w =
        bnd (within_limit K H ''api'' a API_LIMIT) (\<lambda>ok. if ok then nxt else throw rate_limited) w)"
proof (cases "path = []")
  case True
  then show ?thesis using assms(2) by (auto simp: resolve_client_def Let_def split: option.split)
next
  case False
  then show ?thesis
    using resolved_path [OF assms False]
    by (auto simp: Let_def vouched_forwarded_for_def client_address_def api_rate_limit_def split: option.split)
qed

definition two_hops :: "(string \<times> string) list" where
  "two_hops = [(''ENRAHITU_TRUSTED_PROXY_HOPS'', '' 2 '')]"

lemma two_hops_declared: "trusted_proxy_hops two_hops = 2" by code_simp

theorem identity_not_forgeable_witness:
  "resolve_client two_hops [(''x-forwarded-for'', forwarded_header [''10.0.0.1, 8.8.8.8'', ''1.1.1.1''] [(True, ''203.0.113.7''), (False, ''10.1.1.1'')])] None =
   Trusted ''203.0.113.7''"
proof -
  have "\<forall>h \<in> set [(True, ''203.0.113.7''), (False, ''10.1.1.1'')]. plain_address (snd h)"
    by (simp add: plain_address_def trim_def is_space_def)
  from identity_not_forgeable [OF this, of two_hops "[''10.0.0.1, 8.8.8.8'', ''1.1.1.1'']" "[]" None "w :: guard_world" K H m "ret ()"]
  show ?thesis by (simp add: two_hops_declared Let_def split: if_splits)
qed

section \<open>The limiter\<close>

text \<open>
  What the code relies on of the counters: adding is atomic and answers the new count, a deleted counter is absent, and a call
  that fails either took place or did not. The counters live in the part of the world that extends \<open>guard_world\<close>.
\<close>

definition counting :: "'x guard_world_scheme addon \<Rightarrow> ('x \<Rightarrow> string \<Rightarrow> int) \<Rightarrow> bool" where
  "counting H cnt \<longleftrightarrow>
     (\<forall>w key d. case h_counter_add H key d w of (r, u) \<Rightarrow>
        (\<exists>x. u = guard_world.more_update (\<lambda>_. x) w \<and>
          (case r of
             Inr n \<Rightarrow> n = cnt (guard_world.more w) key + d \<and> cnt x = (cnt (guard_world.more w))(key := n)
           | Inl e \<Rightarrow> cnt x = cnt (guard_world.more w) \<or> cnt x = (cnt (guard_world.more w))(key := cnt (guard_world.more w) key + d)))) \<and>
     (\<forall>w key. case h_counter_del H key w of (r, u) \<Rightarrow>
        (\<exists>x. u = guard_world.more_update (\<lambda>_. x) w \<and>
          (cnt x = (cnt (guard_world.more w))(key := 0) \<or> (\<exists>e. r = Inl e) \<and> cnt x = cnt (guard_world.more w))))"

text \<open>A hit: when, and against which tier, client and limit. Hits of all processes and clients, in the order the counters see them.\<close>

record hit =
  ht_now :: int
  ht_tier :: string
  ht_client :: string

definition bucket_of :: "hit \<Rightarrow> string" where
  "bucket_of h = bucket_key (ht_tier h) (ht_client h) (window_ordinal (ht_now h))"

fun traffic ::
  "kernel \<Rightarrow> 'x guard_world_scheme addon \<Rightarrow> (string \<Rightarrow> int) \<Rightarrow> hit list \<Rightarrow> ('x guard_world_scheme, bool list) io" where
  "traffic K H limits [] = ret []"
| "traffic K H limits (h # hs) =
     seq (modify (\<lambda>w. w\<lparr>g_now := ht_now h\<rparr>))
    (bnd (within_limit K H (ht_tier h) (ht_client h) (limits (ht_tier h))) (\<lambda>b.
     bnd (traffic K H limits hs) (\<lambda>bs. ret (b # bs))))"

definition backend_errors :: "'x guard_world_scheme \<Rightarrow> int" where
  "backend_errors w = int (length (filter (\<lambda>e. fst e = ''security.ratelimit.backend_error'') (g_log w)))"

definition tier_name :: "string \<Rightarrow> bool" where
  "tier_name t \<longleftrightarrow> CHR '':'' \<notin> set t"

lemma digits_no_colon: "CHR '':'' \<notin> set (show_int i)"
proof -
  have "CHR '':'' \<notin> set (show_nat n)" for n using show_nat_digits [of n] by (auto simp: is_digit_def)
  then show ?thesis by (simp add: show_int_def)
qed

lemma split_at_last: "CHR '':'' \<notin> set a \<Longrightarrow> CHR '':'' \<notin> set b \<Longrightarrow> x @ '':'' @ a = y @ '':'' @ b \<Longrightarrow> x = y \<and> a = b"
proof -
  assume a: "CHR '':'' \<notin> set a" and b: "CHR '':'' \<notin> set b" and e: "x @ '':'' @ a = y @ '':'' @ b"
  have "takeWhile (\<lambda>c. c \<noteq> CHR '':'') (rev z @ CHR '':'' # r) = rev z" if "CHR '':'' \<notin> set z" for z r
    using that by (simp add: takeWhile_append)
  from this [OF a, of "rev x"] this [OF b, of "rev y"] have "rev a = rev b" using arg_cong [OF e, of rev] by simp
  then show ?thesis using e by simp
qed

lemma split_at_first: "CHR '':'' \<notin> set a \<Longrightarrow> CHR '':'' \<notin> set b \<Longrightarrow> a @ CHR '':'' # x = b @ CHR '':'' # y \<Longrightarrow> a = b \<and> x = y"
proof (induction a arbitrary: b)
  case Nil
  then show ?case by (cases b) auto
next
  case (Cons c a)
  then show ?case by (cases b) auto
qed

lemma bucket_inject:
  assumes "tier_name t" and "tier_name t'"
  shows "bucket_key t c w = bucket_key t' c' w' \<longleftrightarrow> t = t' \<and> c = c' \<and> w = w'"
proof
  assume "bucket_key t c w = bucket_key t' c' w'"
  then have "t @ CHR '':'' # (c @ '':'' @ show_int w) = t' @ CHR '':'' # (c' @ '':'' @ show_int w')" by (simp add: bucket_key_def)
  then have "t = t'" "c @ '':'' @ show_int w = c' @ '':'' @ show_int w'" using split_at_first assms unfolding tier_name_def by blast+
  then show "t = t' \<and> c = c' \<and> w = w'" using split_at_last [OF digits_no_colon digits_no_colon] by fastforce
qed simp

definition counted :: "('x \<Rightarrow> string \<Rightarrow> int) \<Rightarrow> 'x guard_world_scheme \<Rightarrow> string \<Rightarrow> int" where
  "counted cnt w = cnt (guard_world.more w)"

definition same_guard :: "'x guard_world_scheme \<Rightarrow> 'x guard_world_scheme \<Rightarrow> bool" where
  "same_guard w u \<longleftrightarrow> g_now u = g_now w \<and> g_log u = g_log w"

lemma plane_same: "plane_only w u \<Longrightarrow> same_guard w u \<and> counted cnt u = counted cnt w"
  by (auto simp: plane_only_def same_guard_def counted_def)

lemma counting_add:
  assumes "counting H cnt" and "h_counter_add H key d w = (r, u)"
  shows "\<exists>x. u = guard_world.more_update (\<lambda>_. x) w \<and>
    (case r of
       Inr n \<Rightarrow> n = counted cnt w key + d \<and> cnt x = (counted cnt w)(key := n)
     | Inl e \<Rightarrow> cnt x = counted cnt w \<or> cnt x = (counted cnt w)(key := counted cnt w key + d))"
  using assms(1) [unfolded counting_def, THEN conjunct1, rule_format, of w key d] assms(2)
  by (cases r) (simp_all add: counted_def)

lemma counting_del:
  assumes "counting H cnt" and "h_counter_del H key w = (r, u)"
  shows "\<exists>x. u = guard_world.more_update (\<lambda>_. x) w \<and> (cnt x = (counted cnt w)(key := 0) \<or> cnt x = counted cnt w)"
  using assms(1) [unfolded counting_def, THEN conjunct2, rule_format, of w key] assms(2) by (auto simp: counted_def)

lemma keyed_cases:
  assumes "keyed K H kind resource key call w = (r, u)"
  shows "(\<exists>e. r = Inl e \<and> plane_only w u) \<or> (\<exists>w1. plane_only w w1 \<and> call w1 = (r, u))"
proof -
  obtain d w1 where d: "demand K kind resource (with_attributes [(''key'', JStr key)]) w = (d, w1)" by fastforce
  have "plane_only w w1" by (rule alongD [OF demand_plane d])
  with assms d show ?thesis
    by (cases d; cases "h_ready H") (auto simp: keyed_def bnd_run await_ready_def)
qed

lemma add_cases:
  assumes "counting H cnt" and "counter_add K H key 1 w = (r, u)"
  shows "same_guard w u \<and>
    (case r of
       Inr n \<Rightarrow> n = counted cnt w key + 1 \<and> counted cnt u = (counted cnt w)(key := n)
     | Inl e \<Rightarrow> counted cnt u = counted cnt w \<or> counted cnt u = (counted cnt w)(key := counted cnt w key + 1))"
  using keyed_cases [OF assms(2) [unfolded counter_add_def]]
proof (elim disjE exE conjE)
  fix w1
  assume w1: "plane_only w w1" "h_counter_add H key 1 w1 = (r, u)"
  then obtain x where "u = guard_world.more_update (\<lambda>_. x) w1"
      "case r of Inr n \<Rightarrow> n = counted cnt w1 key + 1 \<and> cnt x = (counted cnt w1)(key := n)
       | Inl e \<Rightarrow> cnt x = counted cnt w1 \<or> cnt x = (counted cnt w1)(key := counted cnt w1 key + 1)"
    using counting_add [OF assms(1) w1(2)] by blast
  then show ?thesis using plane_same [OF w1(1), of cnt] by (auto simp: same_guard_def counted_def split: sum.splits)
qed (use plane_same in \<open>auto split: sum.splits\<close>)

lemma del_cases:
  assumes "counting H cnt" and "counter_del K H key w = (r, u)"
  shows "same_guard w u \<and> (counted cnt u = counted cnt w \<or> counted cnt u = (counted cnt w)(key := 0))"
  using keyed_cases [OF assms(2) [unfolded counter_del_def]]
proof (elim disjE exE conjE)
  fix w1
  assume w1: "plane_only w w1" "h_counter_del H key w1 = (r, u)"
  then obtain x where "u = guard_world.more_update (\<lambda>_. x) w1" "cnt x = (counted cnt w1)(key := 0) \<or> cnt x = counted cnt w1"
    using counting_del [OF assms(1) w1(2)] by blast
  then show ?thesis using plane_same [OF w1(1), of cnt] by (auto simp: same_guard_def counted_def)
qed (use plane_same in auto)

lemma increment_cases:
  fixes w :: "'x guard_world_scheme"
  assumes "counting H cnt" and "increment K H t c w = (Inr v, u)"
  defines "b \<equiv> bucket_key t c (window_ordinal (g_now w))"
  shows "same_guard w u \<and>
    (case v of
       None \<Rightarrow> counted cnt u = counted cnt w \<or> counted cnt u = (counted cnt w)(b := counted cnt w b + 1)
     | Some n \<Rightarrow> n = counted cnt w b + 1 \<and>
         (counted cnt u = (counted cnt w)(b := n) \<or>
          counted cnt u = ((counted cnt w)(b := n))(bucket_key t c (window_ordinal (g_now w) - 1) := 0)))"
proof -
  obtain r w1 where a: "counter_add K H b 1 w = (r, w1)" by fastforce
  note ac = add_cases [OF assms(1) a]
  obtain d w2 where d: "counter_del K H (bucket_key t c (window_ordinal (g_now w) - 1)) w1 = (d, w2)" by fastforce
  note dc = del_cases [OF assms(1) d]
  show ?thesis
  proof (cases r)
    case (Inl e)
    then show ?thesis using assms(2) a ac by (auto simp: increment_def catch_run bnd_run b_def split: if_splits)
  next
    case (Inr n)
    show ?thesis
    proof (cases "n = 1")
      case False
      then show ?thesis using assms(2) a ac Inr by (auto simp: increment_def catch_run bnd_run b_def)
    next
      case True
      then have "v = Some n \<and> u = w2"
        using assms(2) a d Inr by (auto simp: increment_def catch_run bnd_run b_def split: sum.splits if_splits)
      then show ?thesis using ac dc Inr by (auto simp: same_guard_def)
    qed
  qed
qed

lemma hit_cases:
  fixes w :: "'x guard_world_scheme"
  assumes "counting H cnt" and "within_limit K H t c l w = (Inr ok, u)"
  defines "b \<equiv> bucket_key t c (window_ordinal (g_now w))"
  shows "(ok \<and> backend_errors u = backend_errors w + 1 \<and>
            (counted cnt u = counted cnt w \<or> counted cnt u = (counted cnt w)(b := counted cnt w b + 1))) \<or>
         ((ok \<longleftrightarrow> counted cnt w b + 1 \<le> l) \<and> backend_errors u = backend_errors w \<and>
            (counted cnt u = (counted cnt w)(b := counted cnt w b + 1) \<or>
             counted cnt u = ((counted cnt w)(b := counted cnt w b + 1))(bucket_key t c (window_ordinal (g_now w) - 1) := 0)))"
proof -
  obtain r w1 where i: "increment K H t c w = (r, w1)" by fastforce
  with assms(2) obtain v where v: "r = Inr v" by (cases r) (auto simp: within_limit_def bnd_run)
  have u: "u = (case v of None \<Rightarrow> w1\<lparr>g_log := g_log w1 @ [(''security.ratelimit.backend_error'', redact (env_bool (g_vars w1) ''LOG_PII'' False) [(''tier'', t)])]\<rparr>
      | Some n \<Rightarrow> if n > l then w1\<lparr>g_log := g_log w1 @ [(''security.ratelimit.exceeded'', redact (env_bool (g_vars w1) ''LOG_PII'' False) [(''tier'', t)])]\<rparr> else w1)"
    and ok: "ok = (case v of None \<Rightarrow> True | Some n \<Rightarrow> \<not> n > l)"
    using assms(2) i v by (auto simp: within_limit_def bnd_run log_security_event_def log_event_def split: option.splits if_splits)
  note c = increment_cases [OF assms(1) i [unfolded v], folded b_def]
  show ?thesis
  proof (cases v)
    case None
    then show ?thesis using c u ok by (auto simp: backend_errors_def same_guard_def counted_def)
  next
    case (Some n)
    then show ?thesis using c u ok by (auto simp: backend_errors_def same_guard_def counted_def not_less)
  qed
qed

text \<open>The hits of a bucket that were let through.\<close>

definition admitted :: "string \<Rightarrow> hit list \<Rightarrow> bool list \<Rightarrow> int" where
  "admitted b hs oks = int (length (filter (\<lambda>(h, ok). ok \<and> bucket_of h = b) (zip hs oks)))"

lemma traffic_Cons:
  assumes "traffic K H limits (h # hs) w = (Inr oks, u)"
  shows "\<exists>ok oks' w1. oks = ok # oks' \<and>
    within_limit K H (ht_tier h) (ht_client h) (limits (ht_tier h)) (w\<lparr>g_now := ht_now h\<rparr>) = (Inr ok, w1) \<and>
    traffic K H limits hs w1 = (Inr oks', u)"
  using assms by (auto simp: bnd_run split: prod.splits sum.splits)

lemma hit_at:
  assumes "counting H cnt" and "within_limit K H (ht_tier h) (ht_client h) l (w\<lparr>g_now := ht_now h\<rparr>) = (Inr ok, u)"
  shows "(ok \<and> backend_errors u = backend_errors w + 1 \<and>
            (counted cnt u = counted cnt w \<or> counted cnt u = (counted cnt w)(bucket_of h := counted cnt w (bucket_of h) + 1))) \<or>
         ((ok \<longleftrightarrow> counted cnt w (bucket_of h) + 1 \<le> l) \<and> backend_errors u = backend_errors w \<and>
            (counted cnt u = (counted cnt w)(bucket_of h := counted cnt w (bucket_of h) + 1) \<or>
             counted cnt u = ((counted cnt w)(bucket_of h := counted cnt w (bucket_of h) + 1))
               (bucket_key (ht_tier h) (ht_client h) (window_ordinal (ht_now h) - 1) := 0)))"
  using hit_cases [OF assms] by (simp add: bucket_of_def counted_def backend_errors_def)

lemma traffic_errors:
  assumes "counting H cnt"
  shows "traffic K H limits hs w = (Inr oks, u) \<Longrightarrow> backend_errors w \<le> backend_errors u"
proof (induction hs arbitrary: w oks)
  case (Cons h hs)
  from traffic_Cons [OF Cons.prems] obtain ok oks' w1 where
      "within_limit K H (ht_tier h) (ht_client h) (limits (ht_tier h)) (w\<lparr>g_now := ht_now h\<rparr>) = (Inr ok, w1)"
      "traffic K H limits hs w1 = (Inr oks', u)" by blast
  then show ?case using hit_at [OF assms, of K h "limits (ht_tier h)" w ok w1] Cons.IH by fastforce
qed simp

lemma window_later: "a \<le> b \<Longrightarrow> window_ordinal a \<le> window_ordinal b"
  by (simp add: window_ordinal_def WINDOW_SECONDS_def zdiv_mono1)

lemma none_later:
  assumes "\<forall>h \<in> set hs. tier_name (ht_tier h) \<and> W < window_ordinal (ht_now h)" and "tier_name t"
  shows "admitted (bucket_key t c W) hs oks = 0"
proof -
  have "bucket_of h \<noteq> bucket_key t c W" if "h \<in> set hs" for h
    using assms that by (auto simp: bucket_of_def bucket_inject)
  then have "filter (\<lambda>(h, ok). ok \<and> bucket_of h = bucket_key t c W) (zip hs oks) = []"
    by (auto simp: filter_empty_conv dest: set_zip_leftD)
  then show ?thesis by (simp add: admitted_def)
qed

lemma traffic_bound:
  assumes "counting H cnt" and "tier_name t"
  shows "traffic K H limits hs w = (Inr oks, u) \<Longrightarrow> \<forall>h \<in> set hs. tier_name (ht_tier h) \<Longrightarrow> sorted (map ht_now hs) \<Longrightarrow>
    admitted (bucket_key t c W) hs oks + backend_errors w \<le>
    max 0 (limits t - counted cnt w (bucket_key t c W)) + backend_errors u"
proof (induction hs arbitrary: w oks)
  case Nil
  then show ?case by (auto simp: admitted_def)
next
  case (Cons h hs)
  let ?b = "bucket_key t c W"
  from traffic_Cons [OF Cons.prems(1)] obtain ok oks' w1 where s: "oks = ok # oks'"
      "within_limit K H (ht_tier h) (ht_client h) (limits (ht_tier h)) (w\<lparr>g_now := ht_now h\<rparr>) = (Inr ok, w1)"
      "traffic K H limits hs w1 = (Inr oks', u)" by blast
  note step = hit_at [OF assms(1) s(2)]
  have tier: "tier_name (ht_tier h)" using Cons.prems(2) by simp
  have IH: "admitted ?b hs oks' + backend_errors w1 \<le> max 0 (limits t - counted cnt w1 ?b) + backend_errors u"
    using Cons.IH [OF s(3)] Cons.prems(2,3) by simp
  have adm: "admitted ?b (h # hs) oks = admitted ?b hs oks' + (if ok \<and> bucket_of h = ?b then 1 else 0)"
    by (simp add: admitted_def s(1))
  have dead: "bucket_key (ht_tier h) (ht_client h) (window_ordinal (ht_now h) - 1) = ?b \<Longrightarrow> W < window_ordinal (ht_now h)"
    using bucket_inject [OF tier assms(2)] by auto
  show ?case
  proof (cases "bucket_of h = ?b")
    case True
    then have "ht_tier h = t" "window_ordinal (ht_now h) = W"
      using bucket_inject [OF tier assms(2)] by (auto simp: bucket_of_def)
    then show ?thesis using step IH adm True dead by (auto split: if_splits)
  next
    case other: False
    show ?thesis
    proof (cases "bucket_key (ht_tier h) (ht_client h) (window_ordinal (ht_now h) - 1) = ?b")
      case False
      then have "counted cnt w1 ?b = counted cnt w ?b" "backend_errors w \<le> backend_errors w1" using step other by auto
      then show ?thesis using IH adm other by simp
    next
      case True
      have "W < window_ordinal (ht_now h')" if "h' \<in> set hs" for h'
        using Cons.prems(3) that dead [OF True] window_later [of "ht_now h" "ht_now h'"] by force
      then have "admitted ?b hs oks' = 0" using Cons.prems(2) by (intro none_later assms(2)) auto
      moreover have "backend_errors w \<le> backend_errors u"
        using traffic_errors [OF assms(1) s(3)] step by auto
      ultimately show ?thesis using adm other by simp
    qed
  qed
qed

text \<open>Who is refused has used the window up.\<close>

lemma traffic_fair:
  assumes "counting H cnt"
  shows "traffic K H limits hs w = (Inr oks, u) \<Longrightarrow> \<forall>k. 0 \<le> counted cnt w k \<Longrightarrow> i < length hs \<Longrightarrow> \<not> oks ! i \<Longrightarrow>
    limits (ht_tier (hs ! i)) \<le> counted cnt w (bucket_of (hs ! i)) +
      int (length (filter (\<lambda>h. bucket_of h = bucket_of (hs ! i)) (take i hs)))"
proof (induction hs arbitrary: w oks i)
  case (Cons h hs)
  from traffic_Cons [OF Cons.prems(1)] obtain ok oks' w1 where s: "oks = ok # oks'"
      "within_limit K H (ht_tier h) (ht_client h) (limits (ht_tier h)) (w\<lparr>g_now := ht_now h\<rparr>) = (Inr ok, w1)"
      "traffic K H limits hs w1 = (Inr oks', u)" by blast
  note step = hit_at [OF assms s(2)]
  show ?case
  proof (cases i)
    case 0
    then show ?thesis using step Cons.prems(4) s(1) by auto
  next
    case (Suc j)
    have "\<forall>k. 0 \<le> counted cnt w1 k" using step Cons.prems(2) by (auto simp: add_nonneg_nonneg)
    from Cons.IH [OF s(3) this, of j]
    have "limits (ht_tier (hs ! j)) \<le> counted cnt w1 (bucket_of (hs ! j)) +
        int (length (filter (\<lambda>h. bucket_of h = bucket_of (hs ! j)) (take j hs)))"
      using Cons.prems(3,4) Suc s(1) by simp
    moreover have "counted cnt w1 k \<le> counted cnt w k + (if bucket_of h = k then 1 else 0)" for k
      using step Cons.prems(2) by (auto simp: add_nonneg_nonneg)
    from this [of "bucket_of (hs ! j)"]
    have "counted cnt w1 (bucket_of (hs ! j)) \<le> counted cnt w (bucket_of (hs ! j)) + (if bucket_of h = bucket_of (hs ! j) then 1 else 0)" .
    ultimately show ?thesis by (simp add: Suc split: if_splits)
  qed
qed simp


text \<open>Counters as a list of keys, and what a process whose clock lags is let through.\<close>

definition read_count :: "(string \<times> int) list \<Rightarrow> string \<Rightarrow> int" where
  "read_count kvs k = (case map_of kvs k of Some n \<Rightarrow> n | None \<Rightarrow> 0)"

definition demo_counters :: "(string \<times> int) list guard_world_scheme addon" where
  "demo_counters =
     \<lparr>h_ready = Inr (), h_health = ret [], h_kv_put = (\<lambda>_ _ _. ret ()), h_kv_get = (\<lambda>_. ret None), h_kv_del = (\<lambda>_. ret ()),
      h_counter_add = (\<lambda>key d w. let n = read_count (guard_world.more w) key + d in
        (Inr n, guard_world.more_update (\<lambda>_. obj_set key n (guard_world.more w)) w)),
      h_counter_get = (\<lambda>key. gets (\<lambda>w. map_of (guard_world.more w) key)),
      h_counter_set = (\<lambda>key n. modify (guard_world.more_update (obj_set key n))),
      h_counter_del = (\<lambda>key w. (Inr (), guard_world.more_update (\<lambda>_. filter (\<lambda>p. fst p \<noteq> key) (guard_world.more w)) w))\<rparr>"

lemma map_of_without: "map_of (filter (\<lambda>p. fst p \<noteq> k) kvs) = (map_of kvs)(k := None)"
  by (induction kvs) (auto simp: fun_eq_iff)

lemma demo_counting: "counting demo_counters read_count"
proof -
  have "read_count (obj_set k n kvs) = (read_count kvs)(k := n)" for k n kvs
    by (simp add: fun_eq_iff read_count_def map_of_obj_set)
  moreover have "read_count (filter (\<lambda>p. fst p \<noteq> k) kvs) = (read_count kvs)(k := 0)" for k kvs
    by (simp add: fun_eq_iff read_count_def map_of_without)
  ultimately show ?thesis
    unfolding counting_def demo_counters_def Let_def by fastforce
qed

definition demo_guard :: "(string \<times> int) list guard_world_scheme" where
  "demo_guard = guard_world.extend (plane.extend (plane.truncate (demo_cell empty_store [])) 
     \<lparr>g_now = 0, g_vars = [], g_log = [], g_res = \<lparr>rs_status = 200, rs_headers = [], rs_body = None\<rparr>\<rparr>) []"

definition demo_hit :: "int \<Rightarrow> hit" where
  "demo_hit now = \<lparr>ht_now = now, ht_tier = ''auth'', ht_client = ''10.0.0.9''\<rparr>"

lemma demo_traffic:
  "fst (traffic allow_kernel demo_counters (\<lambda>_. 2) (map demo_hit [59000, 59500, 59900, 60000]) demo_guard) = Inr [True, True, False, True]"
  by code_simp


text \<open>
  The ordinal of a window is not the same for every process: one whose clock is behind is still in the window whose bucket another
  has deleted, and there a used-up client starts anew.
\<close>

lemma lagging_clock_gets_more:
  "fst (traffic allow_kernel demo_counters (\<lambda>_. 2) (map demo_hit [59000, 59100, 59200, 60000, 59300, 59400]) demo_guard) =
     Inr [True, True, False, True, True, True]"
  by code_simp

section \<open>The bearer check\<close>

unbundle bit_operations_syntax

lemma or_all_zero: "fold (\<lambda>i d. d OR f i) is a = (0::nat) \<longleftrightarrow> a = 0 \<and> (\<forall>i \<in> set is. f i = 0)"
  by (induction "is" arbitrary: a) (auto simp: or_eq_0_iff)

lemma xor_zero: "a XOR b = 0 \<longleftrightarrow> a = (b::nat)"
  by (auto simp: bit_eq_iff bit_xor_iff)

text \<open>The comparison that looks at every character is equality.\<close>

lemma token_matches_exact: "token_matches p e \<longleftrightarrow> p = e"
  unfolding token_matches_def or_all_zero xor_zero by (auto intro: nth_equalityI)

lemma metrics_gate: "metrics_authorized hdr (Some e) \<longleftrightarrow> e = [] \<or> bearer_token hdr = Some e"
  by (auto simp: metrics_authorized_def token_matches_exact split: option.split)

end
