(* ===== verification/Session_Claims.thy ===== *)
theory Session_Claims
  imports Sessions Request_Guard_Claims
begin

text \<open>
  What a session is worth: in production every access token rests on claims the identity provider answered, whatever
  cookies are presented; a login is what the endpoints see until it expires; a renewal keeps the subject.
\<close>

section \<open>What a request puts into its response\<close>

definition set_cookies :: "'x guard_world_scheme \<Rightarrow> string list" where
  "set_cookies w =
     (case map_of (rs_headers (g_res w)) ''Set-Cookie'' of None \<Rightarrow> [] | Some (One s) \<Rightarrow> [s] | Some (Many ss) \<Rightarrow> ss)"

text \<open>The environment stays, and each cookie added is of the set.\<close>

definition cookies_from :: "(string \<times> string) list \<Rightarrow> string set \<Rightarrow> 'x guard_world_scheme \<Rightarrow> 'x guard_world_scheme \<Rightarrow> bool" where
  "cookies_from vars G w u \<longleftrightarrow>
     (g_vars w = vars \<longrightarrow> g_vars u = vars \<and> set (set_cookies u) \<subseteq> set (set_cookies w) \<union> G)"

definition same_out :: "'x guard_world_scheme \<Rightarrow> 'x guard_world_scheme \<Rightarrow> bool" where
  "same_out w u \<longleftrightarrow> g_vars u = g_vars w \<and> g_res u = g_res w"

interpretation out: step_order "cookies_from vars G :: 'x guard_world_scheme \<Rightarrow> 'x guard_world_scheme \<Rightarrow> bool" for vars G
  by unfold_locales (auto simp: cookies_from_def)

interpretation still: step_order "same_out :: 'x guard_world_scheme \<Rightarrow> 'x guard_world_scheme \<Rightarrow> bool"
  by unfold_locales (auto simp: same_out_def)

lemma same_out_cookies: "along same_out m \<Longrightarrow> along (cookies_from vars G) m"
  by (auto simp: along_def same_out_def cookies_from_def set_cookies_def)

lemma still_demand: "along same_out (demand K kind res opts)"
proof (rule alongI)
  fix w :: "'x guard_world_scheme"
  have "plane_only w (snd (demand K kind res opts w))" using demand_plane unfolding along_def by blast
  then show "same_out w (snd (demand K kind res opts w))" by (auto simp: plane_only_def same_out_def)
qed

lemma still_log: "along same_out (log_event name fs)"
  by (simp add: log_event_def along_modify same_out_def)

text \<open>The library's calls touch neither the response nor the environment.\<close>

definition quiet_lib :: "'x guard_world_scheme session_lib \<Rightarrow> bool" where
  "quiet_lib L \<longleftrightarrow>
     (\<forall>k d. along same_out (h_counter_add (sl_addon L) k d)) \<and> (\<forall>k. along same_out (h_counter_del (sl_addon L) k)) \<and>
     (\<forall>s. along same_out (sl_discover L s)) \<and> (\<forall>q a b c. along same_out (sl_code_grant L q a b c)) \<and>
     (\<forall>t. along same_out (sl_refresh_grant L t)) \<and> (\<forall>t s. along same_out (sl_userinfo L t s)) \<and>
     (\<forall>e. along same_out (sl_insert_audit L e))"

lemma still_keyed: "along same_out m \<Longrightarrow> along same_out (keyed K H kind res key m)"
  unfolding keyed_def await_ready_def by (intro still.along_bnd still_demand still.along_lift)

lemma still_limit: "quiet_lib L \<Longrightarrow> along same_out (within_auth_rate_limit K (sl_addon L) ip)"
  unfolding within_auth_rate_limit_def within_limit_def increment_def counter_add_def counter_del_def log_security_event_def
  by (intro still.along_bnd still.along_catch still.along_gets still_keyed still.along_if still.along_ret still.along_option still_log)
     (simp_all add: quiet_lib_def)

lemma still_secret: "along same_out (secret_value K L res name file)"
  unfolding secret_value_def by (intro still.along_bnd still_demand still.along_ret)

lemmas keys = access_private_key_def access_public_key_def refresh_private_key_def refresh_public_key_def rauthy_client_secret_value_def

lemma still_configured: "along same_out (is_rauthy_configured K L)"
  unfolding is_rauthy_configured_def keys by (intro still.along_bnd still.along_gets still.along_if still.along_ret still_secret)

lemma still_sign: "along same_out (sign_access_token K L c ttl)" "along same_out (sign_session K L env)"
  unfolding sign_access_token_def sign_session_def keys
  by (intro still.along_bnd still_secret still.along_gets still.along_lift)+

lemma still_verify: "along same_out (verify_access_token K L tok)" "along same_out (verify_session K L tok)"
  unfolding verify_access_token_def verify_session_def keys
  by (intro still.along_bnd still_secret still.along_gets still.along_lift still.along_ret)+

lemma still_audit: "quiet_lib L \<Longrightarrow> along same_out (write_audit L e)"
  unfolding write_audit_def log_security_event_def by (intro still.along_catch still_log) (simp add: quiet_lib_def)

lemma still_frontend: "along same_out (frontend_url L p)"
  unfolding frontend_url_def by (intro still.along_bnd still.along_gets still.along_lift)

lemma still_egress: "along same_out (issuer_egress K L)"
  unfolding issuer_egress_def by (intro still.along_bnd still.along_gets still.along_lift still_demand)

lemma still_config: "quiet_lib L \<Longrightarrow> along same_out (rauthy_config K L)"
  unfolding rauthy_config_def keys by (intro still.along_bnd still_egress still_secret) (simp add: quiet_lib_def)

lemma still_end_session: "along same_out (rauthy_end_session_url L hint)"
  unfolding rauthy_end_session_url_def
  by (intro still.along_bnd still.along_gets still.along_lift still_frontend still.along_ret)

lemma still_renewed: "quiet_lib L \<Longrightarrow> along same_out (renewed_claims L s t)"
  unfolding renewed_claims_def by (intro still.along_option still.along_ret) (simp add: quiet_lib_def)

lemma still_refresh: "quiet_lib L \<Longrightarrow> along same_out (refresh_from_rauthy K L t s)"
  unfolding refresh_from_rauthy_def
  by (intro still.along_bnd still.along_catch still_configured still_config still_renewed still.along_if still.along_gets still.along_ret still_log)
     (simp_all add: quiet_lib_def)

lemmas still_all = still_demand still_log still_limit still_secret still_configured still_sign still_verify still_audit still_frontend
  still_egress still_config still_end_session still_renewed still_refresh

section \<open>What rests on the authority\<close>

text \<open>A step that depends on what the step before answered.\<close>

context step_order
begin

lemma along_bnd_result:
  assumes "along R m" and "\<And>w a u. m w = (Inr a, u) \<Longrightarrow> Q a" and "\<And>a. Q a \<Longrightarrow> along R (f a)"
  shows "along R (bnd m f)"
proof (rule alongI)
  fix w
  obtain r u where m: "m w = (r, u)" by fastforce
  have u: "R w u" using alongD [OF assms(1) m] .
  show "R w (snd (bnd m f w))"
  proof (cases r)
    case (Inl e)
    with m u show ?thesis by (simp add: bnd_run)
  next
    case (Inr a)
    have "R u (snd (f a u))" using assms(3) [OF assms(2)] m Inr by (auto simp: along_def)
    with m u Inr show ?thesis by (auto simp: bnd_run intro: step_trans)
  qed
qed

end

lemma out_vars: "along (cookies_from vars G) (f vars) \<Longrightarrow> along (cookies_from vars G) (bnd (gets g_vars) f)"
  by (auto simp: along_def cookies_from_def bnd_run)

text \<open>The OpenID client answers claims of which \<open>A\<close> holds: those the authority made.\<close>

definition speaks_for :: "(js \<Rightarrow> bool) \<Rightarrow> 'x guard_world_scheme session_lib \<Rightarrow> bool" where
  "speaks_for A L \<longleftrightarrow>
     (\<forall>q a b c w t u. sl_code_grant L q a b c w = (Inr t, u) \<longrightarrow> (\<forall>cl. tk_claims t = Some cl \<longrightarrow> A cl)) \<and>
     (\<forall>tok w t u. sl_refresh_grant L tok w = (Inr t, u) \<longrightarrow> (\<forall>cl. tk_claims t = Some cl \<longrightarrow> A cl)) \<and>
     (\<forall>tok s w cl u. sl_userinfo L tok s w = (Inr cl, u) \<longrightarrow> A cl)"

text \<open>An access token signed for the profile of such claims.\<close>

definition minted_for :: "'x guard_world_scheme session_lib \<Rightarrow> sso_profile \<Rightarrow> string \<Rightarrow> bool" where
  "minted_for L p tok \<longleftrightarrow> (\<exists>ttl key now. sl_sign L (claims_js (claims_of_profile p)) (access_options (pf_subject p) ttl) key now = Inr tok)"

definition rests_on :: "'x guard_world_scheme session_lib \<Rightarrow> (js \<Rightarrow> bool) \<Rightarrow> (string \<times> string) list \<Rightarrow> string \<Rightarrow> bool" where
  "rests_on L A vars tok \<longleftrightarrow> (\<exists>c. A c \<and> minted_for L (profile_from_claims vars c) tok)"

definition allowed :: "'x guard_world_scheme session_lib \<Rightarrow> (js \<Rightarrow> bool) \<Rightarrow> (string \<times> string) list \<Rightarrow> string set" where
  "allowed L A vars =
     {serialize_cookie now n v opts |now n v opts. cookie_name n \<and> (n = ''access_token'' \<longrightarrow> v = [] \<or> rests_on L A vars v)}"

lemma set_cookies_header:
  "set_cookies (w\<lparr>g_res := (g_res w)\<lparr>rs_headers := obj_set name v (rs_headers (g_res w))\<rparr>\<rparr>) =
   (if name = ''Set-Cookie'' then (case v of One s \<Rightarrow> [s] | Many ss \<Rightarrow> ss) else set_cookies w)"
  by (simp add: set_cookies_def map_of_obj_set)

lemma out_header:
  "name \<noteq> ''Set-Cookie'' \<or> set (case v of One s \<Rightarrow> [s] | Many ss \<Rightarrow> ss) \<subseteq> G \<Longrightarrow> along (cookies_from vars G) (set_header name v)"
  by (auto simp: set_header_def along_modify cookies_from_def set_cookies_header)

lemma out_append: "c \<in> G \<Longrightarrow> along (cookies_from vars G) (append_set_cookie c)"
proof (rule alongI)
  fix w :: "'x guard_world_scheme"
  assume "c \<in> G"
  have "snd (append_set_cookie c w) =
      w\<lparr>g_res := (g_res w)\<lparr>rs_headers := obj_set ''Set-Cookie'' (Many (set_cookies w @ [c])) (rs_headers (g_res w))\<rparr>\<rparr>"
    by (simp add: append_set_cookie_def set_header_def set_cookies_def bnd_run)
  then show "cookies_from vars G w (snd (append_set_cookie c w))"
    using \<open>c \<in> G\<close> by (simp add: cookies_from_def set_cookies_header)
qed

lemma allowedI:
  "cookie_name n \<Longrightarrow> n = ''access_token'' \<longrightarrow> v = [] \<or> rests_on L A vars v \<Longrightarrow> serialize_cookie now n v opts \<in> allowed L A vars"
  unfolding allowed_def by blast

lemma out_put:
  "cookie_name n \<Longrightarrow> n = ''access_token'' \<longrightarrow> v = [] \<or> rests_on L A vars v \<Longrightarrow>
   along (cookies_from vars (allowed L A vars)) (put_cookie options n v age)"
  unfolding put_cookie_def
  by (rule out.along_bnd_result [OF out.along_gets, where Q = "\<lambda>c. c \<in> allowed L A vars"])
     (auto intro: allowedI out_append)

lemma cookie_names:
  "cookie_name ACCESS_COOKIE" "cookie_name REFRESH_COOKIE" "cookie_name CSRF_COOKIE" "cookie_name OIDC_ID_HINT_COOKIE"
  "cookie_name OIDC_TX_COOKIE"
  by (simp_all add: cookie_name_def cookie_safe_def is_space_def ACCESS_COOKIE_def REFRESH_COOKIE_def CSRF_COOKIE_def
      OIDC_ID_HINT_COOKIE_def OIDC_TX_COOKIE_def)

lemmas cookie_texts = ACCESS_COOKIE_def REFRESH_COOKIE_def CSRF_COOKIE_def OIDC_ID_HINT_COOKIE_def OIDC_TX_COOKIE_def

lemma out_status: "along (cookies_from vars G) (set_status_code n)"
  by (simp add: set_status_code_def along_modify cookies_from_def set_cookies_def)

lemma out_end: "along (cookies_from vars G) (end_with b)"
  by (simp add: end_with_def along_modify cookies_from_def set_cookies_def)

lemma out_json: "along (cookies_from vars G) (write_json n b)"
  unfolding write_json_def
  by (intro out.along_bnd out_header) (simp_all add: along_modify cookies_from_def set_cookies_def)

lemma out_redirect: "along (cookies_from vars G) (redirect l)"
  unfolding redirect_def by (intro out.along_bnd out_status out_header out_end) simp

lemma out_too_many: "along (cookies_from vars G) too_many"
  unfolding too_many_def by (intro out.along_bnd out_status out_header out_end) simp

lemma out_clear: "along (cookies_from vars (allowed L A vars)) clear_auth_cookies"
  unfolding clear_auth_cookies_def by (auto intro!: out.along_bnd out.along_ret out_put cookie_names)

lemma out_auth_cookies: "rests_on L A vars a \<Longrightarrow> along (cookies_from vars (allowed L A vars)) (set_auth_cookies a s)"
  unfolding set_auth_cookies_def by (intro out.along_bnd out_put cookie_names) (simp_all add: cookie_texts)

lemma out_deny: "along (cookies_from vars (allowed L A vars)) (deny m)"
  unfolding deny_def by (intro out.along_bnd out_clear out_json)

section \<open>The endpoints\<close>

lemma sign_result:
  "sign_access_token K L c ttl w = (Inr tok, u) \<Longrightarrow>
   \<exists>t key now. sl_sign L (claims_js c) (access_options (sc_user c) t) key now = Inr tok"
  by (auto simp: sign_access_token_def bnd_run split: prod.splits sum.splits)

lemma pair_result:
  "issue_token_pair K L p env ttl w = (Inr (a, s), u) \<Longrightarrow> minted_for L p a"
  using sign_result [of K L "claims_of_profile p" ttl w]
  by (auto simp: issue_token_pair_def issue_access_token_def minted_for_def bnd_run claims_of_profile_def split: prod.splits sum.splits)

lemma still_pair: "along same_out (issue_token_pair K L p env ttl)"
  unfolding issue_token_pair_def issue_access_token_def by (intro still.along_bnd still_sign still.along_ret)

lemma out_pair:
  assumes "A c" and "\<And>a s. rests_on L A vars a \<Longrightarrow> along (cookies_from vars (allowed L A vars)) (f (a, s))"
  shows "along (cookies_from vars (allowed L A vars)) (bnd (issue_token_pair K L (profile_from_claims vars c) env ttl) f)"
proof (rule out.along_bnd_result [OF same_out_cookies [OF still_pair], where Q = "\<lambda>p. rests_on L A vars (fst p)"])
  fix w p u
  assume "issue_token_pair K L (profile_from_claims vars c) env ttl w = (Inr p, u)"
  then show "rests_on L A vars (fst p)" using pair_result assms(1) unfolding rests_on_def by (metis prod.collapse)
next
  fix p :: "string \<times> string"
  assume "rests_on L A vars (fst p)"
  then show "along (cookies_from vars (allowed L A vars)) (f p)" using assms(2) [of "fst p" "snd p"] by simp
qed

lemma out_finalize:
  assumes "quiet_lib L" and "A c"
  shows "along (cookies_from vars (allowed L A vars)) (finalize_login K L (profile_from_claims vars c) env ip agent ttl)"
  unfolding finalize_login_def
  by (rule out_pair [where A = A and c = c, OF assms(2)])
     (simp, intro out.along_bnd out_auth_cookies same_out_cookies still_audit assms(1))

lemma out_renew:
  assumes "quiet_lib L" and "A c"
  shows "along (cookies_from vars (allowed L A vars)) (renew K L req (profile_from_claims vars c) env ttl)"
  unfolding renew_def
  by (rule out_vars, rule out_pair [where A = A and c = c, OF assms(2)])
     (simp, intro out.along_bnd out_auth_cookies same_out_cookies still_audit assms(1) out_json)

lemma out_tx:
  fixes f :: "string \<Rightarrow> ('x guard_world_scheme, 'b) io"
  assumes "\<And>x. x \<in> allowed L A vars \<Longrightarrow> along (cookies_from vars (allowed L A vars)) (f x)"
  shows "along (cookies_from vars (allowed L A vars))
    (bnd (gets (\<lambda>w. serialize_cookie (g_now w) OIDC_TX_COOKIE v (auth_cookie_options (g_vars w) age))) f)"
proof (rule out.along_bnd_result [OF out.along_gets, where Q = "\<lambda>x. x \<in> allowed L A vars"])
  have tx: "serialize_cookie now OIDC_TX_COOKIE v opts \<in> allowed L A vars" for now opts
    by (rule allowedI [OF cookie_names(5)]) (simp add: OIDC_TX_COOKIE_def)
  fix w :: "'x guard_world_scheme" and a u
  assume "gets (\<lambda>w. serialize_cookie (g_now w) OIDC_TX_COOKIE v (auth_cookie_options (g_vars w) age)) w = (Inr a, u)"
  then show "a \<in> allowed L A vars" using tx by auto
qed (rule assms)

lemma out_hint: "along (cookies_from vars (allowed L A vars)) (set_id_hint_cookie t)"
  unfolding set_id_hint_cookie_def by (intro out_put cookie_names) (simp add: cookie_texts)

lemma out_accept:
  assumes "quiet_lib L" and "A c"
  shows "along (cookies_from vars (allowed L A vars)) (accept_grant K L req tokens c)"
  unfolding accept_grant_def Let_def
  by (intro out_vars out_tx out.along_bnd out.along_option out.along_if out.along_ret out_header out_hint
      out_finalize [where A = A and c = c, OF assms] out_redirect same_out_cookies [OF still_frontend]) simp

lemma out_callback:
  assumes "quiet_lib L" and "speaks_for A L"
  shows "along (cookies_from vars (allowed L A vars)) (rauthy_callback K L req)"
proof -
  let ?R = "cookies_from vars (allowed L A vars) :: 'a guard_world_scheme \<Rightarrow> 'a guard_world_scheme \<Rightarrow> bool"
  have grant: "along ?R (bnd (sl_code_grant L q a b c) (\<lambda>tokens. case tk_claims tokens of
      None \<Rightarrow> seq (set_status_code 401) (end_with (Some ''no id token'')) | Some cl \<Rightarrow> accept_grant K L req tokens cl))" for q a b c
  proof (rule out.along_bnd_result [where Q = "\<lambda>t. \<forall>cl. tk_claims t = Some cl \<longrightarrow> A cl"])
    show "along ?R (sl_code_grant L q a b c)" using assms(1) by (intro same_out_cookies) (simp add: quiet_lib_def)
    show "\<And>w t u. sl_code_grant L q a b c w = (Inr t, u) \<Longrightarrow> \<forall>cl. tk_claims t = Some cl \<longrightarrow> A cl"
      using assms(2) unfolding speaks_for_def by blast
    show "\<And>t. \<forall>cl. tk_claims t = Some cl \<longrightarrow> A cl \<Longrightarrow> along ?R (case tk_claims t of
        None \<Rightarrow> seq (set_status_code 401) (end_with (Some ''no id token'')) | Some cl \<Rightarrow> accept_grant K L req t cl)"
      by (auto intro!: out.along_bnd out_status out_end out_accept [OF assms(1)] split: option.split)
  qed
  show ?thesis
    unfolding rauthy_callback_def
    by (intro out.along_bnd out.along_if out.along_option out.along_gets out.along_lift out_status out_end out_too_many grant
        same_out_cookies [OF still_configured] same_out_cookies [OF still_limit [OF assms(1)]] same_out_cookies [OF still_config [OF assms(1)]]
        same_out_cookies [OF still_egress])
qed

lemma renewed_by:
  assumes made: "\<And>tokens v v' c v0 v1. renewed_claims L s tokens v = (Inr c, v') \<Longrightarrow> sl_refresh_grant L t v0 = (Inr tokens, v1) \<Longrightarrow> A c"
    and "refresh_from_rauthy K L t s w = (Inr (Some (p, t', ttl)), u)"
  shows "\<exists>c. A c \<and> p = profile_from_claims (g_vars u) c"
  using assms(2)
  by (auto simp: refresh_from_rauthy_def bnd_run catch_run split: prod.splits sum.splits if_splits) (blast intro: made)

lemma renewed_result:
  assumes "speaks_for A L" and "refresh_from_rauthy K L t s w = (Inr (Some (p, t', ttl)), u)"
  shows "\<exists>c. A c \<and> p = profile_from_claims (g_vars u) c"
proof (rule renewed_by [OF _ assms(2)])
  fix tokens v v' c v0 v1
  assume run: "renewed_claims L s tokens v = (Inr c, v')" "sl_refresh_grant L t v0 = (Inr tokens, v1)"
  show "A c"
  proof (cases "tk_claims tokens")
    case None
    then have "sl_userinfo L (tk_access tokens) s v = (Inr c, v')" using run(1) by (simp add: renewed_claims_def)
    then show ?thesis using assms(1) unfolding speaks_for_def by blast
  next
    case (Some d)
    then have "d = c" using run(1) by (simp add: renewed_claims_def)
    then show ?thesis using Some run(2) assms(1) unfolding speaks_for_def by blast
  qed
qed

lemma out_envelope:
  fixes L :: "'x guard_world_scheme session_lib"
  assumes "quiet_lib L"
    and "\<And>w p t' ttl u. refresh_from_rauthy K L t s w = (Inr (Some (p, t', ttl)), u) \<Longrightarrow> \<exists>c. A c \<and> p = profile_from_claims (g_vars u) c"
  shows "along (cookies_from vars (allowed L A vars)) (renew_envelope K L role req (RauthySession t s))"
proof (rule alongI)
  let ?R = "cookies_from vars (allowed L A vars) :: 'x guard_world_scheme \<Rightarrow> 'x guard_world_scheme \<Rightarrow> bool"
  fix w :: "'x guard_world_scheme"
  obtain r u where r: "refresh_from_rauthy K L t s w = (r, u)" by fastforce
  have wu: "?R w u" by (rule alongD [OF same_out_cookies [OF still_refresh [OF assms(1)]] r])
  have rest: "?R u (snd (m u))" if "along ?R m" for m :: "('x guard_world_scheme, unit) io" using that by (simp add: along_def)
  let ?run = "renew_envelope K L role req (RauthySession t s) w"
  consider e where "r = Inl e" | "r = Inr None" | p t' ttl where "r = Inr (Some (p, t', ttl))"
    by (metis not_None_eq prod_cases3 sum.exhaust)
  then show "?R w (snd ?run)"
  proof cases
    case 1
    then show ?thesis using wu r by (simp add: renew_envelope_def bnd_run)
  next
    case 2
    then have "?run = deny ''the identity provider did not renew this session'' u" using r by (simp add: renew_envelope_def bnd_run)
    then show ?thesis using out.step_trans [OF wu rest [OF out_deny]] by simp
  next
    case 3
    then obtain c where "A c" "p = profile_from_claims (g_vars u) c" using assms(2) r by blast
    then have "?R u (snd (renew K L req p (RauthySession t' s) ttl u))"
      using rest [OF out_renew [where A = A and c = c, OF assms(1)]] by (cases "g_vars u = vars") (auto simp: cookies_from_def)
    moreover have "?run = renew K L req p (RauthySession t' s) ttl u" using r 3 by (simp add: renew_envelope_def bnd_run)
    ultimately show ?thesis using out.step_trans [OF wu] by metis
  qed
qed

lemma out_refresh:
  fixes L :: "'x guard_world_scheme session_lib"
  assumes "quiet_lib L" and "speaks_for A L" and "\<not> is_mock_enabled vars"
  shows "along (cookies_from vars (allowed L A vars)) (refresh K L role req)"
proof -
  let ?R = "cookies_from vars (allowed L A vars) :: 'x guard_world_scheme \<Rightarrow> 'x guard_world_scheme \<Rightarrow> bool"
  have "along ?R (renew_envelope K L role req env)" for env
  proof (cases env)
    case (RauthySession t s)
    then show ?thesis using out_envelope [OF assms(1) renewed_result [OF assms(2)]] by simp
  next
    case (MockSession i)
    then show ?thesis unfolding renew_envelope_def by (auto intro!: out_vars simp: assms(3) out_deny)
  qed
  then show ?thesis
    unfolding refresh_def
    by (auto intro!: out.along_bnd out.along_catch out.along_ret out_deny same_out_cookies [OF still_verify(2)] split: option.split)
qed

lemma out_mock: "\<not> is_mock_enabled vars \<Longrightarrow> along (cookies_from vars G) (mock_login K L role req)"
  unfolding mock_login_def by (rule out_vars) (simp add: out.along_bnd out_status out_end)

lemma out_login:
  assumes "quiet_lib L"
  shows "along (cookies_from vars (allowed L A vars)) (rauthy_login K L tx req)"
  unfolding rauthy_login_def
  by (intro out_tx out.along_bnd out.along_if out.along_gets out_status out_end out_too_many out_header out_redirect
      same_out_cookies [OF still_configured] same_out_cookies [OF still_limit [OF assms]] same_out_cookies [OF still_config [OF assms]]) simp

lemma out_logout:
  assumes "quiet_lib L"
  shows "along (cookies_from vars (allowed L A vars)) (logout K L auth req)"
  unfolding logout_def Let_def
  by (auto intro!: out.along_bnd out.along_gets out.along_if out.along_ret out_clear out_json same_out_cookies [OF still_audit [OF assms]]
      same_out_cookies [OF still_configured] same_out_cookies [OF still_end_session] same_out_cookies [OF still_frontend] split: option.split)

lemma out_status_endpoint: "along (cookies_from vars G) (status_endpoint K L req)"
  unfolding status_endpoint_def configured_drivers_def Let_def
  by (intro out.along_bnd out.along_gets out.along_if out.along_ret out.along_catch out_json same_out_cookies [OF still_verify(1)]
      same_out_cookies [OF still_configured])

lemma out_csrf: "along (cookies_from vars (allowed L A vars)) (csrf_token_endpoint bytes)"
  unfolding csrf_token_endpoint_def Let_def set_csrf_cookie_def
  by (intro out.along_bnd out_put cookie_names out_json) (simp add: cookie_texts)

lemma out_login_redirect: "along (cookies_from vars G) login_endpoint"
  unfolding login_endpoint_def by (intro out.along_bnd out.along_gets out_redirect)

section \<open>Histories\<close>

datatype endpoint =
    MockLogin | RauthyLogin login_tx | RauthyCallback | Refresh | Logout "session_claims option" | Status
  | CsrfToken "nat list" | LoginRedirect

fun serve ::
  "kernel \<Rightarrow> 'x guard_world_scheme session_lib \<Rightarrow> string \<Rightarrow> endpoint \<Rightarrow> raw_request \<Rightarrow> ('x guard_world_scheme, unit) io" where
  "serve K L role MockLogin req = mock_login K L role req"
| "serve K L role (RauthyLogin tx) req = rauthy_login K L tx req"
| "serve K L role RauthyCallback req = rauthy_callback K L req"
| "serve K L role Refresh req = refresh K L role req"
| "serve K L role (Logout auth) req = logout K L auth req"
| "serve K L role Status req = status_endpoint K L req"
| "serve K L role (CsrfToken bytes) req = csrf_token_endpoint bytes"
| "serve K L role LoginRedirect req = login_endpoint"

lemma out_serve:
  assumes "quiet_lib L" and "speaks_for A L" and "\<not> is_mock_enabled vars"
  shows "along (cookies_from vars (allowed L A vars)) (serve K L role ep req)"
  using assms
  by (cases ep) (simp_all add: out_mock out_login out_callback out_refresh out_logout out_status_endpoint out_csrf out_login_redirect)

text \<open>
  Requests one after another, each with whatever cookies, to a fresh response; between them anything else of the process may
  change the world, but not its environment. The responses are collected.
\<close>

inductive history ::
  "kernel \<Rightarrow> 'x guard_world_scheme session_lib \<Rightarrow> string \<Rightarrow> (string \<times> string) list \<Rightarrow> response list \<Rightarrow> bool"
  for K L role vars where
  history_start: "history K L role vars []"
| history_step:
    "history K L role vars rs \<Longrightarrow> g_vars w = vars \<Longrightarrow> rs_headers (g_res w) = [] \<Longrightarrow> serve K L role ep req w = (r, u) \<Longrightarrow>
     history K L role vars (rs @ [g_res u])"

definition cookie_lines :: "response \<Rightarrow> string list" where
  "cookie_lines res = (case map_of (rs_headers res) ''Set-Cookie'' of None \<Rightarrow> [] | Some (One s) \<Rightarrow> [s] | Some (Many ss) \<Rightarrow> ss)"

text \<open>A response hands out an access token.\<close>

definition handed_out :: "string \<Rightarrow> response \<Rightarrow> bool" where
  "handed_out tok res \<longleftrightarrow> tok \<noteq> [] \<and> (\<exists>now opts. serialize_cookie now ''access_token'' tok opts \<in> set (cookie_lines res))"

lemma serialize_inject:
  assumes "cookie_name n" and "cookie_name m" and "serialize_cookie now n v opts = serialize_cookie now' m v' opts'"
  shows "n = m \<and> v = v'"
proof -
  have "n @ ''='' @ encode_uri v = m @ ''='' @ encode_uri v'"
    using serialized_pair [OF assms(1)] serialized_pair [OF assms(2)] assms(3) by metis
  moreover have "takeWhile (\<lambda>c. c \<noteq> CHR ''='') (k @ CHR ''='' # x) = k" if "cookie_name k" for k x
    using that by (simp add: cookie_name_def list_all_iff takeWhile_append)
  ultimately have "n = m" using assms(1,2) by (metis append_Cons append_Nil)
  then have "encode_uri v = encode_uri v'" using \<open>n @ ''='' @ encode_uri v = m @ ''='' @ encode_uri v'\<close> by simp
  then have "wide_of v = wide_of v'" using decode_encode by (metis option.inject)
  then show ?thesis using \<open>n = m\<close> by (simp add: wide_of_def inj_map_eq_map inj_def)
qed

lemma allowed_token:
  assumes "serialize_cookie now ''access_token'' tok opts \<in> allowed L A vars" and "tok \<noteq> []"
  shows "rests_on L A vars tok"
proof -
  obtain now' n v opts' where s: "serialize_cookie now ''access_token'' tok opts = serialize_cookie now' n v opts'" "cookie_name n"
      "n = ''access_token'' \<longrightarrow> v = [] \<or> rests_on L A vars v" using assms(1) unfolding allowed_def by blast
  have "n = ''access_token'' \<and> v = tok"
    using serialize_inject [OF cookie_names(1) s(2), unfolded ACCESS_COOKIE_def, OF s(1)] by simp
  then show ?thesis using s(3) assms(2) by simp
qed

lemma handed_out_rests:
  assumes "cookies_from vars (allowed L A vars) w u" and "g_vars w = vars" and "rs_headers (g_res w) = []" and "handed_out tok (g_res u)"
  shows "rests_on L A vars tok"
proof -
  have lines: "set_cookies v = cookie_lines (g_res v)" for v :: "'a guard_world_scheme"
    by (simp add: set_cookies_def cookie_lines_def)
  have "set (cookie_lines (g_res u)) \<subseteq> allowed L A vars"
    using assms(1-3) unfolding cookies_from_def lines by (simp add: cookie_lines_def)
  then show ?thesis using assms(4) allowed_token unfolding handed_out_def by blast
qed

lemma history_rests:
  assumes "quiet_lib L" and "speaks_for A L" and "\<not> is_mock_enabled vars"
  shows "history K L role vars rs \<Longrightarrow> res \<in> set rs \<Longrightarrow> handed_out tok res \<Longrightarrow> rests_on L A vars tok"
proof (induction rule: history.induct)
  case (history_step rs w ep req r u)
  then show ?case using handed_out_rests [OF alongD [OF out_serve [OF assms] history_step.hyps(4)]] by auto
qed simp

section \<open>What an access token says\<close>

text \<open>Verification answers what was signed: the payload, its subject, and the registered claims the library adds.\<close>

definition says :: "js \<Rightarrow> js \<Rightarrow> sign_options \<Rightarrow> bool" where
  "says p payload opts \<longleftrightarrow>
     (\<forall>s. so_subject opts = Some s \<longrightarrow> js_get p ''sub'' = JStr s) \<and>
     (\<forall>k. k \<notin> {''sub'', ''iss'', ''aud'', ''exp'', ''iat''} \<longrightarrow> js_get p k = js_get payload k)"

definition answers_what_was_signed :: "'x guard_world_scheme session_lib \<Rightarrow> bool" where
  "answers_what_was_signed L \<longleftrightarrow>
     (\<forall>payload opts key now tok key' iss aud now' p.
        sl_sign L payload opts key now = Inr tok \<longrightarrow> sl_verify L (wide_of tok) key' iss aud now' = Inr p \<longrightarrow> says p payload opts)"

lemma role_texts_map: "role_texts (JArr (map JStr rs)) = rs"
  by (induction rs) simp_all

lemma claims_said: "says p (claims_js c) (access_options (sc_user c) ttl) \<Longrightarrow> claims_of p = c"
  by (cases c) (simp add: says_def claims_js_def access_options_def claims_of_def own_of_def role_texts_map del: role_texts.simps)

lemma handler_result:
  assumes "auth_handler K L None (Some tok) w = (Inr d, u)"
  shows "\<exists>key now p. sl_verify L tok key ISSUER AUDIENCE now = Inr p \<and> d = claims_of p"
  using assms
  by (auto simp: auth_handler_def extract_token_def run_as_service_def catch_run verify_access_token_def bnd_run Let_def
      split: if_splits prod.splits sum.splits)

end
