(* ===== verification/Login_Claims.thy ===== *)
theory Login_Claims
  imports Session_Claims
begin

text \<open>
  From login to expiry: what the cookies of a login are worth at every endpoint, and what a renewal can change. The token
  library of the witnesses signs by wrapping the payload together with the key.
\<close>

section \<open>A token library\<close>

definition demo_sign :: "js \<Rightarrow> sign_options \<Rightarrow> string \<Rightarrow> int \<Rightarrow> exn + string" where
  "demo_sign payload opts key now =
     (case payload of
        JObj kvs \<Rightarrow>
          let t = JArr [JStr key, JObj (kvs @ (case so_subject opts of None \<Rightarrow> [] | Some s \<Rightarrow> [(''sub'', JStr s)]) @
                    [(''iss'', JStr (so_issuer opts)), (''aud'', JStr (so_audience opts)),
                     (''exp'', JInt (now div 1000 + so_expires_in opts))])]
          in if storable t then Inr (show_js t) else Inl (Failure ''payload'')
      | _ \<Rightarrow> Inl (Failure ''payload''))"

definition demo_check :: "js \<Rightarrow> string \<Rightarrow> string \<Rightarrow> string \<Rightarrow> int \<Rightarrow> exn + js" where
  "demo_check t key iss aud now =
     (case t of
        JArr [JStr k, p] \<Rightarrow>
          if k \<noteq> key \<or> js_get p ''iss'' \<noteq> JStr iss \<or> js_get p ''aud'' \<noteq> JStr aud then Inl (Failure ''invalid token'')
          else (case js_get p ''exp'' of
                  JInt e \<Rightarrow> if now div 1000 < e then Inr p else Inl (TokenExpiredError ''jwt expired'')
                | _ \<Rightarrow> Inl (Failure ''invalid token''))
      | _ \<Rightarrow> Inl (Failure ''invalid token''))"

definition demo_verify :: "wide \<Rightarrow> string \<Rightarrow> string \<Rightarrow> string \<Rightarrow> int \<Rightarrow> exn + js" where
  "demo_verify token key iss aud now =
     (case parse_json (map char_of token) of
        None \<Rightarrow> Inl (Failure ''invalid token'') | Some t \<Rightarrow> demo_check t key iss aud now)"

lemma own_of_append: "own_of (kvs @ kvs') k = (if k \<in> fst ` set kvs then own_of kvs k else own_of kvs' k)"
  by (induction kvs) (auto simp: own_of_def)

lemma own_of_first: "own_of ((k', v) # kvs) k = (if k = k' then v else own_of kvs k)" "own_of [] k = JUndef"
  by (simp_all add: own_of_def)

lemma own_of_absent: "k \<notin> fst ` set kvs \<Longrightarrow> own_of kvs k = JUndef"
  by (simp add: own_of_def map_of_eq_None_iff [symmetric])

lemma chars_of_wide: "map char_of (wide_of s) = s"
  by (induction s) (simp_all add: wide_of_def)

lemma demo_signed:
  assumes "demo_sign payload opts key now = Inr tok"
  obtains p where "\<And>key' iss aud now'. demo_verify (wide_of tok) key' iss aud now' = demo_check (JArr [JStr key, p]) key' iss aud now'"
    and "says p payload opts" and "js_get p ''iss'' = JStr (so_issuer opts)" and "js_get p ''aud'' = JStr (so_audience opts)"
    and "js_get p ''exp'' = JInt (now div 1000 + so_expires_in opts)"
proof -
  obtain kvs where payload: "payload = JObj kvs" using assms by (cases payload) (simp_all add: demo_sign_def)
  let ?own = "case so_subject opts of None \<Rightarrow> [] | Some s \<Rightarrow> [(''sub'', JStr s)]"
  let ?reg = "[(''iss'', JStr (so_issuer opts)), (''aud'', JStr (so_audience opts)), (''exp'', JInt (now div 1000 + so_expires_in opts))]"
  let ?p = "JObj (kvs @ ?own @ ?reg)"
  have st: "storable (JArr [JStr key, ?p])" and tok: "tok = show_js (JArr [JStr key, ?p])"
    using assms by (simp_all add: demo_sign_def payload Let_def split: if_splits)
  have "parse_json (map char_of (wide_of tok)) = Some (JArr [JStr key, ?p])"
    using parse_stringify [OF st] by (simp only: chars_of_wide tok)
  moreover have fresh: "''iss'' \<notin> fst ` set kvs" "''aud'' \<notin> fst ` set kvs" "''exp'' \<notin> fst ` set kvs"
      "so_subject opts \<noteq> None \<longrightarrow> ''sub'' \<notin> fst ` set kvs"
    using st by (auto split: option.splits)
  ultimately show thesis
    by (intro that [of ?p]) (auto simp: demo_verify_def says_def payload own_of_append own_of_first own_of_absent split: option.splits)
qed

lemma demo_nonempty: "demo_sign payload opts key now = Inr tok \<Longrightarrow> tok \<noteq> []"
  by (auto simp: demo_sign_def split: js.splits if_splits)

lemma demo_answers: "sl_sign L = demo_sign \<Longrightarrow> sl_verify L = demo_verify \<Longrightarrow> answers_what_was_signed L"
  unfolding answers_what_was_signed_def
proof (intro allI impI)
  fix payload opts key now tok key' iss aud now' p
  assume "sl_sign L = demo_sign" "sl_verify L = demo_verify" "sl_sign L payload opts key now = Inr tok"
    "sl_verify L (wide_of tok) key' iss aud now' = Inr p"
  then show "says p payload opts"
    by (auto elim!: demo_signed simp: demo_check_def split: if_splits js.splits)
qed


section \<open>Behind every session\<close>

text \<open>
  C3: in production, whatever requests are served with whatever cookies, every access token a
  response hands out was signed for claims the identity provider answered; and an endpoint that is presented one sees exactly
  what those claims say, a verified address only where they say it is.
\<close>

theorem authority_behind_every_session:
  assumes "quiet_lib L" and "speaks_for A L" and "answers_what_was_signed L"
    and "map_of vars ''NODE_ENV'' = Some ''production''"
    and "history K L role vars rs" and "res \<in> set rs" and "handed_out tok res"
  shows "rests_on L A vars tok \<and>
    (case fst (auth_handler K L None (Some (wide_of tok)) w) of
       Inl e \<Rightarrow> True
     | Inr d \<Rightarrow> \<exists>c. A c \<and> d = claims_of_profile (profile_from_claims vars c) \<and>
         (sc_verified d \<longrightarrow> js_get c ''email_verified'' = JBool True \<and> js_get c ''email'' = JStr (sc_email d)))"
proof -
  have "\<not> is_mock_enabled vars" using assms(4) by (simp add: is_mock_enabled_def)
  from history_rests [OF assms(1,2) this assms(5-7)] have rests: "rests_on L A vars tok" .
  then obtain c ttl key now where c: "A c" and signed: "sl_sign L (claims_js (claims_of_profile (profile_from_claims vars c)))
      (access_options (pf_subject (profile_from_claims vars c)) ttl) key now = Inr tok"
    unfolding rests_on_def minted_for_def by blast
  have seen: "d = claims_of_profile (profile_from_claims vars c)"
    if run: "auth_handler K L None (Some (wide_of tok)) w = (Inr d, u)" for d u
  proof -
    obtain key' now' p where "sl_verify L (wide_of tok) key' ISSUER AUDIENCE now' = Inr p" "d = claims_of p"
      using handler_result [OF run] by blast
    then show ?thesis
      using assms(3) signed claims_said [of p "claims_of_profile (profile_from_claims vars c)" ttl]
      unfolding answers_what_was_signed_def by (fastforce simp: claims_of_profile_def)
  qed
  have verified: "js_get c ''email_verified'' = JBool True \<and> js_get c ''email'' = JStr (pf_email (profile_from_claims vars c))"
    if "pf_verified (profile_from_claims vars c)"
    using that by (cases "js_get c ''email''") (auto simp: profile_from_claims_def Let_def)
  show ?thesis
  proof (cases "auth_handler K L None (Some (wide_of tok)) w")
    case (Pair r u)
    show ?thesis
    proof (cases r)
      case (Inr d)
      have "d = claims_of_profile (profile_from_claims vars c)" using seen Pair Inr by blast
      then show ?thesis using rests c verified Pair Inr by (auto simp: claims_of_profile_def)
    qed (use rests Pair in simp)
  qed
qed

section \<open>A login, until it expires\<close>

lemma put_run:
  "put_cookie options n v age w =
   (Inr (), w\<lparr>g_res := (g_res w)\<lparr>rs_headers := obj_set ''Set-Cookie''
      (Many (set_cookies w @ [serialize_cookie (g_now w) n v (options (g_vars w) (Some age))])) (rs_headers (g_res w))\<rparr>\<rparr>)"
  by (simp add: put_cookie_def append_set_cookie_def set_header_def set_cookies_def bnd_run)

lemma auth_cookies_run:
  "fst (set_auth_cookies a s w) = Inr () \<and>
   set_cookies (snd (set_auth_cookies a s w)) = set_cookies w @
     [serialize_cookie (g_now w) ACCESS_COOKIE a (auth_cookie_options (g_vars w) (Some ACCESS_TOKEN_MAX_AGE)),
      serialize_cookie (g_now w) REFRESH_COOKIE s (auth_cookie_options (g_vars w) (Some REFRESH_TOKEN_MAX_AGE))]"
  by (simp add: set_auth_cookies_def bnd_run put_run) (simp add: set_cookies_def map_of_obj_set)

definition access_pair :: "'x guard_world_scheme session_lib \<Rightarrow> string \<times> string" where
  "access_pair L =
     (with_dev_file_fallback L (sl_secret L ''JWT_PRIVATE_KEY'') ''access-private.pem'',
      with_dev_file_fallback L (sl_secret L ''JWT_PUBLIC_KEY'') ''access-public.pem'')"

text \<open>
  The two keys belong together: what is signed with the one is verified with the other, for the seconds it was signed for, and
  refused as expired after that.
\<close>

definition matching :: "'x guard_world_scheme session_lib \<Rightarrow> bool" where
  "matching L \<longleftrightarrow>
     (\<forall>payload opts now tok now'. sl_sign L payload opts (fst (access_pair L)) now = Inr tok \<longrightarrow>
        tok \<noteq> [] \<and>
        (if now' div 1000 < now div 1000 + so_expires_in opts
         then \<exists>p. sl_verify L (wide_of tok) (snd (access_pair L)) (so_issuer opts) (so_audience opts) now' = Inr p \<and> says p payload opts
         else \<exists>m. sl_verify L (wide_of tok) (snd (access_pair L)) (so_issuer opts) (so_audience opts) now' = Inl (TokenExpiredError m)))"

lemma signed_run:
  fixes L :: "'x guard_world_scheme session_lib"
  assumes "\<And>res v. granted K ''secret.read'' res no_options (v :: 'x guard_world_scheme)"
    and "sign_access_token K L c ttl w = (Inr tok, u)"
  shows "u = w \<and> sl_sign L (claims_js c) (access_options (sc_user c) (case ttl of Some t \<Rightarrow> t | None \<Rightarrow> DEFAULT_ACCESS_TTL_SECONDS))
      (fst (access_pair L)) (g_now w) = Inr tok"
  using assms(2) demand_granted [OF assms(1)]
  by (auto simp: sign_access_token_def access_private_key_def secret_value_def bnd_run access_pair_def split: sum.splits)

lemma session_run:
  fixes L :: "'x guard_world_scheme session_lib"
  assumes "\<And>res v. granted K ''secret.read'' res no_options (v :: 'x guard_world_scheme)"
  shows "snd (sign_session K L env w) = w"
  using demand_granted [OF assms]
  by (auto simp: sign_session_def refresh_private_key_def secret_value_def bnd_run split: sum.splits)

lemma handler_run:
  fixes L :: "'x guard_world_scheme session_lib"
  assumes "\<And>res v. granted K ''secret.read'' res no_options (v :: 'x guard_world_scheme)"
    and "matching L" and "sl_sign L (claims_js c) (access_options (sc_user c) ttl) (fst (access_pair L)) now = Inr tok"
  shows "fst (auth_handler K L None (Some (wide_of tok)) v) =
    (if g_now v div 1000 < now div 1000 + ttl then Inr c
     else Inl (APIError Unauthenticated ''access token expired'' ''TOKEN_EXPIRED''))"
proof -
  let ?v = "v\<lparr>p_scope := Some ''auth''\<rparr>"
  note pair = assms(2) [unfolded matching_def, rule_format, OF assms(3), of "g_now v"]
  then have tok: "wide_of tok \<noteq> []" by (simp add: wide_of_def)
  have verdict:
    "if g_now v div 1000 < now div 1000 + ttl
     then \<exists>p. sl_verify L (wide_of tok) (snd (access_pair L)) ISSUER AUDIENCE (g_now v) = Inr p \<and> says p (claims_js c) (access_options (sc_user c) ttl)
     else \<exists>m. sl_verify L (wide_of tok) (snd (access_pair L)) ISSUER AUDIENCE (g_now v) = Inl (TokenExpiredError m)"
    using pair by (simp add: access_options_def split: if_splits)
  have run: "verify_access_token K L (wide_of tok) ?v =
      (case sl_verify L (wide_of tok) (snd (access_pair L)) ISSUER AUDIENCE (g_now v) of Inl e \<Rightarrow> Inl e | Inr p \<Rightarrow> Inr (claims_of p), ?v)"
    using demand_granted [OF assms(1)]
    by (simp add: verify_access_token_def access_public_key_def secret_value_def bnd_run access_pair_def split: sum.split)
  show ?thesis
    using verdict claims_said [of _ c ttl] tok
    by (auto simp: auth_handler_def extract_token_def run_as_service_def catch_run run split: if_splits)
qed

lemma finalize_run:
  fixes L :: "'x guard_world_scheme session_lib"
  assumes "quiet_lib L" and "\<And>res v. granted K ''secret.read'' res no_options (v :: 'x guard_world_scheme)"
    and "rs_headers (g_res w) = []" and "finalize_login K L p env ip agent ttl w = (Inr (), u)"
  obtains a s where "sl_sign L (claims_js (claims_of_profile p))
        (access_options (pf_subject p) (case ttl of Some t \<Rightarrow> t | None \<Rightarrow> DEFAULT_ACCESS_TTL_SECONDS)) (fst (access_pair L)) (g_now w) = Inr a"
    and "set_cookies u =
      [serialize_cookie (g_now w) ACCESS_COOKIE a (auth_cookie_options (g_vars w) (Some ACCESS_TOKEN_MAX_AGE)),
       serialize_cookie (g_now w) REFRESH_COOKIE s (auth_cookie_options (g_vars w) (Some REFRESH_TOKEN_MAX_AGE))]"
proof -
  obtain r v where first: "sign_access_token K L (claims_of_profile p) ttl w = (r, v)" by fastforce
  obtain a where r: "r = Inr a"
    using assms(4) first by (cases r) (simp_all add: finalize_login_def issue_token_pair_def issue_access_token_def bnd_run)
  note a = signed_run [OF assms(2) first [unfolded r]]
  obtain r' where second: "sign_session K L env w = (r', w)" using session_run [OF assms(2), of L env w] by (metis prod.collapse)
  obtain s where r': "r' = Inr s"
    using assms(4) first r a second by (cases r') (simp_all add: finalize_login_def issue_token_pair_def issue_access_token_def bnd_run)
  let ?e = "\<lparr>ae_action = ''auth.login'', ae_table = None, ae_record = Some (pf_subject p),
             ae_old_data = None, ae_new_data = Some (JObj [(''ssoProvider'', JStr (pf_provider p))]), ae_actor = Some (pf_subject p),
             ae_actor_email = Some (pf_email p), ae_ip = ip, ae_user_agent = agent\<rparr>"
  obtain x where cookies: "set_auth_cookies a s w = (Inr (), x)" using auth_cookies_run [of a s w] by (metis prod.collapse)
  have "finalize_login K L p env ip agent ttl w = write_audit L ?e x"
    using first r a second r' cookies by (simp add: finalize_login_def issue_token_pair_def issue_access_token_def bnd_run)
  then have "same_out x u" using alongD [OF still_audit [OF assms(1)]] assms(4) by metis
  then have "set_cookies u = set_cookies x" by (simp add: same_out_def set_cookies_def)
  moreover have "set_cookies w = []" using assms(3) by (simp add: set_cookies_def)
  ultimately show thesis
    using auth_cookies_run [of a s w] cookies a by (intro that [of a s]) (simp_all add: claims_of_profile_def)
qed



section \<open>Renewal\<close>

text \<open>
  C28: when a refresh grant answers no id token, and the user info is that of the subject it is asked about,
  every access token a renewal hands out is for the subject the session was opened for.
\<close>

theorem renewal_keeps_subject:
  fixes L :: "'x guard_world_scheme session_lib"
  assumes "quiet_lib L" and "\<And>t v tk v'. sl_refresh_grant L t v = (Inr tk, v') \<Longrightarrow> tk_claims tk = None"
    and "\<And>t s v c v'. sl_userinfo L t s v = (Inr c, v') \<Longrightarrow> js_get c ''sub'' = JStr s"
    and "map_of (parse_cookies (cookie_header req)) REFRESH_COOKIE = Some presented"
    and "verify_session K L presented w = (Inr (RauthySession t s), w')"
    and "rs_headers (g_res w) = []" and "handed_out tok (g_res (snd (refresh K L role req w)))"
  shows "\<exists>p. pf_subject p = s \<and> minted_for L p tok"
proof -
  let ?A = "\<lambda>c. js_get c ''sub'' = JStr s" and ?vars = "g_vars w"
  let ?R = "cookies_from ?vars (allowed L ?A ?vars) :: 'x guard_world_scheme \<Rightarrow> 'x guard_world_scheme \<Rightarrow> bool"
  have made: "?A c" if "renewed_claims L s tokens v = (Inr c, v')" and got: "sl_refresh_grant L t v0 = (Inr tokens, v1)" for tokens v v' c v0 v1
  proof -
    have "tk_claims tokens = None" using assms(2) [OF got] .
    then have "sl_userinfo L (tk_access tokens) s v = (Inr c, v')" using that(1) by (simp add: renewed_claims_def)
    then show ?thesis by (rule assms(3))
  qed
  note renewed = renewed_by [where A = ?A, OF made]
  have "?R w (snd (refresh K L role req w))"
  proof (cases "presented = []")
    case True
    have "along ?R (deny ''no session'')" by (rule out_deny)
    moreover have "refresh K L role req w = deny ''no session'' w" unfolding refresh_def assms(4) using True by simp
    ultimately show ?thesis unfolding along_def by (simp only:)
  next
    case False
    have run: "refresh K L role req w = renew_envelope K L role req (RauthySession t s) w'"
      unfolding refresh_def assms(4) using False assms(5) by (simp add: bnd_run catch_run)
    have "?R w w'" using alongD [OF same_out_cookies [OF still_verify(2)] assms(5)] .
    moreover have "along ?R (renew_envelope K L role req (RauthySession t s))"
      by (rule out_envelope [where A = ?A, OF assms(1)]) (rule renewed)
    then have "?R w' (snd (renew_envelope K L role req (RauthySession t s) w'))" unfolding along_def by (rule spec)
    ultimately show ?thesis unfolding run by (rule out.step_trans)
  qed
  then have "rests_on L ?A ?vars tok" by (rule handed_out_rests) (simp_all add: assms(6,7))
  then obtain c where "?A c" "minted_for L (profile_from_claims ?vars c) tok" unfolding rests_on_def by blast
  then show ?thesis by (intro exI [of _ "profile_from_claims ?vars c"]) (simp add: profile_from_claims_def Let_def)
qed

section \<open>A deployment\<close>

definition demo_lib :: "token_set \<Rightarrow> (string \<Rightarrow> js) \<Rightarrow> (string \<times> int) list guard_world_scheme session_lib" where
  "demo_lib grant info =
     \<lparr>sl_addon = demo_counters, sl_secret = (\<lambda>_. ''key''), sl_file = (\<lambda>_. None), sl_sign = demo_sign, sl_verify = demo_verify,
      sl_hostname = (\<lambda>_. Inr ''idp''), sl_url = (\<lambda>path base. Inr (base @ path)), sl_with_query = (\<lambda>url _. url),
      sl_discover = (\<lambda>_. ret ()), sl_authorize_url = (\<lambda>_ _ _. []), sl_code_grant = (\<lambda>_ _ _ _. ret grant),
      sl_refresh_grant = (\<lambda>_. ret grant), sl_userinfo = (\<lambda>_ s. ret (info s)), sl_insert_audit = (\<lambda>_. ret ())\<rparr>"

definition demo_info :: "string \<Rightarrow> js" where
  "demo_info s = JObj [(''sub'', JStr s), (''email'', JStr (s @ ''@example.org'')), (''email_verified'', JBool True)]"

definition renewed_grant :: "js option \<Rightarrow> token_set" where
  "renewed_grant claims =
     \<lparr>tk_claims = claims, tk_access = ''a'', tk_refresh = None, tk_id = None, tk_expires_in = Some 1800\<rparr>"

lemma grant_simps: "tk_claims (renewed_grant c) = c" "tk_expires_in (renewed_grant c) = Some 1800"
  by (simp_all add: renewed_grant_def)

definition demo_vars :: "(string \<times> string) list" where
  "demo_vars = [(''NODE_ENV'', ''production''), (''RAUTHY_ISSUER'', ''https://idp''), (''RAUTHY_CLIENT_ID'', ''app'')]"

definition demo_world :: "(string \<times> int) list guard_world_scheme" where
  "demo_world = demo_guard\<lparr>g_vars := demo_vars\<rparr>"

definition session_options :: sign_options where
  "session_options = \<lparr>so_subject = None, so_issuer = ISSUER, so_audience = AUDIENCE, so_expires_in = SESSION_TTL_SECONDS\<rparr>"

definition demo_session :: string where
  "demo_session =
     (case demo_sign (JObj [(''env'', envelope_js (RauthySession ''r0'' ''alice''))]) session_options ''key'' 0 of
        Inr t \<Rightarrow> t | Inl _ \<Rightarrow> [])"

definition demo_request :: raw_request where
  "demo_request =
     \<lparr>rr_headers = [(''cookie'', One (jar [(REFRESH_COOKIE, demo_session)]))], rr_peer = None, rr_query = [], rr_search = []\<rparr>"

lemma demo_lib_simps [simp]:
  "sl_addon (demo_lib g i) = demo_counters" "sl_sign (demo_lib g i) = demo_sign" "sl_verify (demo_lib g i) = demo_verify"
  "sl_discover (demo_lib g i) s = ret ()" "sl_code_grant (demo_lib g i) q a b c = ret g" "sl_refresh_grant (demo_lib g i) t = ret g"
  "sl_userinfo (demo_lib g i) t s = ret (i s)" "sl_insert_audit (demo_lib g i) e = ret ()" "sl_secret (demo_lib g i) n = ''key''"
  "sl_hostname (demo_lib g i) u = Inr ''idp''"
  by (simp_all add: demo_lib_def)

lemma demo_secret: "with_dev_file_fallback (demo_lib g i) ''key'' f = ''key''"
  by (simp add: with_dev_file_fallback_def trim_def is_space_def)

lemma demo_quiet: "quiet_lib (demo_lib g i)"
  by (auto simp: quiet_lib_def demo_counters_def along_def same_out_def Let_def)

lemma demo_matching: "matching (demo_lib g i)"
  unfolding matching_def
proof (intro allI impI)
  fix payload opts now tok now'
  assume "sl_sign (demo_lib g i) payload opts (fst (access_pair (demo_lib g i))) now = Inr tok"
  then have signed: "demo_sign payload opts ''key'' now = Inr tok" by (simp add: access_pair_def demo_secret)
  show "tok \<noteq> [] \<and> (if now' div 1000 < now div 1000 + so_expires_in opts
      then \<exists>p. sl_verify (demo_lib g i) (wide_of tok) (snd (access_pair (demo_lib g i))) (so_issuer opts) (so_audience opts) now' = Inr p \<and>
          says p payload opts
      else \<exists>m. sl_verify (demo_lib g i) (wide_of tok) (snd (access_pair (demo_lib g i))) (so_issuer opts) (so_audience opts) now' =
          Inl (TokenExpiredError m))"
    by (rule demo_signed [OF signed]) (use demo_nonempty [OF signed] in \<open>auto simp: access_pair_def demo_secret demo_check_def\<close>)
qed

lemma storable_claims: "storable (claims_js c)"
  by (auto simp: claims_js_def list_all_iff)

lemma demo_signs:
  "\<exists>tok. demo_sign (claims_js c) (access_options s ttl) key now = Inr tok"
  "\<exists>tok. demo_sign (JObj [(''env'', envelope_js env)]) session_options key now = Inr tok"
  by (auto simp: demo_sign_def claims_js_def access_options_def session_options_def list_all_iff) (cases env; simp)+

lemma allow_secret: "demand allow_kernel kind res opts w = (Inr (), w)"
  by (rule permissive_demand [OF allow_permissive])


lemma demo_session_nonempty: "demo_session \<noteq> []"
  using demo_signs(2) [of "RauthySession ''r0'' ''alice''" "''key''" 0] demo_nonempty unfolding demo_session_def by fastforce

lemma demo_session_opens:
  "verify_session allow_kernel (demo_lib g i) (wide_of demo_session) demo_world = (Inr (RauthySession ''r0'' ''alice''), demo_world)"
proof -
  let ?payload = "JObj [(''env'', envelope_js (RauthySession ''r0'' ''alice''))]"
  obtain t where t: "demo_sign ?payload session_options ''key'' 0 = Inr t" using demo_signs(2) by blast
  obtain p where p: "\<And>key' iss aud now'. demo_verify (wide_of t) key' iss aud now' = demo_check (JArr [JStr ''key'', p]) key' iss aud now'"
    "says p ?payload session_options" "js_get p ''iss'' = JStr ISSUER" "js_get p ''aud'' = JStr AUDIENCE"
    "js_get p ''exp'' = JInt SESSION_TTL_SECONDS"
    by (rule demo_signed [OF t]) (simp add: session_options_def)
  have "js_get p ''env'' = envelope_js (RauthySession ''r0'' ''alice'')" using p(2) by (simp add: says_def own_of_first)
  then have "envelope_of p = Inr (RauthySession ''r0'' ''alice'')" by (simp add: envelope_of_def own_of_first)
  moreover have "g_now demo_world = 0" by (simp add: demo_world_def demo_guard_def guard_world.defs plane.defs)
  moreover have session: "demo_session = t" by (simp add: demo_session_def t del: envelope_js.simps)
  ultimately show ?thesis
    unfolding session
    by (simp add: verify_session_def refresh_public_key_def secret_value_def bnd_run allow_secret demo_secret p(1,3-5)
        demo_check_def SESSION_TTL_SECONDS_def)
qed

lemma demo_presented: "map_of (parse_cookies (cookie_header demo_request)) REFRESH_COOKIE = Some (wide_of demo_session)"
  using jar_read [of "[(REFRESH_COOKIE, demo_session)]"] cookie_names(2)
  by (simp add: cookie_header_def demo_request_def)

lemma demo_vars_world: "g_vars demo_world = demo_vars" "rs_headers (g_res demo_world) = []"
  by (simp_all add: demo_world_def demo_guard_def guard_world.defs plane.defs)

lemma demo_renewed:
  "refresh_from_rauthy allow_kernel (demo_lib g i) ''r0'' ''alice'' demo_world =
   (Inr (Some (profile_from_claims demo_vars (case tk_claims g of Some c \<Rightarrow> c | None \<Rightarrow> i ''alice''),
      case tk_refresh g of Some t \<Rightarrow> t | None \<Rightarrow> ''r0'', tk_expires_in g)), demo_world)"
  by (simp add: refresh_from_rauthy_def is_rauthy_configured_def rauthy_client_secret_value_def secret_value_def bnd_run catch_run
      allow_secret demo_secret rauthy_config_def issuer_egress_def renewed_claims_def demo_vars_world env_str_def demo_vars_def
      split: option.split)

lemma json_keeps_cookies: "fst (write_json n b w) = Inr ()" "set_cookies (snd (write_json n b w)) = set_cookies w"
  by (simp_all add: write_json_def set_header_def bnd_run set_cookies_def map_of_obj_set)

lemma demo_now: "g_now demo_world = 0"
  by (simp add: demo_world_def demo_guard_def guard_world.defs plane.defs)

lemma demo_pair:
  assumes "demo_sign (claims_js (claims_of_profile p))
      (access_options (pf_subject p) (case ttl of Some t \<Rightarrow> t | None \<Rightarrow> DEFAULT_ACCESS_TTL_SECONDS)) ''key'' (g_now demo_world) = Inr a"
    and "demo_sign (JObj [(''env'', envelope_js nxt)]) session_options ''key'' (g_now demo_world) = Inr s"
  shows "issue_token_pair allow_kernel (demo_lib g i) p nxt ttl demo_world = (Inr (a, s), demo_world)"
  using assms unfolding session_options_def
  by (simp add: issue_token_pair_def issue_access_token_def sign_access_token_def sign_session_def access_private_key_def
      refresh_private_key_def secret_value_def bnd_run allow_secret demo_secret claims_of_profile_def)

lemma demo_renew:
  "\<exists>tok u. renew allow_kernel (demo_lib g i) req p nxt ttl demo_world = (Inr (), u) \<and> handed_out tok (g_res u) \<and>
     demo_sign (claims_js (claims_of_profile p)) (access_options (pf_subject p) (case ttl of Some t \<Rightarrow> t | None \<Rightarrow> DEFAULT_ACCESS_TTL_SECONDS))
       ''key'' (g_now demo_world) = Inr tok"
proof -
  obtain a where a: "demo_sign (claims_js (claims_of_profile p))
      (access_options (pf_subject p) (case ttl of Some t \<Rightarrow> t | None \<Rightarrow> DEFAULT_ACCESS_TTL_SECONDS)) ''key'' (g_now demo_world) = Inr a"
    using demo_signs(1) by blast
  obtain s where s: "demo_sign (JObj [(''env'', envelope_js nxt)]) session_options ''key'' (g_now demo_world) = Inr s"
    using demo_signs(2) by blast
  have pair: "issue_token_pair allow_kernel (demo_lib g i) p nxt ttl demo_world = (Inr (a, s), demo_world)"
    using a s by (rule demo_pair)
  obtain x where x: "set_auth_cookies a s demo_world = (Inr (), x)" using auth_cookies_run [of a s demo_world] by (metis prod.collapse)
  let ?run = "renew allow_kernel (demo_lib g i) req p nxt ttl demo_world"
  have run: "?run = write_json 200 (JObj [(''status'', JStr ''ok'')]) x"
    using pair x by (simp add: renew_def bnd_run write_audit_def catch_run)
  have "serialize_cookie (g_now demo_world) ''access_token'' a (auth_cookie_options demo_vars (Some ACCESS_TOKEN_MAX_AGE)) \<in>
      set (cookie_lines (g_res (snd ?run)))"
    using auth_cookies_run [of a s demo_world] x json_keeps_cookies(2) [of 200 "JObj [(''status'', JStr ''ok'')]" x]
    by (simp add: run set_cookies_def cookie_lines_def ACCESS_COOKIE_def demo_vars_world)
  moreover have "a \<noteq> []" using demo_nonempty [OF a] .
  ultimately have "handed_out a (g_res (snd ?run))" unfolding handed_out_def by blast
  moreover have "fst ?run = Inr ()" by (simp add: run json_keeps_cookies)
  ultimately show ?thesis using a by (metis prod.collapse)
qed

lemma demo_refresh:
  assumes "c = (case tk_claims g of Some c \<Rightarrow> c | None \<Rightarrow> i ''alice'')" and "p = profile_from_claims demo_vars c"
  obtains tok u where "refresh allow_kernel (demo_lib g i) role demo_request demo_world = (Inr (), u)" and "handed_out tok (g_res u)"
    and "demo_sign (claims_js (claims_of_profile p)) (access_options (pf_subject p)
        (case tk_expires_in g of Some t \<Rightarrow> t | None \<Rightarrow> DEFAULT_ACCESS_TTL_SECONDS)) ''key'' (g_now demo_world) = Inr tok"
proof -
  have session: "wide_of demo_session \<noteq> []" using demo_session_nonempty by (simp add: wide_of_def)
  have "refresh allow_kernel (demo_lib g i) role demo_request demo_world =
      renew allow_kernel (demo_lib g i) demo_request p
        (RauthySession (case tk_refresh g of Some t \<Rightarrow> t | None \<Rightarrow> ''r0'') ''alice'') (tk_expires_in g) demo_world"
    using session by (simp add: refresh_def demo_presented bnd_run catch_run demo_session_opens renew_envelope_def demo_renewed assms)
  then show thesis using that demo_renew by metis
qed


definition demo_authority :: "js \<Rightarrow> bool" where
  "demo_authority c \<longleftrightarrow> (\<exists>s. c = demo_info s)"

lemma demo_speaks: "speaks_for demo_authority (demo_lib (renewed_grant None) demo_info)"
  by (auto simp: speaks_for_def demo_authority_def renewed_grant_def)

theorem authority_behind_every_session_witness:
  "\<exists>tok res. history allow_kernel (demo_lib (renewed_grant None) demo_info) [] demo_vars [res] \<and> handed_out tok res \<and>
     rests_on (demo_lib (renewed_grant None) demo_info) demo_authority demo_vars tok"
proof -
  let ?L = "demo_lib (renewed_grant None) demo_info"
  obtain tok u where run: "refresh allow_kernel ?L [] demo_request demo_world = (Inr (), u)" and tok: "handed_out tok (g_res u)"
    by (rule demo_refresh [OF refl refl])
  have "history allow_kernel ?L [] demo_vars ([] @ [g_res u])"
    by (rule history_step [OF history_start, where ep = Refresh and req = demo_request and w = demo_world])
       (simp_all add: demo_vars_world run)
  then have h: "history allow_kernel ?L [] demo_vars [g_res u]" by simp
  have "map_of demo_vars ''NODE_ENV'' = Some ''production''" by (simp add: demo_vars_def)
  from authority_behind_every_session [OF demo_quiet demo_speaks demo_answers this h _ tok] show ?thesis using h tok by auto
qed

lemma demo_finalize:
  "\<exists>u. finalize_login allow_kernel (demo_lib g i) p env ip agent ttl demo_world = (Inr (), u)"
proof -
  obtain a where a: "demo_sign (claims_js (claims_of_profile p))
      (access_options (pf_subject p) (case ttl of Some t \<Rightarrow> t | None \<Rightarrow> DEFAULT_ACCESS_TTL_SECONDS)) ''key'' (g_now demo_world) = Inr a"
    using demo_signs(1) by blast
  obtain s where s: "demo_sign (JObj [(''env'', envelope_js env)]) session_options ''key'' (g_now demo_world) = Inr s"
    using demo_signs(2) by blast
  have pair: "issue_token_pair allow_kernel (demo_lib g i) p env ttl demo_world = (Inr (a, s), demo_world)"
    using a s by (rule demo_pair)
  obtain x where "set_auth_cookies a s demo_world = (Inr (), x)" using auth_cookies_run [of a s demo_world] by (metis prod.collapse)
  with pair show ?thesis by (simp add: finalize_login_def bnd_run write_audit_def catch_run)
qed

lemma allow_keys: "granted allow_kernel ''secret.read'' res no_options v"
  using allow_permissive by (simp add: granted_def permissive_def)


theorem renewal_keeps_subject_witness:
  "\<exists>tok. handed_out tok (g_res (snd (refresh allow_kernel (demo_lib (renewed_grant None) demo_info) [] demo_request demo_world))) \<and>
     (\<exists>p. pf_subject p = ''alice'' \<and> minted_for (demo_lib (renewed_grant None) demo_info) p tok)"
proof -
  let ?L = "demo_lib (renewed_grant None) demo_info"
  obtain tok u where run: "refresh allow_kernel ?L [] demo_request demo_world = (Inr (), u)" and tok: "handed_out tok (g_res u)"
    by (rule demo_refresh [OF refl refl])
  then have out: "handed_out tok (g_res (snd (refresh allow_kernel ?L [] demo_request demo_world)))" by simp
  have "\<exists>p. pf_subject p = ''alice'' \<and> minted_for ?L p tok"
    by (rule renewal_keeps_subject [OF demo_quiet _ _ demo_presented demo_session_opens demo_vars_world(2) out])
       (auto simp: renewed_grant_def demo_info_def own_of_first)
  then show ?thesis using out by blast
qed

section \<open>Where the comments promise more\<close>

text \<open>
  An authority may answer a refresh grant with an id token, and then the subject is that token's: the access token of a session
  opened for \<open>alice\<close> is for \<open>mallory\<close>, although pinning is said to rule out that a renewal changes whom a session belongs to.
\<close>

lemma renewal_follows_id_token:
  "\<exists>tok u d. refresh allow_kernel (demo_lib (renewed_grant (Some (demo_info ''mallory''))) demo_info) [] demo_request demo_world = (Inr (), u) \<and>
     handed_out tok (g_res u) \<and> sc_user d = ''mallory'' \<and>
     fst (auth_handler allow_kernel (demo_lib (renewed_grant (Some (demo_info ''mallory''))) demo_info) None (Some (wide_of tok)) demo_world) = Inr d"
proof -
  let ?L = "demo_lib (renewed_grant (Some (demo_info ''mallory''))) demo_info" and ?p = "profile_from_claims demo_vars (demo_info ''mallory'')"
  obtain tok u where run: "refresh allow_kernel ?L [] demo_request demo_world = (Inr (), u)" and tok: "handed_out tok (g_res u)"
    and signed: "demo_sign (claims_js (claims_of_profile ?p)) (access_options (pf_subject ?p) 1800) ''key'' (g_now demo_world) = Inr tok"
    by (rule demo_refresh [where role = "[]" and c = "demo_info ''mallory''" and i = demo_info and p = ?p and
          g = "renewed_grant (Some (demo_info ''mallory''))"]) (simp_all add: grant_simps)
  have user: "sc_user (claims_of_profile ?p) = ''mallory''" "pf_subject ?p = ''mallory''"
    by (simp_all add: claims_of_profile_def profile_from_claims_def Let_def demo_info_def own_of_first)
  have "sl_sign ?L (claims_js (claims_of_profile ?p)) (access_options (sc_user (claims_of_profile ?p)) 1800) (fst (access_pair ?L)) 0 = Inr tok"
    using signed by (simp add: access_pair_def demo_secret demo_now user)
  from handler_run [OF allow_keys demo_matching this, of demo_world]
  have "fst (auth_handler allow_kernel ?L None (Some (wide_of tok)) demo_world) = Inr (claims_of_profile ?p)" by (simp add: demo_now)
  then show ?thesis using run tok user(1) by blast
qed

text \<open>
  An access token lives as long as the authority says, but its cookie always ends after 900 seconds: a browser stops sending a
  token that is still good, and the renewal comes before the authority accepts the refresh token.
\<close>

lemma cookie_ends_first:
  "\<exists>u a rest. finalize_login allow_kernel (demo_lib (renewed_grant None) demo_info) p env None None (Some 1800) demo_world = (Inr (), u) \<and>
     set_cookies u = serialize_cookie 0 ACCESS_COOKIE a (auth_cookie_options demo_vars (Some 900)) # rest \<and>
     fst (auth_handler allow_kernel (demo_lib (renewed_grant None) demo_info) None (Some (wide_of a)) (demo_world\<lparr>g_now := 1799999\<rparr>)) =
       Inr (claims_of_profile p)"
proof -
  let ?L = "demo_lib (renewed_grant None) demo_info"
  obtain u where run: "finalize_login allow_kernel ?L p env None None (Some 1800) demo_world = (Inr (), u)" using demo_finalize by blast
  obtain a s where signed: "sl_sign ?L (claims_js (claims_of_profile p)) (access_options (pf_subject p) 1800) (fst (access_pair ?L)) 0 = Inr a"
    and lines: "set_cookies u = [serialize_cookie 0 ACCESS_COOKIE a (auth_cookie_options demo_vars (Some 900)),
       serialize_cookie 0 REFRESH_COOKIE s (auth_cookie_options demo_vars (Some REFRESH_TOKEN_MAX_AGE))]"
    by (rule finalize_run [OF demo_quiet allow_keys demo_vars_world(2) run]) (simp add: demo_now demo_vars_world ACCESS_TOKEN_MAX_AGE_def)
  have "pf_subject p = sc_user (claims_of_profile p)" by (simp add: claims_of_profile_def)
  from handler_run [OF allow_keys demo_matching signed [unfolded this], of "demo_world\<lparr>g_now := 1799999\<rparr>"]
  show ?thesis using run lines by auto
qed

end
