(* ===== verification/Observability.thy ===== *)
theory Observability
  imports Request_Guard
begin

text \<open>
  What the program records about itself: the window of recent traces (\<open>obs/buffer.ts\<close>, \<open>traces.ts\<close>, \<open>config.ts\<close>), the
  conversion of spans and the observer of denials (\<open>tracer.ts\<close>), the middleware around requests (\<open>middleware.ts\<close>) and the
  wrapper of the ledger driver (\<open>instrument.ts\<close>). Spans and counters are those of client libraries, gathered in \<open>otel\<close>. Times are
  kept in nanoseconds, where the code divides to milliseconds.
\<close>

section \<open>The window of traces\<close>

datatype span_status = StatusUnset | StatusOk | StatusError

record buffered_span =
  bs_trace :: string
  bs_span :: string
  bs_parent :: "string option"
  bs_name :: string
  bs_kind :: string
  bs_start :: int
  bs_duration :: int
  bs_attributes :: "(string \<times> js) list"
  bs_status :: span_status
  bs_message :: "string option"
  bs_events :: "(string \<times> int) list"

record buffered_trace =
  bt_trace :: string
  bt_spans :: "buffered_span list"
  bt_start :: int
  bt_end :: "int option"
  bt_root :: "string option"
  bt_error :: bool
  bt_dropped :: nat

record trace_summary =
  ts_trace :: string
  ts_root :: "string option"
  ts_start :: int
  ts_end :: "int option"
  ts_duration :: "int option"
  ts_spans :: nat
  ts_error :: bool

definition MAX_SPANS_PER_TRACE :: nat where "MAX_SPANS_PER_TRACE = 512"

text \<open>The map in insertion order; a subscriber is a callback that may throw, and \<open>tb_told\<close> is what subscribers were told.\<close>

record trace_buffer =
  tb_cap :: int
  tb_traces :: "(string \<times> buffered_trace) list"
  tb_subscribers :: "(nat \<times> (buffered_trace \<Rightarrow> exn + unit)) list"
  tb_told :: "(nat \<times> buffered_trace) list"

definition new_buffer :: "int \<Rightarrow> trace_buffer" where
  "new_buffer cap = \<lparr>tb_cap = cap, tb_traces = [], tb_subscribers = [], tb_told = []\<rparr>"

fun evict :: "int \<Rightarrow> (string \<times> buffered_trace) list \<Rightarrow> (string \<times> buffered_trace) list" where
  "evict cap [] = []"
| "evict cap (t # ts) = (if int (length (t # ts)) > cap then evict cap ts else t # ts)"

definition open_trace :: "buffered_span \<Rightarrow> buffered_trace" where
  "open_trace s =
     \<lparr>bt_trace = bs_trace s, bt_spans = [], bt_start = bs_start s, bt_end = None, bt_root = None, bt_error = False, bt_dropped = 0\<rparr>"

definition note_span :: "buffered_span \<Rightarrow> buffered_trace \<Rightarrow> buffered_trace" where
  "note_span s e =
     (let e1 = (if bs_start s < bt_start e then e\<lparr>bt_start := bs_start s\<rparr> else e);
          e2 = (if bs_status s = StatusError then e1\<lparr>bt_error := True\<rparr> else e1);
          e3 = (if length (bt_spans e2) \<ge> MAX_SPANS_PER_TRACE then e2\<lparr>bt_dropped := bt_dropped e2 + 1\<rparr>
                else e2\<lparr>bt_spans := bt_spans e2 @ [s]\<rparr>)
      in if bs_parent s = None then e3\<lparr>bt_root := Some (bs_name s), bt_end := Some (bs_start s + bs_duration s)\<rparr> else e3)"

text \<open>The entry is one object, in the map or evicted from it: what is written to it shows there if it is there.\<close>

definition buffer_add :: "buffered_span \<Rightarrow> trace_buffer \<Rightarrow> trace_buffer" where
  "buffer_add s b =
     (let known = map_of (tb_traces b) (bs_trace s);
          entry = (case known of Some e \<Rightarrow> e | None \<Rightarrow> open_trace s);
          ts = (if known = None then evict (tb_cap b) (tb_traces b @ [(bs_trace s, entry)]) else tb_traces b);
          entry' = note_span s entry;
          b' = b\<lparr>tb_traces := map (\<lambda>(k, e). if k = bs_trace s then (k, entry') else (k, e)) ts\<rparr>
      in if bs_parent s = None
         then b'\<lparr>tb_told := tb_told b' @ map (\<lambda>(i, f). (i, entry')) (tb_subscribers b')\<rparr>    \<comment> \<open>what a callback throws is dropped\<close>
         else b')"

definition summary_of :: "buffered_trace \<Rightarrow> trace_summary" where
  "summary_of e =
     \<lparr>ts_trace = bt_trace e, ts_root = bt_root e, ts_start = bt_start e, ts_end = bt_end e,
      ts_duration = (case bt_end e of None \<Rightarrow> None | Some t \<Rightarrow> Some (t - bt_start e)),
      ts_spans = length (bt_spans e), ts_error = bt_error e\<rparr>"

definition buffer_list :: "int \<Rightarrow> trace_buffer \<Rightarrow> trace_summary list" where
  "buffer_list limit b = take (nat limit) (sort_key (\<lambda>t. - ts_start t) (map (summary_of \<circ> snd) (tb_traces b)))"

definition buffer_get :: "string \<Rightarrow> trace_buffer \<Rightarrow> buffered_trace option" where
  "buffer_get trace b = map_of (tb_traces b) trace"

definition buffer_subscribe :: "nat \<Rightarrow> (buffered_trace \<Rightarrow> exn + unit) \<Rightarrow> trace_buffer \<Rightarrow> trace_buffer" where
  "buffer_subscribe i f b = b\<lparr>tb_subscribers := tb_subscribers b @ [(i, f)]\<rparr>"

definition buffer_unsubscribe :: "nat \<Rightarrow> trace_buffer \<Rightarrow> trace_buffer" where
  "buffer_unsubscribe i b = b\<lparr>tb_subscribers := filter (\<lambda>(j, _). j \<noteq> i) (tb_subscribers b)\<rparr>"

definition buffer_clear :: "trace_buffer \<Rightarrow> trace_buffer" where
  "buffer_clear b = b\<lparr>tb_traces := []\<rparr>"

section \<open>Configuration\<close>

record obs_config =
  oc_endpoint :: "string option"
  oc_cap :: int

definition DEFAULT_TRACE_BUFFER_CAP :: int where "DEFAULT_TRACE_BUFFER_CAP = 256"

definition config_from_env :: "(string \<times> string) list \<Rightarrow> obs_config" where
  "config_from_env vars =
     \<lparr>oc_endpoint = (case map_of vars ''OTEL_EXPORTER_OTLP_ENDPOINT'' of
                       None \<Rightarrow> None | Some s \<Rightarrow> if trim s = [] then None else Some (trim s)),
      oc_cap = (case js_integer (case map_of vars ''ENRAHITU_TRACE_BUFFER_CAP'' of None \<Rightarrow> [] | Some s \<Rightarrow> s) of
                  Some n \<Rightarrow> if 0 < n then n else DEFAULT_TRACE_BUFFER_CAP
                | None \<Rightarrow> DEFAULT_TRACE_BUFFER_CAP)\<rparr>"

section \<open>Spans\<close>

text \<open>A span as the library hands it over when it ends: times as seconds and nanoseconds, the status by number.\<close>

record readable_span =
  rs_trace :: string
  rs_span :: string
  rs_parent :: "string option"
  rs_name :: string
  rs_kind :: string
  rs_start :: "int \<times> int"
  rs_duration :: "int \<times> int"
  rs_attributes :: "(string \<times> js) list"
  rs_code :: nat
  rs_message :: "string option"
  rs_events :: "(string \<times> (int \<times> int)) list"

definition hr_time :: "int \<times> int \<Rightarrow> int" where
  "hr_time t = fst t * 1000000000 + snd t"

definition to_buffered_span :: "readable_span \<Rightarrow> buffered_span" where
  "to_buffered_span s =
     \<lparr>bs_trace = rs_trace s, bs_span = rs_span s, bs_parent = rs_parent s, bs_name = rs_name s, bs_kind = to_lower (rs_kind s),
      bs_start = hr_time (rs_start s), bs_duration = hr_time (rs_duration s), bs_attributes = rs_attributes s,
      bs_status = (if rs_code s = 1 then StatusOk else if rs_code s = 2 then StatusError else StatusUnset),
      bs_message = rs_message s, bs_events = map (\<lambda>(n, t). (n, hr_time t)) (rs_events s)\<rparr>"

definition on_end :: "readable_span \<Rightarrow> trace_buffer \<Rightarrow> trace_buffer" where
  "on_end s b = buffer_add (to_buffered_span s) b"

text \<open>
  The libraries: starting a span under the active one, running something with it active, what is set on it, counters and
  histograms, and the clock.
\<close>

record ('w, 's) otel =
  ot_active :: "'w \<Rightarrow> 's option"
  ot_recording :: "'w \<Rightarrow> 's \<Rightarrow> bool"
  ot_start :: "string \<Rightarrow> string \<Rightarrow> (string \<times> js) list \<Rightarrow> ('w, 's) io"
  ot_enter :: "'s \<Rightarrow> 'w \<Rightarrow> 'w"                 \<comment> \<open>makes the span the active one\<close>
  ot_leave :: "'w \<Rightarrow> 'w \<Rightarrow> 'w"                 \<comment> \<open>restores what was active in the first world\<close>
  ot_attribute :: "'s \<Rightarrow> string \<Rightarrow> js \<Rightarrow> ('w, unit) io"
  ot_exception :: "'s \<Rightarrow> exn \<Rightarrow> ('w, unit) io"
  ot_error :: "'s \<Rightarrow> string \<Rightarrow> ('w, unit) io"
  ot_end :: "'s \<Rightarrow> ('w, unit) io"
  ot_inc :: "string \<Rightarrow> string list \<Rightarrow> ('w, unit) io"
  ot_observe :: "string \<Rightarrow> string list \<Rightarrow> int \<Rightarrow> ('w, unit) io"
  ot_clock :: "'w \<Rightarrow> int"

definition within :: "('w, 's) otel \<Rightarrow> 's \<Rightarrow> ('w, 'a) io \<Rightarrow> ('w, 'a) io" where
  "within T sp m = (\<lambda>w. case m (ot_enter T sp w) of (r, u) \<Rightarrow> (r, ot_leave T w u))"

definition start_active_span ::
  "('w, 's) otel \<Rightarrow> string \<Rightarrow> string \<Rightarrow> (string \<times> js) list \<Rightarrow> ('s \<Rightarrow> ('w, 'a) io) \<Rightarrow> ('w, 'a) io" where
  "start_active_span T name kind ats f = bnd (ot_start T name kind ats) (\<lambda>sp. within T sp (f sp))"

definition observe_denial :: "('w, 's) otel \<Rightarrow> denial \<Rightarrow> ('w, unit) io" where
  "observe_denial T d =
     bnd (gets (\<lambda>w. case ot_active T w of None \<Rightarrow> None | Some sp \<Rightarrow> if ot_recording T w sp then Some sp else None)) (\<lambda>active.
       case active of
         None \<Rightarrow> ret ()
       | Some sp \<Rightarrow>
           each (\<lambda>(k, v). ot_attribute T sp k (JStr v))
             [(''enrahitu.decision.id'', n_id d), (''enrahitu.decision.outcome'', n_outcome d),
              (''enrahitu.decision.capability'', c_kind (n_capability d) @ '':'' @ c_resource (n_capability d)),
              (''enrahitu.decision.reason'', n_reason d)])"

section \<open>Requests\<close>

fun STATUS_BY_ERR_CODE :: "api_code \<Rightarrow> int" where
  "STATUS_BY_ERR_CODE Canceled = 499"
| "STATUS_BY_ERR_CODE UnknownCode = 500"
| "STATUS_BY_ERR_CODE InvalidArgument = 400"
| "STATUS_BY_ERR_CODE DeadlineExceeded = 504"
| "STATUS_BY_ERR_CODE NotFound = 404"
| "STATUS_BY_ERR_CODE AlreadyExists = 409"
| "STATUS_BY_ERR_CODE PermissionDenied = 403"
| "STATUS_BY_ERR_CODE ResourceExhausted = 429"
| "STATUS_BY_ERR_CODE FailedPrecondition = 400"
| "STATUS_BY_ERR_CODE Aborted = 409"
| "STATUS_BY_ERR_CODE OutOfRange = 400"
| "STATUS_BY_ERR_CODE Unimplemented = 501"
| "STATUS_BY_ERR_CODE Internal = 500"
| "STATUS_BY_ERR_CODE Unavailable = 503"
| "STATUS_BY_ERR_CODE DataLoss = 500"
| "STATUS_BY_ERR_CODE Unauthenticated = 401"

fun status_from_error :: "exn \<Rightarrow> int" where
  "status_from_error (APIError code _ _) = STATUS_BY_ERR_CODE code"
| "status_from_error _ = 500"

text \<open>Path patterns by service and endpoint, from the model the program was booted with.\<close>

fun elements_of :: "js \<Rightarrow> js list" where
  "elements_of (JArr xs) = xs"
| "elements_of _ = []"

fun name_text :: "js \<Rightarrow> string" where
  "name_text (JStr s) = s"
| "name_text _ = ''undefined''"

definition route_patterns :: "js \<Rightarrow> (string \<times> string) list" where
  "route_patterns model =
     concat (map (\<lambda>s. map (\<lambda>e. (name_text (js_get s ''name'') @ ''.'' @ name_text (js_get e ''name''), name_text (js_get e ''path'')))
                        (elements_of (js_get s ''endpoints'')))
       (elements_of (js_get model ''services'')))"

definition status_class :: "int \<Rightarrow> string" where
  "status_class code = show_int (code div 100) @ ''xx''"

definition attempt :: "('w, 'a) io \<Rightarrow> ('w, exn + 'a) io" where
  "attempt m = catch (bnd m (\<lambda>a. ret (Inr a))) (\<lambda>e. ret (Inl e))"

text \<open>What the span function of a request does: \<open>raw\<close> is the status of the raw response, if there is one.\<close>

definition observed_request ::
  "('w, 's) otel \<Rightarrow> ('w \<Rightarrow> int option) \<Rightarrow> string \<Rightarrow> string \<Rightarrow> int \<Rightarrow> ('w, 'a) io \<Rightarrow> 's \<Rightarrow> ('w, 'a) io" where
  "observed_request T raw service endpoint started nxt sp =
     bnd (attempt nxt) (\<lambda>outcome.
     bnd (case outcome of
            Inr _ \<Rightarrow> gets (\<lambda>w. case raw w of None \<Rightarrow> 200 | Some n \<Rightarrow> n)
          | Inl e \<Rightarrow> seq (ot_exception T sp e) (seq (ot_error T sp (err_message e)) (ret (status_from_error e)))) (\<lambda>code.
     bnd (gets (ot_clock T)) (\<lambda>now.
     let labels = [service, endpoint, status_class code] in
     seq (ot_inc T ''http_requests_total'' labels)
    (seq (ot_observe T ''http_request_duration_seconds'' labels (now - started))
    (seq (ot_attribute T sp ''http.response.status_code'' (JInt code))
    (seq (ot_end T sp)
         (lift outcome)))))))"

definition obs_middleware ::
  "('w, 's) otel \<Rightarrow> (string \<times> string) list \<Rightarrow> ('w \<Rightarrow> int option) \<Rightarrow> api_call option \<Rightarrow> ('w, 'a) io \<Rightarrow> ('w, 'a) io" where
  "obs_middleware T routes raw meta nxt =
     (case meta of
        None \<Rightarrow> nxt
      | Some m \<Rightarrow>
          let qualified = ac_service m @ ''.'' @ ac_endpoint m in
          bnd (gets (ot_clock T)) (\<lambda>started.
            start_active_span T qualified ''SERVER''
              [(''enrahitu.service'', JStr (ac_service m)), (''enrahitu.endpoint'', JStr (ac_endpoint m)),
               (''http.request.method'', JStr (ac_method m)),
               (''http.route'', JStr (case map_of (rev routes) qualified of Some p \<Rightarrow> p | None \<Rightarrow> []))]
              (observed_request T raw (ac_service m) (ac_endpoint m) started nxt)))"

section \<open>The instrumented driver\<close>

definition observe_op :: "('w, 's) otel \<Rightarrow> string \<Rightarrow> string \<Rightarrow> ('w, 'a) io \<Rightarrow> ('w, 'a) io" where
  "observe_op T operation resource run =
     seq (ot_inc T ''coreledger_operations_total'' [operation, resource])
    (bnd (gets (ot_active T)) (\<lambda>active.
       if active = None then run
       else start_active_span T (''coreledger.'' @ operation) ''CLIENT''
              [(''enrahitu.coreledger.operation'', JStr operation), (''enrahitu.coreledger.resource'', JStr resource)]
              (\<lambda>sp. finally_do
                 (catch run (\<lambda>e. seq (ot_exception T sp e) (seq (ot_error T sp (err_message e)) (throw e))))
                 (ot_end T sp))))"

definition instrument_tx :: "('w, 's) otel \<Rightarrow> string \<Rightarrow> 'w ledger_tx \<Rightarrow> 'w ledger_tx" where
  "instrument_tx T resource tx =
     \<lparr>x_query = (\<lambda>sql ps. observe_op T ''read'' resource (x_query tx sql ps)),
      x_execute = (\<lambda>sql ps. observe_op T ''write'' resource (x_execute tx sql ps))\<rparr>"

definition instrument_driver :: "('w, 's) otel \<Rightarrow> string \<Rightarrow> ('w, 'r) ledger_driver \<Rightarrow> ('w, 'r) ledger_driver" where
  "instrument_driver T resource D =
     \<lparr>x_query = (\<lambda>sql ps. observe_op T ''read'' resource (x_query D sql ps)),
      x_execute = (\<lambda>sql ps. observe_op T ''write'' resource (x_execute D sql ps)),
      x_postgres = x_postgres D,
      x_batch = (\<lambda>stmts. observe_op T ''migrate'' resource (x_batch D stmts)),
      x_transaction = (\<lambda>f. observe_op T ''txn'' resource (x_transaction D (\<lambda>tx. f (instrument_tx T resource tx)))),
      x_close = x_close D\<rparr>"

end
