(* ===== verification/Observability_Claims.thy ===== *)
theory Observability_Claims
  imports Observability
begin

text \<open>
  Observing changes nothing: the window of traces is exactly the recent past, and neither the wrapper of the driver nor the
  middleware changes what the program answers.
\<close>

section \<open>The window is the recent past\<close>

text \<open>A trace as a function of the spans that were added to it.\<close>

definition trace_of :: "string \<Rightarrow> buffered_span list \<Rightarrow> buffered_trace" where
  "trace_of k ss =
     \<lparr>bt_trace = k, bt_spans = take MAX_SPANS_PER_TRACE ss, bt_start = Min (set (map bs_start ss)),
      bt_end = (case filter (\<lambda>s. bs_parent s = None) ss of [] \<Rightarrow> None | rs \<Rightarrow> Some (bs_start (last rs) + bs_duration (last rs))),
      bt_root = (case filter (\<lambda>s. bs_parent s = None) ss of [] \<Rightarrow> None | rs \<Rightarrow> Some (bs_name (last rs))),
      bt_error = (\<exists>s \<in> set ss. bs_status s = StatusError), bt_dropped = length ss - MAX_SPANS_PER_TRACE\<rparr>"

lemma trace_first: "note_span s (open_trace s) = trace_of (bs_trace s) [s]"
  by (auto simp: note_span_def open_trace_def trace_of_def MAX_SPANS_PER_TRACE_def Let_def)

lemma last_case: "(case xs @ [x] of [] \<Rightarrow> a | ys \<Rightarrow> f (last ys)) = f x"
  by (cases xs) simp_all

lemma trace_next:
  assumes "ss \<noteq> []"
  shows "note_span s (trace_of k ss) = trace_of k (ss @ [s])"
proof -
  define m where "m = Min (set (map bs_start ss))"
  have least: "Min (set (map bs_start (ss @ [s]))) = min (bs_start s) m"
    using assms by (simp add: m_def Min_insert)
  show ?thesis
    unfolding trace_of_def least m_def [symmetric]
    by (cases "filter (\<lambda>s. bs_parent s = None) ss") (auto simp: note_span_def Let_def min_def)
qed

lemma keys_kept: "map fst (map (\<lambda>(k, e). if k = x then (k, f e) else (k, e)) ts) = map fst ts"
  by (induction ts) auto

lemma evict_drop: "evict cap ts = drop (length ts - nat cap) ts"
  by (induction ts) (auto simp: Suc_diff_le nat_le_iff split: nat_diff_split)

lemma add_known:
  "map_of (tb_traces b) (bs_trace s) = Some e \<Longrightarrow>
   tb_traces (buffer_add s b) = map (\<lambda>(k, x). if k = bs_trace s then (k, note_span s e) else (k, x)) (tb_traces b)"
  unfolding buffer_add_def by (simp add: Let_def case_prod_unfold)

lemma add_new:
  "map_of (tb_traces b) (bs_trace s) = None \<Longrightarrow>
   tb_traces (buffer_add s b) = map (\<lambda>(k, x). if k = bs_trace s then (k, note_span s (open_trace s)) else (k, x))
     (evict (tb_cap b) (tb_traces b @ [(bs_trace s, open_trace s)]))"
  unfolding buffer_add_def by (simp add: Let_def case_prod_unfold)

text \<open>What is held after the spans \<open>ss\<close>: each trace with all spans since it was opened.\<close>

definition filled :: "int \<Rightarrow> buffered_span list \<Rightarrow> trace_buffer" where
  "filled cap ss = fold buffer_add ss (new_buffer cap)"

definition since_opened :: "int \<Rightarrow> buffered_span list \<Rightarrow> string \<Rightarrow> buffered_trace \<Rightarrow> bool" where
  "since_opened cap ss k e \<longleftrightarrow>
     (\<exists>before after. ss = before @ after \<and> after \<noteq> [] \<and> bs_trace (hd after) = k \<and> buffer_get k (filled cap before) = None \<and>
        e = trace_of k (filter (\<lambda>s. bs_trace s = k) after))"

lemma filled_snoc: "filled cap (ss @ [s]) = buffer_add s (filled cap ss)"
  by (simp add: filled_def)

lemma filled_cap: "tb_cap (filled cap ss) = cap"
  by (induction ss rule: rev_induct) (simp_all add: filled_def new_buffer_def buffer_add_def Let_def)

lemma opened_later:
  assumes "since_opened cap ss k e"
  shows "since_opened cap (ss @ [s]) k (if bs_trace s = k then note_span s e else e)"
proof -
  obtain before after where split: "ss = before @ after" "after \<noteq> []" "bs_trace (hd after) = k"
    "buffer_get k (filled cap before) = None" "e = trace_of k (filter (\<lambda>s. bs_trace s = k) after)"
    using assms unfolding since_opened_def by blast
  have "hd after \<in> set (filter (\<lambda>s. bs_trace s = k) after)" using split(2,3) by simp
  then have "filter (\<lambda>s. bs_trace s = k) after \<noteq> []" by (metis empty_iff list.set(1))
  from trace_next [OF this, of s k] show ?thesis
    unfolding since_opened_def using split by (intro exI [of _ before] exI [of _ "after @ [s]"]) auto
qed

lemma opened_now:
  "buffer_get (bs_trace s) (filled cap ss) = None \<Longrightarrow> since_opened cap (ss @ [s]) (bs_trace s) (note_span s (open_trace s))"
  unfolding since_opened_def by (intro exI [of _ ss] exI [of _ "[s]"]) (simp add: trace_first)

definition window :: "int \<Rightarrow> buffered_span list \<Rightarrow> bool" where
  "window cap ss \<longleftrightarrow>
     (let ts = tb_traces (filled cap ss) in
      distinct (map fst ts) \<and> int (length ts) \<le> cap \<and> (\<forall>(k, e) \<in> set ts. since_opened cap ss k e) \<and>
      (ss \<noteq> [] \<longrightarrow> bs_trace (last ss) \<in> fst ` set ts))"

lemma window_known:
  assumes "window cap ss" and "map_of (tb_traces (filled cap ss)) (bs_trace s) = Some e"
  shows "window cap (ss @ [s])"
proof -
  let ?ts = "tb_traces (filled cap ss)"
  have ts: "tb_traces (filled cap (ss @ [s])) = map (\<lambda>(k, e'). if k = bs_trace s then (k, note_span s e) else (k, e')) ?ts"
    using add_known [OF assms(2)] by (simp add: filled_snoc)
  have mem: "(bs_trace s, e) \<in> set ?ts" using assms(2) by (rule map_of_SomeD)
  have "since_opened cap (ss @ [s]) k e'" if mine: "(k, e') \<in> set (tb_traces (filled cap (ss @ [s])))" for k e'
  proof -
    obtain e0 where e0: "(k, e0) \<in> set ?ts" "e' = (if k = bs_trace s then note_span s e else e0)"
      using mine unfolding ts by (auto split: if_splits)
    moreover have "e0 = e" if "k = bs_trace s"
      using that e0(1) mem assms(1) unfolding window_def Let_def by (metis eq_key_imp_eq_value)
    moreover have "since_opened cap ss k e0" using e0(1) assms(1) unfolding window_def Let_def by auto
    ultimately show ?thesis using opened_later [of cap ss k e0 s] by auto
  qed
  moreover have "map fst (tb_traces (filled cap (ss @ [s]))) = map fst ?ts" unfolding ts by (rule keys_kept)
  moreover have "length (tb_traces (filled cap (ss @ [s]))) = length ?ts" unfolding ts by simp
  moreover have "bs_trace s \<in> fst ` set ?ts" using mem by force
  ultimately show ?thesis using assms(1) unfolding window_def Let_def by (metis (no_types, lifting) case_prodI2 last_snoc list.set_map)
qed

lemma window_new:
  assumes "window cap ss" and "0 < cap" and "map_of (tb_traces (filled cap ss)) (bs_trace s) = None"
  shows "window cap (ss @ [s])"
proof -
  let ?k = "bs_trace s" and ?ts = "tb_traces (filled cap ss)"
  let ?n = "Suc (length ?ts) - nat cap"
  have n: "?n \<le> length ?ts" using assms(2) by simp
  have absent: "?k \<notin> fst ` set ?ts" using assms(3) by (simp add: map_of_eq_None_iff)
  have ts: "tb_traces (filled cap (ss @ [s])) = drop ?n ?ts @ [(?k, note_span s (open_trace s))]"
  proof -
    have "evict cap (?ts @ [(?k, open_trace s)]) = drop ?n ?ts @ [(?k, open_trace s)]" using n by (simp add: evict_drop)
    moreover have "map (\<lambda>(k, e). if k = ?k then (k, x) else (k, e)) (drop ?n ?ts) = drop ?n ?ts" for x
      using absent by (intro map_idI) (force dest: in_set_dropD)
    ultimately show ?thesis by (simp add: filled_snoc add_new [OF assms(3)] filled_cap)
  qed
  have "since_opened cap (ss @ [s]) k e" if "(k, e) \<in> set (drop ?n ?ts)" for k e
  proof -
    have "(k, e) \<in> set ?ts" using that by (rule in_set_dropD)
    then have "since_opened cap ss k e" "k \<noteq> ?k" using assms(1) absent unfolding window_def Let_def by force+
    then show ?thesis using opened_later [of cap ss k e s] by auto
  qed
  moreover have "since_opened cap (ss @ [s]) ?k (note_span s (open_trace s))"
    by (rule opened_now) (simp add: buffer_get_def assms(3))
  moreover have "distinct (map fst (drop ?n ?ts))" using assms(1) unfolding window_def Let_def by (simp add: drop_map [symmetric])
  moreover have "?k \<notin> fst ` set (drop ?n ?ts)" using absent by (auto dest: in_set_dropD)
  moreover have "int (length (drop ?n ?ts @ [(?k, note_span s (open_trace s))])) \<le> cap"
    using assms(1,2) unfolding window_def Let_def by simp
  ultimately show ?thesis unfolding window_def Let_def ts by auto
qed

lemma window_always:
  assumes "0 < cap"
  shows "window cap ss"
proof (induction ss rule: rev_induct)
  case Nil
  then show ?case using assms by (simp add: window_def filled_def new_buffer_def)
next
  case (snoc s ss)
  then show ?case
    using window_known window_new [OF _ assms] by (cases "map_of (tb_traces (filled cap ss)) (bs_trace s)") auto
qed


text \<open>
  C24: with a positive cap, whatever spans arrive, the buffer holds at most that many traces, no trace twice, and the
  newest span's trace among them; each trace it holds is exactly what the spans say that arrived since it was last opened: the
  first 512 of them and how many more there were, the earliest start, the last root and its end, and whether any failed.
\<close>

theorem trace_window:
  assumes "0 < cap"
  shows "let ts = tb_traces (filled cap ss) in
    distinct (map fst ts) \<and> int (length ts) \<le> cap \<and> (ss \<noteq> [] \<longrightarrow> bs_trace (last ss) \<in> fst ` set ts) \<and>
    (\<forall>(k, e) \<in> set ts. \<exists>before after. ss = before @ after \<and> after \<noteq> [] \<and> bs_trace (hd after) = k \<and>
       buffer_get k (filled cap before) = None \<and> e = trace_of k (filter (\<lambda>s. bs_trace s = k) after))"
  using window_always [OF assms, of ss] by (simp add: window_def since_opened_def Let_def)

definition demo_span :: "string \<Rightarrow> string option \<Rightarrow> int \<Rightarrow> buffered_span" where
  "demo_span k parent at =
     \<lparr>bs_trace = k, bs_span = ''s'', bs_parent = parent, bs_name = ''web.get'', bs_kind = ''server'', bs_start = at, bs_duration = 5,
      bs_attributes = [], bs_status = StatusError, bs_message = None, bs_events = []\<rparr>"

definition demo_spans :: "buffered_span list" where
  "demo_spans = [demo_span ''a'' (Some ''p'') 4, demo_span ''b'' None 7, demo_span ''a'' None 3]"

theorem trace_window_witness:
  "map fst (tb_traces (filled 1 demo_spans)) = [''a''] \<and>
   (\<exists>before after. demo_spans = before @ after \<and> after \<noteq> [] \<and> bs_trace (hd after) = ''a'' \<and> buffer_get ''a'' (filled 1 before) = None)"
proof -
  have now: "tb_traces (filled 1 demo_spans) = [(''a'', trace_of ''a'' [demo_span ''a'' None 3])]" by code_simp
  show ?thesis using trace_window [of 1 demo_spans] unfolding now Let_def by auto
qed

section \<open>Observing changes nothing\<close>

text \<open>Two programs that answer alike and leave alike what \<open>vis\<close> shows of the world; a call that shows nothing and answers.\<close>

definition alike :: "('w \<Rightarrow> 'v) \<Rightarrow> ('w, 'a) io \<Rightarrow> ('w, 'a) io \<Rightarrow> bool" where
  "alike vis m n \<longleftrightarrow> (\<forall>w w'. vis w = vis w' \<longrightarrow> fst (m w) = fst (n w') \<and> vis (snd (m w)) = vis (snd (n w')))"

definition silent :: "('w \<Rightarrow> 'v) \<Rightarrow> ('w, 'a) io \<Rightarrow> bool" where
  "silent vis c \<longleftrightarrow> (\<forall>w. (\<exists>a. fst (c w) = Inr a) \<and> vis (snd (c w)) = vis w)"

definition watches :: "('w \<Rightarrow> 'v) \<Rightarrow> ('w, 's) otel \<Rightarrow> bool" where
  "watches vis T \<longleftrightarrow>
     (\<forall>n k a. silent vis (ot_start T n k a)) \<and> (\<forall>sp w. vis (ot_enter T sp w) = vis w) \<and> (\<forall>w u. vis (ot_leave T w u) = vis u) \<and>
     (\<forall>sp k v. silent vis (ot_attribute T sp k v)) \<and> (\<forall>sp e. silent vis (ot_exception T sp e)) \<and>
     (\<forall>sp m. silent vis (ot_error T sp m)) \<and> (\<forall>sp. silent vis (ot_end T sp)) \<and>
     (\<forall>n ls. silent vis (ot_inc T n ls)) \<and> (\<forall>n ls x. silent vis (ot_observe T n ls x))"

lemma alikeI:
  "(\<And>w w'. vis w = vis w' \<Longrightarrow> fst (m w) = fst (n w') \<and> vis (snd (m w)) = vis (snd (n w'))) \<Longrightarrow> alike vis m n"
  by (simp add: alike_def)

lemma alikeD: "alike vis m n \<Longrightarrow> vis w = vis w' \<Longrightarrow> fst (m w) = fst (n w') \<and> vis (snd (m w)) = vis (snd (n w'))"
  by (simp add: alike_def)

lemma alike_bnd: "alike vis m n \<Longrightarrow> (\<And>a. alike vis (f a) (g a)) \<Longrightarrow> alike vis (bnd m f) (bnd n g)"
proof (rule alikeI)
  fix w w' :: 'a
  assume same: "vis w = vis w'" and mn: "alike vis m n" and fg: "\<And>a. alike vis (f a) (g a)"
  obtain r u where m: "m w = (r, u)" by fastforce
  obtain r' u' where n: "n w' = (r', u')" by fastforce
  have "r = r'" "vis u = vis u'" using alikeD [OF mn same] m n by simp_all
  then show "fst (bnd m f w) = fst (bnd n g w') \<and> vis (snd (bnd m f w)) = vis (snd (bnd n g w'))"
    using m n alikeD [OF fg, of u u'] by (cases r) (auto simp: bnd_run)
qed

lemma silent_first:
  assumes "silent vis c" and "\<And>a. alike vis (f a) n"
  shows "alike vis (bnd c f) n"
proof (rule alikeI)
  fix w w' :: 'a
  assume same: "vis w = vis w'"
  obtain a u where c: "c w = (Inr a, u)" "vis u = vis w"
    using assms(1) unfolding silent_def by (metis prod.collapse)
  then show "fst (bnd c f w) = fst (n w') \<and> vis (snd (bnd c f w)) = vis (snd (n w'))"
    using alikeD [OF assms(2)] same by (simp add: bnd_run)
qed

lemma gets_first: "(\<And>a. alike vis (f a) n) \<Longrightarrow> alike vis (bnd (gets g) f) n"
  unfolding alike_def by simp

lemma silent_last:
  assumes "alike vis m n" and "silent vis c"
  shows "alike vis (finally_do m c) n"
proof (rule alikeI)
  fix w w' :: 'a
  assume same: "vis w = vis w'"
  obtain r u where m: "m w = (r, u)" by fastforce
  obtain a v where c: "c u = (Inr a, v)" "vis v = vis u" using assms(2) unfolding silent_def by (metis prod.collapse)
  show "fst (finally_do m c w) = fst (n w') \<and> vis (snd (finally_do m c w)) = vis (snd (n w'))"
    using alikeD [OF assms(1) same] m c by (auto simp: finally_do_def)
qed

lemma silent_handler:
  assumes "alike vis m n" and "\<And>e. alike vis (h e) (throw e)"
  shows "alike vis (catch m h) n"
proof (rule alikeI)
  fix w w' :: 'a
  assume same: "vis w = vis w'"
  obtain r u where m: "m w = (r, u)" by fastforce
  note alikeD [OF assms(1) same]
  then show "fst (catch m h w) = fst (n w') \<and> vis (snd (catch m h w)) = vis (snd (n w'))"
    using m alikeD [OF assms(2), of u "snd (n w')"] by (auto simp: catch_run split: sum.split)
qed

lemma alike_throw: "alike vis (throw e) (throw e)"
  by (simp add: alike_def)

lemma alike_within: "watches vis T \<Longrightarrow> alike vis m n \<Longrightarrow> alike vis (within T sp m) n"
proof (rule alikeI)
  fix w w' :: 'a
  assume same: "vis w = vis w'" and T: "watches vis T" and mn: "alike vis m n"
  have "vis (ot_enter T sp w) = vis w'" using T same by (simp add: watches_def)
  from alikeD [OF mn this] show "fst (within T sp m w) = fst (n w') \<and> vis (snd (within T sp m w)) = vis (snd (n w'))"
    using T by (auto simp: within_def watches_def split: prod.splits)
qed

lemma alike_span:
  assumes "watches vis T" and "\<And>sp. alike vis (f sp) n"
  shows "alike vis (start_active_span T name kind ats f) n"
  unfolding start_active_span_def
  by (rule silent_first) (use assms in \<open>auto simp: watches_def intro: alike_within\<close>)

lemma alike_observe_op:
  assumes "watches vis T" and "alike vis m n"
  shows "alike vis (observe_op T operation resource m) n"
  unfolding observe_op_def
proof (rule silent_first, rule_tac [2] gets_first)
  show "silent vis (ot_inc T ''coreledger_operations_total'' [operation, resource])" using assms(1) by (simp add: watches_def)
  have "alike vis (finally_do (catch m (\<lambda>e. seq (ot_exception T sp e) (seq (ot_error T sp (err_message e)) (throw e)))) (ot_end T sp)) n"
    for sp
    using assms by (intro silent_last silent_handler silent_first alike_throw) (auto simp: watches_def)
  then show "alike vis (if active = None then m else start_active_span T (''coreledger.'' @ operation) ''CLIENT''
      [(''enrahitu.coreledger.operation'', JStr operation), (''enrahitu.coreledger.resource'', JStr resource)]
      (\<lambda>sp. finally_do (catch m (\<lambda>e. seq (ot_exception T sp e) (seq (ot_error T sp (err_message e)) (throw e)))) (ot_end T sp))) n" for active
    using assms by (auto intro: alike_span)
qed

definition alike_tx :: "('w \<Rightarrow> 'v) \<Rightarrow> 'w ledger_tx \<Rightarrow> 'w ledger_tx \<Rightarrow> bool" where
  "alike_tx vis t t' \<longleftrightarrow>
     (\<forall>sql ps. alike vis (x_query t sql ps) (x_query t' sql ps) \<and> alike vis (x_execute t sql ps) (x_execute t' sql ps))"

text \<open>A driver that does not read what the libraries keep, a transaction included.\<close>

definition unaware :: "('w \<Rightarrow> 'v) \<Rightarrow> ('w, 'r) ledger_driver \<Rightarrow> bool" where
  "unaware vis D \<longleftrightarrow>
     (\<forall>sql ps. alike vis (x_query D sql ps) (x_query D sql ps) \<and> alike vis (x_execute D sql ps) (x_execute D sql ps)) \<and>
     (\<forall>stmts. alike vis (x_batch D stmts) (x_batch D stmts)) \<and>
     (\<forall>f g. (\<forall>t t'. alike_tx vis t t' \<longrightarrow> alike vis (f t) (g t')) \<longrightarrow> alike vis (x_transaction D f) (x_transaction D g))"


lemma alike_instrument_tx:
  assumes "watches vis T" and "alike_tx vis t t'"
  shows "alike_tx vis (instrument_tx T resource t) t'"
  using assms by (simp add: alike_tx_def instrument_tx_def alike_observe_op)

text \<open>
  C20: behind the instrumented driver every call, and every transaction of a client that does not look at
  what the libraries keep, answers or fails exactly as the driver does and leaves the rest of the world as the driver leaves it.
\<close>

theorem instrument_transparent:
  assumes "watches vis T" and "unaware vis D"
  shows "alike vis (x_query (instrument_driver T resource D) sql ps) (x_query D sql ps) \<and>
    alike vis (x_execute (instrument_driver T resource D) sql ps) (x_execute D sql ps) \<and>
    alike vis (x_batch (instrument_driver T resource D) stmts) (x_batch D stmts) \<and>
    (\<forall>f. (\<forall>t t'. alike_tx vis t t' \<longrightarrow> alike vis (f t) (f t')) \<longrightarrow>
       alike vis (x_transaction (instrument_driver T resource D) f) (x_transaction D f))"
proof -
  have "alike vis (x_transaction D (\<lambda>tx. f (instrument_tx T resource tx))) (x_transaction D f)"
    if "\<forall>t t'. alike_tx vis t t' \<longrightarrow> alike vis (f t) (f t')" for f
  proof -
    have txn: "\<forall>f g. (\<forall>t t'. alike_tx vis t t' \<longrightarrow> alike vis (f t) (g t')) \<longrightarrow> alike vis (x_transaction D f) (x_transaction D g)"
      using assms(2) unfolding unaware_def by (elim conjE)
    show ?thesis by (rule txn [rule_format]) (use that alike_instrument_tx [OF assms(1)] in blast)
  qed
  then show ?thesis
    using assms unfolding unaware_def by (simp add: instrument_driver_def alike_observe_op)
qed

text \<open>A library that keeps a log beside the number the program works on.\<close>

definition demo_otel :: "(int \<times> string list list, unit) otel" where
  "demo_otel =
     \<lparr>ot_active = (\<lambda>_. Some ()), ot_recording = (\<lambda>_ _. True), ot_start = (\<lambda>n _ _ w. (Inr (), (fst w, snd w @ [[n]]))),
      ot_enter = (\<lambda>_ w. w), ot_leave = (\<lambda>_ u. u), ot_attribute = (\<lambda>_ _ _. ret ()), ot_exception = (\<lambda>_ _. ret ()),
      ot_error = (\<lambda>_ _. ret ()), ot_end = (\<lambda>_. ret ()), ot_inc = (\<lambda>n ls w. (Inr (), (fst w, snd w @ [n # ls]))),
      ot_observe = (\<lambda>_ _ _. ret ()), ot_clock = (\<lambda>_. 0)\<rparr>"

definition demo_sql :: "(int \<times> string list list, int) ledger_driver" where
  "demo_sql =
     (let tx = \<lparr>x_query = (\<lambda>_ _. gets (\<lambda>w. [[(''n'', JInt (fst w))]])), x_execute = (\<lambda>_ _ w. (Inr 1, (fst w + 1, snd w)))\<rparr> in
      \<lparr>x_query = x_query tx, x_execute = x_execute tx, x_postgres = False, x_batch = (\<lambda>_. throw (Failure ''locked'')),
       x_transaction = (\<lambda>f. f tx), x_close = ret ()\<rparr>)"

lemma demo_watches: "watches fst demo_otel"
  by (simp add: watches_def silent_def demo_otel_def)

lemma demo_unaware: "unaware fst demo_sql"
  by (simp add: unaware_def alike_tx_def alike_def demo_sql_def Let_def)

theorem instrument_transparent_witness:
  "alike fst (x_transaction (instrument_driver demo_otel ''app'' demo_sql) (\<lambda>t. x_execute t ''UPDATE'' []))
     (x_transaction demo_sql (\<lambda>t. x_execute t ''UPDATE'' [])) \<and>
   x_transaction (instrument_driver demo_otel ''app'' demo_sql) (\<lambda>t. x_execute t ''UPDATE'' []) (4, []) =
     (Inr 1, (5, [[''coreledger_operations_total'', ''txn'', ''app''], [''coreledger.txn''],
        [''coreledger_operations_total'', ''write'', ''app''], [''coreledger.write'']]))"
proof -
  have "alike fst (x_transaction (instrument_driver demo_otel ''app'' demo_sql) (\<lambda>t. x_execute t ''UPDATE'' []))
      (x_transaction demo_sql (\<lambda>t. x_execute t ''UPDATE'' []))"
    by (rule instrument_transparent [OF demo_watches demo_unaware, THEN conjunct2, THEN conjunct2, THEN conjunct2, rule_format])
       (simp add: alike_tx_def)
  moreover have "x_transaction (instrument_driver demo_otel ''app'' demo_sql) (\<lambda>t. x_execute t ''UPDATE'' []) (4, []) =
     (Inr 1, (5, [[''coreledger_operations_total'', ''txn'', ''app''], [''coreledger.txn''],
        [''coreledger_operations_total'', ''write'', ''app''], [''coreledger.write'']]))"
    by code_simp
  ultimately show ?thesis by blast
qed

section \<open>What is counted of a request\<close>

text \<open>The number of requests counted under some labels; nothing else of the library touches it.\<close>

definition silent_lib :: "('w \<Rightarrow> 'v) \<Rightarrow> ('w, 's) otel \<Rightarrow> bool" where
  "silent_lib see T \<longleftrightarrow>
     (\<forall>n k a. silent see (ot_start T n k a)) \<and> (\<forall>sp w. see (ot_enter T sp w) = see w) \<and> (\<forall>w u. see (ot_leave T w u) = see u) \<and>
     (\<forall>sp k v. silent see (ot_attribute T sp k v)) \<and> (\<forall>sp e. silent see (ot_exception T sp e)) \<and>
     (\<forall>sp m. silent see (ot_error T sp m)) \<and> (\<forall>sp. silent see (ot_end T sp)) \<and> (\<forall>n ls x. silent see (ot_observe T n ls x))"

definition counts :: "('w \<Rightarrow> 'v) \<Rightarrow> ('w \<Rightarrow> string list \<Rightarrow> nat) \<Rightarrow> ('w, 's) otel \<Rightarrow> bool" where
  "counts vis hits T \<longleftrightarrow> silent_lib (\<lambda>w. (vis w, hits w)) T \<and>
     (\<forall>ls w. \<exists>u. ot_inc T ''http_requests_total'' ls w = (Inr (), u) \<and> vis u = vis w \<and> hits u = (hits w)(ls := hits w ls + 1))"

lemma silent_step:
  assumes "silent see c" and "\<And>a u. see u = see w \<Longrightarrow> P (f a u)"
  shows "P (bnd c f w)"
proof -
  obtain a u where "c w = (Inr a, u)" "see u = see w" using assms(1) unfolding silent_def by (metis prod.collapse)
  then show ?thesis using assms(2) by (simp add: bnd_run)
qed

definition ends_with_count ::
  "('w \<Rightarrow> 'v) \<Rightarrow> ('w \<Rightarrow> string list \<Rightarrow> nat) \<Rightarrow> (exn + 'a) \<Rightarrow> 'v \<Rightarrow> (string list \<Rightarrow> nat) \<Rightarrow> (exn + 'a) \<times> 'w \<Rightarrow> bool" where
  "ends_with_count vis hits r x h p \<longleftrightarrow> fst p = r \<and> vis (snd p) = x \<and> hits (snd p) = h"

lemma count_step:
  assumes "silent (\<lambda>w. (vis w, hits w)) c"
    and "\<And>a u. vis u = vis w \<Longrightarrow> hits u = hits w \<Longrightarrow> ends_with_count vis hits r x h (f a u)"
  shows "ends_with_count vis hits r x h (bnd c f w)"
  by (rule silent_step [where see = "\<lambda>w. (vis w, hits w)" and P = "ends_with_count vis hits r x h", OF assms(1)]) (simp add: assms(2))

definition outcome_status :: "('w \<Rightarrow> int option) \<Rightarrow> (exn + 'a) \<Rightarrow> 'w \<Rightarrow> int" where
  "outcome_status raw r u = (case r of Inr _ \<Rightarrow> (case raw u of None \<Rightarrow> 200 | Some n \<Rightarrow> n) | Inl e \<Rightarrow> status_from_error e)"

lemma request_run:
  fixes T :: "('w, 's) otel" and vis :: "'w \<Rightarrow> 'v"
  assumes "counts vis hits T" and "nxt w = (r, u)" and "\<And>e. r = Inl e \<Longrightarrow> \<not> exits e"
  shows "ends_with_count vis hits r (vis u)
    ((hits u)([service, endpoint, status_class (outcome_status raw r u)] := hits u [service, endpoint, status_class (outcome_status raw r u)] + 1))
    (observed_request T raw service endpoint started nxt sp w)"
proof -
  let ?see = "\<lambda>w. (vis w, hits w)" and ?code = "outcome_status raw r u"
  let ?goal = "ends_with_count vis hits r (vis u) ((hits u)([service, endpoint, status_class ?code] := hits u [service, endpoint, status_class ?code] + 1))"
  have lib: "silent_lib ?see T"
    and inc: "\<And>ls w. \<exists>u. ot_inc T ''http_requests_total'' ls w = (Inr (), u) \<and> vis u = vis w \<and> hits u = (hits w)(ls := hits w ls + 1)"
    using assms(1) unfolding counts_def by blast+
  let ?rest = "\<lambda>code. bnd (gets (ot_clock T)) (\<lambda>now. let labels = [service, endpoint, status_class code] in
     seq (ot_inc T ''http_requests_total'' labels)
    (seq (ot_observe T ''http_request_duration_seconds'' labels (now - started))
    (seq (ot_attribute T sp ''http.response.status_code'' (JInt code)) (seq (ot_end T sp) (lift r)))))"
  have rest: "?goal (?rest ?code v)" if v: "?see v = ?see u" for v
  proof -
    let ?ls = "[service, endpoint, status_class ?code]"
    obtain x where x: "ot_inc T ''http_requests_total'' ?ls v = (Inr (), x)" "vis x = vis v" "hits x = (hits v)(?ls := hits v ?ls + 1)"
      using inc by blast
    have "?goal (seq (ot_observe T ''http_request_duration_seconds'' ?ls d)
        (seq (ot_attribute T sp ''http.response.status_code'' (JInt ?code)) (seq (ot_end T sp) (lift r))) x)" for d
      by (intro count_step) (use lib v x in \<open>simp_all add: silent_lib_def ends_with_count_def\<close>)
    then show ?thesis using x(1) by (simp add: Let_def bnd_run)
  qed
  have start: "attempt nxt w = (Inr r, u)"
    using assms(2,3) by (cases r) (auto simp: attempt_def catch_run bnd_run)
  show ?thesis
  proof (cases r)
    case (Inr a)
    then show ?thesis using rest [of u] start by (simp add: observed_request_def bnd_run outcome_status_def)
  next
    case (Inl e)
    have "?goal (bnd (seq (ot_exception T sp e) (seq (ot_error T sp (err_message e)) (ret (status_from_error e)))) ?rest u)"
    proof -
      have "?goal (bnd (ot_exception T sp e) (\<lambda>_. bnd (ot_error T sp (err_message e)) (\<lambda>_. ?rest ?code)) u)"
        by (intro count_step rest) (use lib in \<open>simp_all add: silent_lib_def\<close>)
      then show ?thesis unfolding bnd_bnd bnd_simps(1) by (simp only: outcome_status_def Inl sum.case)
    qed
    then show ?thesis using start Inl by (simp add: observed_request_def bnd_run)
  qed
qed


text \<open>
  C38: the middleware answers or fails as the endpoint behind it does, and counts the request exactly once, under
  its service, its endpoint and the class of the status it ends with: the raw response's, 200 where there is none, and that of the
  error where it fails.
\<close>

theorem request_accounted:
  fixes T :: "('w, 's) otel" and vis :: "'w \<Rightarrow> 'v"
  assumes "counts vis hits T" and "alike vis nxt nxt" and "\<And>v. hits (snd (nxt v)) = hits v"
    and "\<And>v v'. vis v = vis v' \<Longrightarrow> raw v = raw v'" and "nxt w = (r, u)" and "\<And>e. r = Inl e \<Longrightarrow> \<not> exits e"
  shows "let p = obs_middleware T routes raw (Some m) nxt w;
             ls = [ac_service m, ac_endpoint m, status_class (outcome_status raw r u)]
    in fst p = r \<and> vis (snd p) = vis u \<and> hits (snd p) = (hits w)(ls := hits w ls + 1)"
proof -
  let ?see = "\<lambda>w. (vis w, hits w)" and ?ls = "[ac_service m, ac_endpoint m, status_class (outcome_status raw r u)]"
  have lib: "silent_lib ?see T" using assms(1) by (simp add: counts_def)
  let ?goal = "ends_with_count vis hits r (vis u) ((hits w)(?ls := hits w ?ls + 1))"
  have inner: "?goal (within T sp (observed_request T raw (ac_service m) (ac_endpoint m) started nxt sp) v)"
    if v: "?see v = ?see w" for sp started v
  proof -
    let ?v = "ot_enter T sp v"
    have enter: "vis ?v = vis w" "hits ?v = hits w" using lib v by (simp_all add: silent_lib_def)
    obtain r' u' where run: "nxt ?v = (r', u')" by fastforce
    have same: "r' = r" "vis u' = vis u" using alikeD [OF assms(2) enter(1)] run assms(5) by simp_all
    moreover have "hits u' = hits w" using assms(3) [of ?v] run enter by simp
    moreover have "outcome_status raw r u' = outcome_status raw r u"
      using assms(4) [OF same(2)] by (simp add: outcome_status_def split: sum.split)
    ultimately have "?goal (observed_request T raw (ac_service m) (ac_endpoint m) started nxt sp ?v)"
      using request_run [of vis hits T nxt ?v r' u' "ac_service m" "ac_endpoint m" raw started sp] assms(1,6) run by simp
    then show ?thesis using lib by (auto simp: within_def ends_with_count_def silent_lib_def split: prod.split)
  qed
  have "?goal (start_active_span T name kind ats (observed_request T raw (ac_service m) (ac_endpoint m) started nxt) w)"
    for name kind ats started
    unfolding start_active_span_def
    by (rule count_step) (use lib in \<open>simp add: silent_lib_def\<close>, use inner in simp)
  then show ?thesis by (simp add: obs_middleware_def Let_def ends_with_count_def)
qed

definition demo_hits :: "int \<times> string list list \<Rightarrow> string list \<Rightarrow> nat" where
  "demo_hits w ls = length (filter (\<lambda>l. l = ''http_requests_total'' # ls) (snd w))"

definition demo_start :: "(int \<times> string list list, unit) otel" where
  "demo_start = demo_otel\<lparr>ot_start := (\<lambda>_ _ _. ret ())\<rparr>"

lemma demo_counts: "counts fst demo_hits demo_start"
  by (auto simp: counts_def silent_lib_def silent_def demo_start_def demo_otel_def demo_hits_def fun_eq_iff)

theorem request_accounted_witness:
  "\<exists>u. obs_middleware demo_start [(''web.get'', ''/'')] (\<lambda>_. None)
       (Some \<lparr>ac_method = ''GET'', ac_path = ''/'', ac_headers = [], ac_service = ''web'', ac_endpoint = ''get''\<rparr>)
       (\<lambda>w. (Inl (APIError NotFound ''none'' []) :: exn + unit, (fst w + 1, snd w))) (4, []) = (Inl (APIError NotFound ''none'' []), u) \<and>
     fst u = 5 \<and> demo_hits u [''web'', ''get'', ''4xx''] = 1"
proof -
  let ?nxt = "\<lambda>w. (Inl (APIError NotFound ''none'' []) :: exn + unit, (fst w + 1, snd w)) :: (exn + unit) \<times> (int \<times> string list list)"
  let ?m = "\<lparr>ac_method = ''GET'', ac_path = ''/'', ac_headers = [], ac_service = ''web'', ac_endpoint = ''get''\<rparr>"
  let ?p = "obs_middleware demo_start [(''web.get'', ''/'')] (\<lambda>_. None) (Some ?m) ?nxt (4, [])"
  have four: "status_class 404 = ''4xx''" by code_simp
  have "alike fst ?nxt ?nxt" by (simp add: alike_def)
  moreover have "demo_hits (snd (?nxt v)) = demo_hits v" for v by (simp add: fun_eq_iff demo_hits_def)
  ultimately have "fst ?p = Inl (APIError NotFound ''none'' []) \<and> fst (snd ?p) = 5 \<and>
      demo_hits (snd ?p) = (demo_hits (4, []))([''web'', ''get'', ''4xx''] := demo_hits (4, []) [''web'', ''get'', ''4xx''] + 1)"
    using request_accounted [OF demo_counts, where nxt = ?nxt and w = "(4, [])" and u = "(5, [])" and r = "Inl (APIError NotFound ''none'' [])"
        and m = ?m and raw = "\<lambda>_. None" and routes = "[(''web.get'', ''/'')]"]
    by (simp add: outcome_status_def four Let_def)
  then show ?thesis by (intro exI [of _ "snd ?p"]) (simp add: prod_eq_iff demo_hits_def)
qed

end
