(* ===== verification/Entities.thy ===== *)
theory Entities
  imports Observability Sessions
begin

text \<open>
  Entities on the ledger: the decorators and their registry (\<open>core/ledger/decorators.ts\<close>, \<open>metadata.ts\<close>), the tables they ask
  for (\<open>schema.ts\<close>), the codec and the repository (\<open>repository.ts\<close>), the facade (\<open>ledger.ts\<close>) and the one entity of the
  program (\<open>auth/entities.ts\<close>, \<open>lib/audit.ts\<close>). A value of the driver is a value of the language: bytes are lists of numbers,
  big integers are integers.
\<close>

section \<open>Metadata\<close>

datatype column_type = TextCol | IntegerCol | RealCol | BlobCol | BooleanCol | JsonCol | TimestampCol

record column_meta =
  cm_property :: string
  cm_name :: string
  cm_type :: column_type
  cm_primary :: bool
  cm_unique :: bool
  cm_nullable :: bool
  cm_indexed :: bool
  cm_default :: "string option"

text \<open>What a field of an entity holds; \<open>DateVal None\<close> is an invalid \<open>Date\<close>.\<close>

datatype field_value = Plain js | DateVal "int option"

type_synonym entity = "(string \<times> field_value) list"

text \<open>A class: its identity, its name and what its field initializers give.\<close>

record entity_ctor =
  ec_id :: nat
  ec_name :: string
  ec_fresh :: entity

record entity_meta =
  em_table :: string
  em_ctor :: entity_ctor
  em_columns :: "column_meta list"
  em_primary :: column_meta

text \<open>The map by class in insertion order.\<close>

type_synonym registry = "entity_meta list"

fun put_meta :: "entity_meta \<Rightarrow> registry \<Rightarrow> registry" where
  "put_meta m [] = [m]"
| "put_meta m (n # ns) = (if ec_id (em_ctor n) = ec_id (em_ctor m) then m # ns else n # put_meta m ns)"

definition register_entity :: "entity_meta \<Rightarrow> registry \<Rightarrow> exn + registry" where
  "register_entity m reg =
     (case find (\<lambda>n. em_table n = em_table m) reg of
        Some n \<Rightarrow>
          if ec_id (em_ctor n) \<noteq> ec_id (em_ctor m) then
            Inl (Failure (''CoreLedger: table \"'' @ em_table m @ ''\" is claimed by both '' @ ec_name (em_ctor n) @ '' and '' @ ec_name (em_ctor m)))
          else Inr (put_meta m reg)
      | None \<Rightarrow> Inr (put_meta m reg))"

definition entity_meta_of :: "entity_ctor \<Rightarrow> registry \<Rightarrow> exn + entity_meta" where
  "entity_meta_of c reg =
     (case find (\<lambda>m. ec_id (em_ctor m) = ec_id c) reg of
        None \<Rightarrow> Inl (Failure (''CoreLedger: '' @ ec_name c @
          '' is not a registered entity (missing @Entity decorator, or the module defining it was never imported)''))
      | Some m \<Rightarrow> Inr m)"

section \<open>Decorators\<close>

record column_options =
  co_type :: "column_type option"
  co_name :: "string option"
  co_primary :: "bool option"
  co_unique :: "bool option"
  co_nullable :: "bool option"
  co_index :: "bool option"
  co_default :: "string option"

text \<open>What is decorated: a static field, a field named by a symbol, or a field with its name.\<close>

datatype field_context = StaticField | SymbolField | NamedField string

record decorator_state =
  dc_pending :: "column_meta list"
  dc_registry :: registry

fun snake :: "string \<Rightarrow> string" where
  "snake (c # d # r) =
     (if (is_lower_alpha c \<or> is_digit c) \<and> is_upper_alpha d then c # CHR ''_'' # snake (d # r) else c # snake (d # r))"
| "snake s = s"

definition snake_case :: "string \<Rightarrow> string" where
  "snake_case s = to_lower (snake s)"

definition or_else :: "'a \<Rightarrow> 'a option \<Rightarrow> 'a" where
  "or_else d x = (case x of Some v \<Rightarrow> v | None \<Rightarrow> d)"

definition column_decorator :: "column_options \<Rightarrow> field_context \<Rightarrow> (decorator_state, unit) io" where
  "column_decorator opts ctx =
     (case ctx of
        StaticField \<Rightarrow> throw (Failure ''CoreLedger: @Column cannot decorate static fields'')
      | SymbolField \<Rightarrow> throw (Failure ''CoreLedger: @Column cannot decorate symbol-named fields'')
      | NamedField property \<Rightarrow>
          modify (\<lambda>st. st\<lparr>dc_pending := dc_pending st @
            [\<lparr>cm_property = property, cm_name = or_else (snake_case property) (co_name opts), cm_type = or_else TextCol (co_type opts),
              cm_primary = or_else False (co_primary opts), cm_unique = or_else False (co_unique opts),
              cm_nullable = or_else False (co_nullable opts), cm_indexed = or_else False (co_index opts),
              cm_default = co_default opts\<rparr>]\<rparr>))"

text \<open>The names that stand at an earlier place too.\<close>

fun repeated :: "string list \<Rightarrow> string list \<Rightarrow> string list" where
  "repeated seen [] = []"
| "repeated seen (n # ns) = (if n \<in> set seen then n # repeated seen ns else repeated (n # seen) ns)"

definition entity_decorator :: "string \<Rightarrow> entity_ctor \<Rightarrow> (decorator_state, unit) io" where
  "entity_decorator table target =
     bnd (gets dc_pending) (\<lambda>columns.
     seq (modify (\<lambda>st. st\<lparr>dc_pending := []\<rparr>))
    (let named = ''CoreLedger: @Entity(\"'' @ table @ ''\") '';
         duplicates = repeated [] (map cm_name columns);
         primaries = filter cm_primary columns
     in if columns = [] then throw (Failure (named @ ''has no @Column fields''))
        else if duplicates \<noteq> [] then throw (Failure (named @ ''has duplicate column names: '' @ join '', '' duplicates))
        else if length primaries \<noteq> 1 then
          throw (Failure (named @ ''needs exactly one primary @Column, found '' @ show_nat (length primaries)))
        else
          bnd (gets dc_registry) (\<lambda>reg.
          bnd (lift (register_entity \<lparr>em_table = table, em_ctor = target, em_columns = columns, em_primary = hd primaries\<rparr> reg)) (\<lambda>reg'.
            modify (\<lambda>st. st\<lparr>dc_registry := reg'\<rparr>)))))"

section \<open>Tables\<close>

fun sql_type :: "column_type \<Rightarrow> bool \<Rightarrow> string" where    \<comment> \<open>\<open>True\<close> is Postgres\<close>
  "sql_type TextCol pg = ''TEXT''"
| "sql_type IntegerCol pg = (if pg then ''BIGINT'' else ''INTEGER'')"
| "sql_type RealCol pg = (if pg then ''DOUBLE PRECISION'' else ''REAL'')"
| "sql_type BlobCol pg = (if pg then ''BYTEA'' else ''BLOB'')"
| "sql_type BooleanCol pg = (if pg then ''BOOLEAN'' else ''INTEGER'')"
| "sql_type JsonCol pg = ''TEXT''"
| "sql_type TimestampCol pg = ''TEXT''"

text \<open>\<open>^[A-Za-z_][A-Za-z0-9_]*$\<close>\<close>

definition safe_ident :: "string \<Rightarrow> bool" where
  "safe_ident name \<longleftrightarrow>
     (case name of
        [] \<Rightarrow> False
      | c # cs \<Rightarrow> (is_lower_alpha c \<or> is_upper_alpha c \<or> c = CHR ''_'') \<and>
          list_all (\<lambda>c. is_lower_alpha c \<or> is_upper_alpha c \<or> is_digit c \<or> c = CHR ''_'') cs)"

definition in_quotes :: "string \<Rightarrow> string" where
  "in_quotes name = CHR 0x22 # name @ [CHR 0x22]"

definition quote_ident :: "string \<Rightarrow> exn + string" where
  "quote_ident name =
     (if safe_ident name then Inr (in_quotes name) else Inl (Failure (''CoreLedger: unsafe SQL identifier \"'' @ name @ ''\"'')))"

text \<open>The items of a list in order, stopping at the first error.\<close>

fun map_each :: "('a \<Rightarrow> exn + 'b) \<Rightarrow> 'a list \<Rightarrow> exn + 'b list" where
  "map_each f [] = Inr []"
| "map_each f (x # xs) = sbind (f x) (\<lambda>y. sbind (map_each f xs) (\<lambda>ys. Inr (y # ys)))"

definition column_def :: "bool \<Rightarrow> column_meta \<Rightarrow> exn + string" where
  "column_def pg col =
     sbind (quote_ident (cm_name col)) (\<lambda>q. Inr (join '' ''
       ([q, sql_type (cm_type col) pg] @
        (if cm_primary col then [''PRIMARY KEY''] else if \<not> cm_nullable col then [''NOT NULL''] else []) @
        (if cm_unique col \<and> \<not> cm_primary col then [''UNIQUE''] else []) @
        (case cm_default col of None \<Rightarrow> [] | Some d \<Rightarrow> [''DEFAULT '' @ d]))))"

definition index_sql :: "entity_meta \<Rightarrow> column_meta \<Rightarrow> exn + (string \<times> params)" where
  "index_sql meta col =
     sbind (quote_ident (''idx_'' @ em_table meta @ ''_'' @ cm_name col)) (\<lambda>idx.
     sbind (quote_ident (em_table meta)) (\<lambda>table.
     sbind (quote_ident (cm_name col)) (\<lambda>name.
       Inr (''CREATE INDEX IF NOT EXISTS '' @ idx @ '' ON '' @ table @ '' ('' @ name @ '')'', []))))"

definition create_table_sql :: "entity_meta \<Rightarrow> bool \<Rightarrow> exn + (string \<times> params) list" where
  "create_table_sql meta pg =
     sbind (map_each (column_def pg) (em_columns meta)) (\<lambda>defs.
     sbind (quote_ident (em_table meta)) (\<lambda>table.
     sbind (map_each (index_sql meta) (filter (\<lambda>c. cm_indexed c \<and> \<not> cm_primary c \<and> \<not> cm_unique c) (em_columns meta))) (\<lambda>indices.
       Inr ((''CREATE TABLE IF NOT EXISTS '' @ table @ '' ('' @ join '', '' defs @ '')'', []) # indices))))"

text \<open>\<open>None\<close> stands for every registered entity.\<close>

definition ensure_schema :: "registry \<Rightarrow> ('w, 'r) ledger_driver \<Rightarrow> entity_ctor list option \<Rightarrow> ('w, unit) io" where
  "ensure_schema reg D entities =
     bnd (lift (case entities of Some cs \<Rightarrow> map_each (\<lambda>c. entity_meta_of c reg) cs | None \<Rightarrow> Inr reg)) (\<lambda>metas.
     bnd (lift (map_each (\<lambda>m. create_table_sql m (x_postgres D)) metas)) (\<lambda>stmts.
       if concat stmts \<noteq> [] then x_batch D (concat stmts) else ret ()))"

section \<open>The codec\<close>

text \<open>What the code is given: the parser of dates, a date as a text, and a date as the client sends it.\<close>

record date_lib =
  dl_parse :: "js \<Rightarrow> int option"
  dl_text :: "int option \<Rightarrow> string"
  dl_param :: "int option \<Rightarrow> js"

definition truthy_js :: "js \<Rightarrow> bool" where
  "truthy_js v \<longleftrightarrow> \<not> nullish v \<and> v \<noteq> JBool False \<and> v \<noteq> JInt 0 \<and> v \<noteq> JStr []"

definition to_sql :: "date_lib \<Rightarrow> field_value \<Rightarrow> column_meta \<Rightarrow> exn + js" where
  "to_sql B v col =
     (if v = Plain JNull \<or> v = Plain JUndef then
        (if \<not> cm_nullable col \<and> \<not> cm_primary col then
           Inl (Failure (''CoreLedger: column \"'' @ cm_name col @ ''\" is NOT NULL but got '' @
             (if v = Plain JNull then ''null'' else ''undefined'')))
         else Inr JNull)
      else
        (case cm_type col of
           BooleanCol \<Rightarrow> Inr (if (case v of Plain j \<Rightarrow> truthy_js j | DateVal _ \<Rightarrow> True) then JInt 1 else JInt 0)
         | JsonCol \<Rightarrow> Inr (JStr (case v of Plain j \<Rightarrow> show_js j | DateVal None \<Rightarrow> ''null'' | DateVal (Some t) \<Rightarrow> quote (iso_instant t)))
         | TimestampCol \<Rightarrow>
             (case (case v of DateVal d \<Rightarrow> d | Plain j \<Rightarrow> dl_parse B j) of
                None \<Rightarrow> Inl (Failure (''CoreLedger: column \"'' @ cm_name col @ ''\" got an invalid timestamp''))
              | Some t \<Rightarrow> Inr (JStr (iso_instant t)))
         | TextCol \<Rightarrow> Inr (JStr (case v of Plain j \<Rightarrow> js_string j | DateVal d \<Rightarrow> dl_text B d))
         | _ \<Rightarrow> Inr (case v of Plain j \<Rightarrow> j | DateVal d \<Rightarrow> dl_param B d)))"

text \<open>The double nearest to an integer, ties to the even one.\<close>

fun bits :: "nat \<Rightarrow> nat" where
  "bits n = (if n = 0 then 0 else Suc (bits (n div 2)))"

declare bits.simps [simp del]

definition to_double :: "int \<Rightarrow> int" where
  "to_double i =
     (let n = nat \<bar>i\<bar>; u = 2 ^ (bits n - 53); q = n div u; r = n mod u;
          q' = (if 2 * r > u \<or> (2 * r = u \<and> odd q) then q + 1 else q)
      in (if n < 2 ^ 53 then i else (if i < 0 then -1 else 1) * int (q' * u)))"

text \<open>\<open>Number(v)\<close> of a value of the driver; a text that is no integer stays as the literal it is.\<close>

definition to_number :: "js \<Rightarrow> js" where
  "to_number v =
     (case v of
        JBool b \<Rightarrow> JInt (if b then 1 else 0)
      | JStr s \<Rightarrow> (case js_integer s of Some n \<Rightarrow> JInt (to_double n) | None \<Rightarrow> JFrac s)
      | _ \<Rightarrow> v)"

definition from_sql :: "date_lib \<Rightarrow> js \<Rightarrow> column_meta \<Rightarrow> exn + field_value" where
  "from_sql B v col =
     (if v = JNull then Inr (Plain JNull)
      else
        (case cm_type col of
           BooleanCol \<Rightarrow> Inr (Plain (JBool (to_number v \<noteq> JInt 0)))
         | JsonCol \<Rightarrow> sbind (parse_or_throw (js_string v)) (\<lambda>j. Inr (Plain j))
         | TimestampCol \<Rightarrow> Inr (DateVal (dl_parse B (JStr (js_string v))))
         | BlobCol \<Rightarrow> Inr (Plain v)
         | TextCol \<Rightarrow> Inr (Plain (JStr (js_string v)))
         | _ \<Rightarrow> Inr (Plain (to_number v))))"

section \<open>The repository\<close>

record 'w repository =
  rp_tx :: "'w ledger_tx"
  rp_meta :: entity_meta
  rp_ctor :: entity_ctor

record find_options =
  fo_order :: "string option"
  fo_desc :: bool
  fo_limit :: "int option"
  fo_offset :: "int option"

definition field_of :: "entity \<Rightarrow> string \<Rightarrow> field_value" where
  "field_of e k = (case map_of e k of Some v \<Rightarrow> v | None \<Rightarrow> Plain JUndef)"

definition column_of :: "'w repository \<Rightarrow> string \<Rightarrow> exn + column_meta" where
  "column_of R property =
     (case find (\<lambda>c. cm_property c = property) (em_columns (rp_meta R)) of
        None \<Rightarrow> Inl (Failure (''CoreLedger: '' @ ec_name (rp_ctor R) @ '' has no @Column property \"'' @ property @ ''\"''))
      | Some c \<Rightarrow> Inr c)"

definition hydrate_entity :: "date_lib \<Rightarrow> 'w repository \<Rightarrow> sql_row \<Rightarrow> exn + entity" where
  "hydrate_entity B R row =
     sbind (map_each (\<lambda>c. sbind (from_sql B (case map_of row (cm_name c) of None \<Rightarrow> JNull | Some v \<Rightarrow> v) c) (\<lambda>v. Inr (cm_property c, v)))
              (em_columns (rp_meta R))) (\<lambda>fs.
       Inr (fold (\<lambda>(k, v). obj_set k v) fs (ec_fresh (rp_ctor R))))"

definition where_part :: "date_lib \<Rightarrow> 'w repository \<Rightarrow> string \<times> field_value \<Rightarrow> exn + (string \<times> params)" where
  "where_part B R kv =
     sbind (column_of R (fst kv)) (\<lambda>c.
       if snd kv = Plain JNull \<or> snd kv = Plain JUndef then Inr (in_quotes (cm_name c) @ '' IS NULL'', [])
       else sbind (to_sql B (snd kv) c) (\<lambda>p. Inr (in_quotes (cm_name c) @ '' = ?'', [p])))"

definition where_clause :: "date_lib \<Rightarrow> 'w repository \<Rightarrow> entity \<Rightarrow> exn + (string \<times> params)" where
  "where_clause B R criteria =
     (if criteria = [] then Inr ([], [])
      else sbind (map_each (where_part B R) criteria) (\<lambda>parts.
        Inr ('' WHERE '' @ join '' AND '' (map fst parts), concat (map snd parts))))"

definition table_of :: "'w repository \<Rightarrow> string" where
  "table_of R = in_quotes (em_table (rp_meta R))"

definition key_of :: "'w repository \<Rightarrow> string" where
  "key_of R = in_quotes (cm_name (em_primary (rp_meta R)))"

definition insert_sql :: "'w repository \<Rightarrow> string" where
  "insert_sql R =
     ''INSERT INTO '' @ table_of R @ '' ('' @ join '', '' (map (\<lambda>c. in_quotes (cm_name c)) (em_columns (rp_meta R))) @ '') VALUES ('' @
     join '', '' (map (\<lambda>_. ''?'') (em_columns (rp_meta R))) @ '')''"

definition insert_entity :: "date_lib \<Rightarrow> 'w repository \<Rightarrow> entity \<Rightarrow> ('w, entity) io" where
  "insert_entity B R e =
     bnd (lift (map_each (\<lambda>c. to_sql B (field_of e (cm_property c)) c) (em_columns (rp_meta R)))) (\<lambda>ps.
     seq (x_execute (rp_tx R) (insert_sql R) ps) (ret e))"

definition by_id_sql :: "'w repository \<Rightarrow> string" where
  "by_id_sql R = ''SELECT * FROM '' @ table_of R @ '' WHERE '' @ key_of R @ '' = ? LIMIT 1''"

definition find_by_id :: "date_lib \<Rightarrow> 'w repository \<Rightarrow> field_value \<Rightarrow> ('w, entity option) io" where
  "find_by_id B R i =
     bnd (lift (to_sql B i (em_primary (rp_meta R)))) (\<lambda>p.
     bnd (x_query (rp_tx R) (by_id_sql R) [p]) (\<lambda>rows.
       case rows of [] \<Rightarrow> ret None | r # _ \<Rightarrow> bnd (lift (hydrate_entity B R r)) (\<lambda>e. ret (Some e))))"

definition find_where :: "date_lib \<Rightarrow> 'w repository \<Rightarrow> entity \<Rightarrow> find_options \<Rightarrow> ('w, entity list) io" where
  "find_where B R criteria opts =
     bnd (lift (where_clause B R criteria)) (\<lambda>(clause, ps).
     bnd (lift (case fo_order opts of
                  None \<Rightarrow> Inr []
                | Some property \<Rightarrow> if property = [] then Inr []
                    else sbind (column_of R property) (\<lambda>c. Inr ('' ORDER BY '' @ in_quotes (cm_name c) @ (if fo_desc opts then '' DESC'' else '' ASC''))))) (\<lambda>order.
     let limit = (case fo_limit opts of
                    None \<Rightarrow> []
                  | Some n \<Rightarrow> '' LIMIT '' @ show_int n @ (case fo_offset opts of None \<Rightarrow> [] | Some k \<Rightarrow> '' OFFSET '' @ show_int k))
     in bnd (x_query (rp_tx R) (''SELECT * FROM '' @ table_of R @ clause @ order @ limit) ps) (\<lambda>rows.
          lift (map_each (hydrate_entity B R) rows))))"

definition find_one :: "date_lib \<Rightarrow> 'w repository \<Rightarrow> entity \<Rightarrow> ('w, entity option) io" where
  "find_one B R criteria =
     bnd (find_where B R criteria \<lparr>fo_order = None, fo_desc = False, fo_limit = Some 1, fo_offset = None\<rparr>) (\<lambda>es.
       ret (case es of [] \<Rightarrow> None | e # _ \<Rightarrow> Some e))"

definition update_part :: "date_lib \<Rightarrow> 'w repository \<Rightarrow> string \<times> field_value \<Rightarrow> exn + (string \<times> js)" where
  "update_part B R kv =
     sbind (column_of R (fst kv)) (\<lambda>c.
       if cm_primary c then Inl (Failure (''CoreLedger: refusing to update primary key \"'' @ cm_name c @ ''\"''))
       else sbind (to_sql B (snd kv) c) (\<lambda>p. Inr (in_quotes (cm_name c) @ '' = ?'', p)))"

definition update_by_id :: "date_lib \<Rightarrow> 'w repository \<Rightarrow> field_value \<Rightarrow> entity \<Rightarrow> ('w, bool) io" where
  "update_by_id B R i patch =
     (if patch = [] then ret False
      else
        bnd (lift (map_each (update_part B R) patch)) (\<lambda>parts.
        bnd (lift (to_sql B i (em_primary (rp_meta R)))) (\<lambda>p.
        bnd (x_execute (rp_tx R)
               (''UPDATE '' @ table_of R @ '' SET '' @ join '', '' (map fst parts) @ '' WHERE '' @ key_of R @ '' = ?'')
               (map snd parts @ [p])) (\<lambda>n. ret (0 < n)))))"

definition delete_sql :: "'w repository \<Rightarrow> string" where
  "delete_sql R = ''DELETE FROM '' @ table_of R @ '' WHERE '' @ key_of R @ '' = ?''"

definition delete_by_id :: "date_lib \<Rightarrow> 'w repository \<Rightarrow> field_value \<Rightarrow> ('w, bool) io" where
  "delete_by_id B R i =
     bnd (lift (to_sql B i (em_primary (rp_meta R)))) (\<lambda>p.
     bnd (x_execute (rp_tx R) (delete_sql R) [p]) (\<lambda>n. ret (0 < n)))"

definition count_entities :: "date_lib \<Rightarrow> 'w repository \<Rightarrow> entity \<Rightarrow> ('w, js) io" where
  "count_entities B R criteria =
     bnd (lift (where_clause B R criteria)) (\<lambda>(clause, ps).
     bnd (x_query (rp_tx R) (''SELECT COUNT(*) AS n FROM '' @ table_of R @ clause) ps) (\<lambda>rows.
       ret (to_number (case rows of [] \<Rightarrow> JInt 0 | r # _ \<Rightarrow> (let n = own_of r ''n'' in if nullish n then JInt 0 else n)))))"

section \<open>The facade and the audit table\<close>

definition ledger_from_env :: "kernel \<Rightarrow> ('x plane_scheme, 's) otel \<Rightarrow> ('x plane_scheme, 'r) ledger_driver \<Rightarrow> ('x plane_scheme, 'r) ledger_driver" where
  "ledger_from_env K T raw = instrument_driver T ''app'' (govern_driver K ''app'' raw)"

text \<open>The repository of a class, over a driver or inside a transaction; the cache of repositories answers the same one.\<close>

definition ledger_repo :: "registry \<Rightarrow> 'w ledger_tx \<Rightarrow> entity_ctor \<Rightarrow> exn + 'w repository" where
  "ledger_repo reg tx c = sbind (entity_meta_of c reg) (\<lambda>m. Inr \<lparr>rp_tx = tx, rp_meta = m, rp_ctor = c\<rparr>)"

definition ledger_transaction ::
  "registry \<Rightarrow> ('w, 'r) ledger_driver \<Rightarrow> ((entity_ctor \<Rightarrow> exn + 'w repository) \<Rightarrow> 'w ledger_tx \<Rightarrow> ('w, 'r) io) \<Rightarrow> ('w, 'r) io" where
  "ledger_transaction reg D f = x_transaction D (\<lambda>tx. f (ledger_repo reg tx) tx)"

definition plain_options :: column_options where
  "plain_options = \<lparr>co_type = None, co_name = None, co_primary = None, co_unique = None, co_nullable = None, co_index = None, co_default = None\<rparr>"

definition nullable_column :: "string \<Rightarrow> (decorator_state, unit) io" where
  "nullable_column property = column_decorator (plain_options\<lparr>co_nullable := Some True\<rparr>) (NamedField property)"

text \<open>The class of the audit table; its fresh id and instant are arguments.\<close>

definition audit_log :: "string \<Rightarrow> int \<Rightarrow> entity_ctor" where
  "audit_log uuid now =
     \<lparr>ec_id = 0, ec_name = ''AuditLog'',
      ec_fresh = [(''id'', Plain (JStr uuid)), (''action'', Plain (JStr [])), (''tableName'', Plain JNull), (''recordId'', Plain JNull),
        (''oldData'', Plain JNull), (''newData'', Plain JNull), (''actorId'', Plain JNull), (''actorEmail'', Plain JNull),
        (''ipAddress'', Plain JNull), (''userAgent'', Plain JNull), (''createdAt'', DateVal (Some now))]\<rparr>"

definition define_audit_log :: "(decorator_state, unit) io" where
  "define_audit_log =
     seq (column_decorator (plain_options\<lparr>co_primary := Some True\<rparr>) (NamedField ''id''))
    (seq (column_decorator (plain_options\<lparr>co_index := Some True\<rparr>) (NamedField ''action''))
    (seq (nullable_column ''tableName'')
    (seq (nullable_column ''recordId'')
    (seq (column_decorator (plain_options\<lparr>co_type := Some JsonCol, co_nullable := Some True\<rparr>) (NamedField ''oldData''))
    (seq (column_decorator (plain_options\<lparr>co_type := Some JsonCol, co_nullable := Some True\<rparr>) (NamedField ''newData''))
    (seq (nullable_column ''actorId'')
    (seq (nullable_column ''actorEmail'')
    (seq (nullable_column ''ipAddress'')
    (seq (nullable_column ''userAgent'')
    (seq (column_decorator (plain_options\<lparr>co_type := Some TimestampCol\<rparr>) (NamedField ''createdAt''))
         (entity_decorator ''audit_log'' (audit_log [] 0))))))))))))"

definition audit_row :: "string \<Rightarrow> int \<Rightarrow> audit_entry \<Rightarrow> entity" where
  "audit_row uuid now a =
     (let text = (\<lambda>v. Plain (case v of None \<Rightarrow> JNull | Some s \<Rightarrow> JStr s));
          data = (\<lambda>v. Plain (case v of None \<Rightarrow> JNull | Some j \<Rightarrow> if nullish j then JNull else j))
      in fold (\<lambda>(k, v). obj_set k v)
        [(''action'', Plain (JStr (ae_action a))), (''tableName'', text (ae_table a)), (''recordId'', text (ae_record a)),
         (''oldData'', data (ae_old_data a)), (''newData'', data (ae_new_data a)), (''actorId'', text (ae_actor a)),
         (''actorEmail'', text (ae_actor_email a)), (''ipAddress'', text (ae_ip a)), (''userAgent'', text (ae_user_agent a))]
        (ec_fresh (audit_log uuid now)))"

definition insert_audit :: "date_lib \<Rightarrow> registry \<Rightarrow> 'w ledger_tx \<Rightarrow> string \<Rightarrow> int \<Rightarrow> audit_entry \<Rightarrow> ('w, unit) io" where
  "insert_audit B reg tx uuid now a =
     bnd (lift (ledger_repo reg tx (audit_log uuid now))) (\<lambda>R. seq (insert_entity B R (audit_row uuid now a)) (ret ()))"

end
