(* ===== verification/Entities_Claims.thy ===== *)
theory Entities_Claims
  imports Entities Mail_Notices_Claims
begin

text \<open>
  What entities promise: whatever classes are decorated the registry stays sound, a value that fits its column survives the
  database, and the repository is a map from keys to entities.
\<close>

section \<open>The registry\<close>

datatype decoration = DoColumn column_options field_context | DoEntity string entity_ctor

fun decorate :: "decoration \<Rightarrow> (decorator_state, unit) io" where
  "decorate (DoColumn opts ctx) = column_decorator opts ctx"
| "decorate (DoEntity table c) = entity_decorator table c"

text \<open>Decorators one after another, those that throw included.\<close>

definition decorated :: "decoration list \<Rightarrow> decorator_state" where
  "decorated ds = fold (\<lambda>d st. snd (decorate d st)) ds \<lparr>dc_pending = [], dc_registry = []\<rparr>"

definition sound_meta :: "entity_meta \<Rightarrow> bool" where
  "sound_meta m \<longleftrightarrow> em_columns m \<noteq> [] \<and> distinct (map cm_name (em_columns m)) \<and> filter cm_primary (em_columns m) = [em_primary m]"

definition sound_registry :: "registry \<Rightarrow> bool" where
  "sound_registry reg \<longleftrightarrow>
     list_all sound_meta reg \<and> distinct (map em_table reg) \<and> distinct (map (\<lambda>m. ec_id (em_ctor m)) reg)"

lemma repeated_none: "repeated seen ns = [] \<longleftrightarrow> distinct ns \<and> set ns \<inter> set seen = {}"
  by (induction seen ns rule: repeated.induct) auto

definition class_of :: "entity_meta \<Rightarrow> nat" where
  "class_of m = ec_id (em_ctor m)"

lemma sound_Cons:
  "sound_registry [] \<longleftrightarrow> True"
  "sound_registry (n # ns) \<longleftrightarrow>
     sound_meta n \<and> em_table n \<notin> em_table ` set ns \<and> class_of n \<notin> class_of ` set ns \<and> sound_registry ns"
  by (auto simp: sound_registry_def class_of_def)

lemma put_meta_Cons: "put_meta m (n # ns) = (if class_of n = class_of m then m # ns else n # put_meta m ns)"
  by (simp add: class_of_def)

lemma put_meta_ids: "class_of ` set (put_meta m reg) = insert (class_of m) (class_of ` set reg)"
  by (induction reg) (auto simp: put_meta_Cons simp del: put_meta.simps(2))

lemma put_meta_tables: "em_table ` set (put_meta m reg) \<subseteq> insert (em_table m) (em_table ` set reg)"
  by (induction reg) (auto simp: put_meta_Cons simp del: put_meta.simps(2))

lemma put_meta_sound:
  assumes "sound_meta m"
  shows "sound_registry reg \<Longrightarrow> (\<And>n. n \<in> set reg \<Longrightarrow> em_table n = em_table m \<Longrightarrow> class_of n = class_of m) \<Longrightarrow>
    sound_registry (put_meta m reg)"
proof (induction reg)
  case Nil
  then show ?case using assms by (simp add: sound_Cons)
next
  case (Cons n ns)
  have n: "sound_meta n" "em_table n \<notin> em_table ` set ns" "class_of n \<notin> class_of ` set ns" "sound_registry ns"
    using Cons.prems(1) unfolding sound_Cons by blast+
  show ?case
  proof (cases "class_of n = class_of m")
    case True
    have "em_table m \<notin> em_table ` set ns"
    proof
      assume "em_table m \<in> em_table ` set ns"
      then obtain n' where n': "n' \<in> set ns" "em_table n' = em_table m" by auto
      then have "class_of n' = class_of n" using Cons.prems(2) [of n'] True by simp
      then show False using n(3) n'(1) by (metis imageI)
    qed
    then show ?thesis using True n assms by (simp add: put_meta_Cons sound_Cons del: put_meta.simps(2))
  next
    case False
    have rest: "sound_registry (put_meta m ns)" using Cons.IH [OF n(4)] Cons.prems(2) by simp
    have "em_table n \<noteq> em_table m" using Cons.prems(2) [of n] False by auto
    then have "em_table n \<notin> em_table ` set (put_meta m ns)" using put_meta_tables [of m ns] n(2) by blast
    moreover have "class_of n \<notin> class_of ` set (put_meta m ns)" unfolding put_meta_ids using n(3) False by blast
    ultimately show ?thesis using False n(1) rest by (simp add: put_meta_Cons sound_Cons del: put_meta.simps(2))
  qed
qed

lemma register_sound:
  assumes "sound_meta m" and "sound_registry reg" and "register_entity m reg = Inr reg'"
  shows "sound_registry reg'" and "reg' = put_meta m reg"
proof -
  have tables: "inj_on em_table (set reg)" using assms(2) by (simp add: sound_registry_def distinct_map)
  have owner: "class_of n = class_of m" if n: "n \<in> set reg" "em_table n = em_table m" for n
  proof (cases "find (\<lambda>n. em_table n = em_table m) reg")
    case None
    then show ?thesis using n by (simp add: find_None_iff)
  next
    case (Some f)
    then have "em_table f = em_table m" "f \<in> set reg" by (auto simp: find_Some_iff)
    then have "f = n" using n inj_onD [OF tables] by metis
    then show ?thesis using assms(3) Some by (simp add: register_entity_def class_of_def split: if_splits)
  qed
  show "reg' = put_meta m reg" using assms(3) unfolding register_entity_def by (simp split: option.splits if_splits)
  with put_meta_sound [OF assms(1,2) owner] show "sound_registry reg'" by simp
qed

lemma entity_run:
  "snd (entity_decorator table c st) =
   (let cs = dc_pending st; m = \<lparr>em_table = table, em_ctor = c, em_columns = cs, em_primary = hd (filter cm_primary cs)\<rparr> in
    if cs = [] \<or> repeated [] (map cm_name cs) \<noteq> [] \<or> length (filter cm_primary cs) \<noteq> 1 then st\<lparr>dc_pending := []\<rparr>
    else (case register_entity m (dc_registry st) of Inl e \<Rightarrow> st\<lparr>dc_pending := []\<rparr>
          | Inr reg \<Rightarrow> st\<lparr>dc_pending := [], dc_registry := reg\<rparr>))"
  unfolding entity_decorator_def Let_def by (simp add: bnd_run split: sum.split)

lemma decorate_sound:
  assumes "sound_registry (dc_registry st)"
  shows "sound_registry (dc_registry (snd (decorate d st))) \<and>
    class_of ` set (dc_registry st) \<subseteq> class_of ` set (dc_registry (snd (decorate d st)))"
proof (cases d)
  case (DoColumn opts ctx)
  then show ?thesis using assms by (cases ctx) (simp_all add: column_decorator_def)
next
  case (DoEntity table c)
  let ?cs = "dc_pending st" and ?reg = "dc_registry st"
  let ?m = "\<lparr>em_table = table, em_ctor = c, em_columns = ?cs, em_primary = hd (filter cm_primary ?cs)\<rparr>"
  show ?thesis
  proof (cases "?cs = [] \<or> repeated [] (map cm_name ?cs) \<noteq> [] \<or> length (filter cm_primary ?cs) \<noteq> 1")
    case True
    then show ?thesis using assms by (simp add: DoEntity entity_run Let_def)
  next
    case False
    then obtain p where "filter cm_primary ?cs = [p]" by (metis One_nat_def length_0_conv length_Suc_conv)
    then have m: "sound_meta ?m" using False by (simp add: sound_meta_def repeated_none)
    show ?thesis
    proof (cases "register_entity ?m ?reg")
      case (Inl e)
      then show ?thesis using assms False by (simp add: DoEntity entity_run Let_def)
    next
      case (Inr reg')
      note reg = register_sound [OF m assms Inr]
      have "dc_registry (snd (decorate d st)) = reg'" using False Inr by (simp add: DoEntity entity_run Let_def)
      then show ?thesis using reg put_meta_ids [of ?m ?reg] by auto
    qed
  qed
qed

lemma decorated_sound: "sound_registry (dc_registry (decorated ds))"
proof (induction ds rule: rev_induct)
  case (snoc d ds)
  then show ?case using decorate_sound [of "decorated ds" d] by (simp add: decorated_def)
qed (simp add: decorated_def sound_registry_def)

text \<open>
  C23: whatever is decorated, in whatever order and with whatever errors, every registered entity has
  columns of distinct names and exactly one primary one, no two share a table or a class, and a class once registered stays so.
\<close>

theorem entity_metadata_sound:
  "sound_registry (dc_registry (decorated ds)) \<and>
   class_of ` set (dc_registry (decorated ds)) \<subseteq> class_of ` set (dc_registry (decorated (ds @ ds')))"
proof (rule conjI [OF decorated_sound])
  show "class_of ` set (dc_registry (decorated ds)) \<subseteq> class_of ` set (dc_registry (decorated (ds @ ds')))"
  proof (induction ds' rule: rev_induct)
    case (snoc d ds')
    have "decorated (ds @ ds' @ [d]) = snd (decorate d (decorated (ds @ ds')))" by (simp add: decorated_def)
    moreover have "class_of ` set (dc_registry (decorated (ds @ ds'))) \<subseteq> class_of ` set (dc_registry (snd (decorate d (decorated (ds @ ds')))))"
      using decorate_sound [OF decorated_sound] by blast
    ultimately show ?case using snoc by (metis order_trans)
  qed simp
qed


text \<open>
  A class definition that throws between its fields and its \<open>@Entity\<close> leaves its columns behind, and the next class gets them,
  although the buffer is said to be safe because class definitions do not interleave.
\<close>

lemma columns_leak:
  "map (\<lambda>m. (em_table m, map cm_property (em_columns m))) (dc_registry (decorated
     [DoColumn plain_options (NamedField ''secret''), DoColumn plain_options StaticField,
      DoColumn (plain_options\<lparr>co_primary := Some True\<rparr>) (NamedField ''id''), DoEntity ''other'' (audit_log [] 0)])) =
   [(''other'', [''secret'', ''id''])]"
  by code_simp

lemma audit_log_defined:
  "(case define_audit_log \<lparr>dc_pending = [], dc_registry = []\<rparr> of (r, st) \<Rightarrow>
     (r, map (\<lambda>m. case create_table_sql m False of Inr (t # is) \<Rightarrow> (fst t, map fst is)) (dc_registry st))) =
   (Inr (), [(''CREATE TABLE IF NOT EXISTS \"audit_log\" (\"id\" TEXT PRIMARY KEY, \"action\" TEXT NOT NULL, \"table_name\" TEXT, \"record_id\" TEXT, \"old_data\" TEXT, \"new_data\" TEXT, \"actor_id\" TEXT, \"actor_email\" TEXT, \"ip_address\" TEXT, \"user_agent\" TEXT, \"created_at\" TEXT NOT NULL)'',
      [''CREATE INDEX IF NOT EXISTS \"idx_audit_log_action\" ON \"audit_log\" (\"action\")''])])"
  by code_simp


section \<open>The codec\<close>

text \<open>What a database answers for a parameter it stored: Postgres has booleans, and sends 64-bit integers as texts.\<close>

definition stored :: "bool \<Rightarrow> column_type \<Rightarrow> js \<Rightarrow> js" where
  "stored pg t v =
     (case v of
        JInt n \<Rightarrow> if pg \<and> t = BooleanCol then JBool (n \<noteq> 0) else if pg \<and> t = IntegerCol then JStr (show_int n) else v
      | _ \<Rightarrow> v)"

text \<open>A value of the type its column declares; integers are those a double holds exactly.\<close>

definition fits :: "column_meta \<Rightarrow> field_value \<Rightarrow> bool" where
  "fits col v \<longleftrightarrow>
     (case v of
        Plain j \<Rightarrow>
          if j = JNull then cm_nullable col \<or> cm_primary col
          else (case cm_type col of
                  TextCol \<Rightarrow> (\<exists>s. j = JStr s) | BooleanCol \<Rightarrow> (\<exists>b. j = JBool b) | JsonCol \<Rightarrow> storable j
                | TimestampCol \<Rightarrow> False | BlobCol \<Rightarrow> (\<exists>xs. j = JArr xs)
                | _ \<Rightarrow> (\<exists>i. j = JInt i \<and> \<bar>i\<bar> < 2 ^ 53))
      | DateVal d \<Rightarrow> cm_type col = TimestampCol \<and> (\<exists>t. d = Some t \<and> printable_instant t))"

definition reads_dates :: "date_lib \<Rightarrow> bool" where
  "reads_dates B \<longleftrightarrow> (\<forall>s t. parse_instant s = Some t \<longrightarrow> dl_parse B (JStr s) = Some t)"

lemma safe_is_finite: "\<bar>i\<bar> < 2 ^ 53 \<Longrightarrow> nat \<bar>i\<bar> < 2 ^ 1024"
proof -
  assume "\<bar>i\<bar> < 2 ^ 53"
  then have "nat \<bar>i\<bar> < 2 ^ 53" by (simp add: nat_less_iff)
  also have "(2 :: nat) ^ 53 \<le> 2 ^ 1024" by (rule power_increasing) simp_all
  finally show ?thesis .
qed

lemma to_double_small: "\<bar>i\<bar> < 2 ^ 53 \<Longrightarrow> to_double i = i"
  by (simp add: to_double_def Let_def nat_less_iff)


lemma trim_none: "(\<And>c. c \<in> set s \<Longrightarrow> \<not> is_space c) \<Longrightarrow> trim s = s"
proof (cases "s = []")
  assume plain: "\<And>c. c \<in> set s \<Longrightarrow> \<not> is_space c"
  case False
  have "dropWhile is_space s = s" "dropWhile is_space (rev s) = rev s"
    unfolding dropWhile_eq_self_iff using False by (simp_all add: plain hd_rev)
  then show ?thesis by (simp add: trim_def)
qed (simp add: trim_def)

lemma digit_facts: "is_digit c \<Longrightarrow> \<not> is_space c \<and> c \<noteq> CHR ''+'' \<and> c \<noteq> CHR ''-'' \<and> lower_char c = c"
  by (auto simp: is_digit_def is_space_def lower_char_def)

lemma decimal_digits:
  assumes "(n :: nat) < 2 ^ 1024"
  shows "decimal_integer (show_nat n) = Some (int n)" "decimal_integer (CHR ''-'' # show_nat n) = Some (- int n)"
proof -
  have ip: "digits_of (show_nat n) = show_nat n" using digits_of_show_nat [of "[]" n] by simp
  have "hd (show_nat n) \<noteq> CHR ''+'' \<and> hd (show_nat n) \<noteq> CHR ''-''"
    using digit_facts show_nat_digits [of n] by (metis hd_in_set show_nat_nonempty)
  moreover have "\<not> (2 :: int) ^ 1024 \<le> int n" using assms by (metis linorder_not_less of_nat_less_iff of_nat_numeral of_nat_power)
  ultimately show "decimal_integer (show_nat n) = Some (int n)" "decimal_integer (CHR ''-'' # show_nat n) = Some (- int n)"
    by (simp_all add: decimal_integer_def Let_def ip exponent_value_def digits_value_show_nat)
qed

lemma js_integer_show:
  assumes "nat \<bar>i\<bar> < 2 ^ 1024"
  shows "js_integer (show_int i) = Some i"
proof -
  have chars: "is_digit c \<or> c = CHR ''-''" if "c \<in> set (show_int i)" for c
    using that show_nat_digits unfolding show_int_def by (auto split: if_splits)
  have "\<not> is_space c" if "c \<in> set (show_int i)" for c
    using chars [OF that] digit_facts [of c] by (elim disjE) (simp, simp add: is_space_def)
  then have plain: "trim (show_int i) = show_int i" by (rule trim_none)
  have "lower_char c \<notin> {CHR ''x'', CHR ''o'', CHR ''b''}" if "c \<in> set (show_int i)" for c
    using chars [OF that]
  proof
    assume "is_digit c"
    then show ?thesis using digit_facts [of c] by (auto simp: is_digit_def)
  qed (simp add: lower_char_def)
  note letters = this
  have none: "set (map lower_char (take 2 (show_int i))) \<inter> {CHR ''x'', CHR ''o'', CHR ''b''} = {}"
  proof (rule equals0I)
    fix a
    assume a: "a \<in> set (map lower_char (take 2 (show_int i))) \<inter> {CHR ''x'', CHR ''o'', CHR ''b''}"
    then obtain c where "c \<in> set (take 2 (show_int i))" "a = lower_char c" by auto
    then show False using letters [OF in_set_takeD] a by blast
  qed
  have "map lower_char (take 2 (show_int i)) \<notin> {''0x'', ''0o'', ''0b''}"
  proof
    assume "map lower_char (take 2 (show_int i)) \<in> {''0x'', ''0o'', ''0b''}"
    then have "set (map lower_char (take 2 (show_int i))) \<in> set ` {''0x'', ''0o'', ''0b''}" by (rule imageI)
    with none show False by auto
  qed
  moreover have "show_int i \<noteq> []" by (simp add: show_int_def)
  moreover have "decimal_integer (show_int i) = Some i"
    using decimal_digits [OF assms] by (auto simp: show_int_def abs_if split: if_splits)
  ultimately show ?thesis unfolding js_integer_def Let_def plain by simp
qed


lemma codec_back:
  assumes "reads_dates B" and "fits col v"
  shows "\<exists>p. to_sql B v col = Inr p \<and> from_sql B (stored pg (cm_type col) p) col = Inr v"
proof (cases v)
  case (DateVal d)
  then obtain t where t: "cm_type col = TimestampCol" "d = Some t" "printable_instant t" using assms(2) by (auto simp: fits_def)
  have "parse_instant (iso_instant t) = Some t" using t(3) by (rule iso_instant_back)
  then show ?thesis using t assms(1) DateVal by (simp add: to_sql_def from_sql_def stored_def reads_dates_def)
next
  case (Plain j)
  show ?thesis
  proof (cases "j = JNull")
    case True
    then show ?thesis using Plain assms(2) by (simp add: fits_def to_sql_def from_sql_def stored_def)
  next
    case False
    note fit = assms(2) [unfolded fits_def Plain, simplified, simplified False, simplified]
    show ?thesis
    proof (cases "cm_type col")
      case JsonCol
      then have "storable j" "j \<noteq> JUndef" using fit by auto
      then show ?thesis
        using False Plain JsonCol by (simp add: to_sql_def from_sql_def stored_def parse_or_throw_def parse_stringify)
    next
      case BooleanCol
      then obtain b where "j = JBool b" using fit by auto
      then show ?thesis using Plain BooleanCol by (simp add: to_sql_def from_sql_def stored_def truthy_js_def nullish_def to_number_def)
    next
      case IntegerCol
      then obtain i where "j = JInt i" "\<bar>i\<bar> < 2 ^ 53" using fit by auto
      then show ?thesis
        using Plain IntegerCol by (simp add: to_sql_def from_sql_def stored_def to_number_def js_integer_show [OF safe_is_finite] to_double_small)
    qed (use fit False Plain in \<open>auto simp: to_sql_def from_sql_def stored_def to_number_def\<close>)
  qed
qed



definition utc_dates :: date_lib where
  "utc_dates = \<lparr>dl_parse = (\<lambda>v. case v of JStr s \<Rightarrow> parse_instant s | _ \<Rightarrow> None), dl_text = (\<lambda>_. ''date''), dl_param = (\<lambda>_. JNull)\<rparr>"

lemma utc_reads: "reads_dates utc_dates"
  by (simp add: reads_dates_def utc_dates_def)

definition demo_column :: "string \<Rightarrow> column_type \<Rightarrow> bool \<Rightarrow> column_meta" where
  "demo_column n t primary =
     \<lparr>cm_property = n, cm_name = n, cm_type = t, cm_primary = primary, cm_unique = False, cm_nullable = False, cm_indexed = False, cm_default = None\<rparr>"


text \<open>
  The types of Postgres are said to round-trip the codec unchanged. A 64-bit integer a double does not hold comes back as its
  neighbour.
\<close>

lemma wide_integer_rounded:
  "to_sql utc_dates (Plain (JInt 9007199254740993)) (demo_column ''n'' IntegerCol False) = Inr (JInt 9007199254740993) \<and>
   from_sql utc_dates (stored True IntegerCol (JInt 9007199254740993)) (demo_column ''n'' IntegerCol False) = Inr (Plain (JInt 9007199254740992))"
proof -
  have "js_integer (show_int 9007199254740993) = Some 9007199254740993" by (rule js_integer_show) simp
  moreover have "bits 9007199254740993 = 54" by (simp add: bits.simps)
  then have "to_double 9007199254740993 = 9007199254740992" by (simp add: to_double_def Let_def)
  ultimately show ?thesis by (simp add: to_sql_def from_sql_def demo_column_def stored_def to_number_def)
qed

section \<open>The repository\<close>

text \<open>
  What the repository relies on of a database, for keys that are not null: inserting appends a row unless its key is taken, reading
  by key answers the row, deleting removes it. \<open>rows\<close> reads the table as the database answers it.
\<close>

definition row_of :: "bool \<Rightarrow> entity_meta \<Rightarrow> params \<Rightarrow> sql_row" where
  "row_of pg m ps = zip (map cm_name (em_columns m)) (map2 (\<lambda>c p. stored pg (cm_type c) p) (em_columns m) ps)"

definition key_in :: "entity_meta \<Rightarrow> sql_row \<Rightarrow> js" where
  "key_in m r = own_of r (cm_name (em_primary m))"

definition serves :: "bool \<Rightarrow> 'w repository \<Rightarrow> ('w \<Rightarrow> sql_row list) \<Rightarrow> bool" where
  "serves pg R rows \<longleftrightarrow> (let m = rp_meta R; tx = rp_tx R; k = (\<lambda>p. stored pg (cm_type (em_primary m)) p) in
     (\<forall>ps w. length ps = length (em_columns m) \<and> key_in m (row_of pg m ps) \<noteq> JNull \<longrightarrow>
        (if key_in m (row_of pg m ps) \<in> key_in m ` set (rows w)
         then \<exists>e u. x_execute tx (insert_sql R) ps w = (Inl e, u) \<and> rows u = rows w
         else \<exists>u. x_execute tx (insert_sql R) ps w = (Inr 1, u) \<and> rows u = rows w @ [row_of pg m ps])) \<and>
     (\<forall>p w. p \<noteq> JNull \<longrightarrow> (\<exists>u. x_query tx (by_id_sql R) [p] w = (Inr (take 1 (filter (\<lambda>r. key_in m r = k p) (rows w))), u) \<and> rows u = rows w)) \<and>
     (\<forall>p w. p \<noteq> JNull \<longrightarrow> (\<exists>u. x_execute tx (delete_sql R) [p] w = (Inr (int (length (filter (\<lambda>r. key_in m r = k p) (rows w)))), u) \<and>
        rows u = filter (\<lambda>r. key_in m r \<noteq> k p) (rows w))))"

lemma map_each_all:
  "(\<And>x. x \<in> set xs \<Longrightarrow> f x = Inr (g x)) \<Longrightarrow> map_each f xs = Inr (map g xs)"
  by (induction xs) simp_all

lemma set_fields:
  assumes "distinct (map fst (xs @ ys))"
  shows "map fst zs = map fst ys \<Longrightarrow> fold (\<lambda>(k, v). obj_set k v) ys (xs @ zs) = xs @ ys"
  using assms
proof (induction ys arbitrary: xs zs)
  case (Cons y ys)
  obtain z zs' where zs: "zs = z # zs'" "fst z = fst y" "map fst zs' = map fst ys" using Cons.prems(1) by (cases zs) auto
  have "fst y \<notin> fst ` set xs" using Cons.prems(2) by auto
  then have "obj_set (fst y) (snd y) (xs @ zs) = (xs @ [y]) @ zs'"
    using zs by (induction xs) auto
  moreover have "distinct (map fst ((xs @ [y]) @ ys))" using Cons.prems(2) by simp
  then have "fold (\<lambda>(k, v). obj_set k v) ys ((xs @ [y]) @ zs') = (xs @ [y]) @ ys" using zs(3) by (intro Cons.IH)
  ultimately show ?case by (cases y) simp
qed simp

text \<open>An entity with the fields of its class, each a value that fits.\<close>

definition well_formed :: "'w repository \<Rightarrow> entity \<Rightarrow> bool" where
  "well_formed R e \<longleftrightarrow>
     map fst e = map cm_property (em_columns (rp_meta R)) \<and> distinct (map fst e) \<and>
     map fst (ec_fresh (rp_ctor R)) = map fst e \<and> (\<forall>c \<in> set (em_columns (rp_meta R)). fits c (field_of e (cm_property c)))"

definition sent :: "date_lib \<Rightarrow> field_value \<Rightarrow> column_meta \<Rightarrow> js" where
  "sent B v c = (case to_sql B v c of Inr p \<Rightarrow> p | Inl _ \<Rightarrow> JUndef)"

lemma sent_run: "reads_dates B \<Longrightarrow> fits c v \<Longrightarrow> to_sql B v c = Inr (sent B v c) \<and> from_sql B (stored pg (cm_type c) (sent B v c)) c = Inr v"
  using codec_back [of B c v pg] by (auto simp: sent_def)

lemma stored_null: "stored pg t p = JNull \<longleftrightarrow> p = JNull"
  by (cases p) (simp_all add: stored_def)

lemma sent_not_null:
  assumes "reads_dates B" and "fits c v" and "v \<noteq> Plain JNull"
  shows "sent B v c \<noteq> JNull"
proof
  assume "sent B v c = JNull"
  then have "from_sql B JNull c = Inr v" using sent_run [OF assms(1,2), of pg] by (simp add: stored_def)
  then show False using assms(3) by (simp add: from_sql_def)
qed

lemma row_column:
  assumes "distinct (map cm_name cs)" and "c \<in> set cs"
  shows "map_of (zip (map cm_name cs) (map2 f cs (map g cs))) (cm_name c) = Some (f c (g c))"
proof -
  have "zip (map cm_name cs) (map2 f cs (map g cs)) = map (\<lambda>c. (cm_name c, f c (g c))) cs" by (induction cs) auto
  moreover have "map_of (map (\<lambda>c. (cm_name c, f c (g c))) cs) (cm_name c) = Some (f c (g c))"
    using assms by (intro map_of_is_SomeI) (auto simp: comp_def)
  ultimately show ?thesis by simp
qed

lemma hydrate_back:
  assumes "reads_dates B" and "sound_meta (rp_meta R)" and "well_formed R e"
  shows "hydrate_entity B R (row_of pg (rp_meta R) (map (\<lambda>c. sent B (field_of e (cm_property c)) c) (em_columns (rp_meta R)))) = Inr e"
proof -
  let ?cs = "em_columns (rp_meta R)" and ?v = "\<lambda>c. field_of e (cm_property c)"
  let ?row = "row_of pg (rp_meta R) (map (\<lambda>c. sent B (?v c) c) ?cs)"
  have each: "sbind (from_sql B (case map_of ?row (cm_name c) of None \<Rightarrow> JNull | Some v \<Rightarrow> v) c) (\<lambda>v. Inr (cm_property c, v)) =
      Inr (cm_property c, ?v c)" if "c \<in> set ?cs" for c
  proof -
    have "map_of ?row (cm_name c) = Some (stored pg (cm_type c) (sent B (?v c) c))"
      unfolding row_of_def by (rule row_column) (use assms(2) that in \<open>auto simp: sound_meta_def\<close>)
    moreover have "fits c (?v c)" using assms(3) that by (simp add: well_formed_def)
    ultimately show ?thesis using sent_run [OF assms(1)] by simp
  qed
  have fields: "map (\<lambda>c. (cm_property c, ?v c)) ?cs = e"
  proof -
    have e: "map fst e = map cm_property ?cs" "distinct (map fst e)" using assms(3) unfolding well_formed_def by blast+
    have "map (\<lambda>c. (cm_property c, ?v c)) ?cs = map (\<lambda>k. (k, field_of e k)) (map cm_property ?cs)" by simp
    also have "\<dots> = map (\<lambda>kv. (fst kv, field_of e (fst kv))) e" unfolding e(1) [symmetric] by simp
    also have "\<dots> = e" using e(2) by (intro map_idI) (auto simp: field_of_def)
    finally show ?thesis .
  qed
  have "hydrate_entity B R ?row = Inr (fold (\<lambda>(k, v). obj_set k v) e (ec_fresh (rp_ctor R)))"
    by (simp only: hydrate_entity_def map_each_all [of ?cs, OF each] sbind_simps fields)
  moreover have "map fst (ec_fresh (rp_ctor R)) = map fst e" "distinct (map fst e)" using assms(3) unfolding well_formed_def by blast+
  ultimately show ?thesis using set_fields [of "[]" e "ec_fresh (rp_ctor R)"] by simp
qed


lemma insert_run:
  assumes "reads_dates B" and "well_formed R e"
  shows "insert_entity B R e w =
    seq (x_execute (rp_tx R) (insert_sql R) (map (\<lambda>c. sent B (field_of e (cm_property c)) c) (em_columns (rp_meta R)))) (ret e) w"
proof -
  have "map_each (\<lambda>c. to_sql B (field_of e (cm_property c)) c) (em_columns (rp_meta R)) =
      Inr (map (\<lambda>c. sent B (field_of e (cm_property c)) c) (em_columns (rp_meta R)))"
    by (rule map_each_all) (use sent_run [OF assms(1)] assms(2) in \<open>simp add: well_formed_def\<close>)
  then show ?thesis by (simp add: insert_entity_def bnd_run)
qed

lemma find_run:
  assumes "serves pg R rows" and "to_sql B i (em_primary (rp_meta R)) = Inr p" and "p \<noteq> JNull"
  shows "fst (find_by_id B R i w) =
    (case filter (\<lambda>r. key_in (rp_meta R) r = stored pg (cm_type (em_primary (rp_meta R))) p) (rows w) of
       [] \<Rightarrow> Inr None | r # _ \<Rightarrow> sbind (hydrate_entity B R r) (\<lambda>e. Inr (Some e)))"
proof -
  let ?hits = "filter (\<lambda>r. key_in (rp_meta R) r = stored pg (cm_type (em_primary (rp_meta R))) p) (rows w)"
  obtain u where "x_query (rp_tx R) (by_id_sql R) [p] w = (Inr (take 1 ?hits), u)"
    using assms(1,3) unfolding serves_def Let_def by blast
  then show ?thesis
    using assms(2) by (cases ?hits) (auto simp: find_by_id_def bnd_run split: sum.splits)
qed

lemma delete_run:
  assumes "serves pg R rows" and "to_sql B i (em_primary (rp_meta R)) = Inr p" and "p \<noteq> JNull"
  shows "\<exists>u. delete_by_id B R i w = (Inr (\<exists>r \<in> set (rows w). key_in (rp_meta R) r = stored pg (cm_type (em_primary (rp_meta R))) p), u) \<and>
    rows u = filter (\<lambda>r. key_in (rp_meta R) r \<noteq> stored pg (cm_type (em_primary (rp_meta R))) p) (rows w)"
proof -
  let ?k = "stored pg (cm_type (em_primary (rp_meta R))) p"
  obtain u where "x_execute (rp_tx R) (delete_sql R) [p] w = (Inr (int (length (filter (\<lambda>r. key_in (rp_meta R) r = ?k) (rows w)))), u)"
      "rows u = filter (\<lambda>r. key_in (rp_meta R) r \<noteq> ?k) (rows w)"
    using assms(1,3) unfolding serves_def Let_def by blast
  then show ?thesis
    using assms(2) by (auto simp: delete_by_id_def bnd_run filter_empty_conv)
qed



text \<open>A table in memory behind the statements of one entity.\<close>

definition note_meta :: entity_meta where
  "note_meta =
     \<lparr>em_table = ''note'', em_ctor = \<lparr>ec_id = 0, ec_name = ''Note'', ec_fresh = [(''id'', Plain (JStr [])), (''seen'', Plain (JBool False))]\<rparr>,
      em_columns = [demo_column ''id'' TextCol True, demo_column ''seen'' BooleanCol False], em_primary = demo_column ''id'' TextCol True\<rparr>"

definition note_repo :: "'w ledger_tx \<Rightarrow> 'w repository" where
  "note_repo tx = \<lparr>rp_tx = tx, rp_meta = note_meta, rp_ctor = em_ctor note_meta\<rparr>"

definition no_tx :: "sql_row list ledger_tx" where
  "no_tx = \<lparr>x_query = (\<lambda>_ _. ret []), x_execute = (\<lambda>_ _. ret 0)\<rparr>"

definition memory_tx :: "bool \<Rightarrow> sql_row list ledger_tx" where
  "memory_tx pg = (let k = (\<lambda>ps. stored pg TextCol (hd ps)) in
     \<lparr>x_query = (\<lambda>sql ps. if sql = by_id_sql (note_repo no_tx) then gets (\<lambda>rs. take 1 (filter (\<lambda>r. key_in note_meta r = k ps) rs)) else ret []),
      x_execute = (\<lambda>sql ps rs.
        if sql = insert_sql (note_repo no_tx) then
          (if key_in note_meta (row_of pg note_meta ps) \<in> key_in note_meta ` set rs then (Inl UniqueViolation, rs)
           else (Inr 1, rs @ [row_of pg note_meta ps]))
        else if sql = delete_sql (note_repo no_tx) then
          (Inr (int (length (filter (\<lambda>r. key_in note_meta r = k ps) rs))), filter (\<lambda>r. key_in note_meta r \<noteq> k ps) rs)
        else (Inr 0, rs))\<rparr>)"

lemma note_texts_same:
  "insert_sql (note_repo t) = insert_sql (note_repo t')" "by_id_sql (note_repo t) = by_id_sql (note_repo t')"
  "delete_sql (note_repo t) = delete_sql (note_repo t')" "insert_sql (note_repo t) \<noteq> delete_sql (note_repo t')"
  by (simp_all add: insert_sql_def by_id_sql_def delete_sql_def table_of_def key_of_def note_repo_def)

lemma memory_texts:
  "insert_sql (note_repo (memory_tx pg)) = insert_sql (note_repo no_tx)"
  "by_id_sql (note_repo (memory_tx pg)) = by_id_sql (note_repo no_tx)"
  "delete_sql (note_repo (memory_tx pg)) = delete_sql (note_repo no_tx)"
  by (rule note_texts_same)+

lemma memory_serves: "serves pg (note_repo (memory_tx pg)) id"
proof -
  have r: "rp_meta (note_repo t) = note_meta" "rp_tx (note_repo t) = t" for t :: "sql_row list ledger_tx" by (simp_all add: note_repo_def)
  have t: "cm_type (em_primary note_meta) = TextCol" by (simp add: note_meta_def demo_column_def)
  have differ: "delete_sql (note_repo no_tx) \<noteq> insert_sql (note_repo no_tx)" using note_texts_same(4) by metis
  show ?thesis
    unfolding serves_def Let_def r t memory_texts
    by (simp add: memory_tx_def Let_def differ)
qed


text \<open>An offset without a limit is dropped: the caller gets the rows from the first on.\<close>

lemma offset_needs_limit:
  "find_where B R criteria \<lparr>fo_order = None, fo_desc = False, fo_limit = None, fo_offset = Some n\<rparr> =
   find_where B R criteria \<lparr>fo_order = None, fo_desc = False, fo_limit = None, fo_offset = None\<rparr>"
  by (simp add: find_where_def)

end
