(* ===== verification/Volume.thy ===== *)
theory Volume
  imports Json Effects "HOL-Library.Sublist"
begin

text \<open>
  What the operations scripts and the first boot work on: the volume as a tree of named entries with their modes, the calls of
  \<open>node:fs\<close> they make on it, and \<open>JSON.stringify\<close> with an indentation, which writes what they store. Links are entries that are
  not followed. A path is its components from the root of the tree.
\<close>

section \<open>The tree\<close>

datatype node = File string nat | Link string | Dir nat "(string \<times> node) list"

type_synonym path = "string list"

fun entries :: "node \<Rightarrow> (string \<times> node) list" where
  "entries (Dir m es) = es"
| "entries _ = []"

fun is_dir :: "node \<Rightarrow> bool" where
  "is_dir (Dir _ _) = True"
| "is_dir _ = False"

fun lookup :: "path \<Rightarrow> node \<Rightarrow> node option" where
  "lookup [] t = Some t"
| "lookup (c # p) t = (case map_of (entries t) c of None \<Rightarrow> None | Some u \<Rightarrow> lookup p u)"

definition exists_at :: "path \<Rightarrow> node \<Rightarrow> bool" where
  "exists_at p t \<longleftrightarrow> lookup p t \<noteq> None"

text \<open>Putting an entry fails where its directory is missing or is none.\<close>

fun put_at :: "path \<Rightarrow> node \<Rightarrow> node \<Rightarrow> node option" where
  "put_at [] n t = Some n"
| "put_at (c # p) n (Dir m es) =
     (if p = [] then Some (Dir m (obj_set c n es))
      else (case map_of es c of None \<Rightarrow> None | Some u \<Rightarrow> map_option (\<lambda>u'. Dir m (obj_set c u' es)) (put_at p n u)))"
| "put_at (c # p) n _ = None"

fun remove_at :: "path \<Rightarrow> node \<Rightarrow> node" where
  "remove_at [] t = t"
| "remove_at (c # p) (Dir m es) =
     (if p = [] then Dir m (filter (\<lambda>(k, _). k \<noteq> c) es)
      else (case map_of es c of None \<Rightarrow> Dir m es | Some u \<Rightarrow> Dir m (obj_set c (remove_at p u) es)))"
| "remove_at (c # p) t = t"

text \<open>\<open>mkdirSync(path, { recursive: true })\<close>; new directories get the mode the process gives them.\<close>

definition DIR_MODE :: nat where
  "DIR_MODE = 493"    \<comment> \<open>octal 755\<close>

fun mkdirs :: "path \<Rightarrow> node \<Rightarrow> node option" where
  "mkdirs [] t = (if is_dir t then Some t else None)"
| "mkdirs (c # p) (Dir m es) =
     map_option (\<lambda>u. Dir m (obj_set c u es)) (mkdirs p (case map_of es c of None \<Rightarrow> Dir DIR_MODE [] | Some u \<Rightarrow> u))"
| "mkdirs (c # p) _ = None"

text \<open>A recursive function over all entries.\<close>

primrec chmod_node :: "nat \<Rightarrow> node \<Rightarrow> node" where
  "chmod_node m (File s _) = File s m"
| "chmod_node m (Link t) = Link t"
| "chmod_node m (Dir _ es) = Dir m es"

section \<open>Calls\<close>

text \<open>A path as the code writes it; a relative one starts at the working directory.\<close>

definition path_of :: "path \<Rightarrow> string \<Rightarrow> path" where
  "path_of cwd s =
     (if starts_with ''/'' s then [] else cwd) @ filter (\<lambda>c. c \<noteq> [] \<and> c \<noteq> ''.'') (split_on (CHR ''/'') s)"

record vol =
  vl_disk :: node

definition no_entry :: "path \<Rightarrow> exn" where
  "no_entry p = Failure (''ENOENT: '' @ join ''/'' p)"

definition exists_sync :: "path \<Rightarrow> ('x vol_scheme, bool) io" where
  "exists_sync p = gets (\<lambda>w. exists_at p (vl_disk w))"

definition read_file_sync :: "path \<Rightarrow> ('x vol_scheme, string) io" where
  "read_file_sync p =
     bnd (gets (\<lambda>w. lookup p (vl_disk w))) (\<lambda>n. case n of Some (File s _) \<Rightarrow> ret s | _ \<Rightarrow> throw (no_entry p))"

definition update_disk :: "path \<Rightarrow> (node \<Rightarrow> node option) \<Rightarrow> ('x vol_scheme, unit) io" where
  "update_disk p f =
     (\<lambda>w. case f (vl_disk w) of None \<Rightarrow> (Inl (no_entry p), w) | Some t \<Rightarrow> (Inr (), w\<lparr>vl_disk := t\<rparr>))"

text \<open>Writing keeps the mode of a file that is there.\<close>

definition write_file_sync :: "path \<Rightarrow> string \<Rightarrow> nat \<Rightarrow> ('x vol_scheme, unit) io" where
  "write_file_sync p s m =
     update_disk p (\<lambda>t. case lookup p t of
       None \<Rightarrow> put_at p (File s m) t | Some (File _ m0) \<Rightarrow> put_at p (File s m0) t | Some _ \<Rightarrow> None)"

definition mkdir_sync :: "path \<Rightarrow> ('x vol_scheme, unit) io" where
  "mkdir_sync p = update_disk p (mkdirs p)"

definition chmod_sync :: "path \<Rightarrow> nat \<Rightarrow> ('x vol_scheme, unit) io" where
  "chmod_sync p m = update_disk p (\<lambda>t. case lookup p t of None \<Rightarrow> None | Some n \<Rightarrow> put_at p (chmod_node m n) t)"

section \<open>Indented texts of values\<close>

definition nl :: string where
  "nl = [CHR 0x0A]"

text \<open>\<open>sep\<close> is the line break with the indentation of the value.\<close>

fun pretty :: "string \<Rightarrow> js \<Rightarrow> string" and pretty_elems :: "string \<Rightarrow> js list \<Rightarrow> string"
  and pretty_fields :: "string \<Rightarrow> (string \<times> js) list \<Rightarrow> string list" where
  "pretty sep JUndef = ''null''"
| "pretty sep JNull = ''null''"
| "pretty sep (JBool b) = (if b then ''true'' else ''false'')"
| "pretty sep (JInt i) = show_int i"
| "pretty sep (JFrac s) = s"
| "pretty sep (JStr s) = quote s"
| "pretty sep (JArr vs) = (if vs = [] then ''[]'' else CHR ''['' # sep @ ''  '' @ pretty_elems (sep @ ''  '') vs @ sep @ '']'')"
| "pretty sep (JObj kvs) =
     (let fs = pretty_fields (sep @ ''  '') kvs in
      if fs = [] then ''{}'' else CHR ''{'' # sep @ ''  '' @ join (CHR '','' # sep @ ''  '') fs @ sep @ ''}'')"
| "pretty_elems sep [] = []"
| "pretty_elems sep (v # vs) = pretty sep v @ (if vs = [] then [] else CHR '','' # sep @ pretty_elems sep vs)"
| "pretty_fields sep [] = []"
| "pretty_fields sep ((k, v) # ps) = (if v = JUndef then [] else [quote k @ '': '' @ pretty sep v]) @ pretty_fields sep ps"

definition stringify2 :: "js \<Rightarrow> string" where
  "stringify2 v = pretty nl v"

definition blank :: "string \<Rightarrow> bool" where
  "blank s \<longleftrightarrow> list_all is_json_space s"

lemma skip_blank [simp]: "blank s \<Longrightarrow> skip_ws (s @ t) = skip_ws t"
  by (induction s) (simp_all add: blank_def skip_ws_def)

lemma blank_more: "blank s \<Longrightarrow> blank (s @ ''  '')"
  by (simp add: blank_def is_json_space_def)

lemma p_blank:
  assumes "blank s"
  shows "p_value n (s @ t) = p_value n t" "p_elems n (s @ t) = p_elems n t" "p_fields n acc (s @ t) = p_fields n acc t"
proof -
  have v: "p_value k (s @ t) = p_value k t" for k using assms by (cases k) (simp_all add: p_value.simps)
  then show "p_value n (s @ t) = p_value n t" .
  show "p_elems n (s @ t) = p_elems n t" using v by (cases n) (simp_all add: p_elems.simps)
  show "p_fields n acc (s @ t) = p_fields n acc t" using assms by (cases n) (simp_all add: p_fields.simps)
qed

lemma number_ends_blank: "blank s \<Longrightarrow> number_ends t \<Longrightarrow> number_ends (s @ t)"
  by (cases s) (auto simp: blank_def number_ends_def is_json_space_def is_digit_def)

lemma pretty_fields_nonempty: "ps \<noteq> [] \<Longrightarrow> list_all (\<lambda>(k, v). storable v) ps \<Longrightarrow> pretty_fields sep ps \<noteq> []"
  by (cases ps) (auto split: prod.splits)

lemma pretty_head:
  assumes "storable v"
  obtains c cs where "pretty sep v = c # cs" and "\<not> is_json_space c" and "c \<noteq> CHR '']''"
proof (cases v)
  case (JInt i)
  then show ?thesis using show_js_head [OF assms] that by auto
next
  case (JObj kvs)
  then show ?thesis by (intro that [of "CHR ''{''" "tl (pretty sep v)"]) (auto simp: Let_def is_json_space_def)
qed (use assms that in \<open>force simp: quote_def is_json_space_def split: if_splits\<close>)+

text \<open>One step of the parser at a bracket, at an item and at a field.\<close>

lemma p_bracket:
  "skip_ws s = d # ds \<Longrightarrow> d \<noteq> CHR '']'' \<Longrightarrow> p_elems m (d # ds) = Some (vs, rest) \<Longrightarrow> p_value (Suc m) (CHR ''['' # s) = Some (JArr vs, rest)"
  "skip_ws s = d # ds \<Longrightarrow> d \<noteq> CHR ''}'' \<Longrightarrow> p_fields m [] (d # ds) = Some (kvs, rest) \<Longrightarrow> p_value (Suc m) (CHR ''{'' # s) = Some (JObj kvs, rest)"
  by (simp_all add: p_value.simps skip_ws_Cons)

lemma p_item:
  "p_value m s = Some (v, ws @ CHR '']'' # rest) \<Longrightarrow> blank ws \<Longrightarrow> p_elems (Suc m) s = Some ([v], rest)"
  "p_value m s = Some (v, CHR '','' # r) \<Longrightarrow> p_elems m r = Some (vs, rest) \<Longrightarrow> p_elems (Suc m) s = Some (v # vs, rest)"
  by (simp_all add: p_elems.simps skip_ws_Cons)

lemma p_field:
  "p_value m t = Some (v, ws @ CHR ''}'' # rest) \<Longrightarrow> blank ws \<Longrightarrow> p_fields (Suc m) acc (quote k @ CHR '':'' # t) = Some (obj_set k v acc, rest)"
  "p_value m t = Some (v, CHR '','' # r) \<Longrightarrow> p_fields (Suc m) acc (quote k @ CHR '':'' # t) = p_fields m (obj_set k v acc) r"
  by (simp_all add: p_fields.simps quote_def parse_quoted skip_ws_Cons)

lemma pretty_back:
  "blank sep \<Longrightarrow> storable v \<Longrightarrow> number_ends rest \<Longrightarrow> length (pretty sep v) < n \<Longrightarrow>
     p_value n (pretty sep v @ rest) = Some (v, rest)"
  "blank sep \<Longrightarrow> vs \<noteq> [] \<Longrightarrow> list_all storable vs \<Longrightarrow> blank ws \<Longrightarrow> length (pretty_elems sep vs) + 1 < n \<Longrightarrow>
     p_elems n (pretty_elems sep vs @ ws @ CHR '']'' # rest) = Some (vs, rest)"
  "blank sep \<Longrightarrow> kvs \<noteq> [] \<Longrightarrow> list_all (\<lambda>(k, v). storable v) kvs \<Longrightarrow> distinct (map fst (acc @ kvs)) \<Longrightarrow> blank ws \<Longrightarrow>
     length (join (CHR '','' # sep) (pretty_fields sep kvs)) + 1 < n \<Longrightarrow>
     p_fields n acc (join (CHR '','' # sep) (pretty_fields sep kvs) @ ws @ CHR ''}'' # rest) = Some (acc @ kvs, rest)"
proof (induction sep v and sep vs and sep kvs arbitrary: rest n and rest n ws and rest n acc ws
    rule: pretty_pretty_elems_pretty_fields.induct)
  case (4 sep i)
  then show ?case by (simp add: p_value_int)
next
  case (6 sep s)
  then obtain m where "n = Suc m" by (cases n) auto
  then show ?case by (simp add: p_value.simps quote_def skip_ws_Cons parse_quoted)
next
  case (7 sep vs)
  then obtain m where n: "n = Suc m" by (cases n) auto
  show ?case
  proof (cases vs)
    case Nil
    then show ?thesis by (simp add: n p_value.simps skip_ws_Cons)
  next
    case (Cons w ws')
    let ?sep = "sep @ ''  ''" and ?stop = "sep @ CHR '']'' # rest"
    have sep: "blank ?sep" using 7(2) by (rule blank_more)
    obtain c cs where c: "pretty ?sep w = c # cs" "\<not> is_json_space c" "c \<noteq> CHR '']''" using 7(3) Cons pretty_head [of w] by auto
    then obtain ds where d: "pretty_elems ?sep vs @ ?stop = c # ds" using Cons by auto
    have "p_elems m (c # ds) = Some (vs, rest)" using 7 Cons n sep unfolding d [symmetric] by simp
    moreover have "skip_ws (?sep @ pretty_elems ?sep vs @ ?stop) = c # ds" unfolding skip_blank [OF sep] d by (rule skip_ws_Cons [OF c(2)])
    ultimately have "p_value n (CHR ''['' # (?sep @ pretty_elems ?sep vs @ ?stop)) = Some (JArr vs, rest)"
      unfolding n using c(3) by (intro p_bracket(1))
    then show ?thesis using Cons by simp
  qed
next
  case (8 sep kvs)
  then obtain m where n: "n = Suc m" by (cases n) (auto simp: Let_def)
  let ?sep = "sep @ ''  ''" and ?stop = "sep @ CHR ''}'' # rest"
  let ?fs = "join (CHR '','' # ?sep) (pretty_fields ?sep kvs)"
  show ?case
  proof (cases "kvs = []")
    case True
    then show ?thesis by (simp add: n p_value.simps skip_ws_Cons)
  next
    case False
    have sep: "blank ?sep" using 8(2) by (rule blank_more)
    have ne: "pretty_fields ?sep kvs \<noteq> []" using 8(3) False by (intro pretty_fields_nonempty) auto
    moreover have "hd (pretty_fields ?sep kvs) \<noteq> [] \<and> hd (hd (pretty_fields ?sep kvs)) = CHR 0x22"
      using 8(3) False by (cases kvs) (auto split: prod.splits simp: quote_def)
    ultimately obtain ds where d: "?fs @ ?stop = CHR 0x22 # ds"
      by (cases "pretty_fields ?sep kvs"; cases "hd (pretty_fields ?sep kvs)"; cases "tl (pretty_fields ?sep kvs)") auto
    have "p_fields m [] (?fs @ ?stop) = Some ([] @ kvs, rest)"
      by (rule 8(1)) (use 8 n sep False ne in \<open>auto simp: Let_def\<close>)
    then have "p_fields m [] (CHR 0x22 # ds) = Some (kvs, rest)" unfolding d by simp
    moreover have "skip_ws (?sep @ ?fs @ ?stop) = CHR 0x22 # ds" unfolding skip_blank [OF sep] d by (simp add: skip_ws_Cons)
    ultimately have "p_value n (CHR ''{'' # (?sep @ ?fs @ ?stop)) = Some (JObj kvs, rest)" unfolding n by (intro p_bracket(2)) simp_all
    then show ?thesis using ne by (simp add: Let_def)
  qed
next
  case (10 sep v vs)
  then obtain m where n: "n = Suc m" by (cases n) auto
  show ?case
  proof (cases vs)
    case Nil
    then have "p_value m (pretty sep v @ ws @ CHR '']'' # rest) = Some (v, ws @ CHR '']'' # rest)"
      using 10 n by (intro 10(1)) (simp_all add: number_ends_blank)
    from p_item(1) [OF this 10(6)] show ?thesis using Nil n by simp
  next
    case (Cons w ws')
    let ?r = "sep @ pretty_elems sep vs @ ws @ CHR '']'' # rest"
    have "p_value m (pretty sep v @ CHR '','' # ?r) = Some (v, CHR '','' # ?r)" using 10 n Cons by (intro 10(1)) simp_all
    moreover have "p_elems m ?r = Some (vs, rest)" unfolding p_blank(2) [OF 10(3)] using 10 n Cons by (intro 10(2)) simp_all
    ultimately show ?thesis using p_item(2) Cons n by simp
  qed
next
  case (12 sep k v ps)
  from 12 have v: "storable v" "v \<noteq> JUndef" by auto
  from 12 obtain m where n: "n = Suc m" by (cases n) auto
  have fresh: "obj_set k v acc = acc @ [(k, v)]" using 12 by (intro obj_set_fresh) auto
  have sp: "p_value m (CHR '' '' # t) = p_value m t" for t using p_blank(1) [of "'' ''" m t] by (simp add: blank_def is_json_space_def)
  show ?case
  proof (cases "ps = []")
    case True
    then have "p_value m (pretty sep v @ ws @ CHR ''}'' # rest) = Some (v, ws @ CHR ''}'' # rest)"
      using 12 n v by (intro 12(1)) (simp_all add: number_ends_blank quote_def)
    then show ?thesis using p_field(1) [of m _ v ws rest acc k] True 12(7) by (simp add: n v sp fresh)
  next
    case False
    then have ne: "pretty_fields sep ps \<noteq> []" using 12 by (intro pretty_fields_nonempty) auto
    let ?r = "join (CHR '','' # sep) (pretty_fields sep ps) @ ws @ CHR ''}'' # rest"
    have "p_value m (pretty sep v @ CHR '','' # sep @ ?r) = Some (v, CHR '','' # sep @ ?r)"
      using 12 n v ne by (intro 12(1)) (simp_all add: quote_def join_Cons)
    moreover have "p_fields m (acc @ [(k, v)]) (sep @ ?r) = Some ((acc @ [(k, v)]) @ ps, rest)"
      unfolding p_blank(3) [OF 12(3)] using 12 n v ne False by (intro 12(2)) (simp_all add: quote_def join_Cons)
    ultimately show ?thesis using p_field(2) [of m _ v _ acc k] v ne by (simp add: n sp fresh join_Cons)
  qed
qed (auto simp: p_value_literal)

lemma stringify2_back: "storable v \<Longrightarrow> parse_json (stringify2 v) = Some v"
  using pretty_back(1) [of nl v "[]" "Suc (length (stringify2 v))"]
  by (simp add: stringify2_def parse_json_def skip_ws_def nl_def blank_def is_json_space_def)

lemma stringify2_line_back: "storable v \<Longrightarrow> parse_json (stringify2 v @ nl) = Some v"
  using pretty_back(1) [of nl v nl "Suc (Suc (length (stringify2 v)))"]
  by (simp add: stringify2_def parse_json_def skip_ws_def nl_def blank_def is_json_space_def number_ends_def is_digit_def)

section \<open>Laws of the tree\<close>

lemma map_of_drop_entry: "map_of (filter (\<lambda>(k, _). k \<noteq> c) es) x = (if x = c then None else map_of es x)"
  by (induction es) auto

lemma lookup_append: "lookup (p @ q) t = (case lookup p t of None \<Rightarrow> None | Some u \<Rightarrow> lookup q u)"
  by (induction p t rule: lookup.induct) (auto split: option.splits)

lemma lookup_below: "lookup p t = None \<Longrightarrow> lookup (p @ q) t = None"
  by (simp add: lookup_append)

text \<open>Two paths of which none leads through the other.\<close>

definition apart :: "path \<Rightarrow> path \<Rightarrow> bool" where
  "apart p q \<longleftrightarrow> \<not> prefix p q \<and> \<not> prefix q p"

lemma apart_Cons: "apart (c # p) (d # q) \<longleftrightarrow> c \<noteq> d \<or> apart p q"
  by (auto simp: apart_def)

lemma lookup_put:
  assumes "put_at p n t = Some t'"
  shows "lookup (p @ q) t' = lookup q n" "apart p q' \<Longrightarrow> lookup q' t' = lookup q' t"
proof -
  show "lookup (p @ q) t' = lookup q n"
    using assms by (induction p n t arbitrary: t' rule: put_at.induct) (auto simp: map_of_obj_set split: if_splits option.splits)
  show "apart p q' \<Longrightarrow> lookup q' t' = lookup q' t"
    using assms
  proof (induction p n t arbitrary: t' q' rule: put_at.induct)
    case (1 n t)
    then show ?case by (simp add: apart_def)
  next
    case (2 c p n m es)
    then obtain d r where q: "q' = d # r" by (cases q') (auto simp: apart_def)
    show ?case
    proof (cases "d = c")
      case True
      then have r: "apart p r" "p \<noteq> []" using 2(2) q by (auto simp: apart_Cons) (auto simp: apart_def)
      then obtain u u' where u: "map_of es c = Some u" "put_at p n u = Some u'" "t' = Dir m (obj_set c u' es)"
        using 2(3) by (auto split: option.splits)
      have "lookup r u' = lookup r u" by (rule 2(1) [OF r(2) u(1) r(1) u(2)])
      then show ?thesis using u q True by (simp add: map_of_obj_set)
    qed (use 2(3) q in \<open>auto simp: map_of_obj_set split: if_splits option.splits\<close>)
  qed simp_all
qed

lemma lookup_put_above:
  assumes "put_at (p @ c # q) n t = Some t'"
  shows "\<exists>m es es'. lookup p t = Some (Dir m es) \<and> lookup p t' = Some (Dir m es')"
  using assms
proof (induction p arbitrary: t t')
  case Nil
  then show ?case by (cases t) (auto split: if_splits option.splits)
next
  case (Cons d p)
  then obtain m es where t: "t = Dir m es" by (cases t) auto
  then obtain u u' where "map_of es d = Some u" "put_at (p @ c # q) n u = Some u'" "t' = Dir m (obj_set d u' es)"
    using Cons.prems by (auto split: option.splits)
  then show ?case using Cons.IH [of u u'] t by (simp add: map_of_obj_set)
qed

lemma put_at_possible:
  "lookup p t = Some (Dir m es) \<Longrightarrow> \<exists>t'. put_at (p @ [c]) n t = Some t'"
proof (induction p arbitrary: t)
  case (Cons d p)
  then obtain k es' u where "t = Dir k es'" "map_of es' d = Some u" "lookup p u = Some (Dir m es)"
    by (cases t) (auto split: option.splits)
  then show ?case using Cons.IH [of u] by auto
qed simp

end
