(* ===== verification/First_Boot.thy ===== *)
theory First_Boot
  imports Volume Mail_Transport
begin

text \<open>
  What runs before the application in its container (\<open>docker/first-boot.mjs\<close>): provisioning of keys and secrets, written once, the
  client the identity provider is given, and the restore an operator asks for, honoured once. The blocks of random bytes and the
  key pairs a run draws are functions of the number of the draw. Log lines are left out.
\<close>

record boot_env =
  be_vars :: "(string \<times> string) list"
  be_cwd :: path
  be_now :: int

record entropy =
  en_block :: "nat \<Rightarrow> nat \<Rightarrow> nat list"     \<comment> \<open>the draw, how many bytes\<close>
  en_pair :: "nat \<Rightarrow> string \<times> string"      \<comment> \<open>public and private key\<close>

record boot_world = vol +
  bw_drawn :: nat

definition var_or :: "boot_env \<Rightarrow> string \<Rightarrow> string \<Rightarrow> string" where
  "var_or E name d = (case map_of (be_vars E) name of None \<Rightarrow> d | Some v \<Rightarrow> v)"

definition boot_data :: "boot_env \<Rightarrow> path" where
  "boot_data E = path_of (be_cwd E) (var_or E ''ENRAHITU_DATA_DIR'' ''/data'')"

definition boot_public_url :: "boot_env \<Rightarrow> string" where
  "boot_public_url E =
     (let u = var_or E ''ENRAHITU_PUBLIC_URL'' ''http://localhost:8080''
      in if u \<noteq> [] \<and> last u = CHR ''/'' then butlast u else u)"

definition data_dirs :: "path \<Rightarrow> path list" where
  "data_dirs D =
     [D @ [''ledger''], D @ [''hiqlite''], D @ [''keys''], D @ [''rauthy''], D @ [''rauthy'', ''db''], D @ [''rauthy'', ''bootstrap'']]"

section \<open>Provisioning\<close>

definition draw :: "(nat \<Rightarrow> 'a) \<Rightarrow> ('x boot_world_scheme, 'a) io" where
  "draw f = (\<lambda>w. (Inr (f (bw_drawn w)), w\<lparr>bw_drawn := Suc (bw_drawn w)\<rparr>))"

text \<open>
  The loop of \<open>alnum\<close>, with fuel: a block that holds a letter or a digit adds one character at least, so as many rounds as the length
  are enough.
\<close>

definition letters :: "nat list \<Rightarrow> string" where
  "letters block = filter (\<lambda>c. c \<notin> {CHR ''+'', CHR ''/'', CHR ''=''}) (base64 block)"

fun alnum_loop :: "nat \<Rightarrow> entropy \<Rightarrow> nat \<Rightarrow> string \<Rightarrow> ('x boot_world_scheme, string) io" where
  "alnum_loop 0 K n out = ret (take n out)"
| "alnum_loop (Suc fuel) K n out =
     (if length out < n then bnd (draw (\<lambda>i. en_block K i 48)) (\<lambda>b. alnum_loop fuel K n (out @ letters b))
      else ret (take n out))"

definition alnum :: "entropy \<Rightarrow> nat \<Rightarrow> ('x boot_world_scheme, string) io" where
  "alnum K n = alnum_loop n K n []"

definition write_once :: "path \<Rightarrow> string \<Rightarrow> ('x boot_world_scheme, unit) io" where
  "write_once p v = bnd (exists_sync p) (\<lambda>there. if there then ret () else write_file_sync p v 384)"

definition key_pair :: "entropy \<Rightarrow> path \<Rightarrow> string \<Rightarrow> ('x boot_world_scheme, unit) io" where
  "key_pair K D name =
     (let priv = D @ [''keys'', name @ ''-private.pem'']; pub = D @ [''keys'', name @ ''-public.pem''] in
      bnd (exists_sync priv) (\<lambda>a. bnd (exists_sync pub) (\<lambda>b.
        if a \<and> b then ret ()
        else bnd (draw (en_pair K)) (\<lambda>(public, private).
          seq (write_file_sync priv private 384) (write_file_sync pub public 420)))))"

definition client_secret_path :: "path \<Rightarrow> path" where
  "client_secret_path D = D @ [''keys'', ''rauthy-client-secret'']"

definition admin_password_path :: "path \<Rightarrow> path" where
  "admin_password_path D = D @ [''rauthy'', ''admin-password'']"

definition metrics_token_path :: "path \<Rightarrow> path" where
  "metrics_token_path D = D @ [''keys'', ''metrics-token'']"

definition secrets_env_path :: "path \<Rightarrow> path" where
  "secrets_env_path D = D @ [''rauthy'', ''secrets.env'']"

definition minted :: "entropy \<Rightarrow> path \<Rightarrow> nat \<Rightarrow> ('x boot_world_scheme, unit) io" where
  "minted K p n = bnd (alnum K n) (write_once p)"

definition assigned :: "string \<Rightarrow> string \<Rightarrow> string" where
  "assigned name v = name @ CHR ''='' # CHR 0x27 # v @ [CHR 0x27]"

definition mint_secrets :: "entropy \<Rightarrow> path \<Rightarrow> ('x boot_world_scheme, unit) io" where
  "mint_secrets K D =
     bnd (alnum K 6) (\<lambda>rid. bnd (alnum K 6) (\<lambda>hid.
     bnd (draw (\<lambda>i. en_block K i 32)) (\<lambda>rkey. bnd (alnum K 32) (\<lambda>rraft. bnd (alnum K 32) (\<lambda>rapi.
     bnd (alnum K 32) (\<lambda>hraft. bnd (alnum K 32) (\<lambda>hapi. bnd (draw (\<lambda>i. en_block K i 32)) (\<lambda>hkey.
       write_file_sync (secrets_env_path D)
         (join nl
            [assigned ''RAUTHY_ENC_KEYS'' (''enrahitu'' @ rid @ ''/'' @ base64 rkey),
             assigned ''RAUTHY_ENC_KEY_ACTIVE'' (''enrahitu'' @ rid),
             assigned ''RAUTHY_HQL_SECRET_RAFT'' rraft,
             assigned ''RAUTHY_HQL_SECRET_API'' rapi,
             assigned ''ENRAHITU_HIQ_SECRET_RAFT'' hraft,
             assigned ''ENRAHITU_HIQ_SECRET_API'' hapi,
             assigned ''ENRAHITU_HIQ_ENC_KEYS'' (''enrahitu'' @ hid @ ''/'' @ base64 hkey),
             assigned ''ENRAHITU_HIQ_ENC_KEY_ACTIVE'' (''enrahitu'' @ hid)] @ nl) 384))))))))"

definition runtime_secrets :: "entropy \<Rightarrow> path \<Rightarrow> ('x boot_world_scheme, unit) io" where
  "runtime_secrets K D =
     bnd (exists_sync (secrets_env_path D)) (\<lambda>there.
     seq (if there then ret () else mint_secrets K D)
    (seq (chmod_sync (secrets_env_path D) 384)
         (bnd (read_file_sync (secrets_env_path D)) (\<lambda>_. ret ()))))"

definition client_entry :: "string \<Rightarrow> string \<Rightarrow> js" where
  "client_entry url secret =
     JObj [(''id'', JStr ''enrahitu''), (''name'', JStr ''enrahitu''), (''secret'', JObj [(''Plain'', JStr secret)]),
       (''redirect_uris'', JArr [JStr (url @ ''/api/v1/auth/rauthy/callback'')]),
       (''post_logout_redirect_uris'', JArr [JStr (url @ ''/'')]), (''allowed_origins'', JArr [JStr url]),
       (''enabled'', JBool True), (''flows_enabled'', JArr [JStr ''authorization_code'', JStr ''refresh_token'']),
       (''access_token_alg'', JStr ''RS256''), (''id_token_alg'', JStr ''RS256''), (''auth_code_lifetime'', JInt 60),
       (''access_token_lifetime'', JInt 1800),
       (''scopes'', JArr [JStr ''openid'', JStr ''email'', JStr ''profile'', JStr ''groups'']),
       (''default_scopes'', JArr [JStr ''openid'']), (''challenges'', JArr [JStr ''S256'']), (''force_mfa'', JBool False)]"

definition provision :: "entropy \<Rightarrow> boot_env \<Rightarrow> ('x boot_world_scheme, unit) io" where
  "provision K E =
     (let D = boot_data E in
      seq (each mkdir_sync (data_dirs D))
     (seq (each (key_pair K D) [''access'', ''refresh''])
     (seq (minted K (client_secret_path D) 64)
     (bnd (read_file_sync (client_secret_path D)) (\<lambda>secret.
      seq (minted K (admin_password_path D) 24)
     (seq (minted K (metrics_token_path D) 48)
     (seq (runtime_secrets K D)
          (write_file_sync (D @ [''rauthy'', ''bootstrap'', ''clients.json''])
             (stringify2 (JArr [client_entry (boot_public_url E) (trim secret)])) 384))))))))"

section \<open>The restore, honoured once\<close>

record restore_store =
  rs_key :: string
  rs_env :: string      \<comment> \<open>what the operator sets, and the name written for the entrypoint\<close>

definition RESTORE_STORES :: "restore_store list" where
  "RESTORE_STORES =
     [\<lparr>rs_key = ''rauthy'', rs_env = ''ENRAHITU_RESTORE_RAUTHY''\<rparr>, \<lparr>rs_key = ''app'', rs_env = ''ENRAHITU_RESTORE_APP''\<rparr>]"

definition marker_path :: "path \<Rightarrow> path" where
  "marker_path D = D @ [''restore-applied.json'']"

definition restore_env_path :: "path \<Rightarrow> path" where
  "restore_env_path D = D @ [''restore.env'']"

text \<open>An unreadable marker is an absent one; a marker of the older form is carried along.\<close>

definition read_marker :: "path \<Rightarrow> ('x boot_world_scheme, js) io" where
  "read_marker D =
     bnd (exists_sync (marker_path D)) (\<lambda>there.
     bnd (if there then
            catch (bnd (read_file_sync (marker_path D)) (\<lambda>s.
                     case parse_json s of None \<Rightarrow> throw (Failure ''SyntaxError'') | Some j \<Rightarrow> ret j))
                  (\<lambda>_. ret (JObj []))
          else ret (JObj [])) (\<lambda>marker.
       if marker = JNull then throw (TypeErr ''Cannot read properties of null (reading backup)'')
       else ret (if is_str (js_get marker ''backup'') then JObj [(''legacy'', marker)] else marker)))"

text \<open>
  Writing a property of what the marker is. A property of an array is not in its text, one of a value that is no object cannot be
  written.
\<close>

fun set_property :: "js \<Rightarrow> string \<Rightarrow> js \<Rightarrow> exn + js" where
  "set_property (JObj kvs) k v = Inr (JObj (obj_set k v kvs))"
| "set_property (JArr vs) k v = Inr (JArr vs)"
| "set_property _ k v = Inl (TypeErr (''Cannot create property '' @ k))"

definition sh_quote :: "string \<Rightarrow> string" where
  "sh_quote s = CHR 0x27 # concat (map (\<lambda>c. if c = CHR 0x27 then [CHR 0x27, CHR 0x5C, CHR 0x27, CHR 0x27] else [c]) s) @ [CHR 0x27]"

definition restore_request :: "boot_env \<Rightarrow> restore_store \<Rightarrow> string" where
  "restore_request E st = trim (var_or E (rs_env st) [])"

definition honour_store :: "boot_env \<Rightarrow> restore_store \<Rightarrow> js \<times> string list \<times> bool \<Rightarrow> exn + js \<times> string list \<times> bool" where
  "honour_store E st acc =
     (case acc of (marker, lines, changed) \<Rightarrow>
      let request = restore_request E st; applied = (let a = js_get marker (rs_key st) in if nullish a then JNull else a) in
      if request = [] then Inr (marker, lines @ [''unset '' @ rs_env st], changed)
      else if js_get applied ''backup'' = JStr request then Inr (marker, lines @ [''unset '' @ rs_env st], changed)
      else sbind (set_property marker (rs_key st)
                    (JObj [(''backup'', JStr request), (''appliedAt'', JStr (iso_instant (be_now E))), (''previous'', applied)]))
             (\<lambda>marker'. Inr (marker', lines @ [''export '' @ rs_env st @ ''='' @ sh_quote request], True)))"

fun honour_all :: "boot_env \<Rightarrow> restore_store list \<Rightarrow> js \<times> string list \<times> bool \<Rightarrow> exn + js \<times> string list \<times> bool" where
  "honour_all E [] acc = Inr acc"
| "honour_all E (st # sts) acc = sbind (honour_store E st acc) (honour_all E sts)"

definition decide_restore :: "boot_env \<Rightarrow> ('x boot_world_scheme, unit) io" where
  "decide_restore E =
     (let D = boot_data E in
      bnd (read_marker D) (\<lambda>marker.
      bnd (lift (honour_all E RESTORE_STORES (marker, [], False))) (\<lambda>(marker', lines, changed).
      seq (if changed then write_file_sync (marker_path D) (stringify2 marker') 384 else ret ())
          (write_file_sync (restore_env_path D) (join nl lines @ nl) 384))))"

definition first_boot :: "entropy \<Rightarrow> boot_env \<Rightarrow> ('x boot_world_scheme, unit) io" where
  "first_boot K E = seq (provision K E) (decide_restore E)"

end
