(* ===== verification/First_Boot_Claims.thy ===== *)
theory First_Boot_Claims
  imports First_Boot
begin

text \<open>
  What the first boot promises: identity once provisioned is never replaced, and a restore an operator asks for is applied once,
  however often the container starts.
\<close>

section \<open>Provisioned identity\<close>

definition content :: "path \<Rightarrow> 'x vol_scheme \<Rightarrow> string option" where
  "content p w = (case lookup p (vl_disk w) of Some (File s _) \<Rightarrow> Some s | _ \<Rightarrow> None)"

lemma content_Some: "content p w = Some s \<longleftrightarrow> (\<exists>m. lookup p (vl_disk w) = Some (File s m))"
  by (auto simp: content_def split: option.splits node.splits)

lemma file_has_none_below: "lookup p t = Some (File s m) \<Longrightarrow> lookup (p @ c # q) t = None"
  by (simp add: lookup_append)

lemma put_keeps_files:
  assumes "put_at p n t = Some t'" and "lookup q t = Some (File s m)" and "\<not> prefix p q"
  shows "lookup q t' = Some (File s m)"
proof (cases "apart p q")
  case True
  then show ?thesis using lookup_put(2) [OF assms(1)] assms(2) by simp
next
  case False
  then obtain c r where "p = q @ c # r" using assms(3) by (metis apart_def prefix_order.order_refl prefix_def neq_Nil_conv append_Nil2)
  then show ?thesis using lookup_put_above assms(1,2) by fastforce
qed

lemma write_keeps:
  assumes "q \<noteq> p" and "content q w = Some s"
  shows "content q (snd (write_file_sync p v m w)) = Some s"
proof -
  obtain k where k: "lookup q (vl_disk w) = Some (File s k)" using assms(2) by (auto simp: content_Some)
  show ?thesis
  proof (cases "prefix p q")
    case True
    then obtain c r where "q = p @ c # r" using assms(1) by (metis prefix_def neq_Nil_conv append_Nil2)
    then obtain l es where "lookup p (vl_disk w) = Some (Dir l es)"
      using k by (cases "lookup p (vl_disk w)"; cases "the (lookup p (vl_disk w))") (auto simp: lookup_append)
    then show ?thesis using assms(2) by (simp add: write_file_sync_def update_disk_def)
  next
    case False
    then have kept: "lookup q t' = Some (File s k)" if "put_at p n (vl_disk w) = Some t'" for n t'
      using put_keeps_files [OF that k] by simp
    show ?thesis
    proof (cases "lookup p (vl_disk w)")
      case None
      then show ?thesis using assms(2) kept by (auto simp: write_file_sync_def update_disk_def content_Some split: option.splits)
    next
      case (Some n)
      then show ?thesis using assms(2) kept
        by (cases n) (auto simp: write_file_sync_def update_disk_def content_Some split: option.splits)
    qed
  qed
qed

lemma mkdirs_keeps: "mkdirs p t = Some t' \<Longrightarrow> lookup q t = Some (File s m) \<Longrightarrow> lookup q t' = Some (File s m)"
proof (induction p t arbitrary: t' q rule: mkdirs.induct)
  case (2 c p m' es)
  then obtain u where u: "mkdirs p (case map_of es c of None \<Rightarrow> Dir DIR_MODE [] | Some u \<Rightarrow> u) = Some u" "t' = Dir m' (obj_set c u es)"
    by auto
  obtain d r where q: "q = d # r" using 2(3) by (cases q) auto
  show ?case
  proof (cases "d = c")
    case True
    then obtain u0 where "map_of es c = Some u0" "lookup r u0 = Some (File s m)" using 2(3) q by (auto split: option.splits)
    then show ?thesis using 2(1) [of u r] u q True by (simp add: map_of_obj_set)
  qed (use 2(3) u q in \<open>simp add: map_of_obj_set\<close>)
qed (simp_all split: if_splits)

lemma chmod_keeps:
  assumes "content q w = Some s"
  shows "content q (snd (chmod_sync p m w)) = Some s"
proof -
  obtain k where k: "lookup q (vl_disk w) = Some (File s k)" using assms by (auto simp: content_Some)
  show ?thesis
  proof (cases "lookup p (vl_disk w)")
    case None
    then show ?thesis using assms by (simp add: chmod_sync_def update_disk_def)
  next
    case (Some n)
    show ?thesis
    proof (cases "put_at p (chmod_node m n) (vl_disk w)")
      case None
      then show ?thesis using assms Some by (simp add: chmod_sync_def update_disk_def)
    next
      case put: (Some t')
      have "\<exists>k'. lookup q t' = Some (File s k')"
      proof (cases "prefix p q")
        case True
        then obtain r where r: "q = p @ r" by (auto simp: prefix_def)
        then have "lookup r n = Some (File s k)" using k Some by (simp add: lookup_append)
        then have "\<exists>k'. lookup r (chmod_node m n) = Some (File s k')" by (cases r; cases n) auto
        then show ?thesis using lookup_put(1) [OF put] r by simp
      qed (use put_keeps_files [OF put k] in simp)
      then show ?thesis using Some put by (simp add: chmod_sync_def update_disk_def content_Some)
    qed
  qed
qed

abbreviation keeps :: "path \<Rightarrow> string \<Rightarrow> ('x boot_world_scheme, 'a) io \<Rightarrow> bool" where
  "keeps f s \<equiv> along (keeping (\<lambda>w. content f w = Some s))"

lemma keeps_mkdir [intro]: "keeps f s (mkdir_sync p)"
  by (rule alongI) (auto simp: keeping_def mkdir_sync_def update_disk_def content_Some dest: mkdirs_keeps split: option.splits)

lemma keeps_chmod [intro]: "keeps f s (chmod_sync p m)"
  by (rule alongI) (simp add: keeping_def chmod_keeps)

lemma keeps_write: "f \<noteq> p \<Longrightarrow> keeps f s (write_file_sync p v m)"
  by (rule alongI) (simp add: keeping_def write_keeps)

lemma keeps_draw [intro]: "keeps f s (draw g)"
  by (rule alongI) (simp add: keeping_def draw_def content_def)

lemma keeps_reads [intro]: "keeps f s (exists_sync p)" "keeps f s (read_file_sync p)"
  unfolding exists_sync_def read_file_sync_def by (rule keep.along_gets, rule keep.along_bnd, rule keep.along_gets)
    (auto split: option.split node.split)

lemma keeps_alnum [intro]: "keeps f s (alnum K n)"
proof -
  have "keeps f s (alnum_loop k K n out)" for k out by (induction k arbitrary: out) auto
  then show ?thesis by (simp add: alnum_def)
qed

lemma write_once_run: "exists_at p (vl_disk w) \<Longrightarrow> write_once p v w = (Inr (), w)"
  by (simp add: write_once_def exists_sync_def)

lemma content_exists: "content p w = Some s \<Longrightarrow> exists_at p (vl_disk w)"
  by (auto simp: content_Some exists_at_def)

lemma keeps_once [intro]: "keeps f s (write_once p v)"
proof (cases "f = p")
  case True
  then show ?thesis
    by (intro alongI) (metis content_exists keeping_def snd_conv write_once_run)
next
  case False
  then show ?thesis unfolding write_once_def by (auto intro: keeps_write)
qed

lemma keeps_minted [intro]: "keeps f s (minted K p n)"
  unfolding minted_def by auto

lemma keeps_both:
  "keeps f s m \<Longrightarrow> keeps g v m \<Longrightarrow> along (keeping (\<lambda>w. content f w = Some s \<and> content g w = Some v)) m"
  by (auto simp: along_def keeping_def)

text \<open>A guarded step on a file that is there takes the branch of the file that is there.\<close>

lemma guarded:
  assumes "\<And>w. P w \<Longrightarrow> exists_at p (vl_disk w)" and "along (keeping P) (g True)"
  shows "along (keeping P) (bnd (exists_sync p) g)"
  using assms by (auto simp: along_def keeping_def exists_sync_def)

lemmas keeps_rules = keep.along_bnd keep.along_if keep.along_ret keep.along_lift keep.along_throw keep.along_each
  keeps_draw keeps_reads keeps_alnum keeps_chmod keeps_mkdir keeps_once keeps_minted

lemma keeps_secrets [intro]: "keeps f s (runtime_secrets K D)"
proof (cases "f = secrets_env_path D")
  case True
  then show ?thesis unfolding runtime_secrets_def
    by (intro guarded) (auto simp: content_exists)
next
  case False
  then show ?thesis unfolding runtime_secrets_def mint_secrets_def by (intro keeps_rules keeps_write)
qed

definition pair_paths :: "path \<Rightarrow> string \<Rightarrow> path \<times> path" where
  "pair_paths D name = (D @ [''keys'', name @ ''-private.pem''], D @ [''keys'', name @ ''-public.pem''])"

lemma keeps_pair: "f \<noteq> fst (pair_paths D name) \<Longrightarrow> f \<noteq> snd (pair_paths D name) \<Longrightarrow> keeps f s (key_pair K D name)"
  unfolding key_pair_def Let_def pair_paths_def case_prod_unfold fst_conv snd_conv by (intro keeps_rules keeps_write)

lemma pair_kept:
  "along (keeping (\<lambda>w. content (fst (pair_paths D name)) w = Some a \<and> content (snd (pair_paths D name)) w = Some b)) (key_pair K D name)"
  unfolding key_pair_def Let_def pair_paths_def by (intro guarded) (auto simp: content_exists)

lemma keeps_marker [intro]: "keeps f s (read_marker D)"
  unfolding read_marker_def by (intro keep.along_bnd) (auto split: option.split)

lemma keeps_decide: "last f \<notin> {''restore-applied.json'', ''restore.env''} \<Longrightarrow> keeps f s (decide_restore E)"
  unfolding decide_restore_def Let_def marker_path_def restore_env_path_def case_prod_unfold
  by (intro keeps_rules keeps_marker keeps_write) auto

definition secret_files :: "path \<Rightarrow> path list" where
  "secret_files D = [client_secret_path D, admin_password_path D, metrics_token_path D, secrets_env_path D]"

lemmas path_defs = client_secret_path_def admin_password_path_def metrics_token_path_def secrets_env_path_def

lemma last_neq: "last f \<noteq> last g \<Longrightarrow> f \<noteq> g"
  by auto

lemma not_a_pem: "name @ x = y \<Longrightarrow> drop (length y - length x) y = x"
  by auto

lemma secret_last:
  assumes "f \<in> set (secret_files D)"
  shows "last f \<in> {''rauthy-client-secret'', ''admin-password'', ''metrics-token'', ''secrets.env''}"
  using assms by (auto simp: secret_files_def path_defs)

lemma secret_kept:
  assumes "f \<in> set (secret_files D)"
  shows "keeps f s (first_boot K E)"
proof -
  note l = secret_last [OF assms]
  have clients: "f \<noteq> boot_data E @ [''rauthy'', ''bootstrap'', ''clients.json'']" by (rule last_neq) (use l in auto)
  have pem: "f \<noteq> fst (pair_paths D' name)" "f \<noteq> snd (pair_paths D' name)" for D' name
    by (rule last_neq; use l in \<open>auto simp: pair_paths_def dest!: not_a_pem [OF sym]\<close>)+
  have "keeps f s (provision K E)" unfolding provision_def Let_def
    by (intro keeps_rules keeps_pair keeps_secrets keeps_write clients pem)
  moreover have "keeps f s (decide_restore E)" by (rule keeps_decide) (use l in auto)
  ultimately show ?thesis unfolding first_boot_def by (intro keeps_rules)
qed

lemma pairs_kept:
  assumes "f = fst (pair_paths D name)" and "g = snd (pair_paths D name)"
  shows "along (keeping (\<lambda>w. content f w = Some a \<and> content g w = Some b)) (first_boot K E)"
proof -
  have l: "last f = name @ ''-private.pem''" "last g = name @ ''-public.pem''" using assms by (simp_all add: pair_paths_def)
  have other: "f \<noteq> p \<and> g \<noteq> p" if "last p \<in> {''clients.json'', ''restore-applied.json'', ''restore.env''}" for p
    using that l by (auto dest!: not_a_pem)
  have pair: "along (keeping (\<lambda>w. content f w = Some a \<and> content g w = Some b)) (key_pair K D' name')" for D' name'
  proof (cases "pair_paths D' name' = pair_paths D name")
    case True
    then show ?thesis using pair_kept [of D' name' a b K] assms by simp
  next
    case False
    then show ?thesis using assms
      by (intro keeps_both keeps_pair) (auto simp: pair_paths_def dest: arg_cong [where f = "drop (length D)"])
  qed
  have "along (keeping (\<lambda>w. content f w = Some a \<and> content g w = Some b)) (provision K E)"
    unfolding provision_def Let_def using other [of "boot_data E @ [''rauthy'', ''bootstrap'', ''clients.json'']"]
    by (intro keep.along_bnd keep.along_each pair; (intro keeps_both; (intro keeps_rules keeps_secrets keeps_write; simp)))
  moreover have "along (keeping (\<lambda>w. content f w = Some a \<and> content g w = Some b)) (decide_restore E)"
    by (intro keeps_both keeps_decide) (use l in \<open>auto dest!: not_a_pem\<close>)
  ultimately show ?thesis unfolding first_boot_def by (intro keep.along_bnd)
qed

definition booted :: "(entropy \<times> boot_env) list \<Rightarrow> boot_world \<Rightarrow> boot_world" where
  "booted ks w = fold (\<lambda>(K, E) w. snd (first_boot K E w)) ks w"

lemma booted_keeps:
  assumes "\<And>K E. along (keeping P) (first_boot K E)"
  shows "P w \<Longrightarrow> P (booted ks w)"
  unfolding booted_def
proof (induction ks arbitrary: w)
  case (Cons k ks)
  then show ?case using assms [of "fst k" "snd k"] by (auto simp: along_def keeping_def case_prod_unfold)
qed simp

text \<open>
  C19: whatever boots follow, with whatever environments, random bytes and errors, a secret that is on the volume
  stays what it is, and so does a pair of keys of which both are there.
\<close>

theorem identity_survives:
  "(f \<in> set (secret_files D) \<and> content f w = Some s \<longrightarrow> content f (booted ks w) = Some s) \<and>
   (content (fst (pair_paths D name)) w = Some a \<and> content (snd (pair_paths D name)) w = Some b \<longrightarrow>
     content (fst (pair_paths D name)) (booted ks w) = Some a \<and> content (snd (pair_paths D name)) (booted ks w) = Some b)"
proof -
  have "content f (booted ks w) = Some s" if "f \<in> set (secret_files D)" "content f w = Some s"
    using booted_keeps [where P = "\<lambda>w. content f w = Some s", OF secret_kept [OF that(1)] that(2)] .
  moreover have "content (fst (pair_paths D name)) (booted ks w) = Some a \<and> content (snd (pair_paths D name)) (booted ks w) = Some b"
    if "content (fst (pair_paths D name)) w = Some a \<and> content (snd (pair_paths D name)) w = Some b"
    using booted_keeps [where P = "\<lambda>w. content (fst (pair_paths D name)) w = Some a \<and> content (snd (pair_paths D name)) w = Some b",
        OF pairs_kept [OF refl refl] that] .
  ultimately show ?thesis by blast
qed


definition plain_entropy :: entropy where
  "plain_entropy = \<lparr>en_block = (\<lambda>i n. replicate n 0), en_pair = (\<lambda>i. (''PUBLIC'', ''PRIVATE''))\<rparr>"

definition plain_boot :: "(string \<times> string) list \<Rightarrow> boot_env" where
  "plain_boot vars = \<lparr>be_vars = vars, be_cwd = [''workspace''], be_now = 0\<rparr>"

definition used_volume :: boot_world where
  "used_volume =
     \<lparr>vl_disk = Dir 493 [(''data'', Dir 493 [(''keys'', Dir 493 [(''metrics-token'', File ''token'' 384),
        (''access-private.pem'', File ''mine'' 384), (''access-public.pem'', File ''yours'' 420)])])], bw_drawn = 0\<rparr>"

theorem identity_survives_witness:
  "content [''data'', ''keys'', ''metrics-token''] (booted [(plain_entropy, plain_boot []), (plain_entropy, plain_boot [])] used_volume) = Some ''token'' \<and>
   content [''data'', ''keys'', ''access-private.pem''] (booted [(plain_entropy, plain_boot [])] used_volume) = Some ''mine''"
proof -
  have "content [''data'', ''keys'', ''metrics-token''] used_volume = Some ''token''"
    "content [''data'', ''keys'', ''access-private.pem''] used_volume = Some ''mine''"
    "content [''data'', ''keys'', ''access-public.pem''] used_volume = Some ''yours''"
    by (simp_all add: content_def used_volume_def)
  then show ?thesis
    using identity_survives [of "[''data'', ''keys'', ''metrics-token'']" "[''data'']" used_volume "''token''" "[(plain_entropy, plain_boot []), (plain_entropy, plain_boot [])]"]
      identity_survives [of _ "[''data'']" used_volume _ "[(plain_entropy, plain_boot [])]" "''access''" "''mine''" "''yours''"]
    by (simp add: secret_files_def path_defs pair_paths_def)
qed

text \<open>A private key whose public half is missing is replaced, although existing material is said never to be overwritten.\<close>

lemma lone_key_replaced:
  "content [''data'', ''keys'', ''access-private.pem'']
     (snd (key_pair plain_entropy [''data''] ''access''
       \<lparr>vl_disk = Dir 493 [(''data'', Dir 493 [(''keys'', Dir 493 [(''access-private.pem'', File ''mine'' 384)])])], bw_drawn = 0\<rparr>)) = Some ''PRIVATE''"
  by code_simp

text \<open>A marker that holds the text null is readable and stops every boot, although an unusable marker is said to be treated as absent.\<close>

lemma null_marker_stops_boot:
  "fst (decide_restore (plain_boot [])
     \<lparr>vl_disk = Dir 493 [(''data'', Dir 493 [(''restore-applied.json'', File ''null'' 384)])], bw_drawn = 0\<rparr>) =
   Inl (TypeErr ''Cannot read properties of null (reading backup)'')"
  by code_simp

end
