(* ===== verification/Restore_Once.thy ===== *)
theory Restore_Once
  imports First_Boot_Claims
begin

text \<open>
  A restore an operator asks for is offered to its store by one boot and by no later one, over any sequence of boots. What the
  entrypoint gets is what a shell reads from the file the boot leaves.
\<close>

section \<open>What the shell reads\<close>

text \<open>
  A word up to the end of its line, with single quotes; outside of quotes only letters, digits and an escaped character. \<open>True\<close> is
  inside of quotes.
\<close>

definition shell_plain :: "char \<Rightarrow> bool" where
  "shell_plain c \<longleftrightarrow> is_lower_alpha c \<or> is_upper_alpha c \<or> is_digit c \<or> c = CHR ''_''"

fun sh_word :: "bool \<Rightarrow> string \<Rightarrow> (string \<times> string) option" where
  "sh_word q [] = (if q then None else Some ([], []))"
| "sh_word True (c # cs) = (if c = CHR 0x27 then sh_word False cs else push_char c (sh_word True cs))"
| "sh_word False (c # cs) =
     (if c = CHR 0x0A then Some ([], cs)
      else if c = CHR 0x27 then sh_word True cs
      else if c = CHR 0x5C then (case cs of [] \<Rightarrow> None | d # ds \<Rightarrow> push_char d (sh_word False ds))
      else if shell_plain c then push_char c (sh_word False cs)
      else None)"

fun sh_source :: "nat \<Rightarrow> string \<Rightarrow> (string \<times> string option) list option" where
  "sh_source 0 s = None"
| "sh_source (Suc n) s =
     (if s = [] then Some []
      else (case strip ''unset '' s of
              Some r \<Rightarrow> map_option (Cons (takeWhile (\<lambda>c. c \<noteq> CHR 0x0A) r, None)) (sh_source n (drop 1 (dropWhile (\<lambda>c. c \<noteq> CHR 0x0A) r)))
            | None \<Rightarrow>
                (case strip ''export '' s of
                   None \<Rightarrow> None
                 | Some r \<Rightarrow>
                     (case sh_word False (drop 1 (dropWhile (\<lambda>c. c \<noteq> CHR ''='') r)) of
                        None \<Rightarrow> None
                      | Some (v, rest) \<Rightarrow> map_option (Cons (takeWhile (\<lambda>c. c \<noteq> CHR ''='') r, Some v)) (sh_source n rest)))))"

text \<open>A line of the file takes one unit of fuel.\<close>

definition sourced :: "string \<Rightarrow> (string \<times> string option) list option" where
  "sourced s = sh_source (Suc (length s)) s"

lemma sh_word_quote: "sh_word False (sh_quote s @ CHR 0x0A # rest) = Some (s, rest)"
proof -
  have "sh_word True (concat (map (\<lambda>c. if c = CHR 0x27 then [CHR 0x27, CHR 0x5C, CHR 0x27, CHR 0x27] else [c]) s) @ CHR 0x27 # CHR 0x0A # rest) = Some (s, rest)"
    by (induction s) (simp_all add: push_char_def)
  then show ?thesis by (simp add: sh_quote_def)
qed

definition restore_line :: "string \<times> string option \<Rightarrow> string" where
  "restore_line nv = (case snd nv of None \<Rightarrow> ''unset '' @ fst nv | Some v \<Rightarrow> ''export '' @ fst nv @ ''='' @ sh_quote v)"

lemma sh_source_line:
  assumes "\<forall>c \<in> set name. c \<noteq> CHR 0x0A \<and> c \<noteq> CHR ''=''"
  shows "sh_source (Suc n) (restore_line (name, v) @ CHR 0x0A # rest) = map_option (Cons (name, v)) (sh_source n rest)"
proof -
  have split: "takeWhile (\<lambda>c. c \<noteq> d) (name @ d # r) = name" "dropWhile (\<lambda>c. c \<noteq> d) (name @ d # r) = d # r"
    if "d \<notin> set name" for d r
    using that by (induction name) auto
  show ?thesis
  proof (cases v)
    case None
    then show ?thesis using assms by (simp add: restore_line_def strip_def starts_with_def split)
  next
    case (Some x)
    then show ?thesis using assms sh_word_quote [of x rest] by (simp add: restore_line_def strip_def starts_with_def split)
  qed
qed

lemma sh_source_end: "sh_source (Suc n) [] = Some []"
  by simp

lemma sourced_two:
  assumes "\<forall>c \<in> set n1. c \<noteq> CHR 0x0A \<and> c \<noteq> CHR ''=''" and "\<forall>c \<in> set n2. c \<noteq> CHR 0x0A \<and> c \<noteq> CHR ''=''"
  shows "sourced (join nl [restore_line (n1, v1), restore_line (n2, v2)] @ nl) = Some [(n1, v1), (n2, v2)]"
proof -
  obtain k where k: "length (join nl [restore_line (n1, v1), restore_line (n2, v2)] @ nl) = Suc (Suc k)"
    by (simp add: nl_def)
  show ?thesis
    unfolding sourced_def k using assms by (simp add: nl_def sh_source_line sh_source_end del: sh_source.simps(2))
qed

section \<open>A volume a boot can work on\<close>

definition file_places :: "path list" where
  "file_places =
     [[''keys'', ''access-private.pem''], [''keys'', ''access-public.pem''], [''keys'', ''refresh-private.pem''],
      [''keys'', ''refresh-public.pem''], [''keys'', ''rauthy-client-secret''], [''keys'', ''metrics-token''],
      [''rauthy'', ''admin-password''], [''rauthy'', ''secrets.env''], [''rauthy'', ''bootstrap'', ''clients.json''],
      [''restore-applied.json''], [''restore.env'']]"

definition data_files :: "path \<Rightarrow> path list" where
  "data_files D = map (\<lambda>p. D @ p) file_places"

lemma data_dirs_below: "data_dirs D = map (\<lambda>p. D @ p) (data_dirs [])"
  by (simp add: data_dirs_def)

definition free :: "node \<Rightarrow> path \<Rightarrow> bool" where
  "free t q \<longleftrightarrow> (case lookup q t of None \<Rightarrow> True | Some u \<Rightarrow> is_dir u)"

definition file_or_none :: "node \<Rightarrow> path \<Rightarrow> bool" where
  "file_or_none t q \<longleftrightarrow> (case lookup q t of Some (File _ _) \<Rightarrow> True | None \<Rightarrow> True | _ \<Rightarrow> False)"

definition clear_volume :: "path \<Rightarrow> node \<Rightarrow> bool" where
  "clear_volume D t \<longleftrightarrow> (\<forall>d \<in> set (data_dirs D). \<forall>q. prefix q d \<longrightarrow> free t q) \<and> (\<forall>f \<in> set (data_files D). file_or_none t f)"

definition dir_at :: "node \<Rightarrow> path \<Rightarrow> bool" where
  "dir_at t q \<longleftrightarrow> (\<exists>m es. lookup q t = Some (Dir m es))"

definition ready :: "path \<Rightarrow> 'x vol_scheme \<Rightarrow> bool" where
  "ready D w \<longleftrightarrow> (\<forall>d \<in> set (D # data_dirs D). dir_at (vl_disk w) d) \<and> (\<forall>f \<in> set (data_files D). file_or_none (vl_disk w) f)"

lemma is_dir_Dir: "is_dir u \<longleftrightarrow> (\<exists>m es. u = Dir m es)"
  by (cases u) auto

lemma mkdirs_free:
  "(\<And>q. prefix q d \<Longrightarrow> free t q) \<Longrightarrow>
   \<exists>t'. mkdirs d t = Some t' \<and> (\<forall>q. prefix q d \<longrightarrow> dir_at t' q) \<and> (\<forall>q. \<not> prefix q d \<longrightarrow> lookup q t' = lookup q t)"
proof (induction d arbitrary: t)
  case Nil
  then show ?case using Nil [of "[]"] by (auto simp: free_def dir_at_def is_dir_Dir)
next
  case (Cons c p)
  obtain m es where t: "t = Dir m es" using Cons.prems [of "[]"] by (auto simp: free_def is_dir_Dir)
  let ?u = "case map_of es c of None \<Rightarrow> Dir DIR_MODE [] | Some u \<Rightarrow> u"
  have "free ?u q" if "prefix q p" for q
    using Cons.prems [of "c # q"] that by (cases "map_of es c"; cases q) (auto simp: free_def t)
  then obtain u where u: "mkdirs p ?u = Some u" "\<And>q. prefix q p \<Longrightarrow> dir_at u q" "\<And>q. \<not> prefix q p \<Longrightarrow> lookup q u = lookup q ?u"
    using Cons.IH by blast
  have "lookup q (Dir m (obj_set c u es)) = lookup q t" if "\<not> prefix q (c # p)" for q
  proof (cases q)
    case (Cons d r)
    show ?thesis
    proof (cases "d = c")
      case True
      then have r: "\<not> prefix r p" using that Cons by simp
      then have "lookup r ?u = (case map_of es c of None \<Rightarrow> None | Some v \<Rightarrow> lookup r v)"
        by (cases "map_of es c"; cases r) auto
      then show ?thesis using u(3) [OF r] True Cons t by (simp add: map_of_obj_set)
    qed (simp add: Cons t map_of_obj_set)
  qed (use that in simp)
  moreover have "dir_at (Dir m (obj_set c u es)) q" if "prefix q (c # p)" for q
    using that u(2) by (cases q) (auto simp: dir_at_def map_of_obj_set)
  ultimately show ?case using u(1) by (auto simp: t)
qed

lemma file_not_above:
  assumes "f \<in> set (data_files D)" and "d \<in> set (D # data_dirs D)"
  shows "\<not> prefix f d"
proof -
  have "list_all (\<lambda>p. list_all (\<lambda>q. \<not> prefix p q) ([] # data_dirs [])) file_places" by code_simp
  moreover obtain p where "f = D @ p" "p \<in> set file_places" using assms(1) by (auto simp: data_files_def)
  moreover obtain q where "d = D @ q" "q \<in> set ([] # data_dirs [])" using assms(2) data_dirs_below [of D] by auto
  ultimately show ?thesis by (auto simp: list_all_iff)
qed

lemma made_dirs:
  assumes "clear_volume D (vl_disk w)" and "set ds \<subseteq> set (data_dirs D)"
  shows "\<exists>u. each mkdir_sync ds w = (Inr (), u) \<and> clear_volume D (vl_disk u) \<and>
    (\<forall>d \<in> set ds. dir_at (vl_disk u) d) \<and> (\<forall>d. dir_at (vl_disk w) d \<longrightarrow> dir_at (vl_disk u) d) \<and>
    (\<forall>f \<in> set (data_files D). lookup f (vl_disk u) = lookup f (vl_disk w))"
  using assms
proof (induction ds arbitrary: w)
  case (Cons d ds)
  have "free (vl_disk w) q" if "prefix q d" for q using Cons.prems that by (auto simp: clear_volume_def)
  then obtain t where t: "mkdirs d (vl_disk w) = Some t" "\<And>q. prefix q d \<Longrightarrow> dir_at t q"
      "\<And>q. \<not> prefix q d \<Longrightarrow> lookup q t = lookup q (vl_disk w)"
    using mkdirs_free [of d "vl_disk w"] by blast
  let ?v = "w\<lparr>vl_disk := t\<rparr>"
  have run: "mkdir_sync d w = (Inr (), ?v)" using t(1) by (simp add: mkdir_sync_def update_disk_def)
  have files: "lookup f t = lookup f (vl_disk w)" if "f \<in> set (data_files D)" for f
    using t(3) file_not_above [OF that, of d] Cons.prems(2) by auto
  have stay: "dir_at t q" if "dir_at (vl_disk w) q" for q using t(2,3) that by (cases "prefix q d") (auto simp: dir_at_def)
  have "free t q" if "free (vl_disk w) q" for q
    using t(2) [of q] t(3) [of q] that by (cases "prefix q d") (auto simp: free_def dir_at_def)
  then have "clear_volume D (vl_disk ?v)" using Cons.prems(1) files by (simp add: clear_volume_def file_or_none_def)
  then obtain u where u: "each mkdir_sync ds ?v = (Inr (), u)" "clear_volume D (vl_disk u)" "\<forall>d \<in> set ds. dir_at (vl_disk u) d"
      "\<forall>d. dir_at t d \<longrightarrow> dir_at (vl_disk u) d" "\<forall>f \<in> set (data_files D). lookup f (vl_disk u) = lookup f t"
    using Cons.IH [of ?v] Cons.prems(2) by auto
  then show ?case using run files stay t(2) [of d] by (auto simp: bnd_run)
qed auto

lemma dir_above: "dir_at t (p @ q) \<Longrightarrow> dir_at t p"
  by (cases q; cases "lookup p t"; cases "the (lookup p t)") (auto simp: dir_at_def lookup_append)

lemma dirs_ready:
  assumes "clear_volume D (vl_disk w)"
  shows "\<exists>u. each mkdir_sync (data_dirs D) w = (Inr (), u) \<and> ready D u \<and>
    (\<forall>f \<in> set (data_files D). lookup f (vl_disk u) = lookup f (vl_disk w))"
proof -
  obtain u where u: "each mkdir_sync (data_dirs D) w = (Inr (), u)" "clear_volume D (vl_disk u)"
      "\<forall>d \<in> set (data_dirs D). dir_at (vl_disk u) d" "\<forall>f \<in> set (data_files D). lookup f (vl_disk u) = lookup f (vl_disk w)"
    using made_dirs [OF assms order_refl] by auto
  moreover have "dir_at (vl_disk u) D" using u(3) dir_above [of "vl_disk u" D "[''ledger'']"] by (simp add: data_dirs_def)
  ultimately show ?thesis by (auto simp: ready_def clear_volume_def)
qed

section \<open>Steps on such a volume\<close>

lemma files_apart:
  assumes "f \<in> set (data_files D)" and "g \<in> set (data_files D)" and "f \<noteq> g"
  shows "apart f g"
proof -
  have "list_all (\<lambda>p. list_all (\<lambda>q. p = q \<or> apart p q) file_places) file_places" by code_simp
  moreover have "apart (D @ p) (D @ q) = apart p q" for p q by (simp add: apart_def)
  ultimately show ?thesis using assms by (auto simp: data_files_def list_all_iff)
qed

lemma dir_of_file:
  assumes "f \<in> set (data_files D)"
  obtains d c where "d \<in> set (D # data_dirs D)" and "f = d @ [c]"
proof -
  have "list_all (\<lambda>p. p \<noteq> [] \<and> butlast p \<in> set ([] # data_dirs [])) file_places" by code_simp
  moreover obtain p where p: "f = D @ p" "p \<in> set file_places" using assms by (auto simp: data_files_def)
  ultimately have "p \<noteq> []" "butlast p \<in> set ([] # data_dirs [])" by (auto simp: list_all_iff)
  then have "D @ butlast p \<in> set (D # data_dirs D)" using data_dirs_below [of D] by auto
  then show thesis using that [of "D @ butlast p" "last p"] p(1) \<open>p \<noteq> []\<close> by simp
qed

text \<open>Putting one of the files changes that file only.\<close>

lemma put_ready:
  assumes "ready D w" and "f \<in> set (data_files D)"
  obtains t where "put_at f (File v m') (vl_disk w) = Some t" and "ready D (w\<lparr>vl_disk := t\<rparr>)"
    and "lookup f t = Some (File v m')" and "\<And>g. g \<in> set (data_files D) \<Longrightarrow> g \<noteq> f \<Longrightarrow> lookup g t = lookup g (vl_disk w)"
proof -
  obtain d c where d: "d \<in> set (D # data_dirs D)" "f = d @ [c]" by (rule dir_of_file [OF assms(2)])
  then obtain k es where dir: "lookup d (vl_disk w) = Some (Dir k es)" using assms(1) unfolding ready_def dir_at_def by blast
  obtain t where t: "put_at f (File v m') (vl_disk w) = Some t" using put_at_possible [OF dir] d(2) by metis
  have own: "lookup f t = Some (File v m')" using lookup_put(1) [OF t, of "[]"] by simp
  have other: "lookup g t = lookup g (vl_disk w)" if "g \<in> set (data_files D)" "g \<noteq> f" for g
    using lookup_put(2) [OF t] files_apart [OF assms(2) that(1)] that(2) by metis
  have dirs: "dir_at t e" if "e \<in> set (D # data_dirs D)" for e
  proof (cases "apart f e")
    case True
    then show ?thesis using lookup_put(2) [OF t True] assms(1) that unfolding ready_def dir_at_def by metis
  next
    case False
    moreover have "\<not> prefix f e" using file_not_above [OF assms(2) that] .
    ultimately obtain r where r: "f = e @ r" by (auto simp: apart_def prefix_def)
    moreover have "r \<noteq> []" using \<open>\<not> prefix f e\<close> r by auto
    ultimately obtain b r' where "f = e @ b # r'" by (metis neq_Nil_conv)
    then show ?thesis using lookup_put_above t by (fastforce simp: dir_at_def)
  qed
  have "file_or_none t g" if "g \<in> set (data_files D)" for g
    using own other [OF that] assms(1) that by (cases "g = f") (simp_all add: ready_def file_or_none_def)
  then have "ready D (w\<lparr>vl_disk := t\<rparr>)" using dirs by (simp add: ready_def)
  from that [OF t this own other] show thesis .
qed

lemma write_ready:
  assumes "ready D w" and "f \<in> set (data_files D)"
  obtains t m' where "write_file_sync f v m w = (Inr (), w\<lparr>vl_disk := t\<rparr>)" and "ready D (w\<lparr>vl_disk := t\<rparr>)"
    and "lookup f t = Some (File v m')" and "\<And>g. g \<in> set (data_files D) \<Longrightarrow> g \<noteq> f \<Longrightarrow> lookup g t = lookup g (vl_disk w)"
proof -
  define m' where "m' = (case lookup f (vl_disk w) of Some (File _ m0) \<Rightarrow> m0 | _ \<Rightarrow> m)"
  obtain t where t: "put_at f (File v m') (vl_disk w) = Some t" "ready D (w\<lparr>vl_disk := t\<rparr>)" "lookup f t = Some (File v m')"
    "\<And>g. g \<in> set (data_files D) \<Longrightarrow> g \<noteq> f \<Longrightarrow> lookup g t = lookup g (vl_disk w)"
    using put_ready [OF assms] by metis
  have "file_or_none (vl_disk w) f" using assms by (simp add: ready_def)
  then have "write_file_sync f v m w = (Inr (), w\<lparr>vl_disk := t\<rparr>)"
    using t(1) by (auto simp: write_file_sync_def update_disk_def m'_def file_or_none_def split: option.splits node.splits)
  from that [OF this t(2,3,4)] show thesis .
qed

text \<open>
  \<open>calm D P m Q\<close>: on a ready volume with \<open>P\<close> the program answers, leaves the volume ready with \<open>Q\<close> and does not touch the marker.
\<close>

definition calm :: "path \<Rightarrow> ('x boot_world_scheme \<Rightarrow> bool) \<Rightarrow> ('x boot_world_scheme, 'a) io \<Rightarrow> ('x boot_world_scheme \<Rightarrow> bool) \<Rightarrow> bool" where
  "calm D P m Q \<longleftrightarrow> (\<forall>w. ready D w \<and> P w \<longrightarrow>
     (\<exists>a u. m w = (Inr a, u) \<and> ready D u \<and> Q u \<and> lookup (marker_path D) (vl_disk u) = lookup (marker_path D) (vl_disk w)))"

abbreviation holds :: "path \<Rightarrow> 'x boot_world_scheme \<Rightarrow> bool" where
  "holds f w \<equiv> content f w \<noteq> None"

lemma calm_bnd:
  assumes "calm D P m Q" and "\<And>a. calm D Q (g a) R"
  shows "calm D P (bnd m g) R"
  unfolding calm_def
proof (intro allI impI)
  fix w :: "'a boot_world_scheme"
  assume "ready D w \<and> P w"
  then obtain a u where u: "m w = (Inr a, u)" "ready D u \<and> Q u" "lookup (marker_path D) (vl_disk u) = lookup (marker_path D) (vl_disk w)"
    using assms(1) unfolding calm_def by blast
  moreover obtain b v where "g a u = (Inr b, v)" "ready D v" "R v" "lookup (marker_path D) (vl_disk v) = lookup (marker_path D) (vl_disk u)"
    using assms(2) [of a] u(2) unfolding calm_def by blast
  ultimately show "\<exists>a u. bnd m g w = (Inr a, u) \<and> ready D u \<and> R u \<and> lookup (marker_path D) (vl_disk u) = lookup (marker_path D) (vl_disk w)"
    by (auto simp: bnd_run)
qed

lemma calm_if: "calm D P m Q \<Longrightarrow> calm D P n Q \<Longrightarrow> calm D P (if b then m else n) Q"
  by simp

lemma calm_ret: "calm D P (ret a) P"
  by (simp add: calm_def)

lemma ready_same_disk: "vl_disk u = vl_disk w \<Longrightarrow> ready D u = ready D w"
  by (simp add: ready_def)

abbreviation anything :: "'x boot_world_scheme \<Rightarrow> bool" where
  "anything \<equiv> (\<lambda>_. True)"

lemma calm_draw: "calm D anything (draw f) anything"
  by (simp add: calm_def draw_def ready_def)

lemma calm_exists: "calm D P (exists_sync p) P"
  by (simp add: calm_def exists_sync_def)

lemma calm_alnum: "calm D anything (alnum K n) anything"
proof -
  have "calm D anything (alnum_loop k K n out) anything" for k out
    by (induction k arbitrary: out) (auto intro!: calm_ret calm_bnd [OF calm_draw])
  then show ?thesis by (simp add: alnum_def)
qed

lemma calm_weaken: "calm D P m Q \<Longrightarrow> calm D P m anything"
  by (auto simp: calm_def)

lemma calm_write:
  assumes "f \<in> set (data_files D)" and "f \<noteq> marker_path D"
  shows "calm D anything (write_file_sync f v m) (holds f)"
  unfolding calm_def
proof (intro allI impI)
  fix w :: "'a boot_world_scheme"
  assume w: "ready D w \<and> True"
  have mark: "marker_path D \<in> set (data_files D)" by (simp add: data_files_def file_places_def marker_path_def)
  obtain t m' where t: "write_file_sync f v m w = (Inr (), w\<lparr>vl_disk := t\<rparr>)" "ready D (w\<lparr>vl_disk := t\<rparr>)"
    "lookup f t = Some (File v m')" "\<And>g. g \<in> set (data_files D) \<Longrightarrow> g \<noteq> f \<Longrightarrow> lookup g t = lookup g (vl_disk w)"
    using write_ready [OF conjunct1 [OF w] assms(1)] by metis
  then show "\<exists>a u. write_file_sync f v m w = (Inr a, u) \<and> ready D u \<and> holds f u \<and> lookup (marker_path D) (vl_disk u) = lookup (marker_path D) (vl_disk w)"
    using t(4) [OF mark] assms(2) by (auto simp: content_def)
qed

lemma ready_holds: "ready D w \<Longrightarrow> f \<in> set (data_files D) \<Longrightarrow> exists_at f (vl_disk w) \<Longrightarrow> holds f w"
  by (cases "lookup f (vl_disk w)"; cases "the (lookup f (vl_disk w))") (auto simp: ready_def file_or_none_def exists_at_def content_def)

lemma calm_once:
  assumes "f \<in> set (data_files D)" and "calm D anything m (holds f)"
  shows "calm D anything (bnd (exists_sync f) (\<lambda>there. if there then ret () else m)) (holds f)"
  unfolding calm_def
proof (intro allI impI)
  fix w :: "'a boot_world_scheme"
  assume w: "ready D w \<and> True"
  then obtain a u where "m w = (Inr a, u)" "ready D u" "holds f u" "lookup (marker_path D) (vl_disk u) = lookup (marker_path D) (vl_disk w)"
    using assms(2) unfolding calm_def by blast
  then show "\<exists>a u. bnd (exists_sync f) (\<lambda>there. if there then ret () else m) w = (Inr a, u) \<and> ready D u \<and> holds f u \<and>
      lookup (marker_path D) (vl_disk u) = lookup (marker_path D) (vl_disk w)"
    using ready_holds [OF conjunct1 [OF w] assms(1)] w by (cases "exists_at f (vl_disk w)") (auto simp: exists_sync_def)
qed

lemma calm_read: "calm D (holds f) (read_file_sync f) anything"
  by (auto simp: calm_def read_file_sync_def content_def split: option.splits node.splits)

lemma calm_assume: "(P \<Longrightarrow> calm D P' m Q) \<Longrightarrow> calm D (\<lambda>w. P \<and> P' w) m Q"
  by (cases P) (simp_all add: calm_def)

lemma calm_pre: "calm D anything m Q \<Longrightarrow> calm D P m Q"
  by (simp add: calm_def)

lemma calm_minted:
  assumes "f \<in> set (data_files D)" and "f \<noteq> marker_path D"
  shows "calm D anything (minted K f n) (holds f)"
  unfolding minted_def write_once_def by (intro calm_bnd [OF calm_alnum] calm_once calm_write assms)

lemma calm_chmod:
  assumes "f \<in> set (data_files D)" and "f \<noteq> marker_path D"
  shows "calm D (holds f) (chmod_sync f m) (holds f)"
  unfolding calm_def
proof (intro allI impI)
  fix w :: "'a boot_world_scheme"
  assume w: "ready D w \<and> holds f w"
  then obtain v k where v: "lookup f (vl_disk w) = Some (File v k)" by (auto simp: content_def split: option.splits node.splits)
  obtain t where t: "put_at f (File v m) (vl_disk w) = Some t" "ready D (w\<lparr>vl_disk := t\<rparr>)" "lookup f t = Some (File v m)"
    "\<And>g. g \<in> set (data_files D) \<Longrightarrow> g \<noteq> f \<Longrightarrow> lookup g t = lookup g (vl_disk w)"
    using put_ready [OF conjunct1 [OF w] assms(1)] by metis
  then have "chmod_sync f m w = (Inr (), w\<lparr>vl_disk := t\<rparr>)" using v by (simp add: chmod_sync_def update_disk_def)
  then show "\<exists>a u. chmod_sync f m w = (Inr a, u) \<and> ready D u \<and> holds f u \<and> lookup (marker_path D) (vl_disk u) = lookup (marker_path D) (vl_disk w)"
    using t(2,3) t(4) [of "marker_path D"] assms(2) by (simp add: content_def data_files_def file_places_def marker_path_def)
qed

lemma calm_pair:
  assumes "\<And>p. p \<in> {fst (pair_paths D name), snd (pair_paths D name)} \<Longrightarrow> p \<in> set (data_files D) \<and> p \<noteq> marker_path D"
  shows "calm D anything (key_pair K D name) anything"
proof -
  have written: "calm D P (write_file_sync p v m) anything" if "p \<in> {fst (pair_paths D name), snd (pair_paths D name)}" for P p v m
    using assms [OF that] calm_write [of p D v m] by (auto simp: calm_def)
  show ?thesis
    unfolding key_pair_def Let_def case_prod_unfold
    by (intro calm_bnd [OF calm_exists] calm_if calm_ret calm_bnd [OF calm_draw] calm_bnd [OF written] written) (simp_all add: pair_paths_def)
qed

lemma calm_secrets: "calm D anything (runtime_secrets K D :: ('x boot_world_scheme, unit) io) anything"
proof -
  let ?f = "secrets_env_path D"
  have f: "?f \<in> set (data_files D)" "?f \<noteq> marker_path D" by (simp_all add: data_files_def file_places_def path_defs marker_path_def)
  have rest: "calm D (holds ?f) (seq (chmod_sync ?f 384) (bnd (read_file_sync ?f) (\<lambda>_. ret ())) :: ('x boot_world_scheme, unit) io) anything"
    by (intro calm_bnd [OF calm_chmod [OF f]] calm_bnd [OF calm_read] calm_ret)
  have mint: "calm D anything (mint_secrets K D :: ('x boot_world_scheme, unit) io) (holds ?f)"
    unfolding mint_secrets_def by (intro calm_bnd [OF calm_alnum] calm_bnd [OF calm_draw] calm_write f)
  have "(runtime_secrets K D :: ('x boot_world_scheme, unit) io) = seq (bnd (exists_sync ?f) (\<lambda>there. if there then ret () else mint_secrets K D))
      (seq (chmod_sync ?f 384) (bnd (read_file_sync ?f) (\<lambda>_. ret ())))"
    unfolding runtime_secrets_def bnd_bnd by simp
  then show ?thesis using calm_bnd [OF calm_once [OF f(1) mint] rest] by simp
qed

lemma provision_run:
  fixes w :: "'x boot_world_scheme"
  assumes "clear_volume D (vl_disk w)" and "boot_data E = D"
  shows "\<exists>u. provision K E w = (Inr (), u) \<and> ready D u \<and> lookup (marker_path D) (vl_disk u) = lookup (marker_path D) (vl_disk w)"
proof -
  obtain v where v: "each mkdir_sync (data_dirs D) w = (Inr (), v)" "ready D v"
      "\<forall>f \<in> set (data_files D). lookup f (vl_disk v) = lookup f (vl_disk w)"
    using dirs_ready [OF assms(1)] by blast
  have f: "p \<in> set (data_files D) \<and> p \<noteq> marker_path D"
    if "p \<in> {client_secret_path D, admin_password_path D, metrics_token_path D, D @ [''rauthy'', ''bootstrap'', ''clients.json''],
      fst (pair_paths D ''access''), snd (pair_paths D ''access''), fst (pair_paths D ''refresh''), snd (pair_paths D ''refresh'')}" for p
    using that by (auto simp: data_files_def file_places_def path_defs marker_path_def pair_paths_def)
  have pairs: "calm D anything (each (key_pair K D) [''access'', ''refresh''] :: ('x boot_world_scheme, unit) io) anything"
    unfolding each.simps by (intro calm_bnd [OF calm_pair] calm_bnd [OF calm_ret] calm_ret calm_pair; rule f; auto)
  note minted = calm_minted [OF f [THEN conjunct1] f [THEN conjunct2]]
  have "calm D (anything :: 'x boot_world_scheme \<Rightarrow> bool)
      (seq (each (key_pair K D) [''access'', ''refresh''])
      (seq (minted K (client_secret_path D) 64)
      (bnd (read_file_sync (client_secret_path D)) (\<lambda>secret.
       seq (minted K (admin_password_path D) 24)
      (seq (minted K (metrics_token_path D) 48)
      (seq (runtime_secrets K D)
           (write_file_sync (D @ [''rauthy'', ''bootstrap'', ''clients.json''])
              (stringify2 (JArr [client_entry (boot_public_url E) (trim secret)])) 384))))))) (holds (D @ [''rauthy'', ''bootstrap'', ''clients.json'']))"
    by (intro calm_bnd [OF pairs] calm_bnd [OF minted] calm_bnd [OF calm_read] calm_bnd [OF calm_pre [OF minted]] calm_bnd [OF calm_pre [OF calm_secrets]]
        calm_write f [THEN conjunct1] f [THEN conjunct2]) auto
  then show ?thesis
    using v assms(2) unfolding calm_def provision_def Let_def by (fastforce simp: bnd_run data_files_def file_places_def marker_path_def)
qed

section \<open>What a boot decides\<close>

text \<open>The marker a boot leaves: an object, or no file yet.\<close>

definition marker_state :: "path \<Rightarrow> 'x vol_scheme \<Rightarrow> (string \<times> js) list \<Rightarrow> bool" where
  "marker_state D w kvs \<longleftrightarrow>
     storable (JObj kvs) \<and> \<not> is_str (own_of kvs ''backup'') \<and>
     (case lookup (marker_path D) (vl_disk w) of
        None \<Rightarrow> kvs = [] | Some (File s _) \<Rightarrow> s = stringify2 (JObj kvs) | _ \<Rightarrow> False)"

text \<open>The request a marker remembers for a store, and what is due for it.\<close>

definition remembered :: "(string \<times> js) list \<Rightarrow> restore_store \<Rightarrow> string option" where
  "remembered kvs st = (case js_get (own_of kvs (rs_key st)) ''backup'' of JStr r \<Rightarrow> Some r | _ \<Rightarrow> None)"

definition due :: "boot_env \<Rightarrow> (restore_store \<Rightarrow> string option) \<Rightarrow> restore_store \<Rightarrow> string option" where
  "due E mem st = (let r = restore_request E st in if r = [] \<or> mem st = Some r then None else Some r)"

definition now_remembered :: "boot_env \<Rightarrow> (restore_store \<Rightarrow> string option) \<Rightarrow> restore_store \<Rightarrow> string option" where
  "now_remembered E mem st = (let r = restore_request E st in if r = [] then mem st else Some r)"

lemma remembered_iff: "remembered kvs st = Some r \<longleftrightarrow> js_get (own_of kvs (rs_key st)) ''backup'' = JStr r"
  by (auto simp: remembered_def split: js.splits)

lemma read_marker_run: "marker_state D w kvs \<Longrightarrow> read_marker D w = (Inr (JObj kvs), w)"
  by (cases "lookup (marker_path D) (vl_disk w)"; cases "the (lookup (marker_path D) (vl_disk w))")
    (auto simp: marker_state_def read_marker_def exists_sync_def exists_at_def read_file_sync_def bnd_run catch_run stringify2_back
      simp del: storable.simps)

lemma obj_set_member: "(k', v') \<in> set (obj_set k v kvs) \<Longrightarrow> (k' = k \<and> v' = v) \<or> (k', v') \<in> set kvs"
  by (induction kvs) (auto split: if_splits)

lemma storable_own: "storable (JObj kvs) \<Longrightarrow> own_of kvs k = JUndef \<or> storable (own_of kvs k)"
  by (auto simp: own_of_def list_all_iff split: option.splits dest!: map_of_SomeD)

lemma honour_run:
  assumes "storable (JObj kvs)" and "\<not> is_str (own_of kvs ''backup'')" and "rs_key st \<noteq> ''backup''"
  shows "\<exists>kvs'. honour_store E st (JObj kvs, lines, ch) =
       Inr (JObj kvs', lines @ [restore_line (rs_env st, due E (remembered kvs) st)], ch \<or> due E (remembered kvs) st \<noteq> None) \<and>
     storable (JObj kvs') \<and> \<not> is_str (own_of kvs' ''backup'') \<and> (due E (remembered kvs) st = None \<longrightarrow> kvs' = kvs) \<and>
     remembered kvs' st = now_remembered E (remembered kvs) st \<and>
     (\<forall>st'. rs_key st' \<noteq> rs_key st \<longrightarrow> remembered kvs' st' = remembered kvs st')"
proof -
  let ?r = "restore_request E st" and ?a = "own_of kvs (rs_key st)"
  let ?applied = "if nullish ?a then JNull else ?a"
  have applied: "js_get ?applied ''backup'' = js_get ?a ''backup''" by (auto simp: nullish_def)
  show ?thesis
  proof (cases "due E (remembered kvs) st")
    case None
    then have "?r = [] \<or> js_get ?applied ''backup'' = JStr ?r" unfolding applied by (auto simp: due_def Let_def remembered_iff split: if_splits)
    then have "honour_store E st (JObj kvs, lines, ch) = Inr (JObj kvs, lines @ [''unset '' @ rs_env st], ch)"
      by (auto simp: honour_store_def Let_def)
    then show ?thesis using assms None by (auto simp: restore_line_def due_def now_remembered_def Let_def split: if_splits)
  next
    case (Some r)
    then have r: "?r \<noteq> []" "r = ?r" "js_get ?applied ''backup'' \<noteq> JStr ?r"
      unfolding applied by (auto simp: due_def Let_def remembered_iff split: if_splits)
    let ?kvs = "obj_set (rs_key st) (JObj [(''backup'', JStr ?r), (''appliedAt'', JStr (iso_instant (be_now E))), (''previous'', ?applied)]) kvs"
    have "storable ?applied" using storable_own [OF assms(1), of "rs_key st"] by (auto simp: nullish_def)
    then have "storable (JObj ?kvs)" using assms(1) by (auto simp: distinct_obj_set list_all_iff dest!: obj_set_member)
    moreover have "honour_store E st (JObj kvs, lines, ch) = Inr (JObj ?kvs, lines @ [''export '' @ rs_env st @ ''='' @ sh_quote ?r], True)"
      using r(1,3) by (cases "nullish ?a") (simp_all add: honour_store_def Let_def)
    moreover have "remembered ?kvs st = Some ?r" by (simp add: remembered_iff)
    moreover have "remembered ?kvs st' = remembered kvs st'" if "rs_key st' \<noteq> rs_key st" for st' using that by (auto simp: remembered_def)
    ultimately show ?thesis using assms(2,3) r Some
      by (intro exI [of _ ?kvs]) (simp add: restore_line_def now_remembered_def Let_def)
  qed
qed

lemma decide_run:
  assumes "ready D w" and "marker_state D w kvs" and "boot_data E = D"
  shows "\<exists>u kvs'. decide_restore E w = (Inr (), u) \<and> ready D u \<and> marker_state D u kvs' \<and>
    content (restore_env_path D) u = Some (join nl (map (\<lambda>st. restore_line (rs_env st, due E (remembered kvs) st)) RESTORE_STORES) @ nl) \<and>
    (\<forall>st \<in> set RESTORE_STORES. remembered kvs' st = now_remembered E (remembered kvs) st)"
proof -
  obtain a b where st: "RESTORE_STORES = [a, b]" "rs_key a \<noteq> rs_key b" "rs_key a \<noteq> ''backup''" "rs_key b \<noteq> ''backup''"
    by (simp add: RESTORE_STORES_def)
  have m: "storable (JObj kvs)" "\<not> is_str (own_of kvs ''backup'')" using assms(2) unfolding marker_state_def by blast+
  obtain k1 where k1: "honour_store E a (JObj kvs, [], False) =
       Inr (JObj k1, [restore_line (rs_env a, due E (remembered kvs) a)], due E (remembered kvs) a \<noteq> None)"
     "storable (JObj k1)" "\<not> is_str (own_of k1 ''backup'')" "due E (remembered kvs) a = None \<longrightarrow> k1 = kvs"
     "remembered k1 a = now_remembered E (remembered kvs) a" "\<And>st'. rs_key st' \<noteq> rs_key a \<Longrightarrow> remembered k1 st' = remembered kvs st'"
    using honour_run [OF m st(3), of E "[]" False] by auto
  have same: "due E (remembered k1) b = due E (remembered kvs) b" "now_remembered E (remembered k1) b = now_remembered E (remembered kvs) b"
    using k1(6) [of b] st(2) by (simp_all add: due_def now_remembered_def Let_def)
  let ?lines = "[restore_line (rs_env a, due E (remembered kvs) a), restore_line (rs_env b, due E (remembered kvs) b)]"
  let ?ch = "due E (remembered kvs) a \<noteq> None \<or> due E (remembered kvs) b \<noteq> None"
  obtain k2 where k2: "honour_store E b (JObj k1, [restore_line (rs_env a, due E (remembered kvs) a)], due E (remembered kvs) a \<noteq> None) =
       Inr (JObj k2, ?lines, ?ch)"
     "storable (JObj k2)" "\<not> is_str (own_of k2 ''backup'')" "due E (remembered kvs) b = None \<longrightarrow> k2 = k1"
     "remembered k2 b = now_remembered E (remembered kvs) b" "\<And>st'. rs_key st' \<noteq> rs_key b \<Longrightarrow> remembered k2 st' = remembered k1 st'"
    using honour_run [OF k1(2,3) st(4), of E "[restore_line (rs_env a, due E (remembered kvs) a)]" "due E (remembered kvs) a \<noteq> None"]
    unfolding same by auto
  have all: "honour_all E RESTORE_STORES (JObj kvs, [], False) = Inr (JObj k2, ?lines, ?ch)" by (simp only: st(1) honour_all.simps k1(1) k2(1) sbind_simps)
  have mem: "\<forall>st \<in> set RESTORE_STORES. remembered k2 st = now_remembered E (remembered kvs) st"
    unfolding st(1) using k1(5) k2(5) k2(6) [OF st(2)] by simp
  have places: "marker_path D \<in> set (data_files D)" "restore_env_path D \<in> set (data_files D)" "marker_path D \<noteq> restore_env_path D"
    by (simp_all add: data_files_def file_places_def marker_path_def restore_env_path_def)
  obtain v where v: "(if ?ch then write_file_sync (marker_path D) (stringify2 (JObj k2)) 384 else ret ()) w = (Inr (), v)"
    "ready D v" "marker_state D v k2"
  proof (cases ?ch)
    case True
    obtain t m' where "write_file_sync (marker_path D) (stringify2 (JObj k2)) 384 w = (Inr (), w\<lparr>vl_disk := t\<rparr>)"
      "ready D (w\<lparr>vl_disk := t\<rparr>)" "lookup (marker_path D) t = Some (File (stringify2 (JObj k2)) m')"
      using write_ready [OF assms(1) places(1)] by metis
    then show ?thesis using True k2(2,3) by (intro that [of "w\<lparr>vl_disk := t\<rparr>"]) (auto simp: marker_state_def)
  next
    case False
    then show ?thesis using that [of w] assms(1,2) k1(4) k2(4) by simp
  qed
  obtain t m' where t: "write_file_sync (restore_env_path D) (join nl ?lines @ nl) 384 v = (Inr (), v\<lparr>vl_disk := t\<rparr>)"
    "ready D (v\<lparr>vl_disk := t\<rparr>)" "lookup (restore_env_path D) t = Some (File (join nl ?lines @ nl) m')"
    "\<And>g. g \<in> set (data_files D) \<Longrightarrow> g \<noteq> restore_env_path D \<Longrightarrow> lookup g t = lookup g (vl_disk v)"
    using write_ready [OF v(2) places(2)] by metis
  have "decide_restore E w = (Inr (), v\<lparr>vl_disk := t\<rparr>)"
    unfolding decide_restore_def Let_def assms(3) using v(1) t(1) by (simp add: bnd_run read_marker_run [OF assms(2)] all)
  moreover have "marker_state D (v\<lparr>vl_disk := t\<rparr>) k2" using v(3) t(4) [OF places(1,3)] by (simp add: marker_state_def)
  ultimately show ?thesis using t(2,3) mem by (auto simp: content_def st(1))
qed

section \<open>Over any sequence of boots\<close>

lemma ready_clear: "ready D w \<Longrightarrow> clear_volume D (vl_disk w)"
  unfolding clear_volume_def
proof (intro conjI ballI allI impI)
  fix d q assume "ready D w" "d \<in> set (data_dirs D)" "prefix q d"
  then have "dir_at (vl_disk w) q" using dir_above by (auto simp: ready_def prefix_def)
  then show "free (vl_disk w) q" by (auto simp: dir_at_def free_def)
qed (simp add: ready_def)

text \<open>What the entrypoint sources after each of the boots; \<open>None\<close> stands for a boot that failed.\<close>

fun restores :: "(entropy \<times> boot_env) list \<Rightarrow> boot_world \<Rightarrow> (string \<times> string option) list option list" where
  "restores [] w = []"
| "restores ((K, E) # ks) w =
     (case first_boot K E w of
        (Inl _, u) \<Rightarrow> None # restores ks u
      | (Inr _, u) \<Rightarrow> Option.bind (content (restore_env_path (boot_data E)) u) sourced # restores ks u)"

text \<open>The contract: a request is offered when it is not the one last offered to its store.\<close>

fun offered :: "(restore_store \<Rightarrow> string option) \<Rightarrow> boot_env list \<Rightarrow> (string \<times> string option) list option list" where
  "offered mem [] = []"
| "offered mem (E # Es) =
     Some (map (\<lambda>st. (rs_env st, due E mem st)) RESTORE_STORES) # offered (now_remembered E mem) Es"

lemma offered_cong: "(\<And>st. st \<in> set RESTORE_STORES \<Longrightarrow> mem st = mem' st) \<Longrightarrow> offered mem Es = offered mem' Es"
proof (induction Es arbitrary: mem mem')
  case (Cons E Es)
  have "offered (now_remembered E mem) Es = offered (now_remembered E mem') Es"
    by (rule Cons.IH) (simp add: now_remembered_def Let_def Cons.prems)
  moreover have "map (\<lambda>st. (rs_env st, due E mem st)) RESTORE_STORES = map (\<lambda>st. (rs_env st, due E mem' st)) RESTORE_STORES"
    using Cons.prems by (simp add: due_def)
  ultimately show ?case by simp
qed simp

lemma store_names: "\<forall>st \<in> set RESTORE_STORES. \<forall>c \<in> set (rs_env st). c \<noteq> CHR 0x0A \<and> c \<noteq> CHR ''=''"
  by (simp add: RESTORE_STORES_def)

lemma sourced_lines:
  "sourced (join nl (map (\<lambda>st. restore_line (rs_env st, f st)) RESTORE_STORES) @ nl) = Some (map (\<lambda>st. (rs_env st, f st)) RESTORE_STORES)"
proof -
  obtain a b where st: "RESTORE_STORES = [a, b]" by (simp add: RESTORE_STORES_def)
  show ?thesis using sourced_two [of "rs_env a" "rs_env b" "f a" "f b"] store_names by (simp add: st)
qed

text \<open>
  C18: on a volume a container can use every boot succeeds, and what a shell reads from the file it leaves is exactly
  a request its store was not last offered, whatever characters it holds, and the instruction to unset the variable otherwise; so a
  request that stays set is offered by one boot and by no later one.
\<close>

theorem restore_offered_once:
  assumes "clear_volume D (vl_disk w)" and "marker_state D w kvs" and "\<forall>k \<in> set ks. boot_data (snd k) = D"
  shows "restores ks w = offered (remembered kvs) (map snd ks)"
  using assms
proof (induction ks arbitrary: w kvs)
  case (Cons k ks)
  obtain K E where k: "k = (K, E)" by (cases k)
  then have E: "boot_data E = D" using Cons.prems(3) by simp
  obtain v where v: "provision K E w = (Inr (), v)" "ready D v" "lookup (marker_path D) (vl_disk v) = lookup (marker_path D) (vl_disk w)"
    using provision_run [OF Cons.prems(1) E, of K] by blast
  then have "marker_state D v kvs" using Cons.prems(2) by (simp add: marker_state_def)
  then obtain u kvs' where u: "decide_restore E v = (Inr (), u)" "ready D u" "marker_state D u kvs'"
    "content (restore_env_path D) u = Some (join nl (map (\<lambda>st. restore_line (rs_env st, due E (remembered kvs) st)) RESTORE_STORES) @ nl)"
    "\<forall>st \<in> set RESTORE_STORES. remembered kvs' st = now_remembered E (remembered kvs) st"
    using decide_run [OF v(2) _ E] by blast
  have "restores ks u = offered (remembered kvs') (map snd ks)" by (rule Cons.IH [OF ready_clear [OF u(2)] u(3)]) (use Cons.prems(3) in simp)
  also have "\<dots> = offered (now_remembered E (remembered kvs)) (map snd ks)" by (rule offered_cong) (use u(5) in simp)
  finally show ?case using v(1) u(1,4) by (simp add: k E first_boot_def bnd_run sourced_lines)
qed simp

definition fresh_volume :: boot_world where
  "fresh_volume = \<lparr>vl_disk = Dir 493 [(''data'', Dir 493 [])], bw_drawn = 0\<rparr>"

lemma fresh_clear: "clear_volume [''data''] (vl_disk fresh_volume)"
  unfolding clear_volume_def
proof
  show "\<forall>f \<in> set (data_files [''data'']). file_or_none (vl_disk fresh_volume) f" by code_simp
  have "list_all (\<lambda>d. list_all (free (vl_disk fresh_volume)) (prefixes d)) (data_dirs [''data''])" by code_simp
  then show "\<forall>d \<in> set (data_dirs [''data'']). \<forall>q. prefix q d \<longrightarrow> free (vl_disk fresh_volume) q" by (simp add: list_all_iff)
qed

theorem restore_offered_once_witness:
  "restores (replicate 2 (plain_entropy, plain_boot [(''ENRAHITU_RESTORE_APP'', ''file:it's.sqlite'')])) fresh_volume =
     [Some [(''ENRAHITU_RESTORE_RAUTHY'', None), (''ENRAHITU_RESTORE_APP'', Some ''file:it's.sqlite'')],
      Some [(''ENRAHITU_RESTORE_RAUTHY'', None), (''ENRAHITU_RESTORE_APP'', None)]]"
proof -
  let ?ks = "replicate 2 (plain_entropy, plain_boot [(''ENRAHITU_RESTORE_APP'', ''file:it's.sqlite'')])"
  have "marker_state [''data''] fresh_volume []" by (simp add: marker_state_def fresh_volume_def marker_path_def own_of_def)
  moreover have "\<forall>k \<in> set ?ks. boot_data (snd k) = [''data'']" by (simp add: numeral_2_eq_2) code_simp
  ultimately have "restores ?ks fresh_volume = offered (remembered []) (map snd ?ks)" by (rule restore_offered_once [OF fresh_clear])
  also have "\<dots> = [Some [(''ENRAHITU_RESTORE_RAUTHY'', None), (''ENRAHITU_RESTORE_APP'', Some ''file:it's.sqlite'')],
      Some [(''ENRAHITU_RESTORE_RAUTHY'', None), (''ENRAHITU_RESTORE_APP'', None)]]" by code_simp
  finally show ?thesis .
qed

end
